(* ===== verification/Prelude.thy ===== *)
theory Prelude
  imports Main "HOL-Library.Sublist" "HOL-Library.Char_ord" "HOL-Library.List_Lexorder"
    "HOL-Library.Code_Target_Nat"
begin

text \<open>
  Shared vocabulary of the CloudQue development: the named theorem collections, the error
  values of the Go code, and the parts of the Go standard library that the modelled code
  calls (strconv, strings), with the lemmas about them that several components need.

  A Go string is a sequence of bytes, and so is a HOL string (a list of 8 bit characters);
  text inside the model is therefore the byte sequence that the program handles.
\<close>

section \<open>Collections\<close>

named_theorems golib \<open>facts about the modelled part of the Go standard library\<close>
named_theorems keeps \<open>operations that keep a component's invariant\<close>

section \<open>Errors\<close>

text \<open>
  Error values. The program distinguishes the sentinel errors of its stores, business errors
  that carry a code of pkg/errors/code.go, errors built by fmt.Errorf, and wrapped errors.
  Message texts only reach the user, so an fmt.Errorf error is a tag naming its origin.
\<close>

datatype error =
    DbError
  | RecordNotFound
  | DuplicateKey
  | RedisError
  | RedisNil
  | SshError
  | Errorf string
  | BizError int
  | Panic string

type_synonym 'a result = "error + 'a"

abbreviation Ok :: "'a \<Rightarrow> 'a result" where
  "Ok \<equiv> Inr"

abbreviation Err :: "error \<Rightarrow> 'a result" where
  "Err \<equiv> Inl"

text \<open>The codes of pkg/errors/code.go that the modelled code returns.\<close>

definition CodeBadRequest :: int where "CodeBadRequest = 400"

definition CodeUnauthorized :: int where "CodeUnauthorized = 401"

definition CodeForbidden :: int where "CodeForbidden = 403"

definition CodeNotFound :: int where "CodeNotFound = 404"

definition CodeInternalError :: int where "CodeInternalError = 500"

definition CodeUserNotFound :: int where "CodeUserNotFound = 1001"

definition CodeUserAlreadyExists :: int where "CodeUserAlreadyExists = 1002"

definition CodeInvalidCredentials :: int where "CodeInvalidCredentials = 1003"

definition CodeUserDisabled :: int where "CodeUserDisabled = 1004"

definition CodeInvalidCaptcha :: int where "CodeInvalidCaptcha = 1007"

definition CodeSSHCredentialsNotFound :: int where "CodeSSHCredentialsNotFound = 1008"

definition CodeInvalidParam :: int where "CodeInvalidParam = 2001"

definition CodeMissingParam :: int where "CodeMissingParam = 2002"

definition CodeParamFormatError :: int where "CodeParamFormatError = 2003"

definition CodeFileNotFound :: int where "CodeFileNotFound = 2004"

definition CodeFileExists :: int where "CodeFileExists = 2005"

definition CodeResourceNotFound :: int where "CodeResourceNotFound = 3001"

definition CodeResourceAlreadyExists :: int where "CodeResourceAlreadyExists = 3002"

definition CodeJobCannotCancel :: int where "CodeJobCannotCancel = 4003"

definition CodeSSHCommandExecutionFailed :: int where "CodeSSHCommandExecutionFailed = 4007"

definition is_ok :: "'a result \<Rightarrow> bool" where
  "is_ok r = (case r of Inl _ \<Rightarrow> False | Inr _ \<Rightarrow> True)"

lemma is_ok_simps [simp]: "is_ok (Ok v)" "\<not> is_ok (Err e)"
  by (simp_all add: is_ok_def)

lemma is_ok_iff: "is_ok r \<longleftrightarrow> (\<exists>v. r = Ok v)"
  by (cases r) auto

section \<open>strconv\<close>

text \<open>strconv.Itoa and strconv.Atoi on the 64 bit type int.\<close>

definition digit_char :: "nat \<Rightarrow> char" where
  "digit_char d = char_of (48 + d)"

definition is_digit :: "char \<Rightarrow> bool" where
  "is_digit c = (48 \<le> (of_char c :: nat) \<and> (of_char c :: nat) \<le> 57)"

definition digit_val :: "char \<Rightarrow> nat" where
  "digit_val c = of_char c - 48"

fun show_nat :: "nat \<Rightarrow> string" where
  "show_nat n = (if n < 10 then [digit_char n] else show_nat (n div 10) @ [digit_char (n mod 10)])"

declare show_nat.simps [simp del]

definition Itoa :: "int \<Rightarrow> string" where
  "Itoa i = (if i < 0 then CHR ''-'' # show_nat (nat (- i)) else show_nat (nat i))"

definition read_nat :: "string \<Rightarrow> nat" where
  "read_nat s = foldl (\<lambda>n c. 10 * n + digit_val c) 0 s"

definition int_min :: int where "int_min = - 9223372036854775808"
definition int_max :: int where "int_max = 9223372036854775807"

definition in_int :: "int \<Rightarrow> bool" where
  "in_int i = (int_min \<le> i \<and> i \<le> int_max)"

definition read_digits :: "string \<Rightarrow> nat option" where
  "read_digits s = (if s \<noteq> [] \<and> list_all is_digit s then Some (read_nat s) else None)"

definition Atoi :: "string \<Rightarrow> int option" where
  "Atoi s = (case (case s of
        c # cs \<Rightarrow> (if c = CHR ''-'' then map_option (\<lambda>n. - int n) (read_digits cs)
                   else if c = CHR ''+'' then map_option int (read_digits cs)
                   else map_option int (read_digits s))
      | [] \<Rightarrow> None) of
    None \<Rightarrow> None
  | Some i \<Rightarrow> (if in_int i then Some i else None))"

text \<open>Wrap-around of int, and integer division, which truncates towards zero.\<close>

definition wrap64 :: "int \<Rightarrow> int" where
  "wrap64 i = (i + 9223372036854775808) mod 18446744073709551616 - 9223372036854775808"

definition go_div :: "int \<Rightarrow> int \<Rightarrow> int" where
  "go_div a b = sgn a * sgn b * (\<bar>a\<bar> div \<bar>b\<bar>)"

definition go_mod :: "int \<Rightarrow> int \<Rightarrow> int" where
  "go_mod a b = a - go_div a b * b"

lemma wrap64_id: "in_int i \<Longrightarrow> wrap64 i = i"
  by (simp add: wrap64_def in_int_def int_min_def int_max_def)

lemma in_int_wrap64 [simp]: "in_int (wrap64 i)"
  using pos_mod_bound [of 18446744073709551616 "i + 9223372036854775808"]
    pos_mod_sign [of 18446744073709551616 "i + 9223372036854775808"]
  by (simp add: wrap64_def in_int_def int_min_def int_max_def)

lemma go_div_nonneg: "0 \<le> a \<Longrightarrow> 0 < b \<Longrightarrow> go_div a b = a div b"
  by (cases "a = 0") (simp_all add: go_div_def)

lemma of_char_digit: "d < 10 \<Longrightarrow> (of_char (digit_char d) :: nat) = 48 + d"
  by (simp add: digit_char_def)

lemma is_digit_digit_char [simp]: "d < 10 \<Longrightarrow> is_digit (digit_char d)"
  by (simp add: is_digit_def of_char_digit)

lemma digit_val_digit_char [simp]: "d < 10 \<Longrightarrow> digit_val (digit_char d) = d"
  by (simp add: digit_val_def of_char_digit)

lemma show_nat_digits [golib]: "list_all is_digit (show_nat n)"
  by (induction n rule: show_nat.induct) (subst show_nat.simps, auto)

lemma show_nat_not_Nil [simp]: "show_nat n \<noteq> []"
  by (subst show_nat.simps) auto

lemma read_nat_snoc: "read_nat (s @ [c]) = 10 * read_nat s + digit_val c"
  by (simp add: read_nat_def)

lemma read_show_nat [golib]: "read_nat (show_nat n) = n"
proof (induction n rule: show_nat.induct)
  case (1 n)
  show ?case
  proof (cases "n < 10")
    case True
    then show ?thesis by (subst show_nat.simps) (simp add: read_nat_def)
  next
    case False
    then show ?thesis
      using 1 by (subst show_nat.simps) (simp add: read_nat_snoc)
  qed
qed

lemma show_nat_inject [simp]: "show_nat m = show_nat n \<longleftrightarrow> m = n"
  by (metis read_show_nat)

lemma show_nat_hd_digit: "show_nat n = c # cs \<Longrightarrow> is_digit c"
  using show_nat_digits [of n] by simp

lemma not_digit_punct [simp]:
  "\<not> is_digit CHR ''-''" "\<not> is_digit CHR ''+''" "\<not> is_digit CHR '',''" "\<not> is_digit CHR '':''"
  "\<not> is_digit CHR ''/''" "\<not> is_digit CHR '' ''"
  by (simp_all add: is_digit_def)

lemma Itoa_not_Nil [simp]: "Itoa i \<noteq> []"
  by (simp add: Itoa_def)

lemma Itoa_inject [simp]: "Itoa i = Itoa j \<longleftrightarrow> i = j"
proof
  assume eq: "Itoa i = Itoa j"
  have "CHR ''-'' # s \<noteq> show_nat n" for s n
    by (metis not_digit_punct(1) show_nat_hd_digit)
  with eq show "i = j"
    by (auto simp: Itoa_def split: if_splits) (metis)+
qed simp

lemma read_digits_show_nat [simp]: "read_digits (show_nat n) = Some n"
  by (simp add: read_digits_def show_nat_digits read_show_nat)

lemma Atoi_Itoa [golib]: "in_int i \<Longrightarrow> Atoi (Itoa i) = Some i"
proof (cases "i < 0")
  case False
  obtain c cs where c: "show_nat (nat i) = c # cs"
    by (cases "show_nat (nat i)") auto
  then have "is_digit c" by (rule show_nat_hd_digit)
  then have "c \<noteq> CHR ''-''" "c \<noteq> CHR ''+''" by auto
  moreover assume "in_int i"
  ultimately show ?thesis
    using False c read_digits_show_nat [of "nat i"] by (simp add: Atoi_def Itoa_def)
qed (simp add: Atoi_def Itoa_def)

section \<open>strings\<close>

text \<open>
  strings.TrimSpace and strings.Fields skip the white space of Unicode; the list holds the
  UTF-8 byte sequence of each such code point.
\<close>

definition space_seqs :: "string list" where
  "space_seqs = [
    [CHR 0x20], [CHR 0x09], [CHR 0x0A], [CHR 0x0B], [CHR 0x0C], [CHR 0x0D],
    [CHR 0xC2, CHR 0x85], [CHR 0xC2, CHR 0xA0], [CHR 0xE1, CHR 0x9A, CHR 0x80],
    [CHR 0xE2, CHR 0x80, CHR 0x80], [CHR 0xE2, CHR 0x80, CHR 0x81],
    [CHR 0xE2, CHR 0x80, CHR 0x82], [CHR 0xE2, CHR 0x80, CHR 0x83],
    [CHR 0xE2, CHR 0x80, CHR 0x84], [CHR 0xE2, CHR 0x80, CHR 0x85],
    [CHR 0xE2, CHR 0x80, CHR 0x86], [CHR 0xE2, CHR 0x80, CHR 0x87],
    [CHR 0xE2, CHR 0x80, CHR 0x88], [CHR 0xE2, CHR 0x80, CHR 0x89],
    [CHR 0xE2, CHR 0x80, CHR 0x8A], [CHR 0xE2, CHR 0x80, CHR 0xA8],
    [CHR 0xE2, CHR 0x80, CHR 0xA9], [CHR 0xE2, CHR 0x80, CHR 0xAF],
    [CHR 0xE2, CHR 0x81, CHR 0x9F], [CHR 0xE3, CHR 0x80, CHR 0x80]]"

definition match_any :: "string list \<Rightarrow> string \<Rightarrow> nat" where
  "match_any seqs s = (case find (\<lambda>p. prefix p s) seqs of None \<Rightarrow> 0 | Some p \<Rightarrow> length p)"

function drop_seqs :: "string list \<Rightarrow> string \<Rightarrow> string" where
  "drop_seqs seqs s = (let n = match_any seqs s in
     if n = 0 \<or> s = [] then s else drop_seqs seqs (drop n s))"
  by pat_completeness auto
termination by (relation "measure (length \<circ> snd)") auto

declare drop_seqs.simps [simp del]

definition TrimSpace :: "string \<Rightarrow> string" where
  "TrimSpace s = rev (drop_seqs (map rev space_seqs) (rev (drop_seqs space_seqs s)))"

text \<open>strings.Fields: the maximal runs of bytes that are not white space.\<close>

function fields_from :: "string \<Rightarrow> string \<Rightarrow> string list" where
  "fields_from cur s = (case s of
     [] \<Rightarrow> (if cur = [] then [] else [rev cur])
   | c # cs \<Rightarrow> (let n = match_any space_seqs s in
       if n = 0 then fields_from (c # cur) cs
       else (if cur = [] then [] else [rev cur]) @ fields_from [] (drop n s)))"
  by pat_completeness auto
termination by (relation "measure (length \<circ> snd)") auto

declare fields_from.simps [simp del]

definition Fields :: "string \<Rightarrow> string list" where
  "Fields s = fields_from [] s"

text \<open>strings.Split with a one byte separator, strings.Join, strings.ReplaceAll of one byte.\<close>

fun Split :: "char \<Rightarrow> string \<Rightarrow> string list" where
  "Split d [] = [[]]"
| "Split d (c # cs) = (if c = d then [] # Split d cs
                       else (case Split d cs of p # ps \<Rightarrow> (c # p) # ps | [] \<Rightarrow> [[c]]))"

fun Join :: "string \<Rightarrow> string list \<Rightarrow> string" where
  "Join d [] = []"
| "Join d [p] = p"
| "Join d (p # q # ps) = p @ d @ Join d (q # ps)"

definition ReplaceByte :: "char \<Rightarrow> string \<Rightarrow> string \<Rightarrow> string" where
  "ReplaceByte c r s = concat (map (\<lambda>x. if x = c then r else [x]) s)"

definition HasPrefix :: "string \<Rightarrow> string \<Rightarrow> bool" where
  "HasPrefix s p = prefix p s"

definition HasSuffix :: "string \<Rightarrow> string \<Rightarrow> bool" where
  "HasSuffix s p = suffix p s"

definition TrimPrefix :: "string \<Rightarrow> string \<Rightarrow> string" where
  "TrimPrefix s p = (if prefix p s then drop (length p) s else s)"

definition Contains_str :: "string \<Rightarrow> string \<Rightarrow> bool" where
  "Contains_str s p = sublist p s"

lemma Split_not_Nil [simp]: "Split d s \<noteq> []"
  by (cases s) (auto split: list.splits)

lemma Split_free: "d \<notin> set s \<Longrightarrow> Split d s = [s]"
  by (induction s) auto

lemma Split_append_sep [golib]: "d \<notin> set p \<Longrightarrow> Split d (p @ d # s) = p # Split d s"
  by (induction p) auto

lemma Split_parts_free: "p \<in> set (Split d s) \<Longrightarrow> d \<notin> set p"
  by (induction s arbitrary: p) (auto split: if_splits list.splits)

lemma Join_Cons: "ps \<noteq> [] \<Longrightarrow> Join d (p # ps) = p @ d @ Join d ps"
  by (cases ps) auto

lemma Join_Split [golib]: "Join [d] (Split d s) = s"
proof (induction s)
  case (Cons c cs)
  obtain q qs where q: "Split d cs = q # qs" by (cases "Split d cs") auto
  show ?case
  proof (cases "qs = []")
    case True
    then show ?thesis using Cons q by (auto simp: Join_Cons)
  next
    case False
    then show ?thesis using Cons q by (auto simp: Join_Cons)
  qed
qed simp

lemma Split_Join [golib]:
  "ps \<noteq> [] \<Longrightarrow> \<forall>p \<in> set ps. d \<notin> set p \<Longrightarrow> Split d (Join [d] ps) = ps"
proof (induction ps)
  case (Cons p ps)
  then show ?case
    by (cases "ps = []") (auto simp: Join_Cons Split_free Split_append_sep)
qed simp

text \<open>Text without white space at either end, on which TrimSpace is the identity.\<close>

definition trimmed :: "string \<Rightarrow> bool" where
  "trimmed s = (match_any space_seqs s = 0 \<and> match_any (map rev space_seqs) (rev s) = 0)"

lemma match_any_hd:
  "list_all (\<lambda>p. p \<noteq> [] \<and> hd p \<noteq> c) seqs \<Longrightarrow> match_any seqs (c # s) = 0"
  by (induction seqs) (auto simp: match_any_def neq_Nil_conv)

lemma space_seqs_no_digit:
  "list_all (\<lambda>p. p \<noteq> [] \<and> \<not> is_digit (hd p)) space_seqs"
  "list_all (\<lambda>p. p \<noteq> [] \<and> \<not> is_digit (hd p)) (map rev space_seqs)"
  "list_all (\<lambda>p. p \<noteq> [] \<and> hd p \<noteq> CHR ''-'') space_seqs"
  by code_simp+

lemma match_any_digit:
  "is_digit c \<Longrightarrow> match_any space_seqs (c # s) = 0"
  "is_digit c \<Longrightarrow> match_any (map rev space_seqs) (c # s) = 0"
  using space_seqs_no_digit by (auto intro!: match_any_hd simp: list_all_iff)

lemma match_any_minus: "match_any space_seqs (CHR ''-'' # s) = 0"
  using space_seqs_no_digit(3) by (rule match_any_hd)

lemma match_any_blank: "match_any space_seqs (CHR '' '' # s) = 1"
  by (simp add: match_any_def space_seqs_def)

lemma match_any_newline: "match_any (map rev space_seqs) (CHR 0x0A # s) = 1"
  by (simp add: match_any_def space_seqs_def)

lemma drop_seqs_0: "match_any seqs s = 0 \<Longrightarrow> drop_seqs seqs s = s"
  by (simp add: drop_seqs.simps)

lemma drop_seqs_1: "match_any seqs (c # s) = 1 \<Longrightarrow> drop_seqs seqs (c # s) = drop_seqs seqs s"
  by (subst drop_seqs.simps) simp

lemma TrimSpace_trimmed [golib]: "trimmed s \<Longrightarrow> TrimSpace s = s"
  by (simp add: trimmed_def TrimSpace_def drop_seqs_0)

lemma TrimSpace_blank [golib]: "TrimSpace (CHR '' '' # s) = TrimSpace s"
  by (simp add: TrimSpace_def drop_seqs_1 match_any_blank)

lemma TrimSpace_newline_end:
  "match_any space_seqs (s @ [CHR 0x0A]) = 0 \<Longrightarrow> match_any (map rev space_seqs) (rev s) = 0 \<Longrightarrow>
   TrimSpace (s @ [CHR 0x0A]) = s"
  by (simp add: TrimSpace_def drop_seqs_1 drop_seqs_0 match_any_newline)

lemma show_nat_last_digit: "\<exists>s c. show_nat n = s @ [c] \<and> is_digit c"
  using show_nat_digits [of n] by (cases "show_nat n" rule: rev_cases) auto

lemma Itoa_ends:
  "match_any space_seqs (Itoa i @ s) = 0"
  "match_any (map rev space_seqs) (rev (s @ Itoa i)) = 0"
proof -
  have "\<exists>u c. Itoa i = u @ [c] \<and> is_digit c"
    unfolding Itoa_def by (metis append_Cons show_nat_last_digit)
  then show "match_any (map rev space_seqs) (rev (s @ Itoa i)) = 0"
    by (auto simp: match_any_digit)
  obtain d v where "show_nat (nat i) = d # v" by (cases "show_nat (nat i)") auto
  then show "match_any space_seqs (Itoa i @ s) = 0"
    using show_nat_hd_digit [of "nat i" d v]
    by (simp add: Itoa_def match_any_minus match_any_digit)
qed

lemma trimmed_Itoa [simp]: "trimmed (Itoa i)"
  using Itoa_ends(1) [of i "[]"] Itoa_ends(2) [of "[]" i] by (simp add: trimmed_def)

lemma set_show_nat: "c \<in> set (show_nat n) \<Longrightarrow> is_digit c"
  using show_nat_digits [of n] by (simp add: list_all_iff)

lemma set_Itoa: "c \<in> set (Itoa i) \<Longrightarrow> is_digit c \<or> c = CHR ''-''"
  by (auto simp: Itoa_def dest: set_show_nat split: if_splits)

section \<open>Queries\<close>

text \<open>
  LIMIT and OFFSET as the query builder writes them: a negative limit and an offset that is
  not positive are left out.
\<close>

definition limit_offset :: "int \<Rightarrow> int \<Rightarrow> 'a list \<Rightarrow> 'a list" where
  "limit_offset lim off xs = (let ys = drop (nat off) xs in if lim < 0 then ys else take (nat lim) ys)"

section \<open>Lists\<close>

text \<open>The pages 1 to \<open>m\<close> of size \<open>n\<close> one after the other.\<close>

lemma pages_concat:
  assumes "0 < n"
  shows "concat (map (\<lambda>k. take n (drop ((k - 1) * n) xs)) [1..<m + 1]) = take (m * n) xs"
proof (induction m)
  case (Suc m)
  have "take (Suc m * n) xs = take (m * n) xs @ take n (drop (m * n) xs)"
    using take_add [of "m * n" n xs] by (simp add: add.commute)
  then show ?case using Suc by simp
qed simp

lemma distinct_length_filter_eq:
  "distinct ids \<Longrightarrow> set ids \<subseteq> S \<Longrightarrow> length (filter (\<lambda>i. i \<in> S) ids) = length ids"
  by (induction ids) auto

lemma card_Int_eq_length_iff:
  "finite A \<Longrightarrow> card (A \<inter> set xs) = length xs \<longleftrightarrow> distinct xs \<and> set xs \<subseteq> A"
proof
  assume fin: "finite A" and eq: "card (A \<inter> set xs) = length xs"
  have "card (A \<inter> set xs) \<le> card (set xs)" by (simp add: card_mono)
  then have "card (set xs) = length xs" using eq card_length [of xs] by simp
  then have "distinct xs" by (simp add: card_distinct)
  moreover have "A \<inter> set xs = set xs"
    using eq \<open>card (set xs) = length xs\<close> by (intro card_subset_eq) auto
  ultimately show "distinct xs \<and> set xs \<subseteq> A" by auto
next
  assume "distinct xs \<and> set xs \<subseteq> A"
  then show "card (A \<inter> set xs) = length xs"
    by (simp add: Int_absorb1 distinct_card)
qed

lemma insort_key_split:
  "\<forall>x \<in> set xs. f x < f a \<Longrightarrow> \<forall>y \<in> set ys. f a \<le> f y \<Longrightarrow>
   insort_key f a (xs @ ys) = xs @ a # ys"
proof (induction xs)
  case Nil
  then show ?case by (cases ys) auto
qed auto

lemma map_insort_key: "map h (insort_key (\<lambda>y. f (h y)) x xs) = insort_key f (h x) (map h xs)"
  by (induction xs) auto

lemma map_sort_key: "map h (sort_key (\<lambda>y. f (h y)) xs) = sort_key f (map h xs)"
  by (induction xs) (auto simp: map_insort_key)

lemma sorted_filter_split:
  "sorted (map f xs) \<Longrightarrow> filter (\<lambda>y. f y \<le> c) xs @ filter (\<lambda>y. c < f y) xs = xs"
proof (induction xs)
  case (Cons x xs)
  show ?case
  proof (cases "f x \<le> c")
    case False
    then have "filter (\<lambda>y. f y \<le> c) xs = []" "filter (\<lambda>y. c < f y) xs = xs"
      using Cons.prems by (auto simp: filter_empty_conv filter_id_conv)
    then show ?thesis using False by simp
  qed (use Cons in auto)
qed simp

text \<open>Appending an element to the input of a stable sort puts it after its equals.\<close>

lemma insort_swap_mid:
  assumes "\<forall>x \<in> set xs. f x \<le> f a" "\<forall>y \<in> set ys. f a < f y" "sorted (map f (xs @ ys))"
  shows "insort_key f b (xs @ a # ys) =
    filter (\<lambda>y. f y \<le> f a) (insort_key f b (xs @ ys)) @ a # filter (\<lambda>y. f a < f y) (insort_key f b (xs @ ys))"
  using assms
proof (induction xs)
  case Nil
  then show ?case
  proof (cases "f b \<le> f a")
    case True
    then have "insort_key f b ys = b # ys" using Nil by (cases ys) auto
    moreover have "filter (\<lambda>y. f y \<le> f a) ys = []" "filter (\<lambda>y. f a < f y) ys = ys"
      using Nil by (auto simp: filter_empty_conv filter_id_conv)
    ultimately show ?thesis using True by simp
  next
    case False
    then have "\<forall>y \<in> set (insort_key f b ys). f a < f y" using Nil by (simp add: set_insort_key)
    then have "filter (\<lambda>y. f y \<le> f a) (insort_key f b ys) = []"
      "filter (\<lambda>y. f a < f y) (insort_key f b ys) = insort_key f b ys"
      by (auto simp: filter_empty_conv filter_id_conv)
    then show ?thesis using False by simp
  qed
next
  case (Cons x xs)
  then show ?case
  proof (cases "f b \<le> f x")
    case True
    have "filter (\<lambda>y. f y \<le> f a) (xs @ ys) = xs" "filter (\<lambda>y. f a < f y) (xs @ ys) = ys"
      using Cons.prems by (auto simp: filter_empty_conv filter_id_conv)
    then show ?thesis using True Cons.prems by auto
  qed auto
qed

lemma sort_key_snoc:
  "sort_key f (xs @ [a]) =
     filter (\<lambda>y. f y \<le> f a) (sort_key f xs) @ a # filter (\<lambda>y. f a < f y) (sort_key f xs)"
proof (induction xs)
  case (Cons b xs)
  let ?s = "sort_key f xs"
  let ?l = "filter (\<lambda>y. f y \<le> f a) ?s" and ?r = "filter (\<lambda>y. f a < f y) ?s"
  have split: "?l @ ?r = ?s" by (rule sorted_filter_split) simp
  have "sort_key f ((b # xs) @ [a]) = insort_key f b (?l @ a # ?r)" using Cons by simp
  also have "\<dots> = filter (\<lambda>y. f y \<le> f a) (insort_key f b ?s) @ a # filter (\<lambda>y. f a < f y) (insort_key f b ?s)"
    by (subst insort_swap_mid) (simp_all only: split, auto)
  finally show ?case by simp
qed simp

section \<open>Keys of users\<close>

text \<open>
  The session tables are keyed by the text of a user id, a colon and a flag (the verb v of a
  boolean).
\<close>

definition show_bool :: "bool \<Rightarrow> string" where
  "show_bool b = (if b then ''true'' else ''false'')"

lemma colon_key_inject: "Itoa u @ CHR '':'' # a = Itoa v @ CHR '':'' # b \<longleftrightarrow> u = v \<and> a = b"
proof
  assume eq: "Itoa u @ CHR '':'' # a = Itoa v @ CHR '':'' # b"
  have colon: "CHR '':'' \<notin> set (Itoa w)" for w using set_Itoa [of "CHR '':''" w] by auto
  have "Itoa u # Split CHR '':'' a = Itoa v # Split CHR '':'' b"
    using Split_append_sep [OF colon, of u a] Split_append_sep [OF colon, of v b] eq by metis
  then show "u = v \<and> a = b" using eq by simp
qed simp

lemma show_bool_inject [simp]: "show_bool a = show_bool b \<longleftrightarrow> a = b"
  by (auto simp: show_bool_def)

end
