(* ===== verification/GpuPool.thy ===== *)
theory GpuPool
  imports Prelude "HOL-Library.AList"
begin

text \<open>
  The GPU card pool: internal/model/entity/gpu_card.go, internal/repository/gpu_repository.go,
  internal/service/gpu_service.go and pkg/utils/gpu_utils.go.

  The table gpu_cards is the list of its rows, the card cache the Redis hashes as HGETALL
  returns them (the empty list where the key does not exist). Every call of a store can fail:
  a query takes the flag \<open>err\<close> of its failure, a Redis pipeline the number of its commands
  that took effect. The interface of the pool towards the scheduler is the locale card_pool.
\<close>

section \<open>Entities\<close>

definition GpuStatusIdle :: int where "GpuStatusIdle = 0"
definition GpuStatusBusy :: int where "GpuStatusBusy = 1"

record gpu_card =
  gpu_ID :: int
  gpu_UUID :: string
  gpu_Name :: string
  gpu_Index :: int
  gpu_Status :: int
  gpu_CurrentJobID :: "int option"
  gpu_GpuType :: string
  gpu_Memory :: int

record GpuInfo =
  info_Index :: int
  info_UUID :: string
  info_Name :: string
  info_Type :: string
  info_Memory :: int

record GpuSpec =
  spec_ID :: int
  spec_Name :: string
  spec_Type :: string
  spec_Memory :: int
  spec_Gb :: int

type_synonym card_table = "gpu_card list"
type_synonym redis_hash = "string \<Rightarrow> (string \<times> string) list"

record gpu_state =
  cards :: card_table
  cache :: redis_hash

section \<open>Parsing nvidia-smi\<close>

text \<open>GetGpuInfo: one CSV line per card; the run error is a panic of the source.\<close>

definition parse_gpu_line :: "string \<Rightarrow> GpuInfo result" where
  "parse_gpu_line line = (let parts = Split CHR '','' line in
     if length parts < 4 then Err (Errorf ''fields'')
     else case Atoi (TrimSpace (parts ! 0)) of
       None \<Rightarrow> Err (Errorf ''index'')
     | Some index \<Rightarrow>
        (case Atoi (TrimSpace (parts ! 3)) of
           None \<Rightarrow> Err (Errorf ''memory'')
         | Some memory \<Rightarrow> Ok \<lparr> info_Index = index, info_UUID = TrimSpace (parts ! 1),
             info_Name = ''gpu-'' @ Itoa index, info_Type = TrimSpace (parts ! 2),
             info_Memory = memory \<rparr>))"

fun parse_gpu_lines :: "string list \<Rightarrow> GpuInfo list result" where
  "parse_gpu_lines [] = Ok []"
| "parse_gpu_lines (line # lines) =
     (if line = [] then parse_gpu_lines lines
      else case parse_gpu_line line of
        Inl e \<Rightarrow> Err e
      | Inr g \<Rightarrow> map_sum id (\<lambda>gs. g # gs) (parse_gpu_lines lines))"

definition GetGpuInfo :: "string option \<Rightarrow> GpuInfo list result" where
  "GetGpuInfo run = (case run of
     None \<Rightarrow> Err (Panic ''nvidia-smi'')
   | Some out \<Rightarrow> parse_gpu_lines (Split (CHR 0x0A) (TrimSpace out)))"

section \<open>The table gpu_cards\<close>

definition FindByUUID :: "bool \<Rightarrow> card_table \<Rightarrow> string \<Rightarrow> gpu_card result" where
  "FindByUUID err t uuid = (if err then Err DbError
     else case find (\<lambda>c. gpu_UUID c = uuid) t of None \<Rightarrow> Err RecordNotFound | Some c \<Rightarrow> Ok c)"

definition GetByIDs :: "bool \<Rightarrow> card_table \<Rightarrow> int list \<Rightarrow> gpu_card list result" where
  "GetByIDs err t ids = (if err then Err DbError else Ok (filter (\<lambda>c. gpu_ID c \<in> set ids) t))"

definition count_idle :: "card_table \<Rightarrow> int list \<Rightarrow> nat" where
  "count_idle t ids = length (filter (\<lambda>c. gpu_ID c \<in> set ids \<and> gpu_Status c = GpuStatusIdle) t)"

definition set_cards :: "card_table \<Rightarrow> int list \<Rightarrow> int \<Rightarrow> int option \<Rightarrow> card_table" where
  "set_cards t ids st j = map (\<lambda>c. if gpu_ID c \<in> set ids
     then c\<lparr> gpu_Status := st, gpu_CurrentJobID := j \<rparr> else c) t"

text \<open>A transaction: an error of either statement rolls back, so the table is unchanged.\<close>

definition repo_Acquire :: "bool \<Rightarrow> bool \<Rightarrow> card_table \<Rightarrow> int list \<Rightarrow> int \<Rightarrow> card_table result" where
  "repo_Acquire err_count err_update t cardIDs jobID =
     (if cardIDs = [] then Ok t
      else if err_count then Err DbError
      else if count_idle t cardIDs \<noteq> length cardIDs then Err (Errorf ''occupied'')
      else if err_update then Err DbError
      else Ok (set_cards t cardIDs GpuStatusBusy (Some jobID)))"

definition repo_CheckAvailable :: "bool \<Rightarrow> card_table \<Rightarrow> int list \<Rightarrow> bool result" where
  "repo_CheckAvailable err t cardIDs =
     (if cardIDs = [] then Ok True
      else if err then Err DbError
      else Ok (count_idle t cardIDs = length cardIDs))"

definition repo_Release :: "bool \<Rightarrow> card_table \<Rightarrow> int list \<Rightarrow> card_table result" where
  "repo_Release err t cardIDs =
     (if cardIDs = [] then Ok t
      else if err then Err DbError
      else Ok (set_cards t cardIDs GpuStatusIdle None))"

text \<open>
  SyncCards: INSERT ... ON DUPLICATE KEY UPDATE over the unique columns uuid and name. A
  card whose uuid is stored updates that row, unless the new name belongs to another row (a
  duplicate key error for the whole statement); otherwise a stored name updates the row of
  that name; otherwise the card is inserted under the id the table assigns, the parameter
  \<open>fresh\<close>.
\<close>

definition assign_columns :: "gpu_card \<Rightarrow> gpu_card \<Rightarrow> gpu_card" where
  "assign_columns new c = c\<lparr> gpu_Name := gpu_Name new, gpu_Index := gpu_Index new,
     gpu_GpuType := gpu_GpuType new, gpu_Memory := gpu_Memory new \<rparr>"

definition upsert_card :: "(card_table \<Rightarrow> int) \<Rightarrow> card_table \<Rightarrow> gpu_card \<Rightarrow> card_table option" where
  "upsert_card fresh t new =
     (if gpu_UUID new \<in> gpu_UUID ` set t then
        (if (\<exists>c \<in> set t. gpu_UUID c \<noteq> gpu_UUID new \<and> gpu_Name c = gpu_Name new) then None
         else Some (map (\<lambda>c. if gpu_UUID c = gpu_UUID new then assign_columns new c else c) t))
      else if gpu_Name new \<in> gpu_Name ` set t then
        Some (map (\<lambda>c. if gpu_Name c = gpu_Name new then assign_columns new c else c) t)
      else Some (t @ [new\<lparr> gpu_ID := fresh t \<rparr>]))"

fun upsert_cards :: "(card_table \<Rightarrow> int) \<Rightarrow> card_table \<Rightarrow> gpu_card list \<Rightarrow> card_table option" where
  "upsert_cards fresh t [] = Some t"
| "upsert_cards fresh t (c # cs) =
     (case upsert_card fresh t c of None \<Rightarrow> None | Some t' \<Rightarrow> upsert_cards fresh t' cs)"

definition SyncCards :: "(card_table \<Rightarrow> int) \<Rightarrow> bool \<Rightarrow> card_table \<Rightarrow> gpu_card list \<Rightarrow> card_table result" where
  "SyncCards fresh err t new =
     (if new = [] then Ok t
      else if err then Err DbError
      else case upsert_cards fresh t new of None \<Rightarrow> Err DbError | Some t' \<Rightarrow> Ok t')"

definition repo_GetGpus :: "bool \<Rightarrow> bool \<Rightarrow> card_table \<Rightarrow> (GpuSpec list \<times> int) result" where
  "repo_GetGpus err_list err_count t =
     (if err_list \<or> err_count then Err DbError
      else Ok (map (\<lambda>c. \<lparr> spec_ID = gpu_ID c, spec_Name = gpu_Name c, spec_Type = gpu_GpuType c,
                          spec_Memory = gpu_Memory c, spec_Gb = 0 \<rparr>) (sort_key gpu_ID t),
               int (length t)))"

definition GetAllCards :: "bool \<Rightarrow> card_table \<Rightarrow> gpu_card list result" where
  "GetAllCards err t = (if err then Err DbError else Ok (sort_key gpu_Index t))"

section \<open>The card cache\<close>

definition gpu_key :: "int \<Rightarrow> string" where
  "gpu_key i = ''gpu:status:'' @ Itoa i"

definition HSet :: "redis_hash \<Rightarrow> string \<Rightarrow> string \<Rightarrow> string \<Rightarrow> redis_hash" where
  "HSet h k f v = h(k := AList.update f v (h k))"

text \<open>
  The pipelines of SetBusy and SetIdle: the first n of the two HSET commands and the EXPIRE
  take effect; the call reports an error when n < 3. EXPIRE renews the life time of the key,
  whose end is the environment step \<open>expire_key\<close>.
\<close>

definition SetBusy :: "nat \<Rightarrow> redis_hash \<Rightarrow> int \<Rightarrow> int \<Rightarrow> redis_hash" where
  "SetBusy n h gpuID jobID = foldl (\<lambda>g (f, v). HSet g (gpu_key gpuID) f v) h
     (take n [(''status'', Itoa GpuStatusBusy), (''job_id'', Itoa jobID)])"

definition SetIdle :: "nat \<Rightarrow> redis_hash \<Rightarrow> int \<Rightarrow> redis_hash" where
  "SetIdle n h gpuID = foldl (\<lambda>g (f, v). HSet g (gpu_key gpuID) f v) h
     (take n [(''status'', Itoa GpuStatusIdle), (''job_id'', [])])"

definition expire_key :: "redis_hash \<Rightarrow> int \<Rightarrow> redis_hash" where
  "expire_key h gpuID = h(gpu_key gpuID := [])"

fun scan_cards :: "(int \<Rightarrow> bool) \<Rightarrow> redis_hash \<Rightarrow> int list \<Rightarrow> bool result" where
  "scan_cards err h [] = Ok True"
| "scan_cards err h (i # ids) =
     (if err i then Err RedisError
      else if h (gpu_key i) = [] then Err RedisNil
      else if map_of (h (gpu_key i)) ''status'' \<noteq> Some (Itoa GpuStatusIdle) then Ok False
      else scan_cards err h ids)"

definition cache_CheckAvailable :: "bool \<Rightarrow> (int \<Rightarrow> bool) \<Rightarrow> redis_hash \<Rightarrow> int list \<Rightarrow> bool result" where
  "cache_CheckAvailable err_exec err h cardIDs =
     (if cardIDs = [] then Ok True
      else if err_exec then Err RedisError
      else scan_cards err h cardIDs)"

section \<open>The service\<close>

definition card_of_info :: "GpuInfo \<Rightarrow> gpu_card" where
  "card_of_info g = \<lparr> gpu_ID = 0, gpu_UUID = info_UUID g, gpu_Name = info_Name g,
     gpu_Index = info_Index g, gpu_Status = GpuStatusIdle, gpu_CurrentJobID = None,
     gpu_GpuType = info_Type g, gpu_Memory = info_Memory g \<rparr>"

text \<open>The cache refresh at the end of SyncGpuCards, for one card of the sync.\<close>

definition refresh_cache :: "(string \<Rightarrow> bool) \<Rightarrow> (int \<Rightarrow> nat) \<Rightarrow> card_table \<Rightarrow> gpu_card \<Rightarrow> redis_hash \<Rightarrow> redis_hash" where
  "refresh_cache err_find n t new h = (case FindByUUID (err_find (gpu_UUID new)) t (gpu_UUID new) of
     Inl _ \<Rightarrow> h
   | Inr c \<Rightarrow> (if gpu_Status c = GpuStatusIdle then SetIdle (n (gpu_ID c)) h (gpu_ID c)
       else if gpu_Status c = GpuStatusBusy then
         (case gpu_CurrentJobID c of None \<Rightarrow> h | Some j \<Rightarrow> SetBusy (n (gpu_ID c)) h (gpu_ID c) j)
       else h))"

definition SyncGpuCards ::
  "(card_table \<Rightarrow> int) \<Rightarrow> string option \<Rightarrow> bool \<Rightarrow> (string \<Rightarrow> bool) \<Rightarrow> (int \<Rightarrow> nat) \<Rightarrow> gpu_state \<Rightarrow> gpu_state result" where
  "SyncGpuCards fresh smi err_sync err_find n s = (case GetGpuInfo smi of
     Inl (Panic p) \<Rightarrow> Err (Panic p)
   | Inl e \<Rightarrow> Err (Errorf ''gpu info'')
   | Inr gpus \<Rightarrow>
      (if gpus = [] then Ok s
       else case SyncCards fresh err_sync (cards s) (map card_of_info gpus) of
         Inl e \<Rightarrow> Err (Errorf ''sync'')
       | Inr t \<Rightarrow> Ok \<lparr> cards = t,
           cache = fold (refresh_cache err_find n t) (map card_of_info gpus) (cache s) \<rparr>))"

record avail_env =
  av_exec :: bool
  av_cmd :: "int \<Rightarrow> bool"
  av_db :: bool

definition CheckAvailable :: "avail_env \<Rightarrow> gpu_state \<Rightarrow> int list \<Rightarrow> bool result" where
  "CheckAvailable e s cardIDs =
     (case cache_CheckAvailable (av_exec e) (av_cmd e) (cache s) cardIDs of
        Inr False \<Rightarrow> Ok False
      | _ \<Rightarrow> repo_CheckAvailable (av_db e) (cards s) cardIDs)"

definition AcquireCards ::
  "bool \<Rightarrow> bool \<Rightarrow> (int \<Rightarrow> nat) \<Rightarrow> gpu_state \<Rightarrow> int list \<Rightarrow> int \<Rightarrow> gpu_state result" where
  "AcquireCards err_count err_update n s cardIDs jobID =
     (if cardIDs = [] then Err (Errorf ''no card'')
      else case repo_Acquire err_count err_update (cards s) cardIDs jobID of
        Inl e \<Rightarrow> Err e
      | Inr t \<Rightarrow> Ok \<lparr> cards = t, cache = foldl (\<lambda>h i. SetBusy (n i) h i jobID) (cache s) cardIDs \<rparr>)"

definition ReleaseCards :: "bool \<Rightarrow> (int \<Rightarrow> nat) \<Rightarrow> gpu_state \<Rightarrow> int list \<Rightarrow> gpu_state result" where
  "ReleaseCards err n s cardIDs =
     (if cardIDs = [] then Ok s
      else case repo_Release err (cards s) cardIDs of
        Inl e \<Rightarrow> Err (Errorf ''release'')
      | Inr t \<Rightarrow> Ok \<lparr> cards = t, cache = foldl (\<lambda>h i. SetIdle (n i) h i) (cache s) cardIDs \<rparr>)"

definition GetGpus :: "bool \<Rightarrow> bool \<Rightarrow> card_table \<Rightarrow> (GpuSpec list \<times> int) result" where
  "GetGpus err_list err_count t = (case repo_GetGpus err_list err_count t of
     Inl e \<Rightarrow> Err e
   | Inr (gpus, cnt) \<Rightarrow> Ok (map (\<lambda>g. g\<lparr> spec_Gb := go_div (spec_Memory g) 1024 \<rparr>) gpus, cnt))"

section \<open>The table invariant\<close>

definition card_ok :: "gpu_card \<Rightarrow> bool" where
  "card_ok c = (gpu_Status c = GpuStatusIdle \<and> gpu_CurrentJobID c = None \<or>
                gpu_Status c = GpuStatusBusy \<and> gpu_CurrentJobID c \<noteq> None)"

definition cards_ok :: "card_table \<Rightarrow> bool" where
  "cards_ok t = (distinct (map gpu_ID t) \<and> distinct (map gpu_UUID t) \<and> distinct (map gpu_Name t) \<and>
                 list_all card_ok t)"

definition holder :: "card_table \<Rightarrow> int \<Rightarrow> int option" where
  "holder t i = (case find (\<lambda>c. gpu_ID c = i) t of None \<Rightarrow> None | Some c \<Rightarrow> gpu_CurrentJobID c)"

definition known_ids :: "card_table \<Rightarrow> int set" where
  "known_ids t = gpu_ID ` set t"

definition idle_ids :: "card_table \<Rightarrow> int set" where
  "idle_ids t = gpu_ID ` {c \<in> set t. gpu_Status c = GpuStatusIdle}"

lemma status_distinct [simp]: "GpuStatusIdle \<noteq> GpuStatusBusy" "GpuStatusBusy \<noteq> GpuStatusIdle"
  by (simp_all add: GpuStatusIdle_def GpuStatusBusy_def)

lemma card_ok_idle_iff: "card_ok c \<Longrightarrow> gpu_Status c = GpuStatusIdle \<longleftrightarrow> gpu_CurrentJobID c = None"
  by (auto simp: card_ok_def)

lemma find_ID_eq:
  "distinct (map gpu_ID t) \<Longrightarrow> c \<in> set t \<Longrightarrow> find (\<lambda>d. gpu_ID d = gpu_ID c) t = Some c"
  by (induction t) (auto simp: image_iff)

lemma holder_eq: "distinct (map gpu_ID t) \<Longrightarrow> c \<in> set t \<Longrightarrow> holder t (gpu_ID c) = gpu_CurrentJobID c"
  by (simp add: holder_def find_ID_eq)

lemma idle_ids_iff:
  assumes "cards_ok t"
  shows "i \<in> idle_ids t \<longleftrightarrow> i \<in> known_ids t \<and> holder t i = None"
proof -
  have d: "distinct (map gpu_ID t)" and ok: "list_all card_ok t"
    using assms by (auto simp: cards_ok_def)
  show ?thesis
    using ok by (auto simp: idle_ids_def known_ids_def image_iff holder_eq [OF d]
        card_ok_idle_iff list_all_iff intro!: bexI)
qed

lemma count_idle_card:
  assumes "distinct (map gpu_ID t)"
  shows "count_idle t ids = card (idle_ids t \<inter> set ids)"
proof -
  let ?f = "filter (\<lambda>c. gpu_ID c \<in> set ids \<and> gpu_Status c = GpuStatusIdle) t"
  have "distinct (map gpu_ID ?f)" using assms by (rule distinct_map_filter)
  then have "card (set (map gpu_ID ?f)) = length ?f"
    using distinct_card by fastforce
  moreover have "set (map gpu_ID ?f) = idle_ids t \<inter> set ids"
    by (auto simp: idle_ids_def)
  ultimately show ?thesis by (simp add: count_idle_def)
qed

lemma count_idle_full_iff:
  "distinct (map gpu_ID t) \<Longrightarrow>
   count_idle t ids = length ids \<longleftrightarrow> distinct ids \<and> set ids \<subseteq> idle_ids t"
  by (simp add: count_idle_card card_Int_eq_length_iff idle_ids_def)

lemma map_set_cards [simp]:
  "map gpu_ID (set_cards t ids st j) = map gpu_ID t"
  "map gpu_UUID (set_cards t ids st j) = map gpu_UUID t"
  "map gpu_Name (set_cards t ids st j) = map gpu_Name t"
  by (simp_all add: set_cards_def comp_def if_distrib cong: if_cong)

lemma known_set_cards [simp]: "known_ids (set_cards t ids st j) = known_ids t"
  by (metis known_ids_def list.set_map map_set_cards(1))

lemma cards_ok_set_cards:
  "cards_ok t \<Longrightarrow> (st = GpuStatusIdle \<and> j = None \<or> st = GpuStatusBusy \<and> j \<noteq> None) \<Longrightarrow>
   cards_ok (set_cards t ids st j)"
  unfolding cards_ok_def map_set_cards
  by (auto simp: set_cards_def list_all_iff card_ok_def)

lemma holder_set_cards:
  "holder (set_cards t ids st j) i =
     (if i \<in> set ids \<and> i \<in> known_ids t then j else holder t i)"
  by (induction t) (auto simp: holder_def set_cards_def known_ids_def)

section \<open>The pool as the scheduler sees it\<close>

text \<open>
  A card pool: cards have at most one holder, acquiring takes free cards only, and all of
  them; releasing frees the named cards. The environment argument covers the failures of the
  stores behind the pool.
\<close>

locale card_pool =
  fixes pool_ok :: "'s \<Rightarrow> bool"
    and held_by :: "'s \<Rightarrow> int \<Rightarrow> int option"
    and acquire :: "'e \<Rightarrow> 's \<Rightarrow> int list \<Rightarrow> int \<Rightarrow> 's option"
    and release :: "'f \<Rightarrow> 's \<Rightarrow> int list \<Rightarrow> 's option"
  assumes acquire_keeps: "pool_ok s \<Longrightarrow> acquire e s ids j = Some s' \<Longrightarrow> pool_ok s'"
    and release_keeps: "pool_ok s \<Longrightarrow> release f s ids = Some s' \<Longrightarrow> pool_ok s'"
    and acquire_free: "pool_ok s \<Longrightarrow> acquire e s ids j = Some s' \<Longrightarrow> i \<in> set ids \<Longrightarrow> held_by s i = None"
    and acquire_holds: "pool_ok s \<Longrightarrow> acquire e s ids j = Some s' \<Longrightarrow>
      held_by s' i = (if i \<in> set ids then Some j else held_by s i)"
    and release_frees: "pool_ok s \<Longrightarrow> release f s ids = Some s' \<Longrightarrow>
      held_by s' i = (if i \<in> set ids then None else held_by s i)"
begin

text \<open>A sequence of requests of several clients, in the order the pool serves them.\<close>

fun serve :: "('e \<times> int list \<times> int + 'f \<times> int list) list \<Rightarrow> 's \<Rightarrow> 's" where
  "serve [] s = s"
| "serve (Inl (e, ids, j) # rs) s =
     serve rs (case acquire e s ids j of None \<Rightarrow> s | Some s' \<Rightarrow> s')"
| "serve (Inr (f, ids) # rs) s =
     serve rs (case release f s ids of None \<Rightarrow> s | Some s' \<Rightarrow> s')"

definition releases :: "('e \<times> int list \<times> int + 'f \<times> int list) list \<Rightarrow> int set" where
  "releases rs = (\<Union>r \<in> set rs. case r of Inl _ \<Rightarrow> {} | Inr (f, ids) \<Rightarrow> set ids)"

lemma serve_keeps: "pool_ok s \<Longrightarrow> pool_ok (serve rs s)"
  by (induction rs s rule: serve.induct)
    (auto split: option.splits dest: acquire_keeps release_keeps)

lemma held_until_released:
  "pool_ok s \<Longrightarrow> held_by s i = Some j \<Longrightarrow> i \<notin> releases rs \<Longrightarrow> held_by (serve rs s) i = Some j"
proof (induction rs s rule: serve.induct)
  case (2 e ids k rs s)
  show ?case
  proof (cases "acquire e s ids k")
    case None
    with 2 show ?thesis by (simp add: releases_def)
  next
    case (Some s')
    then have "i \<notin> set ids" using 2 acquire_free by fastforce
    then show ?thesis
      using 2 Some acquire_holds [of s] acquire_keeps [of s] by (simp add: releases_def)
  qed
next
  case (3 f ids rs s)
  then show ?case
    by (cases "release f s ids")
      (auto simp: releases_def release_frees [of s] intro: release_keeps)
qed simp

lemma no_second_holder:
  assumes "pool_ok s" "acquire e s ids j = Some s'" "i \<in> set ids" "i \<notin> releases rs" "i \<in> set ids'"
  shows "acquire e' (serve rs s') ids' j' = None"
proof (rule ccontr)
  assume "acquire e' (serve rs s') ids' j' \<noteq> None"
  then obtain s'' where s'': "acquire e' (serve rs s') ids' j' = Some s''" by auto
  have ok: "pool_ok s'" using assms acquire_keeps by blast
  have "held_by (serve rs s') i = Some j"
    using assms ok by (intro held_until_released) (simp_all add: acquire_holds [of s])
  moreover have "held_by (serve rs s') i = None"
    using s'' assms acquire_free serve_keeps [OF ok] by blast
  ultimately show False by simp
qed

end

definition acquire_op :: "bool \<times> bool \<times> (int \<Rightarrow> nat) \<Rightarrow> gpu_state \<Rightarrow> int list \<Rightarrow> int \<Rightarrow> gpu_state option" where
  "acquire_op e s ids j = (case e of (ec, eu, n) \<Rightarrow>
     (case AcquireCards ec eu n s ids j of Inl _ \<Rightarrow> None | Inr s' \<Rightarrow> Some s'))"

definition release_op :: "bool \<times> (int \<Rightarrow> nat) \<Rightarrow> gpu_state \<Rightarrow> int list \<Rightarrow> gpu_state option" where
  "release_op f s ids = (case f of (er, n) \<Rightarrow>
     (case ReleaseCards er n s ids of Inl _ \<Rightarrow> None | Inr s' \<Rightarrow> Some s'))"

lemma AcquireCards_Ok_iff:
  assumes "cards_ok (cards s)"
  shows "AcquireCards ec eu n s ids j = Ok s' \<longleftrightarrow>
    ids \<noteq> [] \<and> \<not> ec \<and> \<not> eu \<and> distinct ids \<and> set ids \<subseteq> idle_ids (cards s) \<and>
    s' = \<lparr> cards = set_cards (cards s) ids GpuStatusBusy (Some j),
           cache = foldl (\<lambda>h i. SetBusy (n i) h i j) (cache s) ids \<rparr>"
  using assms
  by (auto simp: AcquireCards_def repo_Acquire_def count_idle_full_iff cards_ok_def)

lemma ReleaseCards_Ok_iff:
  "ReleaseCards er n s ids = Ok s' \<longleftrightarrow>
    ids = [] \<and> s' = s \<or>
    ids \<noteq> [] \<and> \<not> er \<and> s' = \<lparr> cards = set_cards (cards s) ids GpuStatusIdle None,
                              cache = foldl (\<lambda>h i. SetIdle (n i) h i) (cache s) ids \<rparr>"
  by (auto simp: ReleaseCards_def repo_Release_def)

lemma holder_unknown: "i \<notin> known_ids t \<Longrightarrow> holder t i = None"
proof -
  assume "i \<notin> known_ids t"
  then have "find (\<lambda>c. gpu_ID c = i) t = None"
    by (auto simp: known_ids_def find_None_iff)
  then show ?thesis by (simp add: holder_def)
qed

lemma acquire_op_Some_iff:
  "acquire_op (ec, eu, n) s ids j = Some s' \<longleftrightarrow> AcquireCards ec eu n s ids j = Ok s'"
  by (auto simp: acquire_op_def split: sum.splits)

lemma release_op_Some_iff:
  "release_op (er, n) s ids = Some s' \<longleftrightarrow> ReleaseCards er n s ids = Ok s'"
  by (auto simp: release_op_def split: sum.splits)

interpretation gpu: card_pool "\<lambda>s. cards_ok (cards s)" "\<lambda>s. holder (cards s)" acquire_op release_op
proof (unfold_locales, goal_cases)
  case (1 s e ids j s')
  then show ?case
    by (cases e) (auto simp: acquire_op_Some_iff AcquireCards_Ok_iff intro: cards_ok_set_cards)
next
  case (2 s f ids s')
  then show ?case
    by (cases f) (auto simp: release_op_Some_iff ReleaseCards_Ok_iff intro: cards_ok_set_cards)
next
  case (3 s e ids j s' i)
  then show ?case
    by (cases e) (auto simp: acquire_op_Some_iff AcquireCards_Ok_iff idle_ids_iff)
next
  case (4 s e ids j s' i)
  then show ?case
    by (cases e) (auto simp: acquire_op_Some_iff AcquireCards_Ok_iff idle_ids_iff holder_set_cards)
next
  case (5 s f ids s' i)
  then show ?case
    by (cases f) (auto simp: release_op_Some_iff ReleaseCards_Ok_iff holder_set_cards holder_unknown)
qed

section \<open>Cache coherence\<close>

abbreviation cached_status :: "redis_hash \<Rightarrow> int \<Rightarrow> string option" where
  "cached_status h i \<equiv> map_of (h (gpu_key i)) ''status''"

definition coherent :: "gpu_state \<Rightarrow> bool" where
  "coherent s = list_all (\<lambda>c. cache s (gpu_key (gpu_ID c)) = [] \<or>
     cached_status (cache s) (gpu_ID c) = Some (Itoa (gpu_Status c))) (cards s)"

lemma gpu_key_inject [simp]: "gpu_key i = gpu_key j \<longleftrightarrow> i = j"
  by (simp add: gpu_key_def)

lemma take_two_nonzero: "0 < n \<Longrightarrow> take n [x, y] = [x] \<or> take n [x, y] = [x, y]"
  by (cases n; cases "n - 1") auto

lemma SetBusy_other: "k \<noteq> i \<Longrightarrow> SetBusy n h i j (gpu_key k) = h (gpu_key k)"
  by (cases n; cases "n - 1") (auto simp: SetBusy_def HSet_def)

lemma SetIdle_other: "k \<noteq> i \<Longrightarrow> SetIdle n h i (gpu_key k) = h (gpu_key k)"
  by (cases n; cases "n - 1") (auto simp: SetIdle_def HSet_def)

lemma SetBusy_status: "0 < n \<Longrightarrow> cached_status (SetBusy n h i j) i = Some (Itoa GpuStatusBusy)"
  using take_two_nonzero [of n "(''status'', Itoa GpuStatusBusy)" "(''job_id'', Itoa j)"]
  by (auto simp: SetBusy_def HSet_def update_conv)

lemma SetIdle_status: "0 < n \<Longrightarrow> cached_status (SetIdle n h i) i = Some (Itoa GpuStatusIdle)"
  using take_two_nonzero [of n "(''status'', Itoa GpuStatusIdle)" "(''job_id'', [])"]
  by (auto simp: SetIdle_def HSet_def update_conv)

lemma foldl_cache_other:
  assumes "\<And>h i k. k \<noteq> i \<Longrightarrow> w h i (gpu_key k) = h (gpu_key k)"
  shows "k \<notin> set ids \<Longrightarrow> foldl w h ids (gpu_key k) = h (gpu_key k)"
  by (induction ids arbitrary: h) (auto simp: assms)

lemma foldl_cache_status:
  assumes "\<And>h i k. k \<noteq> i \<Longrightarrow> w h i (gpu_key k) = h (gpu_key k)"
    and "\<And>h i. i \<in> set ids \<Longrightarrow> cached_status (w h i) i = v"
  shows "k \<in> set ids \<Longrightarrow> cached_status (foldl w h ids) k = v"
  using assms(2)
proof (induction ids arbitrary: h)
  case (Cons a ids)
  show ?case
  proof (cases "k \<in> set ids")
    case True
    then show ?thesis using Cons by simp
  next
    case False
    then show ?thesis using Cons foldl_cache_other [of w k ids "w h a"] assms(1) by simp
  qed
qed simp

lemma coherent_update:
  assumes "coherent s"
    and "\<And>k. k \<in> set ids \<Longrightarrow> cached_status h k = Some (Itoa st)"
    and "\<And>k. k \<notin> set ids \<Longrightarrow> h (gpu_key k) = cache s (gpu_key k)"
  shows "coherent \<lparr> cards = set_cards (cards s) ids st j, cache = h \<rparr>"
  using assms by (auto simp: coherent_def set_cards_def list_all_iff)

lemma coherent_Acquire:
  assumes "cards_ok (cards s)" "coherent s" "\<forall>i \<in> set ids. 0 < n i"
    and "AcquireCards ec eu n s ids j = Ok s'"
  shows "coherent s'"
  using assms
  by (auto simp: AcquireCards_Ok_iff SetBusy_other SetBusy_status
      intro!: coherent_update foldl_cache_status foldl_cache_other)

lemma coherent_Release:
  assumes "coherent s" "\<forall>i \<in> set ids. 0 < n i" "ReleaseCards er n s ids = Ok s'"
  shows "coherent s'"
  using assms
  by (auto simp: ReleaseCards_Ok_iff SetIdle_other SetIdle_status
      intro!: coherent_update foldl_cache_status foldl_cache_other)

lemma coherent_expire: "coherent s \<Longrightarrow> coherent (s\<lparr> cache := expire_key (cache s) i \<rparr>)"
  by (auto simp: coherent_def expire_key_def list_all_iff)

lemma scan_cards_FalseD:
  "scan_cards err h ids = Ok False \<Longrightarrow>
   \<exists>i \<in> set ids. h (gpu_key i) \<noteq> [] \<and> cached_status h i \<noteq> Some (Itoa GpuStatusIdle)"
  by (induction ids) (auto split: if_splits)

lemma CheckAvailable_coherent:
  assumes "cards_ok (cards s)" "coherent s" "\<not> av_db e" "ids \<noteq> []"
  shows "CheckAvailable e s ids = Ok (distinct ids \<and> set ids \<subseteq> idle_ids (cards s))"
proof (cases "cache_CheckAvailable (av_exec e) (av_cmd e) (cache s) ids = Ok False")
  case True
  then have "scan_cards (av_cmd e) (cache s) ids = Ok False"
    using assms by (auto simp: cache_CheckAvailable_def split: if_splits)
  then obtain i where i: "i \<in> set ids" "cache s (gpu_key i) \<noteq> []"
      "cached_status (cache s) i \<noteq> Some (Itoa GpuStatusIdle)"
    using scan_cards_FalseD by blast
  have "i \<notin> idle_ids (cards s)"
    using i assms(2) by (auto simp: idle_ids_def coherent_def list_all_iff)
  then show ?thesis using True i(1) by (auto simp: CheckAvailable_def)
next
  case False
  then have "CheckAvailable e s ids = repo_CheckAvailable (av_db e) (cards s) ids"
    by (auto simp: CheckAvailable_def split: sum.splits bool.splits)
  then show ?thesis
    using assms by (simp add: repo_CheckAvailable_def count_idle_full_iff cards_ok_def)
qed

lemma CheckAvailable_TrueD:
  assumes "cards_ok (cards s)" "CheckAvailable e s ids = Ok True" "ids \<noteq> []"
  shows "distinct ids" "set ids \<subseteq> idle_ids (cards s)"
proof -
  have "repo_CheckAvailable (av_db e) (cards s) ids = Ok True"
    using assms(2) by (auto simp: CheckAvailable_def split: sum.splits bool.splits)
  then show "distinct ids" "set ids \<subseteq> idle_ids (cards s)"
    using assms by (auto simp: repo_CheckAvailable_def count_idle_full_iff cards_ok_def split: if_splits)
qed

section \<open>Synchronising the cards with the machine\<close>

lemma assign_columns_simps [simp]:
  "gpu_ID (assign_columns new c) = gpu_ID c" "gpu_UUID (assign_columns new c) = gpu_UUID c"
  "gpu_Name (assign_columns new c) = gpu_Name new" "gpu_Status (assign_columns new c) = gpu_Status c"
  "gpu_CurrentJobID (assign_columns new c) = gpu_CurrentJobID c"
  by (simp_all add: assign_columns_def)

lemma card_ok_assign [simp]: "card_ok (assign_columns new c) = card_ok c"
  by (simp add: card_ok_def)

abbreviation assign_where :: "(gpu_card \<Rightarrow> bool) \<Rightarrow> gpu_card \<Rightarrow> card_table \<Rightarrow> card_table" where
  "assign_where P new t \<equiv> map (\<lambda>c. if P c then assign_columns new c else c) t"

lemma upsert_card_cases:
  assumes "upsert_card fresh t new = Some t'"
  obtains
    (uuid) "t' = assign_where (\<lambda>c. gpu_UUID c = gpu_UUID new) new t"
      "\<forall>c \<in> set t. gpu_UUID c \<noteq> gpu_UUID new \<longrightarrow> gpu_Name c \<noteq> gpu_Name new"
  | (name) "t' = assign_where (\<lambda>c. gpu_Name c = gpu_Name new) new t"
  | (new) "t' = t @ [new\<lparr> gpu_ID := fresh t \<rparr>]"
      "gpu_UUID new \<notin> gpu_UUID ` set t" "gpu_Name new \<notin> gpu_Name ` set t"
  using assms that by (auto simp: upsert_card_def split: if_splits)

lemma distinct_rename:
  "distinct (map gpu_Name t) \<Longrightarrow> distinct (map gpu_UUID t) \<Longrightarrow>
   \<forall>c \<in> set t. gpu_UUID c \<noteq> gpu_UUID new \<longrightarrow> gpu_Name c \<noteq> gpu_Name new \<Longrightarrow>
   distinct (map gpu_Name (assign_where (\<lambda>c. gpu_UUID c = gpu_UUID new) new t))"
proof (induction t)
  case (Cons c t)
  have "gpu_Name new \<notin> gpu_Name ` set t \<and> gpu_UUID new \<notin> gpu_UUID ` set t" if "gpu_UUID c = gpu_UUID new"
  proof
    show u: "gpu_UUID new \<notin> gpu_UUID ` set t" using Cons.prems(2) that by simp
    show "gpu_Name new \<notin> gpu_Name ` set t"
    proof
      assume "gpu_Name new \<in> gpu_Name ` set t"
      then obtain d where d: "d \<in> set t" "gpu_Name d = gpu_Name new" by force
      moreover have "gpu_UUID d \<noteq> gpu_UUID new" using imageI [OF d(1), of gpu_UUID] u by auto
      ultimately show False using Cons.prems(3) by simp
    qed
  qed
  then show ?case using Cons by (auto simp: image_iff)
qed simp

lemma map_assign_where:
  "map gpu_ID (assign_where P new t) = map gpu_ID t"
  "map gpu_UUID (assign_where P new t) = map gpu_UUID t"
  "map gpu_Name (assign_where (\<lambda>c. gpu_Name c = gpu_Name new) new t) = map gpu_Name t"
  by simp_all

lemma all_card_ok_assign_where: "list_all card_ok t \<Longrightarrow> list_all card_ok (assign_where P new t)"
  by (auto simp: list_all_iff)

lemma cards_ok_upsert:
  assumes ok: "cards_ok t" and up: "upsert_card fresh t new = Some t'"
    and fresh: "fresh t \<notin> known_ids t" and new: "card_ok new"
  shows "cards_ok t'"
  using up
proof (cases rule: upsert_card_cases)
  case uuid
  then show ?thesis
    using ok by (simp only: cards_ok_def map_assign_where distinct_rename all_card_ok_assign_where simp_thms)
next
  case name
  then show ?thesis
    using ok by (simp only: cards_ok_def map_assign_where all_card_ok_assign_where simp_thms)
next
  case new
  then show ?thesis
    using ok fresh \<open>card_ok new\<close> by (simp add: cards_ok_def known_ids_def card_ok_def)
qed

lemma holder_map_same:
  "(\<And>c. gpu_ID (g c) = gpu_ID c) \<Longrightarrow> (\<And>c. gpu_CurrentJobID (g c) = gpu_CurrentJobID c) \<Longrightarrow>
   holder (map g t) i = holder t i"
  by (induction t) (auto simp: holder_def)

lemma holder_append: "i \<in> known_ids t \<Longrightarrow> holder (t @ u) i = holder t i"
  by (induction t) (auto simp: holder_def known_ids_def)

lemma upsert_keeps_holder:
  assumes "upsert_card fresh t new = Some t'" "i \<in> known_ids t"
  shows "i \<in> known_ids t' \<and> holder t' i = holder t i"
proof -
  have assign: "i \<in> known_ids (assign_where P new t) \<and> holder (assign_where P new t) i = holder t i" for P
  proof -
    have "known_ids (assign_where P new t) = known_ids t"
      using map_assign_where(1) [of P new t] by (metis known_ids_def list.set_map)
    moreover have "holder (assign_where P new t) i = holder t i"
      by (rule holder_map_same) auto
    ultimately show ?thesis using assms(2) by simp
  qed
  show ?thesis
    using assms(1)
  proof (cases rule: upsert_card_cases)
    case new
    then show ?thesis using assms(2) by (simp add: holder_append known_ids_def)
  qed (use assign in simp_all)
qed

lemma upserts_keep:
  assumes "\<forall>u. fresh u \<notin> known_ids u"
  shows "cards_ok t \<Longrightarrow> upsert_cards fresh t new = Some t' \<Longrightarrow> list_all card_ok new \<Longrightarrow>
    cards_ok t' \<and> (\<forall>i \<in> known_ids t. i \<in> known_ids t' \<and> holder t' i = holder t i)"
proof (induction new arbitrary: t)
  case (Cons c new)
  then obtain u where u: "upsert_card fresh t c = Some u" "upsert_cards fresh u new = Some t'"
    by (auto split: option.splits)
  have "cards_ok u" using Cons.prems u assms by (auto intro: cards_ok_upsert)
  moreover have "\<forall>i \<in> known_ids t. i \<in> known_ids u \<and> holder u i = holder t i"
    using u upsert_keeps_holder by blast
  ultimately show ?case using Cons.IH u Cons.prems by auto
qed auto

section \<open>Reading back the report of nvidia-smi\<close>

definition print_gpu_line :: "GpuInfo \<Rightarrow> string" where
  "print_gpu_line g = Itoa (info_Index g) @ '', '' @ info_UUID g @ '', '' @ info_Type g @ '', '' @
     Itoa (info_Memory g)"

definition print_gpus :: "GpuInfo list \<Rightarrow> string" where
  "print_gpus gs = Join [CHR 0x0A] (map print_gpu_line gs) @ [CHR 0x0A]"

definition info_ok :: "GpuInfo \<Rightarrow> bool" where
  "info_ok g = (in_int (info_Index g) \<and> in_int (info_Memory g) \<and>
     info_Name g = ''gpu-'' @ Itoa (info_Index g) \<and>
     trimmed (info_UUID g) \<and> trimmed (info_Type g) \<and>
     list_all (\<lambda>c. c \<noteq> CHR '','' \<and> c \<noteq> CHR 0x0A) (info_UUID g @ info_Type g))"

lemma Itoa_free: "CHR '','' \<notin> set (Itoa i)" "CHR 0x0A \<notin> set (Itoa i)"
  using set_Itoa [of "CHR '',''" i] set_Itoa [of "CHR 0x0A" i] by (auto simp: is_digit_def)

lemma Split_print_line:
  assumes "info_ok g"
  shows "Split CHR '','' (print_gpu_line g) =
      [Itoa (info_Index g), CHR '' '' # info_UUID g, CHR '' '' # info_Type g,
       CHR '' '' # Itoa (info_Memory g)]"
proof -
  have "print_gpu_line g = Itoa (info_Index g) @ CHR '','' # ((CHR '' '' # info_UUID g) @
      CHR '','' # ((CHR '' '' # info_Type g) @ CHR '','' # CHR '' '' # Itoa (info_Memory g)))"
    by (simp add: print_gpu_line_def)
  moreover have "CHR '','' \<notin> set (CHR '' '' # info_UUID g)" "CHR '','' \<notin> set (CHR '' '' # info_Type g)"
    "CHR '','' \<notin> set (CHR '' '' # Itoa (info_Memory g))"
    using assms Itoa_free by (auto simp: info_ok_def list_all_iff)
  ultimately show ?thesis
    by (simp only: Split_append_sep Itoa_free Split_free not_False_eq_True)
qed

lemma parse_print_line:
  assumes ok: "info_ok g"
  shows "parse_gpu_line (print_gpu_line g) = Ok g"
  using ok
  by (simp add: parse_gpu_line_def Split_print_line [OF ok] TrimSpace_blank TrimSpace_trimmed
      Atoi_Itoa info_ok_def)

lemma print_line_not_Nil [simp]: "print_gpu_line g \<noteq> []"
  by (simp add: print_gpu_line_def)

lemma parse_print_lines: "list_all info_ok gs \<Longrightarrow> parse_gpu_lines (map print_gpu_line gs) = Ok gs"
  by (induction gs) (auto simp: parse_print_line)

lemma print_line_no_newline: "info_ok g \<Longrightarrow> CHR 0x0A \<notin> set (print_gpu_line g)"
  using Itoa_free(2) by (auto simp: print_gpu_line_def info_ok_def list_all_iff)

lemma Join_ends:
  "gs \<noteq> [] \<Longrightarrow> \<exists>r. Join d (map print_gpu_line gs) = Itoa (info_Index (hd gs)) @ r"
  "gs \<noteq> [] \<Longrightarrow> \<exists>r. Join d (map print_gpu_line gs) = r @ Itoa (info_Memory (last gs))"
proof -
  show "gs \<noteq> [] \<Longrightarrow> \<exists>r. Join d (map print_gpu_line gs) = Itoa (info_Index (hd gs)) @ r"
    by (cases gs rule: list.exhaust; cases "tl gs") (auto simp: print_gpu_line_def)
  show "gs \<noteq> [] \<Longrightarrow> \<exists>r. Join d (map print_gpu_line gs) = r @ Itoa (info_Memory (last gs))"
  proof (induction gs)
    case (Cons g gs)
    then show ?case
      by (cases "gs = []") (auto simp: Join_Cons print_gpu_line_def)
  qed simp
qed

lemma TrimSpace_print_gpus:
  assumes "gs \<noteq> []"
  shows "TrimSpace (print_gpus gs) = Join [CHR 0x0A] (map print_gpu_line gs)"
proof -
  obtain r r' where "Join [CHR 0x0A] (map print_gpu_line gs) = Itoa (info_Index (hd gs)) @ r"
    and "Join [CHR 0x0A] (map print_gpu_line gs) = r' @ Itoa (info_Memory (last gs))"
    using Join_ends [OF assms] by metis
  then show ?thesis
    unfolding print_gpus_def
    by (intro TrimSpace_newline_end) (metis append.assoc Itoa_ends(1), metis Itoa_ends(2))
qed

section \<open>Properties\<close>

text \<open>Two cards, the second one held by job 7 and its status cached.\<close>

definition demo_pool :: gpu_state where
  "demo_pool = \<lparr>
     cards = [\<lparr> gpu_ID = 1, gpu_UUID = ''GPU-a'', gpu_Name = ''gpu-0'', gpu_Index = 0, gpu_Status = 0,
                gpu_CurrentJobID = None, gpu_GpuType = ''A100'', gpu_Memory = 40960 \<rparr>,
              \<lparr> gpu_ID = 2, gpu_UUID = ''GPU-b'', gpu_Name = ''gpu-1'', gpu_Index = 1, gpu_Status = 1,
                gpu_CurrentJobID = Some 7, gpu_GpuType = ''A100'', gpu_Memory = 40960 \<rparr>],
     cache = (\<lambda>k. if k = gpu_key 2 then [(''status'', ''1''), (''job_id'', ''7'')] else []) \<rparr>"

text \<open>
  C11: AcquireCards is all or nothing. On a well formed table it succeeds exactly when the
  request is a non-empty list of distinct stored cards that nobody holds (and the database
  answers); then precisely these cards are held by the job and every other card keeps its
  holder. The whole request fails otherwise.
\<close>

theorem acquire_all_or_nothing:
  assumes "cards_ok (cards s)"
  shows "(is_ok (AcquireCards ec eu n s ids j) \<longleftrightarrow>
           ids \<noteq> [] \<and> \<not> ec \<and> \<not> eu \<and> distinct ids \<and>
           (\<forall>i \<in> set ids. i \<in> known_ids (cards s) \<and> holder (cards s) i = None)) \<and>
         (\<forall>s'. AcquireCards ec eu n s ids j = Ok s' \<longrightarrow> cards_ok (cards s') \<and>
           (\<forall>i. holder (cards s') i = (if i \<in> set ids then Some j else holder (cards s) i)))"
proof (intro conjI allI impI)
  show "is_ok (AcquireCards ec eu n s ids j) \<longleftrightarrow>
      ids \<noteq> [] \<and> \<not> ec \<and> \<not> eu \<and> distinct ids \<and>
      (\<forall>i \<in> set ids. i \<in> known_ids (cards s) \<and> holder (cards s) i = None)"
    by (auto simp: is_ok_iff AcquireCards_Ok_iff [OF assms] subset_iff idle_ids_iff [OF assms])
next
  fix s' i
  assume "AcquireCards ec eu n s ids j = Ok s'"
  then have "acquire_op (ec, eu, n) s ids j = Some s'" by (simp add: acquire_op_Some_iff)
  then show "cards_ok (cards s')" "holder (cards s') i = (if i \<in> set ids then Some j else holder (cards s) i)"
    using assms gpu.acquire_keeps gpu.acquire_holds by blast+
qed

theorem acquire_all_or_nothing_witness:
  "is_ok (AcquireCards False False (\<lambda>_. 3) demo_pool [1] 9) \<and>
   \<not> is_ok (AcquireCards False False (\<lambda>_. 3) demo_pool [1, 2] 9)"
proof -
  have ok: "cards_ok (cards demo_pool)" by code_simp
  have "1 \<in> known_ids (cards demo_pool)" "holder (cards demo_pool) 1 = None"
    "holder (cards demo_pool) 2 = Some 7"
    by code_simp+
  then show ?thesis
    using acquire_all_or_nothing [OF ok, of False False "\<lambda>_. 3" "[1]" 9]
      acquire_all_or_nothing [OF ok, of False False "\<lambda>_. 3" "[1, 2]" 9] by simp
qed

text \<open>
  C5: A card has one holder. Once a request of a job has been granted, a request that names one
  of its cards is refused after any sequence of requests and releases of other clients, served
  in any order and with any failures of the stores, until that card is released.
\<close>

theorem cards_exclusive:
  assumes "cards_ok (cards s)" "acquire_op e s ids j = Some s'" "i \<in> set ids"
    and "i \<notin> gpu.releases rs" "i \<in> set ids'"
  shows "acquire_op e' (gpu.serve rs s') ids' j' = None"
  using assms by (rule gpu.no_second_holder)

theorem cards_exclusive_witness:
  "acquire_op (False, False, \<lambda>_. 3)
     (gpu.serve [Inr ((False, \<lambda>_. 3), [2]), Inl ((False, False, \<lambda>_. 3), [2], 5)]
       (the (acquire_op (False, False, \<lambda>_. 3) demo_pool [1] 9))) [2, 1] 11 = None"
proof -
  let ?e = "(False, False, \<lambda>_::int. 3::nat)"
  have ok: "cards_ok (cards demo_pool)" by code_simp
  have "acquire_op ?e demo_pool [1] 9 \<noteq> None" by code_simp
  then obtain s' where s': "acquire_op ?e demo_pool [1] 9 = Some s'" by auto
  show ?thesis
    unfolding s' option.sel
    by (rule cards_exclusive [OF ok s', of 1]) (simp_all add: gpu.releases_def)
qed

text \<open>
  The availability check is sound whatever the cache holds: when CheckAvailable answers
  true, the same request is granted by AcquireCards on the unchanged state, so a stale or
  expired cache entry never lets a held card through.
\<close>

theorem available_then_granted:
  assumes "cards_ok (cards s)" "ids \<noteq> []" "CheckAvailable e s ids = Ok True"
  shows "\<exists>s'. AcquireCards False False n s ids j = Ok s'"
  using CheckAvailable_TrueD [OF assms(1,3,2)] AcquireCards_Ok_iff [OF assms(1), of False False n ids j] assms
  by auto

text \<open>
  C12: The cached check is equivalent to the database check. Coherence (each cached status is
  the status of the table, or the key is absent) is kept by AcquireCards, by ReleaseCards and
  by the expiry of a key, as long as the status command of each pipeline takes effect; in a
  coherent state CheckAvailable answers, whatever else fails in Redis, exactly whether the
  request is a list of distinct idle cards.
\<close>

theorem cache_refines_table:
  assumes "cards_ok (cards s)" "coherent s" "\<forall>i \<in> set ids. 0 < n i"
  shows "(\<forall>e. \<not> av_db e \<longrightarrow> ids \<noteq> [] \<longrightarrow>
            CheckAvailable e s ids = Ok (distinct ids \<and> set ids \<subseteq> idle_ids (cards s))) \<and>
         (\<forall>ec eu j s'. AcquireCards ec eu n s ids j = Ok s' \<longrightarrow> coherent s') \<and>
         (\<forall>er s'. ReleaseCards er n s ids = Ok s' \<longrightarrow> coherent s') \<and>
         (\<forall>i. coherent (s\<lparr> cache := expire_key (cache s) i \<rparr>))"
  using assms CheckAvailable_coherent coherent_Acquire coherent_Release coherent_expire by blast

theorem cache_refines_table_witness:
  "CheckAvailable \<lparr> av_exec = False, av_cmd = (\<lambda>_. False), av_db = False \<rparr> demo_pool [1] = Ok True \<and>
   CheckAvailable \<lparr> av_exec = False, av_cmd = (\<lambda>_. False), av_db = False \<rparr> demo_pool [2] = Ok False"
proof -
  have ok: "cards_ok (cards demo_pool)" "coherent demo_pool" by code_simp+
  have idle: "idle_ids (cards demo_pool) = {1}" by code_simp
  show ?thesis
    using cache_refines_table [OF ok, of "[1]" "\<lambda>_. 3"] cache_refines_table [OF ok, of "[2]" "\<lambda>_. 3"] idle
    by simp
qed

text \<open>
  Synchronising the table with the report of nvidia-smi neither loses a stored card nor
  changes who holds it, and keeps the table well formed, whatever the report says, when the
  table assigns unused ids to inserted rows.
\<close>

theorem sync_keeps_holders:
  assumes "\<forall>u. fresh u \<notin> known_ids u" "cards_ok (cards s)"
    and "SyncGpuCards fresh smi es ef n s = Ok s'"
  shows "cards_ok (cards s') \<and>
         (\<forall>i \<in> known_ids (cards s). i \<in> known_ids (cards s') \<and> holder (cards s') i = holder (cards s) i)"
proof -
  have "list_all card_ok (map card_of_info gs)" for gs
    by (simp add: list_all_iff card_of_info_def card_ok_def)
  then show ?thesis
    using assms upserts_keep [OF assms(1,2)]
    by (fastforce simp: SyncGpuCards_def SyncCards_def split: sum.splits error.splits if_splits option.splits)
qed

definition demo_fresh :: "card_table \<Rightarrow> int" where
  "demo_fresh t = foldr (\<lambda>c m. max (gpu_ID c) m) t 0 + 1"

lemma demo_fresh_bound: "i \<in> known_ids t \<Longrightarrow> i < demo_fresh t"
  by (induction t) (auto simp: demo_fresh_def known_ids_def)

text \<open>
  Reading back the report of nvidia-smi: for cards whose text fields are trimmed and hold
  neither a comma nor a line feed, GetGpuInfo recovers from the printed report exactly the
  cards that were printed, in order.
\<close>

theorem gpu_report_roundtrip:
  assumes "list_all info_ok gs" "gs \<noteq> []"
  shows "GetGpuInfo (Some (print_gpus gs)) = Ok gs"
proof -
  have "Split (CHR 0x0A) (Join [CHR 0x0A] (map print_gpu_line gs)) = map print_gpu_line gs"
    using assms print_line_no_newline by (intro Split_Join) (auto simp: list_all_iff)
  then show ?thesis
    using assms by (simp add: GetGpuInfo_def TrimSpace_print_gpus parse_print_lines)
qed

end
