(* ===== verification/JobStore.thy ===== *)
theory JobStore
  imports GpuPool
begin

text \<open>
  The job table: internal/model/entity/job.go and internal/repository/job_repository.go, with
  the request and response structures of the job lists.

  The table jobs is the list of its rows; the column sug, which the entity does not name but
  the queries write and read, is a field of the row. Times are nanoseconds; the zero time of
  Go is None. The LIKE operator of the database, the user names of the joined table
  admin_users and the failure of each query are parameters. Rows that an ORDER BY does not
  separate come in the order of the table.
\<close>

section \<open>Entities, requests and responses\<close>

definition JobStatusQueued :: int where "JobStatusQueued = 1"
definition JobStatusRunning :: int where "JobStatusRunning = 2"
definition JobStatusCompleted :: int where "JobStatusCompleted = 3"
definition JobStatusFailed :: int where "JobStatusFailed = 4"
definition JobStatusCancelled :: int where "JobStatusCancelled = 5"
definition JobStatusWaitingGpu :: int where "JobStatusWaitingGpu = 6"

definition JobPriorityHigh :: int where "JobPriorityHigh = 2"
definition JobPriorityLow :: int where "JobPriorityLow = 1"

lemmas job_status_defs = JobStatusQueued_def JobStatusRunning_def JobStatusCompleted_def
  JobStatusFailed_def JobStatusCancelled_def JobStatusWaitingGpu_def

record Job =
  job_ID :: int
  job_Name :: string
  job_Description :: string
  job_UserId :: int
  job_FilePath :: string
  job_CondaEnv :: string
  job_GpuIDs :: string
  job_Status :: int
  job_CreatedAt :: int
  job_StartedAt :: "int option"
  job_FinishedAt :: "int option"
  job_Sug :: int

type_synonym job_table = "Job list"

record JobListRequest =
  jl_Id :: int
  jl_Status :: int
  jl_Name :: string
  jl_PageSize :: int
  jl_Page :: int

record JobResponse =
  jr_ID :: int
  jr_Name :: string
  jr_Description :: string
  jr_Status :: int
  jr_CondaEnv :: string
  jr_CreatedAt :: int
  jr_Card :: string
  jr_Count :: int
  jr_WaitTime :: string

record JobStatsResponse =
  st_Total :: int
  st_Running :: int
  st_Queued :: int
  st_Exception :: int

record QueueListRequest =
  ql_Id :: int
  ql_Name :: string
  ql_PageSize :: int
  ql_Page :: int

record QueueJobDBRow =
  qr_JobID :: int
  qr_JobName :: string
  qr_Description :: string
  qr_Status :: int
  qr_SubmittedAt :: int
  qr_UserName :: string
  qr_Sug :: int

record HomeQueueSummary =
  hq_Running :: int
  hq_Queued :: int
  hq_WaitingGpu :: int

section \<open>Queries\<close>

text \<open>The status filter of getJobListWithFilters: a single status or a list of them.\<close>

datatype status_filter = StatusInt int | StatusList "int list"

definition status_match :: "status_filter \<Rightarrow> int \<Rightarrow> bool" where
  "status_match f st = (case f of
     StatusInt v \<Rightarrow> (if v > 0 then st = v else True)
   | StatusList vs \<Rightarrow> (if vs \<noteq> [] then st \<in> set vs else True))"

definition in_window :: "int option \<Rightarrow> int option \<Rightarrow> int \<Rightarrow> bool" where
  "in_window startTime endTime t =
     ((case startTime of None \<Rightarrow> True | Some a \<Rightarrow> a \<le> t) \<and>
      (case endTime of None \<Rightarrow> True | Some b \<Rightarrow> t \<le> b))"

text \<open>Replacing the card ids of a row by the card names; ids without a card are left out.\<close>

definition card_names :: "bool \<Rightarrow> card_table \<Rightarrow> string \<Rightarrow> string" where
  "card_names err t ids = (if ids = [] then []
     else Join '','' (List.map_filter (\<lambda>i. if err then None
            else map_of (map (\<lambda>c. (Itoa (gpu_ID c), gpu_Name c)) t) i) (Split CHR '','' ids)))"

definition job_response :: "Job \<Rightarrow> JobResponse" where
  "job_response j = \<lparr> jr_ID = job_ID j, jr_Name = job_Name j, jr_Description = job_Description j,
     jr_Status = job_Status j, jr_CondaEnv = job_CondaEnv j, jr_CreatedAt = job_CreatedAt j,
     jr_Card = job_GpuIDs j, jr_Count = 0, jr_WaitTime = [] \<rparr>"

definition job_list_match ::
  "(string \<Rightarrow> string \<Rightarrow> bool) \<Rightarrow> JobListRequest \<Rightarrow> int option \<Rightarrow> int option \<Rightarrow> int \<Rightarrow> status_filter \<Rightarrow> Job \<Rightarrow> bool" where
  "job_list_match like req startTime endTime userID sf j =
     (job_UserId j = userID \<and> status_match sf (job_Status j) \<and>
      (jl_Id req > 0 \<longrightarrow> job_ID j = jl_Id req) \<and>
      (jl_Name req \<noteq> [] \<longrightarrow> like (''%'' @ jl_Name req @ ''%'') (job_Name j)) \<and>
      in_window startTime endTime (job_CreatedAt j))"

record list_env =
  le_count :: bool
  le_scan :: bool
  le_cards :: bool

definition getJobListWithFilters ::
  "(string \<Rightarrow> string \<Rightarrow> bool) \<Rightarrow> list_env \<Rightarrow> card_table \<Rightarrow> job_table \<Rightarrow> JobListRequest \<Rightarrow> int option \<Rightarrow> int option \<Rightarrow>
   int \<Rightarrow> status_filter \<Rightarrow> (JobResponse list \<times> int \<times> int \<times> int) result" where
  "getJobListWithFilters like e cs t req startTime endTime userID sf =
     (let hits = filter (job_list_match like req startTime endTime userID sf) t in
      if le_count e then Err DbError
      else if le_scan e then Err DbError
      else let page = limit_offset (jl_PageSize req) (wrap64 ((jl_Page req - 1) * jl_PageSize req))
                        (sort_key (\<lambda>j. - job_CreatedAt j) hits) in
        Ok (map (\<lambda>j. (job_response j)\<lparr> jr_Card := card_names (le_cards e) cs (job_GpuIDs j) \<rparr>) page,
            int (length hits), jl_Page req, jl_PageSize req))"

definition repo_GetJobList ::
  "(string \<Rightarrow> string \<Rightarrow> bool) \<Rightarrow> list_env \<Rightarrow> card_table \<Rightarrow> job_table \<Rightarrow> JobListRequest \<Rightarrow> int option \<Rightarrow> int option \<Rightarrow>
   int \<Rightarrow> (JobResponse list \<times> int \<times> int \<times> int) result" where
  "repo_GetJobList like e cs t req startTime endTime userID =
     getJobListWithFilters like e cs t req startTime endTime userID (StatusInt (jl_Status req))"

definition repo_GetWaitJobList ::
  "(string \<Rightarrow> string \<Rightarrow> bool) \<Rightarrow> list_env \<Rightarrow> card_table \<Rightarrow> job_table \<Rightarrow> JobListRequest \<Rightarrow> int option \<Rightarrow> int option \<Rightarrow>
   int \<Rightarrow> (JobResponse list \<times> int \<times> int \<times> int) result" where
  "repo_GetWaitJobList like e cs t req startTime endTime userID =
     getJobListWithFilters like e cs t req startTime endTime userID
       (StatusList [JobStatusQueued, JobStatusWaitingGpu])"

section \<open>Single rows\<close>

text \<open>Create: the table assigns the id, the parameter \<open>fresh\<close>.\<close>

definition job_Create :: "(job_table \<Rightarrow> int) \<Rightarrow> bool \<Rightarrow> job_table \<Rightarrow> Job \<Rightarrow> (job_table \<times> Job) result" where
  "job_Create fresh err t j = (if err then Err DbError
     else let j' = j\<lparr> job_ID := fresh t \<rparr> in Ok (t @ [j'], j'))"

definition job_Delete :: "bool \<Rightarrow> job_table \<Rightarrow> int \<Rightarrow> job_table result" where
  "job_Delete err t i = (if err then Err DbError else Ok (filter (\<lambda>j. job_ID j \<noteq> i) t))"

definition find_job :: "job_table \<Rightarrow> int \<Rightarrow> Job option" where
  "find_job t i = find (\<lambda>j. job_ID j = i) t"

text \<open>GetByID: a missing row is an error as well, so a result without error is a job.\<close>

definition GetByID :: "bool \<Rightarrow> job_table \<Rightarrow> int \<Rightarrow> Job result" where
  "GetByID err t i = (if err then Err DbError
     else case find_job t i of None \<Rightarrow> Err (Errorf ''job missing'') | Some j \<Rightarrow> Ok j)"

definition set_status :: "int \<Rightarrow> int \<Rightarrow> Job \<Rightarrow> Job" where
  "set_status now st j =
     (if st = JobStatusRunning then j\<lparr> job_Status := st, job_StartedAt := Some now \<rparr>
      else if st = JobStatusCompleted \<or> st = JobStatusFailed \<or> st = JobStatusCancelled
      then j\<lparr> job_Status := st, job_FinishedAt := Some now \<rparr>
      else j\<lparr> job_Status := st \<rparr>)"

definition UpdateStatus :: "bool \<Rightarrow> int \<Rightarrow> job_table \<Rightarrow> int \<Rightarrow> int \<Rightarrow> job_table result" where
  "UpdateStatus err now t i st = (if err then Err DbError
     else Ok (map (\<lambda>j. if job_ID j = i then set_status now st j else j) t))"

definition UpdateSug :: "bool \<Rightarrow> job_table \<Rightarrow> int \<Rightarrow> job_table result" where
  "UpdateSug err t i = (if err then Err DbError
     else Ok (map (\<lambda>j. if job_ID j = i then j\<lparr> job_Sug := 1 \<rparr> else j) t))"

section \<open>The lists of the queue page\<close>

definition queue_row :: "(int \<Rightarrow> string) \<Rightarrow> Job \<Rightarrow> QueueJobDBRow" where
  "queue_row uname j = \<lparr> qr_JobID = job_ID j, qr_JobName = job_Name j,
     qr_Description = job_Description j, qr_Status = job_Status j,
     qr_SubmittedAt = job_CreatedAt j, qr_UserName = uname (job_UserId j), qr_Sug = job_Sug j \<rparr>"

definition GetQueueJobsByIDs ::
  "bool \<Rightarrow> (int \<Rightarrow> string) \<Rightarrow> job_table \<Rightarrow> int list \<Rightarrow> (int \<rightharpoonup> QueueJobDBRow) result" where
  "GetQueueJobsByIDs err uname t jobIDs =
     (if jobIDs = [] then Ok (\<lambda>_. None)
      else if err then Err DbError
      else Ok (map_of (map (\<lambda>j. (job_ID j, (queue_row uname j)\<lparr> qr_Sug := 0 \<rparr>))
                 (filter (\<lambda>j. job_ID j \<in> set jobIDs) (rev t)))))"

definition buildBaseQueueJobQuery ::
  "(string \<Rightarrow> string \<Rightarrow> bool) \<Rightarrow> job_table \<Rightarrow> QueueListRequest \<Rightarrow> int option \<Rightarrow> int option \<Rightarrow> job_table" where
  "buildBaseQueueJobQuery like t req startTime endTime = filter (\<lambda>j.
     (ql_Id req > 0 \<longrightarrow> job_ID j = ql_Id req) \<and>
     (ql_Name req \<noteq> [] \<longrightarrow> like (''%'' @ ql_Name req @ ''%'') (job_Name j)) \<and>
     in_window startTime endTime (job_CreatedAt j)) t"

definition index_of :: "int list \<Rightarrow> int \<Rightarrow> nat" where
  "index_of xs x = length (takeWhile (\<lambda>y. y \<noteq> x) xs)"

definition GetQueueJobListFiltered ::
  "(string \<Rightarrow> string \<Rightarrow> bool) \<Rightarrow> (int \<Rightarrow> string) \<Rightarrow> bool \<Rightarrow> bool \<Rightarrow> job_table \<Rightarrow> int list \<Rightarrow> QueueListRequest \<Rightarrow>
   int option \<Rightarrow> int option \<Rightarrow> (QueueJobDBRow list \<times> int) result" where
  "GetQueueJobListFiltered like uname err_count err_scan t orderedJobIDs req startTime endTime =
     (if orderedJobIDs = [] then Ok ([], 0)
      else let hits = filter (\<lambda>j. job_ID j \<in> set orderedJobIDs \<and>
                        job_Status j \<in> set [JobStatusQueued, JobStatusWaitingGpu])
                        (buildBaseQueueJobQuery like t req startTime endTime) in
        if err_count then Err DbError
        else if err_scan then Err DbError
        else Ok (map (queue_row uname) (limit_offset (ql_PageSize req) (wrap64 ((ql_Page req - 1) * ql_PageSize req))
                   (sort_key (\<lambda>j. index_of orderedJobIDs (job_ID j)) hits)), int (length hits)))"

definition GetRunningJobs ::
  "(string \<Rightarrow> string \<Rightarrow> bool) \<Rightarrow> (int \<Rightarrow> string) \<Rightarrow> bool \<Rightarrow> bool \<Rightarrow> job_table \<Rightarrow> QueueListRequest \<Rightarrow>
   int option \<Rightarrow> int option \<Rightarrow> (QueueJobDBRow list \<times> int) result" where
  "GetRunningJobs like uname err_count err_scan t req startTime endTime =
     (let hits = filter (\<lambda>j. job_Status j = JobStatusRunning)
                   (buildBaseQueueJobQuery like t req startTime endTime) in
      if err_count then Err DbError
      else if err_scan then Err DbError
      else Ok (map (queue_row uname) (sort_key (\<lambda>j. - job_CreatedAt j) hits), int (length hits)))"

definition GetRunningJobsWithoutPagination :: "bool \<Rightarrow> job_table \<Rightarrow> Job list result" where
  "GetRunningJobsWithoutPagination err t =
     (if err then Err DbError else Ok (filter (\<lambda>j. job_Status j = JobStatusRunning) t))"

section \<open>Statistics\<close>

definition count_status :: "job_table \<Rightarrow> int list \<Rightarrow> int" where
  "count_status t sts = int (length (filter (\<lambda>j. job_Status j \<in> set sts) t))"

definition GetStats :: "(nat \<Rightarrow> bool) \<Rightarrow> job_table \<Rightarrow> JobStatsResponse result" where
  "GetStats err t =
     (if err 0 \<or> err 1 \<or> err 2 \<or> err 3 then Err DbError
      else Ok \<lparr> st_Total = int (length t), st_Running = count_status t [JobStatusRunning],
                st_Queued = count_status t [JobStatusQueued, JobStatusWaitingGpu],
                st_Exception = count_status t [JobStatusFailed] \<rparr>)"

definition GetHomeQueueSummary :: "(nat \<Rightarrow> bool) \<Rightarrow> job_table \<Rightarrow> HomeQueueSummary result" where
  "GetHomeQueueSummary err t =
     (if err 0 \<or> err 1 \<or> err 2 then Err DbError
      else Ok \<lparr> hq_Running = count_status t [JobStatusRunning],
                hq_Queued = count_status t [JobStatusQueued],
                hq_WaitingGpu = count_status t [JobStatusWaitingGpu] \<rparr>)"

section \<open>Lemmas\<close>

definition jobs_ok :: "job_table \<Rightarrow> bool" where
  "jobs_ok t = (distinct (map job_ID t) \<and>
     list_all (\<lambda>j. job_Status j \<in> {JobStatusQueued, JobStatusRunning, JobStatusCompleted,
       JobStatusFailed, JobStatusCancelled, JobStatusWaitingGpu}) t)"

definition status_of :: "job_table \<Rightarrow> int \<Rightarrow> int option" where
  "status_of t i = map_option job_Status (find_job t i)"

lemma set_status_simps [simp]:
  "job_ID (set_status now st j) = job_ID j" "job_Status (set_status now st j) = st"
  "job_GpuIDs (set_status now st j) = job_GpuIDs j" "job_UserId (set_status now st j) = job_UserId j"
  by (simp_all add: set_status_def)

lemma find_job_map:
  "(\<And>j. job_ID (f j) = job_ID j) \<Longrightarrow> find_job (map f t) i = map_option f (find_job t i)"
  by (induction t) (auto simp: find_job_def)

lemma find_job_ID: "find_job t i = Some j \<Longrightarrow> job_ID j = i \<and> j \<in> set t"
  by (auto simp: find_job_def find_Some_iff)

lemma find_UpdateStatus:
  "UpdateStatus err now t i st = Ok t' \<Longrightarrow>
   find_job t' k = (if k = i then map_option (set_status now st) (find_job t k) else find_job t k)"
proof -
  assume "UpdateStatus err now t i st = Ok t'"
  then have t': "t' = map (\<lambda>j. if job_ID j = i then set_status now st j else j) t"
    by (simp add: UpdateStatus_def split: if_splits)
  have "find_job t' k = map_option (\<lambda>j. if job_ID j = i then set_status now st j else j) (find_job t k)"
    unfolding t' by (rule find_job_map) simp
  then show ?thesis by (cases "find_job t k") (auto dest: find_job_ID)
qed

lemma jobs_ok_UpdateStatus [keeps]:
  "jobs_ok t \<Longrightarrow> UpdateStatus err now t i st = Ok t' \<Longrightarrow>
   st \<in> {JobStatusQueued, JobStatusRunning, JobStatusCompleted, JobStatusFailed, JobStatusCancelled,
     JobStatusWaitingGpu} \<Longrightarrow> jobs_ok t'"
  by (auto simp: UpdateStatus_def jobs_ok_def list_all_iff comp_def if_distrib [of job_ID]
      cong: if_cong split: if_splits)

lemma jobs_ok_Create [keeps]:
  "jobs_ok t \<Longrightarrow> job_Create fresh err t j = Ok (t', j') \<Longrightarrow> fresh t \<notin> job_ID ` set t \<Longrightarrow>
   job_Status j = JobStatusQueued \<Longrightarrow> jobs_ok t'"
  by (auto simp: job_Create_def jobs_ok_def Let_def list_all_iff split: if_splits)

lemma jobs_ok_Delete [keeps]: "jobs_ok t \<Longrightarrow> job_Delete err t i = Ok t' \<Longrightarrow> jobs_ok t'"
  by (auto simp: job_Delete_def jobs_ok_def list_all_iff distinct_map_filter split: if_splits)

end
