(* ===== verification/Float64.thy ===== *)
theory Float64
  imports Complex_Main Prelude
begin

text \<open>
  The type float64 of Go, as far as the queue scores use it: a finite value is a rational, and
  an arithmetic operation rounds its exact result to the nearest value with 53 significant
  bits, ties to even, with the exponent range of the format at the lower end. Scores stay far
  below the largest finite value, so the upper end of the range is not modelled.
\<close>

fun nbits :: "nat \<Rightarrow> nat" where
  "nbits n = (if n = 0 then 0 else Suc (nbits (n div 2)))"

declare nbits.simps [simp del]

definition pow2 :: "int \<Rightarrow> rat" where
  "pow2 k = (if 0 \<le> k then 2 ^ nat k else 1 / 2 ^ nat (- k))"

text \<open>The binade of x: the exponent e with 2^e <= |x| < 2^(e+1).\<close>

definition expo :: "rat \<Rightarrow> int" where
  "expo x = (case quotient_of \<bar>x\<bar> of (a, b) \<Rightarrow>
     let k = int (nbits (nat a)) - int (nbits (nat b)) in if pow2 k \<le> \<bar>x\<bar> then k else k - 1)"

text \<open>Rounding to the nearest integer, ties to even.\<close>

definition rne :: "rat \<Rightarrow> int" where
  "rne x = (let f = \<lfloor>x\<rfloor>; r = x - of_int f in
     if r < 1 / 2 then f else if r > 1 / 2 then f + 1 else if even f then f else f + 1)"

definition ulp_exp :: "rat \<Rightarrow> int" where
  "ulp_exp x = max (expo x - 52) (- 1074)"

definition f64 :: "rat \<Rightarrow> rat" where
  "f64 x = (if x = 0 then 0 else of_int (rne (x / pow2 (ulp_exp x))) * pow2 (ulp_exp x))"

definition fadd :: "rat \<Rightarrow> rat \<Rightarrow> rat" where "fadd x y = f64 (x + y)"
definition fsub :: "rat \<Rightarrow> rat \<Rightarrow> rat" where "fsub x y = f64 (x - y)"
definition fdiv :: "rat \<Rightarrow> rat \<Rightarrow> rat" where "fdiv x y = f64 (x / y)"

text \<open>The conversion int(x) truncates.\<close>

definition float_to_int :: "rat \<Rightarrow> int" where
  "float_to_int x = (if x < 0 then - \<lfloor>- x\<rfloor> else \<lfloor>x\<rfloor>)"

text \<open>
  time.Time.Sub saturates at the bounds of Duration (nanoseconds); Duration.Seconds adds the
  whole seconds and the fraction in float64.
\<close>

definition time_sub :: "int \<Rightarrow> int \<Rightarrow> int" where
  "time_sub a b = max int_min (min int_max (a - b))"

definition Seconds :: "int \<Rightarrow> rat" where
  "Seconds d = fadd (f64 (of_int (go_div d 1000000000)))
                    (fdiv (f64 (of_int (go_mod d 1000000000))) 1000000000)"

section \<open>Powers of two\<close>

lemma pow2_powi: "pow2 k = 2 powi k"
  by (simp add: pow2_def power_int_def field_simps power_inverse)

lemma pow2_pos [simp]: "0 < pow2 k"
  by (simp add: pow2_def)

lemma pow2_neq_0 [simp]: "pow2 k \<noteq> 0"
  by (simp add: pow2_def)

lemma pow2_not_le_0 [simp]: "\<not> pow2 k \<le> 0"
  by (simp add: not_le)

lemma pow2_nonneg [simp]: "0 \<le> pow2 k"
  by (simp add: order_less_imp_le)

lemma abs_pow2 [simp]: "\<bar>pow2 k\<bar> = pow2 k"
  by (simp add: abs_of_pos)

lemma pow2_add: "pow2 (j + k) = pow2 j * pow2 k"
  by (simp add: pow2_powi power_int_add)

lemma pow2_mono: "j \<le> k \<Longrightarrow> pow2 j \<le> pow2 k"
  by (simp add: pow2_powi power_int_increasing)

lemma pow2_strict_mono_iff: "pow2 j < pow2 k \<longleftrightarrow> j < k"
  by (metis linorder_not_le pow2_mono pow2_powi power_int_strict_increasing one_less_numeral_iff
      semiring_norm(76))

lemma pow2_nat [simp]: "pow2 (int n) = 2 ^ n"
  by (simp add: pow2_def)

lemma pow2_is_int: "0 \<le> k \<Longrightarrow> pow2 k = of_int (2 ^ nat k)"
  by (simp add: pow2_def)

lemma nbits_bounds: "0 < n \<Longrightarrow> 2 ^ (nbits n - 1) \<le> n \<and> n < 2 ^ nbits n"
proof (induction n rule: nbits.induct)
  case (1 n)
  show ?case
  proof (cases "n div 2 = 0")
    case True
    then have "n = 1" using 1 by simp
    then show ?thesis by (simp add: nbits.simps)
  next
    case False
    then have IH: "2 ^ (nbits (n div 2) - 1) \<le> n div 2" "n div 2 < 2 ^ nbits (n div 2)"
      using 1 by auto
    have nz: "nbits (n div 2) \<noteq> 0" using False by (subst nbits.simps) simp
    have "nbits n = Suc (nbits (n div 2))" using 1 by (subst nbits.simps) simp
    moreover have "2 * 2 ^ (nbits (n div 2) - 1) = (2::nat) ^ nbits (n div 2)"
      using nz by (cases "nbits (n div 2)") auto
    ultimately show ?thesis using IH by simp linarith
  qed
qed

lemma nbits_pow2:
  assumes "0 < n"
  shows "pow2 (int (nbits n) - 1) \<le> of_nat n" "of_nat n < pow2 (int (nbits n))"
proof -
  have "nbits n \<noteq> 0" using assms by (subst nbits.simps) simp
  then have "pow2 (int (nbits n) - 1) = of_nat (2 ^ (nbits n - 1))"
    by (simp add: pow2_def nat_diff_distrib)
  then show "pow2 (int (nbits n) - 1) \<le> of_nat n"
    using nbits_bounds [OF assms] by (simp only: of_nat_le_iff)
  have "pow2 (int (nbits n)) = of_nat (2 ^ nbits n)" by simp
  then show "of_nat n < pow2 (int (nbits n))"
    using nbits_bounds [OF assms] by (simp only: of_nat_less_iff)
qed

lemma pow2_diff: "pow2 (j - k) = pow2 j / pow2 k"
  using pow2_add [of "j - k" k] by (simp add: field_simps)

lemma expo_bounds:
  assumes "x \<noteq> 0"
  shows "pow2 (expo x) \<le> \<bar>x\<bar>" "\<bar>x\<bar> < pow2 (expo x + 1)"
proof -
  obtain a b where ab: "quotient_of \<bar>x\<bar> = (a, b)" by (cases "quotient_of \<bar>x\<bar>")
  have b: "0 < b" using ab quotient_of_denom_pos by blast
  have x: "\<bar>x\<bar> = of_int a / of_int b" using ab quotient_of_div by blast
  have "0 < of_int a / (of_int b :: rat)" using x assms by simp
  then have a: "0 < a" using b by (simp add: zero_less_divide_iff)
  define m n where "m = nat a" and "n = nat b"
  have x': "\<bar>x\<bar> = of_nat m / of_nat n" using x a b by (simp add: m_def n_def)
  have mn: "0 < m" "0 < n" using a b by (simp_all add: m_def n_def)
  define k where "k = int (nbits m) - int (nbits n)"
  have "of_nat m / of_nat n < pow2 (int (nbits m)) / pow2 (int (nbits n) - 1)"
    using nbits_pow2 mn by (intro frac_less) auto
  then have up: "\<bar>x\<bar> < pow2 (k + 1)"
    unfolding x' k_def by (simp add: pow2_diff pow2_add)
  have "pow2 (int (nbits m) - 1) / pow2 (int (nbits n)) < of_nat m / of_nat n"
    using nbits_pow2 mn by (intro frac_less2) auto
  then have lo: "pow2 (k - 1) < \<bar>x\<bar>"
    unfolding x' k_def by (simp add: pow2_diff mult.commute)
  have e: "expo x = (if pow2 k \<le> \<bar>x\<bar> then k else k - 1)"
    by (simp add: expo_def ab k_def m_def n_def)
  show "pow2 (expo x) \<le> \<bar>x\<bar>" "\<bar>x\<bar> < pow2 (expo x + 1)"
    using up lo e by auto
qed

lemma expo_unique:
  assumes "pow2 e \<le> \<bar>x\<bar>" "\<bar>x\<bar> < pow2 (e + 1)"
  shows "expo x = e"
proof -
  have "x \<noteq> 0" using assms pow2_pos [of e] by auto
  note b = expo_bounds [OF this]
  have "pow2 e < pow2 (expo x + 1)" "pow2 (expo x) < pow2 (e + 1)"
    using assms b by linarith+
  then show ?thesis by (simp add: pow2_strict_mono_iff)
qed

lemma expo_mono: "x \<noteq> 0 \<Longrightarrow> \<bar>x\<bar> \<le> \<bar>y\<bar> \<Longrightarrow> expo x \<le> expo y"
  using expo_bounds [of x] expo_bounds [of y] pow2_strict_mono_iff [of "expo x" "expo y + 1"]
  by (cases "y = 0") auto

section \<open>Rounding\<close>

lemma rne_of_int [simp]: "rne (of_int n) = n"
  by (simp add: rne_def)

lemma rne_mono: "x \<le> y \<Longrightarrow> rne x \<le> rne y"
proof (cases "\<lfloor>x\<rfloor> = \<lfloor>y\<rfloor>")
  case True
  assume "x \<le> y"
  then have "x - of_int \<lfloor>x\<rfloor> \<le> y - of_int \<lfloor>y\<rfloor>" using True by simp
  then show ?thesis using True unfolding rne_def Let_def by auto
next
  case False
  assume "x \<le> y"
  then have "\<lfloor>x\<rfloor> + 1 \<le> \<lfloor>y\<rfloor>" using False floor_mono [of x y] by simp
  moreover have "rne x \<le> \<lfloor>x\<rfloor> + 1" "\<lfloor>y\<rfloor> \<le> rne y" unfolding rne_def Let_def by auto
  ultimately show ?thesis by linarith
qed

lemma floor_minus_non_int: "x \<notin> \<int> \<Longrightarrow> \<lfloor>- x\<rfloor> = - \<lfloor>x\<rfloor> - (1::int)" for x :: rat
  using floor_correct [of x] floor_correct [of "- x"]
  by (metis Ints_of_int ceiling_altdef ceiling_def minus_minus diff_minus_eq_add minus_add_distrib
      uminus_add_conv_diff)

lemma rne_minus: "rne (- x) = - rne x"
proof (cases "x \<in> \<int>")
  case True
  then obtain n where "x = of_int n" by (auto elim: Ints_cases)
  then show ?thesis by (metis of_int_minus rne_of_int)
next
  case False
  then have fl: "\<lfloor>- x\<rfloor> = - \<lfloor>x\<rfloor> - 1" by (rule floor_minus_non_int)
  define r where "r = x - of_int \<lfloor>x\<rfloor>"
  have r: "- x - of_int (- \<lfloor>x\<rfloor> - 1) = 1 - r" by (simp add: r_def)
  show ?thesis
    unfolding rne_def Let_def fl r r_def [symmetric] by auto
qed

lemma rne_half_even: "even n \<Longrightarrow> rne (of_int n - 1 / 2) = n"
proof -
  assume "even n"
  have "\<lfloor>of_int n - 1 / 2 :: rat\<rfloor> = n - 1" by (simp add: floor_eq_iff)
  then show ?thesis using \<open>even n\<close> by (simp add: rne_def)
qed

lemma f64_minus: "f64 (- x) = - f64 x"
proof -
  have "ulp_exp (- x) = ulp_exp x" by (simp add: ulp_exp_def expo_def)
  moreover have "rne (- x / pow2 k) = - rne (x / pow2 k)" for k
    using rne_minus [of "x / pow2 k"] by simp
  ultimately show ?thesis by (simp add: f64_def)
qed

text \<open>A value with at most 53 significant bits is a float64.\<close>

lemma f64_exact:
  assumes m: "\<bar>m\<bar> \<le> 2 ^ 53" and k: "- 1074 \<le> k"
  shows "f64 (of_int m * pow2 k) = of_int m * pow2 k"
proof (cases "m = 0")
  case False
  let ?x = "of_int m * pow2 k"
  have x0: "?x \<noteq> 0" using False by simp
  have "\<exists>n. ?x = of_int n * pow2 (ulp_exp ?x)"
  proof (cases "ulp_exp ?x \<le> k")
    case True
    then have "?x = of_int (m * 2 ^ nat (k - ulp_exp ?x)) * pow2 (ulp_exp ?x)"
      using pow2_add [of "k - ulp_exp ?x" "ulp_exp ?x"] by (simp add: pow2_def)
    then show ?thesis by blast
  next
    case False
    then have e: "expo ?x - 52 > k" "ulp_exp ?x = expo ?x - 52" using k by (auto simp: ulp_exp_def)
    have "pow2 (expo ?x) \<le> of_int \<bar>m\<bar> * pow2 k"
      using expo_bounds(1) [OF x0] by (simp add: abs_mult)
    also have "\<dots> \<le> of_int (2 ^ 53) * pow2 k"
      using m by (intro mult_right_mono) (simp_all only: of_int_le_iff pow2_pos order_less_imp_le)
    also have "\<dots> = pow2 (53 + k)" using pow2_add [of 53 k] by (simp add: pow2_def [of 53])
    finally have "expo ?x \<le> 53 + k" using pow2_strict_mono_iff [of "53 + k" "expo ?x"] by force
    then have ex: "expo ?x = 53 + k" using e by simp
    have "of_int (2 ^ 53) * pow2 k \<le> of_int \<bar>m\<bar> * pow2 k"
      using expo_bounds(1) [OF x0] ex pow2_add [of 53 k] by (simp add: abs_mult pow2_def [of 53])
    then have "2 ^ 53 \<le> \<bar>m\<bar>" by (simp only: mult_le_cancel_right_pos pow2_pos of_int_le_iff)
    then have "m = 2 ^ 53 \<or> m = - (2 ^ 53)" using m by linarith
    moreover have "pow2 k * 2 = pow2 (ulp_exp ?x)"
      using ex e(2) pow2_add [of k 1] by (simp add: pow2_def [of 1] add.commute)
    ultimately have "?x = of_int (2 ^ 52) * pow2 (ulp_exp ?x) \<or> ?x = of_int (- (2 ^ 52)) * pow2 (ulp_exp ?x)"
      by (auto simp flip: \<open>pow2 k * 2 = pow2 (ulp_exp ?x)\<close>)
    then show ?thesis by blast
  qed
  then obtain n where n: "?x = of_int n * pow2 (ulp_exp ?x)" by blast
  then have "?x / pow2 (ulp_exp ?x) = of_int n" by (metis nonzero_eq_divide_eq pow2_neq_0)
  then show ?thesis using x0 n by (simp add: f64_def)
qed (simp add: f64_def)

lemma f64_mono_pos:
  assumes "0 < x" "x \<le> y"
  shows "f64 x \<le> f64 y"
proof (cases "ulp_exp x = ulp_exp y")
  case True
  have "rne (x / pow2 (ulp_exp x)) \<le> rne (y / pow2 (ulp_exp x))"
    using assms by (intro rne_mono divide_right_mono) simp_all
  then show ?thesis using assms True by (simp add: f64_def)
next
  case False
  have "expo x \<le> expo y" using assms by (intro expo_mono) auto
  with False have e: "expo x < expo y" "ulp_exp y = expo y - 52" "ulp_exp x < ulp_exp y"
    by (auto simp: ulp_exp_def)
  have int: "pow2 (expo y) / pow2 (ulp_exp z) = of_int (2 ^ nat (expo y - ulp_exp z))"
    if "ulp_exp z \<le> expo y" for z
    using that pow2_diff [of "expo y" "ulp_exp z"] by (simp add: pow2_def)
  have "x \<le> pow2 (expo y)"
    using expo_bounds(2) [of x] assms e(1) pow2_mono [of "expo x + 1" "expo y"] by simp
  then have "rne (x / pow2 (ulp_exp x)) \<le> rne (pow2 (expo y) / pow2 (ulp_exp x))"
    by (intro rne_mono divide_right_mono) simp_all
  then have "of_int (rne (x / pow2 (ulp_exp x))) \<le> pow2 (expo y) / pow2 (ulp_exp x)"
    using int [of x] e by (simp only: rne_of_int of_int_le_iff)
  then have "f64 x \<le> pow2 (expo y)"
    using assms by (simp add: f64_def field_simps)
  have "rne (pow2 (expo y) / pow2 (ulp_exp y)) \<le> rne (y / pow2 (ulp_exp y))"
    using expo_bounds(1) [of y] assms by (intro rne_mono divide_right_mono) simp_all
  then have "pow2 (expo y) / pow2 (ulp_exp y) \<le> of_int (rne (y / pow2 (ulp_exp y)))"
    using int [of y] e(2) by (simp only: rne_of_int of_int_le_iff)
  then have "pow2 (expo y) \<le> f64 y"
    using assms by (simp add: f64_def field_simps)
  with \<open>f64 x \<le> pow2 (expo y)\<close> show ?thesis by simp
qed

lemma f64_nonneg: "0 \<le> x \<Longrightarrow> 0 \<le> f64 x"
  using rne_mono [of 0 "x / pow2 (ulp_exp x)"] rne_of_int [of 0] by (auto simp: f64_def)

lemma f64_mono: "x \<le> y \<Longrightarrow> f64 x \<le> f64 y"
proof (cases "0 < x")
  case True
  then show "x \<le> y \<Longrightarrow> f64 x \<le> f64 y" by (rule f64_mono_pos)
next
  case False
  assume le: "x \<le> y"
  show ?thesis
  proof (cases "y < 0")
    case True
    then show ?thesis using f64_mono_pos [of "- y" "- x"] le by (simp add: f64_minus)
  next
    case y: False
    have "0 \<le> f64 (- x)" using False by (intro f64_nonneg) simp
    moreover have "0 \<le> f64 y" using y by (intro f64_nonneg) simp
    ultimately show ?thesis by (simp add: f64_minus)
  qed
qed

text \<open>Values of the format, and the two computations on them that the queue makes.\<close>

definition is_f64 :: "rat \<Rightarrow> bool" where
  "is_f64 x = (f64 x = x)"

lemma f64_int: "\<bar>n\<bar> \<le> 2 ^ 53 \<Longrightarrow> f64 (of_int n) = of_int n"
  using f64_exact [of n 0] by (simp add: pow2_def)

lemma is_f64_int: "\<bar>n\<bar> \<le> 2 ^ 53 \<Longrightarrow> is_f64 (of_int n)"
  unfolding is_f64_def by (rule f64_int)

lemma f64_half_int: "\<bar>n\<bar> \<le> 2 ^ 53 \<Longrightarrow> f64 (of_int n / 2) = of_int n / 2"
  using f64_exact [of n "- 1"] by (simp add: pow2_def)

lemma rne_within: "rne x \<le> n" "- n \<le> rne x" if "\<bar>x\<bar> \<le> of_int n"
proof -
  have "x \<le> of_int n" "of_int (- n) \<le> x" using that by auto
  then show "rne x \<le> n" "- n \<le> rne x" using rne_mono rne_of_int by metis+
qed

lemma f64_form: "\<exists>m k. f64 x = of_int m * pow2 k \<and> \<bar>m\<bar> \<le> 2 ^ 53 \<and> - 1074 \<le> k"
proof (cases "x = 0")
  case False
  let ?u = "pow2 (ulp_exp x)"
  have "expo x + 1 \<le> 53 + ulp_exp x" by (simp add: ulp_exp_def)
  from pow2_mono [OF this] have "\<bar>x\<bar> \<le> pow2 (53 + ulp_exp x)"
    using expo_bounds(2) [OF False] by linarith
  then have "\<bar>x / ?u\<bar> \<le> of_int (2 ^ 53)"
    by (simp add: pow2_add abs_divide pow2_def [of 53] divide_le_eq)
  then have "\<bar>rne (x / ?u)\<bar> \<le> 2 ^ 53"
    using rne_within [of "x / ?u" "2 ^ 53"] by (simp add: abs_le_iff)
  moreover have "f64 x = of_int (rne (x / ?u)) * ?u" using False by (simp add: f64_def)
  moreover have "- 1074 \<le> ulp_exp x" by (simp add: ulp_exp_def)
  ultimately show ?thesis by blast
qed (auto simp: f64_def intro!: exI [of _ 0])

lemma is_f64_f64 [simp]: "is_f64 (f64 x)"
  using f64_form [of x] f64_exact by (auto simp: is_f64_def)

lemma is_f64_double: "is_f64 x \<Longrightarrow> is_f64 (2 * x)"
proof -
  assume "is_f64 x"
  then obtain m k where x: "x = of_int m * pow2 k" "\<bar>m\<bar> \<le> 2 ^ 53" "- 1074 \<le> k"
    using f64_form [of x] by (auto simp: is_f64_def)
  have "2 * x = of_int m * pow2 (k + 1)" using x(1) by (simp add: pow2_add pow2_def [of 1])
  moreover have "f64 (of_int m * pow2 (k + 1)) = of_int m * pow2 (k + 1)"
    using x(2,3) by (intro f64_exact) simp_all
  ultimately show ?thesis by (simp only: is_f64_def)
qed

text \<open>The midpoint of two scores as the code computes it.\<close>

definition fmid :: "rat \<Rightarrow> rat \<Rightarrow> rat" where
  "fmid x y = fdiv (fadd x y) 2"

lemma fmid_between:
  assumes "is_f64 x" "is_f64 y" "x \<le> y"
  shows "x \<le> fmid x y" "fmid x y \<le> y"
proof -
  have "f64 (2 * x) \<le> f64 (x + y)" "f64 (x + y) \<le> f64 (2 * y)"
    using assms by (auto intro: f64_mono)
  then have "x \<le> f64 (x + y) / 2" "f64 (x + y) / 2 \<le> y"
    using is_f64_double [OF assms(1)] is_f64_double [OF assms(2)] by (auto simp: is_f64_def)
  then have "f64 x \<le> fmid x y" "fmid x y \<le> f64 y"
    by (auto simp: fmid_def fdiv_def fadd_def intro: f64_mono)
  then show "x \<le> fmid x y" "fmid x y \<le> y"
    using assms by (simp_all add: is_f64_def)
qed

lemma fmid_exact_int:
  assumes "\<bar>a\<bar> \<le> 2 ^ 52" "\<bar>b\<bar> \<le> 2 ^ 52"
  shows "fmid (of_int a) (of_int b) = (of_int a + of_int b) / 2"
proof -
  have ab: "\<bar>a + b\<bar> \<le> 2 ^ 53"
    using assms abs_triangle_ineq [of a b] by simp
  have "f64 (of_int (a + b)) = of_int (a + b)" by (rule f64_int [OF ab])
  then show ?thesis
    using f64_half_int [OF ab] by (simp add: fmid_def fadd_def fdiv_def)
qed

end
