(* ===== verification/JobQueue.thy ===== *)
theory JobQueue
  imports JobStore Float64 "HOL-Library.Product_Lexorder"
begin

text \<open>
  The waiting queue: internal/repository/queue_repository.go, internal/service/queue_service.go
  and internal/model/entity/queue.go.

  The queue is one Redis sorted set. What the code relies on of it is the contract sorted_set:
  a set of members with one score each, listed by score and, for equal scores, by the bytes of
  the member. The queue service is proved against that contract; the model of the sorted set
  is the list of its elements in that order. Each call of a store may fail, by a flag of the
  environment record of the operation.
\<close>

section \<open>The sorted set\<close>

type_synonym zset = "(string \<times> rat) list"

definition zkey :: "string \<times> rat \<Rightarrow> rat \<times> string" where
  "zkey p = (snd p, fst p)"

lemma zkey_pair: "zkey (m, v) = (v, m)"
  by (simp add: zkey_def)

definition ZAdd :: "zset \<Rightarrow> string \<Rightarrow> rat \<Rightarrow> zset" where
  "ZAdd z m s = insort_key zkey (m, s) (filter (\<lambda>p. fst p \<noteq> m) z)"

definition ZRem :: "zset \<Rightarrow> string \<Rightarrow> zset" where
  "ZRem z m = filter (\<lambda>p. fst p \<noteq> m) z"

definition ZRank :: "zset \<Rightarrow> string \<Rightarrow> nat option" where
  "ZRank z m = (if m \<in> set (map fst z) then Some (length (takeWhile (\<lambda>p. fst p \<noteq> m) z)) else None)"

definition ZScore :: "zset \<Rightarrow> string \<Rightarrow> rat option" where
  "ZScore z m = map_of z m"

text \<open>ZRANGE start stop: both ends included, negative positions count from the end.\<close>

definition ZRange :: "zset \<Rightarrow> int \<Rightarrow> int \<Rightarrow> zset" where
  "ZRange z start stop = (let n = int (length z);
       a = (if start < 0 then max 0 (n + start) else start);
       b = (if stop < 0 then n + stop else min stop (n - 1)) in
     if a > b then [] else take (nat (b - a + 1)) (drop (nat a) z))"

definition zset_ok :: "zset \<Rightarrow> bool" where
  "zset_ok z = (distinct (map fst z) \<and> sorted (map zkey z))"

section \<open>The repository\<close>

record queue_sys =
  qset :: zset
  qseq :: int
  qjobs :: job_table

definition q_Add :: "bool \<Rightarrow> queue_sys \<Rightarrow> int \<Rightarrow> rat \<Rightarrow> queue_sys result" where
  "q_Add err s jobID score = (if err then Err RedisError
     else Ok (s\<lparr> qset := ZAdd (qset s) (Itoa jobID) score \<rparr>))"

definition q_Remove :: "bool \<Rightarrow> queue_sys \<Rightarrow> int \<Rightarrow> queue_sys result" where
  "q_Remove err s jobID = (if err then Err RedisError
     else Ok (s\<lparr> qset := ZRem (qset s) (Itoa jobID) \<rparr>))"

definition q_Peek :: "bool \<Rightarrow> queue_sys \<Rightarrow> (int \<times> rat) result" where
  "q_Peek err s = (if err then Err RedisError
     else case ZRange (qset s) 0 0 of
       [] \<Rightarrow> Ok (0, 0)
     | (m, score) # _ \<Rightarrow> (case Atoi m of None \<Rightarrow> Err (Errorf ''atoi'') | Some jobID \<Rightarrow> Ok (jobID, score)))"

text \<open>INCR refuses to pass the largest 64 bit value.\<close>

definition NextSeq :: "bool \<Rightarrow> queue_sys \<Rightarrow> (queue_sys \<times> int) result" where
  "NextSeq err s = (if err \<or> qseq s = int_max then Err RedisError
     else Ok (s\<lparr> qseq := qseq s + 1 \<rparr>, qseq s + 1))"

definition q_Range :: "bool \<Rightarrow> queue_sys \<Rightarrow> int \<Rightarrow> int \<Rightarrow> string list result" where
  "q_Range err s start stop = (if err then Err RedisError else Ok (map fst (ZRange (qset s) start stop)))"

definition RangeWithScores :: "bool \<Rightarrow> queue_sys \<Rightarrow> int \<Rightarrow> int \<Rightarrow> zset result" where
  "RangeWithScores err s start stop = (if err then Err RedisError else Ok (ZRange (qset s) start stop))"

definition q_Rank :: "bool \<Rightarrow> queue_sys \<Rightarrow> int \<Rightarrow> int result" where
  "q_Rank err s jobID = (if err then Err RedisError
     else case ZRank (qset s) (Itoa jobID) of None \<Rightarrow> Err RedisNil | Some r \<Rightarrow> Ok (int r))"

definition q_Score :: "bool \<Rightarrow> queue_sys \<Rightarrow> int \<Rightarrow> rat result" where
  "q_Score err s jobID = (if err then Err RedisError
     else case ZScore (qset s) (Itoa jobID) of None \<Rightarrow> Err RedisNil | Some v \<Rightarrow> Ok v)"

section \<open>The service\<close>

definition PriorityGap :: int where "PriorityGap = 1000000000"

definition MaxPriority :: int where "MaxPriority = 10"

definition enqueue_score :: "int \<Rightarrow> int \<Rightarrow> rat" where
  "enqueue_score priority seq =
     (let base = wrap64 (wrap64 (MaxPriority - priority) * PriorityGap) in f64 (of_int (wrap64 (base + seq))))"

text \<open>Enqueue: the sequence number stays taken when adding the member fails.\<close>

definition Enqueue :: "bool \<Rightarrow> bool \<Rightarrow> queue_sys \<Rightarrow> int \<Rightarrow> int \<Rightarrow> queue_sys \<times> unit result" where
  "Enqueue err_seq err_add s jobID priority = (case NextSeq err_seq s of
     Inl e \<Rightarrow> (s, Err e)
   | Inr (s1, seq) \<Rightarrow> (case q_Add err_add s1 jobID (enqueue_score priority seq) of
       Inl e \<Rightarrow> (s1, Err e)
     | Inr s2 \<Rightarrow> (s2, Ok ())))"

record Item =
  item_JobID :: int
  item_Score :: int

definition Peek :: "bool \<Rightarrow> queue_sys \<Rightarrow> Item option result" where
  "Peek err s = (case q_Peek err s of
     Inl e \<Rightarrow> Err e
   | Inr (jobID, score) \<Rightarrow> (if jobID = 0 then Ok None
       else Ok (Some \<lparr> item_JobID = jobID, item_Score = float_to_int score \<rparr>)))"

definition Remove :: "bool \<Rightarrow> queue_sys \<Rightarrow> int \<Rightarrow> queue_sys result" where
  "Remove err s jobID = q_Remove err s jobID"

record fix_env =
  fx_rank :: bool
  fx_get :: bool
  fx_update :: bool

definition fixJobStatusIfMovedFromHead :: "fix_env \<Rightarrow> int \<Rightarrow> queue_sys \<Rightarrow> int \<Rightarrow> queue_sys" where
  "fixJobStatusIfMovedFromHead e now s jobID = (case q_Rank (fx_rank e) s jobID of
     Inl _ \<Rightarrow> s
   | Inr r \<Rightarrow> (if r > 0 then
       (case GetByID (fx_get e) (qjobs s) jobID of
          Inl _ \<Rightarrow> s
        | Inr job \<Rightarrow> (if job_Status job = JobStatusWaitingGpu then
            (case UpdateStatus (fx_update e) now (qjobs s) jobID JobStatusQueued of
               Inl _ \<Rightarrow> s
             | Inr t \<Rightarrow> s\<lparr> qjobs := t \<rparr>)
            else s))
       else s))"

record move_env =
  mv_peek :: bool
  mv_rank :: bool
  mv_score :: bool
  mv_range :: bool
  mv_add :: bool
  mv_sug :: bool
  mv_fix_head :: fix_env
  mv_fix_job :: fix_env

text \<open>The new score of MoveBefore; prevs[0] of an empty answer is a run-time panic.\<close>

definition move_score :: "bool \<Rightarrow> queue_sys \<Rightarrow> int \<Rightarrow> rat \<Rightarrow> rat result" where
  "move_score err_range s r beforeScore =
     (if r = 0 then Ok (fsub beforeScore (f64 (of_int PriorityGap)))
      else case RangeWithScores err_range s (r - 1) (r - 1) of
        Inl e \<Rightarrow> Err e
      | Inr [] \<Rightarrow> Err (Panic ''index'')
      | Inr ((_, prevScore) # _) \<Rightarrow> Ok (fdiv (fadd prevScore beforeScore) 2))"

definition MoveBefore :: "move_env \<Rightarrow> int \<Rightarrow> queue_sys \<Rightarrow> int \<Rightarrow> int \<Rightarrow> queue_sys \<times> unit result" where
  "MoveBefore e now s jobID beforeJobID =
     (case q_Peek (mv_peek e) s of
        Inl x \<Rightarrow> (s, Err x)
      | Inr (oldHeadID, _) \<Rightarrow>
     (case q_Rank (mv_rank e) s beforeJobID of
        Inl x \<Rightarrow> (s, Err x)
      | Inr r \<Rightarrow>
     (case q_Score (mv_score e) s beforeJobID of
        Inl x \<Rightarrow> (s, Err x)
      | Inr beforeScore \<Rightarrow>
     (case move_score (mv_range e) s r beforeScore of
        Inl x \<Rightarrow> (s, Err x)
      | Inr newScore \<Rightarrow>
     (case q_Add (mv_add e) s jobID newScore of
        Inl x \<Rightarrow> (s, Err x)
      | Inr s1 \<Rightarrow>
     (case UpdateSug (mv_sug e) (qjobs s1) jobID of
        Inl x \<Rightarrow> (s1, Err x)
      | Inr t \<Rightarrow>
         (let s2 = s1\<lparr> qjobs := t \<rparr>;
              s3 = (if oldHeadID \<noteq> 0 then fixJobStatusIfMovedFromHead (mv_fix_head e) now s2 oldHeadID else s2)
          in (fixJobStatusIfMovedFromHead (mv_fix_job e) now s3 jobID, Ok ()))))))))"

definition GetFrontCount :: "bool \<Rightarrow> queue_sys \<Rightarrow> int \<Rightarrow> int result" where
  "GetFrontCount err s jobID = (case q_Rank err s jobID of
     Inl e \<Rightarrow> (if e = RedisNil then Ok (- 1) else Err e)
   | Inr r \<Rightarrow> Ok r)"

record QueueJobResponse =
  qp_JobID :: int
  qp_UserName :: string
  qp_JobName :: string
  qp_Description :: string
  qp_Status :: int
  qp_SubmittedAt :: int
  qp_WaitSeconds :: int
  qp_FrontCount :: int
  qp_Sug :: int

record page_env =
  pg_run_count :: bool
  pg_run_scan :: bool
  pg_range :: bool
  pg_list_count :: bool
  pg_list_scan :: bool
  pg_rank :: "int \<Rightarrow> bool"

definition queue_response :: "(int \<Rightarrow> bool) \<Rightarrow> int \<Rightarrow> queue_sys \<Rightarrow> QueueJobDBRow \<Rightarrow> QueueJobResponse" where
  "queue_response err_rank now s row =
     (let r = (if qr_Status row = JobStatusQueued \<or> qr_Status row = JobStatusWaitingGpu then
                 (case q_Rank (err_rank (qr_JobID row)) s (qr_JobID row) of Inl _ \<Rightarrow> 0 | Inr r \<Rightarrow> r)
               else 0);
          w = float_to_int (Seconds (time_sub now (qr_SubmittedAt row)))
      in \<lparr> qp_JobID = qr_JobID row, qp_UserName = qr_UserName row, qp_JobName = qr_JobName row,
           qp_Description = qr_Description row, qp_Status = qr_Status row,
           qp_SubmittedAt = qr_SubmittedAt row, qp_WaitSeconds = (if w < 0 then 0 else w),
           qp_FrontCount = r, qp_Sug = qr_Sug row \<rparr>)"

text \<open>The slice of GetQueuePage, with its two early ends and the bounds check of the language.\<close>

definition page_slice :: "int \<Rightarrow> int \<Rightarrow> 'a list \<Rightarrow> 'a list result" where
  "page_slice page pageSize xs =
     (let startIdx = wrap64 (wrap64 (page - 1) * pageSize);
          endIdx = wrap64 (startIdx + pageSize)
      in if startIdx \<ge> int (length xs) then Ok []
         else let endIdx = (if endIdx > int (length xs) then int (length xs) else endIdx) in
           if startIdx < 0 \<or> endIdx < startIdx then Err (Panic ''slice bounds'')
           else Ok (take (nat (endIdx - startIdx)) (drop (nat startIdx) xs)))"

definition GetQueuePage ::
  "(string \<Rightarrow> string \<Rightarrow> bool) \<Rightarrow> (int \<Rightarrow> string) \<Rightarrow> page_env \<Rightarrow> int \<Rightarrow> queue_sys \<Rightarrow> QueueListRequest \<Rightarrow>
   int option \<Rightarrow> int option \<Rightarrow> (QueueJobResponse list \<times> int \<times> int \<times> int) result" where
  "GetQueuePage like uname e now s req startTime endTime =
     (case GetRunningJobs like uname (pg_run_count e) (pg_run_scan e) (qjobs s) req startTime endTime of
        Inl x \<Rightarrow> Err x
      | Inr (runningJobs, _) \<Rightarrow>
     (case q_Range (pg_range e) s 0 (- 1) of
        Inl x \<Rightarrow> Err x
      | Inr members \<Rightarrow>
     (case GetQueueJobListFiltered like uname (pg_list_count e) (pg_list_scan e) (qjobs s)
             (List.map_filter Atoi members) req startTime endTime of
        Inl x \<Rightarrow> Err x
      | Inr (queuedJobs, _) \<Rightarrow>
         (let allJobs = runningJobs @ queuedJobs;
              pageSize = (if ql_PageSize req \<le> 0 then 10 else ql_PageSize req);
              page = (if ql_Page req \<le> 0 then 1 else ql_Page req)
          in case page_slice page pageSize allJobs of
               Inl x \<Rightarrow> Err x
             | Inr rows \<Rightarrow> Ok (map (queue_response (pg_rank e) now s) rows, int (length allJobs), page, pageSize)))))"

section \<open>The contract of the sorted set\<close>

locale sorted_set =
  fixes ok :: "'z \<Rightarrow> bool"
    and elems :: "'z \<Rightarrow> (string \<times> rat) list"
    and add :: "'z \<Rightarrow> string \<Rightarrow> rat \<Rightarrow> 'z"
    and rem :: "'z \<Rightarrow> string \<Rightarrow> 'z"
  assumes members_distinct: "ok z \<Longrightarrow> distinct (map fst (elems z))"
    and elems_sorted: "ok z \<Longrightarrow> sorted (map zkey (elems z))"
    and ok_add: "ok z \<Longrightarrow> ok (add z m v)"
    and ok_rem: "ok z \<Longrightarrow> ok (rem z m)"
    and set_add: "ok z \<Longrightarrow> set (elems (add z m v)) = insert (m, v) {p \<in> set (elems z). fst p \<noteq> m}"
    and set_rem: "ok z \<Longrightarrow> set (elems (rem z m)) = {p \<in> set (elems z). fst p \<noteq> m}"
begin

lemma elems_unique:
  assumes "ok z" "sorted (map zkey ps)" "distinct (map fst ps)" "set ps = set (elems z)"
  shows "elems z = ps"
proof -
  have inj: "inj zkey" by (auto simp: inj_def zkey_def prod_eq_iff)
  have "distinct (map zkey qs)" if "distinct (map fst qs)" for qs
    using that inj by (metis distinct_map inj_on_subset subset_UNIV)
  then have "map zkey (elems z) = map zkey ps"
    using assms members_distinct elems_sorted
    by (intro sorted_distinct_set_unique) (simp_all)
  then show ?thesis using inj by (simp add: inj_map_eq_map)
qed

text \<open>An added member lands where its score and name put it, and nothing else moves.\<close>

lemma elems_add:
  assumes ok: "ok z" and z: "elems z = xs @ ys"
    and less: "\<forall>p \<in> set xs. fst p \<noteq> m \<longrightarrow> zkey p < (v, m)"
    and greater: "\<forall>p \<in> set ys. fst p \<noteq> m \<longrightarrow> (v, m) < zkey p"
  shows "elems (add z m v) = filter (\<lambda>p. fst p \<noteq> m) xs @ (m, v) # filter (\<lambda>p. fst p \<noteq> m) ys"
proof (rule elems_unique)
  show "ok (add z m v)" by (rule ok_add [OF ok])
  have s: "sorted (map zkey xs)" "sorted (map zkey ys)" "\<forall>p \<in> set xs. \<forall>q \<in> set ys. zkey p \<le> zkey q"
    using elems_sorted [OF ok] z by (auto simp: sorted_append)
  moreover have "\<forall>p \<in> set (filter (\<lambda>p. fst p \<noteq> m) xs). zkey p \<le> zkey (m, v)"
    "\<forall>p \<in> set (filter (\<lambda>p. fst p \<noteq> m) ys). zkey (m, v) \<le> zkey p"
    using less greater zkey_pair [of m v] by (auto simp only: set_filter mem_Collect_eq intro!: order_less_imp_le)
  ultimately show "sorted (map zkey (filter (\<lambda>p. fst p \<noteq> m) xs @ (m, v) # filter (\<lambda>p. fst p \<noteq> m) ys))"
    by (simp add: sorted_append sorted_filter)
  have "distinct (map fst xs)" "distinct (map fst ys)" "set (map fst xs) \<inter> set (map fst ys) = {}"
    using members_distinct [OF ok] z by auto
  then show "distinct (map fst (filter (\<lambda>p. fst p \<noteq> m) xs @ (m, v) # filter (\<lambda>p. fst p \<noteq> m) ys))"
    by (auto simp: distinct_map_filter)
  show "set (filter (\<lambda>p. fst p \<noteq> m) xs @ (m, v) # filter (\<lambda>p. fst p \<noteq> m) ys) = set (elems (add z m v))"
    using set_add [OF ok] z by auto
qed

lemma elems_rem: "ok z \<Longrightarrow> elems (rem z m) = filter (\<lambda>p. fst p \<noteq> m) (elems z)"
  by (rule elems_unique)
    (simp_all add: ok_rem set_rem members_distinct elems_sorted sorted_filter distinct_map_filter)

end

lemma set_ZAdd: "set (ZAdd z m v) = insert (m, v) {p \<in> set z. fst p \<noteq> m}"
  by (auto simp: ZAdd_def set_insort_key)

lemma zset_ok_ZAdd [keeps]:
  assumes "zset_ok z"
  shows "zset_ok (ZAdd z m v)"
proof -
  let ?f = "filter (\<lambda>p. fst p \<noteq> m) z"
  have "distinct (map fst (insort_key zkey p xs))" if "distinct (map fst (p # xs))" for p and xs :: zset
    using that by (induction xs) (auto simp: set_insort_key)
  moreover have "distinct (map fst ((m, v) # ?f))"
    using assms by (auto simp: zset_ok_def distinct_map_filter)
  moreover have "sorted (map zkey ?f)" using assms by (simp add: zset_ok_def sorted_filter)
  ultimately show ?thesis
    unfolding zset_ok_def ZAdd_def by (auto intro: sorted_insort_key [THEN iffD2])
qed

lemma zset_ok_ZRem [keeps]: "zset_ok z \<Longrightarrow> zset_ok (ZRem z m)"
  by (simp add: zset_ok_def ZRem_def sorted_filter distinct_map_filter)

interpretation zs: sorted_set zset_ok "\<lambda>z. z" ZAdd ZRem
proof (unfold_locales, goal_cases)
  case (6 z m)
  show ?case by (auto simp: ZRem_def)
qed (simp_all add: set_ZAdd keeps, simp_all add: zset_ok_def)

section \<open>Arrival order\<close>

text \<open>A sequence of submissions to the empty queue, none of whose store calls fails.\<close>

fun enqueue_all :: "(int \<times> int) list \<Rightarrow> queue_sys \<Rightarrow> queue_sys" where
  "enqueue_all [] s = s"
| "enqueue_all ((jobID, priority) # js) s = enqueue_all js (fst (Enqueue False False s jobID priority))"

text \<open>The abstract queue: jobs by falling priority, those of one priority in arrival order.\<close>

definition by_priority :: "(int \<times> int) list \<Rightarrow> int list" where
  "by_priority js = map fst (sort_key (\<lambda>jp. - snd jp) js)"

definition waiting_jobs :: "queue_sys \<Rightarrow> int list" where
  "waiting_jobs s = List.map_filter Atoi (map fst (qset s))"

lemma enqueue_score_exact:
  assumes "0 \<le> p" "p \<le> MaxPriority" "0 \<le> n" "n < PriorityGap"
  shows "enqueue_score p n = of_int ((MaxPriority - p) * PriorityGap + n)"
proof -
  have "wrap64 (MaxPriority - p) = MaxPriority - p"
    using assms by (intro wrap64_id) (simp add: in_int_def int_min_def int_max_def MaxPriority_def)
  moreover have "wrap64 ((MaxPriority - p) * PriorityGap) = (MaxPriority - p) * PriorityGap"
    using assms by (intro wrap64_id) (simp add: in_int_def int_min_def int_max_def MaxPriority_def PriorityGap_def)
  moreover have "wrap64 ((MaxPriority - p) * PriorityGap + n) = (MaxPriority - p) * PriorityGap + n"
    using assms by (intro wrap64_id) (simp add: in_int_def int_min_def int_max_def MaxPriority_def PriorityGap_def)
  moreover have "\<bar>(MaxPriority - p) * PriorityGap + n\<bar> \<le> 2 ^ 53"
    using assms by (simp add: MaxPriority_def PriorityGap_def)
  ultimately show ?thesis
    using f64_int [of "(MaxPriority - p) * PriorityGap + n"] by (simp only: enqueue_score_def Let_def)
qed

lemma enqueue_all_snoc:
  "enqueue_all (js @ [(j, p)]) s = fst (Enqueue False False (enqueue_all js s) j p)"
  by (induction js s rule: enqueue_all.induct) auto

text \<open>The set after n submissions: the entries of the sorted submissions with their numbers.\<close>

definition numbered :: "(int \<times> int) list \<Rightarrow> ((int \<times> int) \<times> int) list" where
  "numbered js = zip js (map (\<lambda>k. int k + 1) [0..<length js])"

definition entry_of :: "(int \<times> int) \<times> int \<Rightarrow> string \<times> rat" where
  "entry_of x = (Itoa (fst (fst x)), of_int ((MaxPriority - snd (fst x)) * PriorityGap + snd x))"

abbreviation falling :: "(int \<times> int) \<times> int \<Rightarrow> int" where
  "falling x \<equiv> - snd (fst x)"

lemma numbered_snoc: "numbered (js @ [x]) = numbered js @ [(x, int (length js) + 1)]"
  by (simp add: numbered_def)

lemma map_fst_numbered: "map fst (numbered js) = js"
  by (simp add: numbered_def)

lemma numbered_range: "x \<in> set (numbered js) \<Longrightarrow> 1 \<le> snd x \<and> snd x \<le> int (length js) \<and> fst x \<in> set js"
  by (auto simp: numbered_def in_set_zip) (metis nth_mem)

lemma Enqueue_ok:
  "qseq s \<noteq> int_max \<Longrightarrow> Enqueue False False s j p =
     (s\<lparr> qseq := qseq s + 1, qset := ZAdd (qset s) (Itoa j) (enqueue_score p (qseq s + 1)) \<rparr>, Ok ())"
  by (simp add: Enqueue_def NextSeq_def q_Add_def)

definition submissions_ok :: "(int \<times> int) list \<Rightarrow> bool" where
  "submissions_ok js = (distinct (map fst js) \<and> int (length js) < PriorityGap \<and>
     list_all (\<lambda>jp. in_int (fst jp) \<and> 0 \<le> snd jp \<and> snd jp \<le> MaxPriority) js)"

lemma entry_order:
  assumes "int (length js) < PriorityGap - 1" "x \<in> set (numbered js)"
    and "fst (entry_of x) \<noteq> m" "v = of_int ((MaxPriority - p) * PriorityGap + (int (length js) + 1))"
  shows "falling x \<le> - p \<Longrightarrow> zkey (entry_of x) < (v, m)"
    and "- p < falling x \<Longrightarrow> (v, m) < zkey (entry_of x)"
proof -
  have k: "1 \<le> snd x" "snd x \<le> int (length js)" using numbered_range assms(2) by blast+
  show "zkey (entry_of x) < (v, m)" if "falling x \<le> - p"
  proof -
    have "(MaxPriority - snd (fst x)) * PriorityGap \<le> (MaxPriority - p) * PriorityGap"
      using that by (simp add: PriorityGap_def)
    then have "(MaxPriority - snd (fst x)) * PriorityGap + snd x < (MaxPriority - p) * PriorityGap + (int (length js) + 1)"
      using k by linarith
    then show ?thesis by (simp only: entry_of_def zkey_pair assms less_prod_simp of_int_less_iff simp_thms)
  qed
  show "(v, m) < zkey (entry_of x)" if "- p < falling x"
  proof -
    have "(MaxPriority - p + 1) * PriorityGap \<le> (MaxPriority - snd (fst x)) * PriorityGap"
      using that by (simp add: PriorityGap_def)
    then have "(MaxPriority - p) * PriorityGap + PriorityGap \<le> (MaxPriority - snd (fst x)) * PriorityGap"
      by (simp add: distrib_right)
    then have "(MaxPriority - p) * PriorityGap + (int (length js) + 1) < (MaxPriority - snd (fst x)) * PriorityGap + snd x"
      using k assms(1) by linarith
    then show ?thesis by (simp only: entry_of_def zkey_pair assms less_prod_simp of_int_less_iff simp_thms)
  qed
qed

lemma enqueue_all_entries:
  assumes "qset s0 = []" "qseq s0 = 0"
  shows "submissions_ok js \<Longrightarrow>
    qset (enqueue_all js s0) = map entry_of (sort_key falling (numbered js)) \<and>
    qseq (enqueue_all js s0) = int (length js) \<and> zset_ok (qset (enqueue_all js s0))"
proof (induction js rule: rev_induct)
  case (snoc jp js)
  obtain j p where jp: "jp = (j, p)" by (cases jp)
  let ?s = "enqueue_all js s0" and ?m = "Itoa j" and ?n = "int (length js) + 1"
  let ?v = "of_int ((MaxPriority - p) * PriorityGap + ?n) :: rat"
  let ?ss = "sort_key falling (numbered js)"
  let ?l = "filter (\<lambda>x. falling x \<le> - p) ?ss" and ?r = "filter (\<lambda>x. - p < falling x) ?ss"
  have ok: "submissions_ok js" using snoc.prems by (auto simp: submissions_ok_def)
  have IH: "qset ?s = map entry_of ?ss" "qseq ?s = int (length js)" "zset_ok (qset ?s)"
    using snoc.IH [OF ok] by auto
  have len: "int (length js) < PriorityGap - 1" and p: "0 \<le> p" "p \<le> MaxPriority"
    using snoc.prems jp by (auto simp: submissions_ok_def)
  have new: "fst (entry_of x) \<noteq> ?m" if "x \<in> set (numbered js)" for x
    using that snoc.prems numbered_range [OF that]
    by (auto simp: entry_of_def submissions_ok_def jp image_iff)
  have split: "map entry_of ?ss = map entry_of ?l @ map entry_of ?r"
    using sorted_filter_split [of falling ?ss "- p"] by (metis map_append sorted_sort_key)
  have "qset (enqueue_all (js @ [jp]) s0) = ZAdd (qset ?s) ?m ?v"
    using enqueue_score_exact [OF p, of ?n] IH(2) len
    by (simp add: jp enqueue_all_snoc Enqueue_ok int_max_def PriorityGap_def)
  also have "\<dots> = filter (\<lambda>q. fst q \<noteq> ?m) (map entry_of ?l) @ (?m, ?v) # filter (\<lambda>q. fst q \<noteq> ?m) (map entry_of ?r)"
    using IH split entry_order [OF len] by (intro zs.elems_add) auto
  also have "\<dots> = map entry_of ?l @ (?m, ?v) # map entry_of ?r"
    using new by (auto simp: filter_id_conv)
  also have "\<dots> = map entry_of (sort_key falling (numbered (js @ [jp])))"
    unfolding numbered_snoc sort_key_snoc by (simp add: jp entry_of_def)
  finally have "qset (enqueue_all (js @ [jp]) s0) = map entry_of (sort_key falling (numbered (js @ [jp])))" .
  moreover have "qseq (enqueue_all (js @ [jp]) s0) = int (length (js @ [jp]))"
    "zset_ok (qset (enqueue_all (js @ [jp]) s0))"
    using IH len by (simp_all add: jp enqueue_all_snoc Enqueue_ok int_max_def PriorityGap_def keeps)
  ultimately show ?case by simp
qed (use assms in \<open>simp add: numbered_def zset_ok_def\<close>)

lemma waiting_jobs_entries:
  assumes "list_all (\<lambda>x. in_int (fst (fst x))) xs"
  shows "List.map_filter Atoi (map fst (map entry_of xs)) = map (\<lambda>x. fst (fst x)) xs"
  using assms by (induction xs) (simp_all add: entry_of_def Atoi_Itoa map_filter_simps)

section \<open>Reordering\<close>

text \<open>The abstract operation: take the job out and put it back right before the target.\<close>

definition move_before :: "'a \<Rightarrow> 'a \<Rightarrow> 'a list \<Rightarrow> 'a list" where
  "move_before m b xs = filter (\<lambda>x. x \<noteq> m) (takeWhile (\<lambda>x. x \<noteq> b) xs) @ m #
                        filter (\<lambda>x. x \<noteq> m) (dropWhile (\<lambda>x. x \<noteq> b) xs)"

text \<open>Whether float64 has a value between the target's score and the one before it.\<close>

definition has_room :: "zset \<Rightarrow> string \<Rightarrow> bool" where
  "has_room z b = (case ZRank z b of
     None \<Rightarrow> False
   | Some r \<Rightarrow> (let q = snd (z ! r) in
       if r = 0 then fsub q (f64 (of_int PriorityGap)) < q
       else let p = snd (z ! (r - 1)) in p < fmid p q \<and> fmid p q < q))"

definition members_ok :: "zset \<Rightarrow> bool" where
  "members_ok z = list_all (\<lambda>p. case Atoi (fst p) of None \<Rightarrow> False | Some j \<Rightarrow> 0 < j \<and> Itoa j = fst p) z"

definition no_move_error :: "move_env \<Rightarrow> bool" where
  "no_move_error e = (\<not> (mv_peek e \<or> mv_rank e \<or> mv_score e \<or> mv_range e \<or> mv_add e \<or> mv_sug e))"

lemma zset_scores_mono:
  assumes "zset_ok z" "i \<le> j" "j < length z"
  shows "snd (z ! i) \<le> snd (z ! j)"
proof -
  have "map zkey z ! i \<le> map zkey z ! j"
    using assms by (intro sorted_nth_mono) (simp_all add: zset_ok_def)
  then show ?thesis using assms by (auto simp: zkey_def less_eq_prod_def)
qed

lemma ZRank_SomeD:
  assumes "ZRank z m = Some r"
  shows "r < length z" "fst (z ! r) = m" "take r z = takeWhile (\<lambda>p. fst p \<noteq> m) z"
    "drop r z = dropWhile (\<lambda>p. fst p \<noteq> m) z"
proof -
  have r: "r = length (takeWhile (\<lambda>p. fst p \<noteq> m) z)" and m: "m \<in> set (map fst z)"
    using assms by (auto simp: ZRank_def split: if_splits)
  show "take r z = takeWhile (\<lambda>p. fst p \<noteq> m) z" "drop r z = dropWhile (\<lambda>p. fst p \<noteq> m) z"
    using r by (simp_all add: takeWhile_eq_take [symmetric] dropWhile_eq_drop)
  show len: "r < length z"
    using r m by (metis (mono_tags, lifting) imageE length_takeWhile_le list.set_map nat_less_le
        takeWhile_eq_all_conv takeWhile_eq_take take_all_iff order_refl)
  show "fst (z ! r) = m"
    using r len nth_length_takeWhile [of "\<lambda>p. fst p \<noteq> m" z] by simp
qed

lemma ZScore_nth: "zset_ok z \<Longrightarrow> ZRank z m = Some r \<Longrightarrow> ZScore z m = Some (snd (z ! r))"
  using ZRank_SomeD [of z m r] by (auto simp: ZScore_def zset_ok_def)

lemma ZRange_one: "r < length z \<Longrightarrow> ZRange z (int r) (int r) = [z ! r]"
  by (auto simp: ZRange_def take_Suc_conv_app_nth hd_drop_conv_nth take_Suc)

lemma ZRange_all: "ZRange z 0 (- 1) = z"
  by (cases z) (auto simp: ZRange_def)

lemma ZRange_head: "ZRange z 0 0 = take 1 z"
  by (cases z) (auto simp: ZRange_def)

lemma fix_qset [simp]:
  "qset (fixJobStatusIfMovedFromHead e now s j) = qset s"
  "qseq (fixJobStatusIfMovedFromHead e now s j) = qseq s"
  by (auto simp: fixJobStatusIfMovedFromHead_def split: sum.splits)

definition target_score :: "zset \<Rightarrow> nat \<Rightarrow> rat" where
  "target_score z r = (if r = 0 then fsub (snd (z ! r)) (f64 (of_int PriorityGap))
                       else fmid (snd (z ! (r - 1))) (snd (z ! r)))"

lemma move_score_ok:
  assumes "ZRank (qset s) (Itoa b) = Some r"
  shows "move_score False s (int r) (snd (qset s ! r)) = Ok (target_score (qset s) r)"
proof (cases r)
  case (Suc k)
  then have "ZRange (qset s) (int r - 1) (int r - 1) = [qset s ! k]"
    using ZRange_one [of k "qset s"] ZRank_SomeD(1) [OF assms] by simp
  then show ?thesis
    using Suc by (cases "qset s ! k") (simp add: move_score_def RangeWithScores_def target_score_def fmid_def)
qed (simp add: move_score_def target_score_def)

lemma q_Peek_ok:
  "members_ok (qset s) \<Longrightarrow> \<exists>h v. q_Peek False s = Ok (h, v) \<and>
     (qset s \<noteq> [] \<longrightarrow> Itoa h = fst (hd (qset s))) \<and> (qset s = [] \<longrightarrow> h = 0)"
  by (cases "qset s") (auto simp: q_Peek_def ZRange_head members_ok_def split: option.splits)

lemma MoveBefore_qset:
  assumes ok: "zset_ok (qset s)" "members_ok (qset s)" "no_move_error e"
    and r: "ZRank (qset s) (Itoa b) = Some r"
  shows "snd (MoveBefore e now s j b) = Ok ()"
    and "qset (fst (MoveBefore e now s j b)) = ZAdd (qset s) (Itoa j) (target_score (qset s) r)"
proof -
  obtain h v where h: "q_Peek False s = Ok (h, v)" using q_Peek_ok [OF ok(2)] by blast
  have "q_Rank False s b = Ok (int r)" by (simp add: q_Rank_def r)
  moreover have "q_Score False s b = Ok (snd (qset s ! r))"
    using ZScore_nth [OF ok(1) r] by (simp add: q_Score_def)
  ultimately show "snd (MoveBefore e now s j b) = Ok ()"
      "qset (fst (MoveBefore e now s j b)) = ZAdd (qset s) (Itoa j) (target_score (qset s) r)"
    using ok(3) h move_score_ok [OF r]
    by (simp_all add: MoveBefore_def no_move_error_def q_Add_def UpdateSug_def Let_def)
qed

lemma target_between:
  assumes ok: "zset_ok z" and r: "ZRank z b = Some r" and room: "has_room z b"
  shows "p \<in> set (take r z) \<Longrightarrow> zkey p < (target_score z r, m)"
    and "p \<in> set (drop r z) \<Longrightarrow> (target_score z r, m) < zkey p"
proof -
  note rD = ZRank_SomeD [OF r]
  have v: "target_score z r < snd (z ! r)" "r \<noteq> 0 \<Longrightarrow> snd (z ! (r - 1)) < target_score z r"
    using room by (auto simp: has_room_def r target_score_def Let_def split: if_splits)
  show "zkey p < (target_score z r, m)" if p: "p \<in> set (take r z)"
  proof -
    obtain i where i: "i < r" "p = z ! i" using p rD(1) by (auto simp: in_set_conv_nth)
    have "snd p \<le> snd (z ! (r - 1))"
      using zset_scores_mono [OF ok, of i "r - 1"] i rD(1) by simp
    then have "snd p < target_score z r" using v i by simp
    then show ?thesis by (simp add: zkey_def)
  qed
  show "(target_score z r, m) < zkey p" if p: "p \<in> set (drop r z)"
  proof -
    obtain i where "i < length (drop r z)" "p = drop r z ! i"
      using p by (metis in_set_conv_nth)
    then have i: "r + i < length z" "p = z ! (r + i)" by simp_all
    have "snd (z ! r) \<le> snd p" using zset_scores_mono [OF ok, of r "r + i"] i by simp
    then have "target_score z r < snd p" using v by simp
    then show ?thesis by (simp add: zkey_def)
  qed
qed

lemma ZAdd_move:
  assumes ok: "zset_ok z" and r: "ZRank z b = Some r" and room: "has_room z b"
  shows "map fst (ZAdd z m (target_score z r)) = move_before m b (map fst z)"
proof -
  have "ZAdd z m (target_score z r) =
      filter (\<lambda>p. fst p \<noteq> m) (take r z) @ (m, target_score z r) # filter (\<lambda>p. fst p \<noteq> m) (drop r z)"
    using target_between [OF assms] by (intro zs.elems_add [OF ok]) simp_all
  then show ?thesis
    using ZRank_SomeD(3,4) [OF r]
    by (simp add: move_before_def takeWhile_map dropWhile_map filter_map comp_def)
qed

section \<open>Only the head waits for cards\<close>

definition waiting_at_head :: "queue_sys \<Rightarrow> bool" where
  "waiting_at_head s = list_all (\<lambda>p. case Atoi (fst p) of None \<Rightarrow> True
     | Some j \<Rightarrow> status_of (qjobs s) j \<noteq> Some JobStatusWaitingGpu) (tl (qset s))"

definition no_fix_error :: "fix_env \<Rightarrow> bool" where
  "no_fix_error e = (\<not> (fx_rank e \<or> fx_get e \<or> fx_update e))"

abbreviation behind_head :: "queue_sys \<Rightarrow> int \<Rightarrow> bool" where
  "behind_head s j \<equiv> Itoa j \<in> set (map fst (tl (qset s)))"

lemma Queued_neq_Waiting [simp]: "JobStatusQueued \<noteq> JobStatusWaitingGpu"
  by (simp add: job_status_defs)

lemma ZRank_pos_iff:
  "distinct (map fst z) \<Longrightarrow> (\<exists>r. ZRank z m = Some r \<and> 0 < r) \<longleftrightarrow> m \<in> set (map fst (tl z))"
  by (cases z) (auto simp: ZRank_def)

lemma status_UpdateStatus:
  "UpdateStatus err now t i st = Ok t' \<Longrightarrow>
   status_of t' k = (if k = i \<and> status_of t i \<noteq> None then Some st else status_of t k)"
  using find_UpdateStatus [of err now t i st t' k] by (auto simp: status_of_def)

lemma status_UpdateSug: "UpdateSug err t i = Ok t' \<Longrightarrow> status_of t' k = status_of t k"
proof -
  assume "UpdateSug err t i = Ok t'"
  then have "t' = map (\<lambda>j. if job_ID j = i then j\<lparr> job_Sug := 1 \<rparr> else j) t"
    by (simp add: UpdateSug_def split: if_splits)
  then show ?thesis
    by (simp add: status_of_def find_job_map option.map_comp comp_def if_distrib [of job_Status] cong: if_cong)
qed

lemma fix_status:
  assumes "no_fix_error e" "zset_ok (qset s)"
  shows "status_of (qjobs (fixJobStatusIfMovedFromHead e now s j)) k =
    (if k = j \<and> behind_head s j \<and> status_of (qjobs s) j = Some JobStatusWaitingGpu
     then Some JobStatusQueued else status_of (qjobs s) k)"
proof -
  have d: "distinct (map fst (qset s))" using assms by (simp add: zset_ok_def)
  have rank: "behind_head s j \<longleftrightarrow> (\<exists>r. ZRank (qset s) (Itoa j) = Some r \<and> 0 < r)"
    using ZRank_pos_iff [OF d] by blast
  show ?thesis
  proof (cases "behind_head s j \<and> status_of (qjobs s) j = Some JobStatusWaitingGpu")
    case True
    then obtain r where r: "ZRank (qset s) (Itoa j) = Some r" "0 < r" using rank by blast
    obtain job where job: "find_job (qjobs s) j = Some job" "job_Status job = JobStatusWaitingGpu"
      using True by (auto simp: status_of_def)
    obtain t where t: "UpdateStatus False now (qjobs s) j JobStatusQueued = Ok t"
      by (simp add: UpdateStatus_def)
    then have "fixJobStatusIfMovedFromHead e now s j = s\<lparr> qjobs := t \<rparr>"
      using assms(1) r job by (simp add: fixJobStatusIfMovedFromHead_def no_fix_error_def q_Rank_def GetByID_def)
    then show ?thesis using True status_UpdateStatus [OF t, of k] by auto
  next
    case False
    then have "fixJobStatusIfMovedFromHead e now s j = s"
      using rank assms(1)
      by (auto simp: fixJobStatusIfMovedFromHead_def no_fix_error_def q_Rank_def GetByID_def status_of_def
          split: option.splits)
    then show ?thesis using False by auto
  qed
qed

lemma MoveBefore_jobs:
  assumes ok: "zset_ok (qset s)" "members_ok (qset s)" "no_move_error e"
    and r: "ZRank (qset s) (Itoa b) = Some r" and h: "q_Peek False s = Ok (h, v)" "h \<noteq> 0"
  shows "\<exists>s2. qset s2 = ZAdd (qset s) (Itoa j) (target_score (qset s) r) \<and>
    (\<forall>k. status_of (qjobs s2) k = status_of (qjobs s) k) \<and>
    fst (MoveBefore e now s j b) =
      fixJobStatusIfMovedFromHead (mv_fix_job e) now (fixJobStatusIfMovedFromHead (mv_fix_head e) now s2 h) j"
proof -
  have "q_Rank False s b = Ok (int r)" by (simp add: q_Rank_def r)
  moreover have "q_Score False s b = Ok (snd (qset s ! r))"
    using ZScore_nth [OF ok(1) r] by (simp add: q_Score_def)
  moreover obtain t where t: "UpdateSug False (qjobs s) j = Ok t" by (simp add: UpdateSug_def)
  ultimately show ?thesis
    using ok(3) h move_score_ok [OF r] status_UpdateSug [OF t]
    by (intro exI [of _ "s\<lparr> qset := ZAdd (qset s) (Itoa j) (target_score (qset s) r), qjobs := t \<rparr>"])
      (simp add: MoveBefore_def no_move_error_def q_Add_def Let_def)
qed

lemma set_tl_ZAdd:
  assumes "zset_ok z" "z \<noteq> []" "p \<in> set (tl (ZAdd z m v))"
  shows "fst p = m \<or> fst p = fst (hd z) \<or> p \<in> set (tl z)"
proof -
  have "p \<in> set (ZAdd z m v)" using assms(3) by (cases "ZAdd z m v") auto
  then show ?thesis using assms(2) by (cases z) (auto simp: set_ZAdd)
qed

definition valid_id :: "int \<Rightarrow> bool" where
  "valid_id j = (0 < j \<and> j \<le> int_max)"

lemma members_ok_ZAdd [keeps]: "members_ok z \<Longrightarrow> valid_id j \<Longrightarrow> members_ok (ZAdd z (Itoa j) v)"
  by (auto simp: members_ok_def list_all_iff set_ZAdd valid_id_def Atoi_Itoa in_int_def int_min_def)

lemma waiting_at_head_MoveBefore:
  assumes j: "valid_id j" and ok: "zset_ok (qset s)" "members_ok (qset s)" "no_move_error e"
    and fix_ok: "no_fix_error (mv_fix_head e)" "no_fix_error (mv_fix_job e)"
    and r: "ZRank (qset s) (Itoa b) = Some r" and w: "waiting_at_head s"
  shows "waiting_at_head (fst (MoveBefore e now s j b))"
proof -
  have ne: "qset s \<noteq> []" using ZRank_SomeD(1) [OF r] by auto
  obtain h v where h: "q_Peek False s = Ok (h, v)" "Itoa h = fst (hd (qset s))"
    using q_Peek_ok [OF ok(2)] ne by blast
  obtain h' where "Atoi (fst (hd (qset s))) = Some h'" "0 < h'" "Itoa h' = fst (hd (qset s))"
    using ok(2) ne by (cases "qset s") (auto simp: members_ok_def split: option.splits)
  then have "h \<noteq> 0" using h(2) by (metis Itoa_inject less_irrefl)
  then obtain s2 where s2: "qset s2 = ZAdd (qset s) (Itoa j) (target_score (qset s) r)"
      "\<And>k. status_of (qjobs s2) k = status_of (qjobs s) k"
      "fst (MoveBefore e now s j b) = fixJobStatusIfMovedFromHead (mv_fix_job e) now
        (fixJobStatusIfMovedFromHead (mv_fix_head e) now s2 h) j"
    using MoveBefore_jobs [OF ok r h(1)] by blast
  have zok: "zset_ok (qset s2)" using s2(1) ok(1) by (simp add: keeps)
  let ?s' = "fst (MoveBefore e now s j b)"
  have st: "status_of (qjobs ?s') k = (if (k = h \<or> k = j) \<and> behind_head s2 k \<and>
      status_of (qjobs s) k = Some JobStatusWaitingGpu then Some JobStatusQueued else status_of (qjobs s) k)" for k
    using zok by (auto simp: s2 fix_status [OF fix_ok(2)] fix_status [OF fix_ok(1)])
  have "status_of (qjobs ?s') k \<noteq> Some JobStatusWaitingGpu"
    if p: "p \<in> set (tl (qset s2))" and k: "Atoi (fst p) = Some k" "Itoa k = fst p" for p k
  proof -
    have b: "behind_head s2 k" using p k(2) by force
    consider "k = j" | "k = h" | "p \<in> set (tl (qset s))"
      using set_tl_ZAdd [OF ok(1) ne p [unfolded s2(1)]] k h(2) by (metis Itoa_inject)
    then show ?thesis
    proof cases
      case 3
      then have "status_of (qjobs s) k \<noteq> Some JobStatusWaitingGpu"
        using w k(1) by (auto simp: waiting_at_head_def list_all_iff)
      then show ?thesis by (auto simp: st)
    qed (use b in \<open>auto simp: st\<close>)
  qed
  moreover have "Itoa k = fst p" if "p \<in> set (tl (qset s2))" "Atoi (fst p) = Some k" for p k
  proof -
    have "p \<in> set (qset s2)" using that(1) by (cases "qset s2") auto
    then show ?thesis
      using members_ok_ZAdd [OF ok(2) j, of "target_score (qset s) r"] that(2)
      by (fastforce simp: s2(1) members_ok_def list_all_iff)
  qed
  ultimately show ?thesis
    by (auto simp: waiting_at_head_def list_all_iff s2(3) split: option.splits)
qed

section \<open>The queue page\<close>

lemma running_none:
  "list_all (\<lambda>j. job_Status j \<noteq> JobStatusRunning) t \<Longrightarrow>
   GetRunningJobs like uname e1 e2 t req t1 t2 = Ok (rs, n) \<Longrightarrow> rs = []"
  by (auto simp: GetRunningJobs_def buildBaseQueueJobQuery_def list_all_iff Let_def filter_empty_conv
      split: if_splits)

lemma filtered_page_size:
  "GetQueueJobListFiltered like uname e1 e2 t ids req t1 t2 = Ok (rows, n) \<Longrightarrow>
   0 \<le> ql_PageSize req \<Longrightarrow> int (length rows) \<le> ql_PageSize req"
  by (auto simp: GetQueueJobListFiltered_def limit_offset_def Let_def split: if_splits)

lemma page_slice_beyond:
  assumes "2 \<le> page" "0 < pageSize" "page * pageSize \<le> int_max" "int (length xs) \<le> pageSize"
  shows "page_slice page pageSize xs = Ok []"
proof -
  have "pageSize \<le> (page - 1) * pageSize" using assms(1,2) by (simp add: mult_le_cancel_right1)
  moreover have "(page - 1) * pageSize \<le> page * pageSize" using assms(2) by (simp add: mult_right_mono)
  ultimately have b: "pageSize \<le> (page - 1) * pageSize" "(page - 1) * pageSize \<le> int_max"
    using assms(3) by linarith+
  have "page - 1 \<le> (page - 1) * pageSize" using assms(1,2) by (simp add: mult_le_cancel_left1)
  then have "in_int (page - 1)" "in_int ((page - 1) * pageSize)"
    unfolding in_int_def int_min_def using b assms(1,2) by linarith+
  then show ?thesis
    using b assms(4) by (simp add: page_slice_def wrap64_id Let_def)
qed

section \<open>Properties\<close>

definition empty_queue :: queue_sys where
  "empty_queue = \<lparr> qset = [], qseq = 0, qjobs = [] \<rparr>"

definition demo_job :: "int \<Rightarrow> int \<Rightarrow> Job" where
  "demo_job i st = \<lparr> job_ID = i, job_Name = ''train'', job_Description = [], job_UserId = 1,
     job_FilePath = ''/home/a/t.py'', job_CondaEnv = ''base'', job_GpuIDs = ''1'', job_Status = st,
     job_CreatedAt = 0, job_StartedAt = None, job_FinishedAt = None, job_Sug = 0 \<rparr>"

definition demo_queue :: queue_sys where
  "demo_queue = \<lparr> qset = [(''4'', 8000000001), (''5'', 9000000002), (''6'', 9000000003)], qseq = 3,
     qjobs = [demo_job 4 6, demo_job 5 1, demo_job 6 1] \<rparr>"

definition demo_move :: move_env where
  "demo_move = \<lparr> mv_peek = False, mv_rank = False, mv_score = False, mv_range = False, mv_add = False,
     mv_sug = False, mv_fix_head = \<lparr> fx_rank = False, fx_get = False, fx_update = False \<rparr>,
     mv_fix_job = \<lparr> fx_rank = False, fx_get = False, fx_update = False \<rparr> \<rparr>"

text \<open>
  C3: Submissions are served by priority and, within one priority, in arrival order. After any
  sequence of submissions of distinct jobs to the empty queue, with priorities from 0 to 10 and
  fewer of them than PriorityGap, the order of the sorted set, whose scores are float64 values,
  is the stable sort of the submissions by falling priority.
\<close>

theorem enqueue_order:
  assumes "qset s = []" "qseq s = 0" "submissions_ok js"
  shows "waiting_jobs (enqueue_all js s) = by_priority js"
proof -
  let ?ss = "sort_key falling (numbered js)"
  have "list_all (\<lambda>x. in_int (fst (fst x))) ?ss"
    using assms(3) numbered_range by (fastforce simp: list_all_iff submissions_ok_def)
  then have "waiting_jobs (enqueue_all js s) = map (\<lambda>x. fst (fst x)) ?ss"
    using enqueue_all_entries [OF assms] by (simp only: waiting_jobs_def waiting_jobs_entries)
  also have "\<dots> = map fst (map fst ?ss)" by simp
  also have "map fst ?ss = sort_key (\<lambda>jp. - snd jp) js"
    using map_sort_key [of fst "\<lambda>jp. - snd jp" "numbered js"] by (simp add: map_fst_numbered)
  finally show ?thesis by (simp add: by_priority_def)
qed

theorem enqueue_order_witness:
  "waiting_jobs (enqueue_all [(11, 1), (12, 2), (9, 1), (10, 2)] empty_queue) = [12, 10, 11, 9]"
proof -
  have "submissions_ok [(11, 1), (12, 2), (9, 1), (10, 2)]" by code_simp
  then have "waiting_jobs (enqueue_all [(11, 1), (12, 2), (9, 1), (10, 2)] empty_queue) =
      by_priority [(11, 1), (12, 2), (9, 1), (10, 2)]"
    by (intro enqueue_order) (simp_all add: empty_queue_def)
  then show ?thesis by (simp add: by_priority_def)
qed

text \<open>
  C4: MoveBefore refines the list operation. On a well formed queue, when float64 has a value
  strictly between the target's score and its predecessor's, the operation succeeds and the
  members afterwards are the old ones with the job taken out and put back right before the
  target; nothing else is reordered.
\<close>

theorem move_before_refines:
  assumes "zset_ok (qset s)" "members_ok (qset s)" "no_move_error e" "has_room (qset s) (Itoa b)"
  shows "snd (MoveBefore e now s j b) = Ok () \<and> zset_ok (qset (fst (MoveBefore e now s j b))) \<and>
    map fst (qset (fst (MoveBefore e now s j b))) = move_before (Itoa j) (Itoa b) (map fst (qset s))"
proof -
  obtain r where r: "ZRank (qset s) (Itoa b) = Some r"
    using assms(4) by (auto simp: has_room_def split: option.splits)
  show ?thesis
    using MoveBefore_qset [OF assms(1-3) r, of now j] ZAdd_move [OF assms(1) r assms(4)] assms(1)
    by (simp add: keeps)
qed

theorem move_before_refines_witness:
  "map fst (qset (fst (MoveBefore demo_move 0 demo_queue 6 5))) = [''4'', ''6'', ''5'']"
proof -
  have "zset_ok (qset demo_queue)" "members_ok (qset demo_queue)" "no_move_error demo_move"
    "has_room (qset demo_queue) (Itoa 5)" by code_simp+
  from move_before_refines [OF this, of 0 6]
  have "map fst (qset (fst (MoveBefore demo_move 0 demo_queue 6 5))) =
      move_before (Itoa 6) (Itoa 5) (map fst (qset demo_queue))" by blast
  also have "\<dots> = [''4'', ''6'', ''5'']" by code_simp
  finally show ?thesis .
qed

text \<open>
  There is room between any two different scores that Enqueue assigns: for integral scores
  of magnitude up to 2^52 the computed midpoint is the exact one and lies strictly between, and
  the score put before the head is strictly smaller than the head's.
\<close>

theorem enqueue_scores_have_room:
  assumes "ZRank z b = Some r" "zset_ok z" "distinct (map snd z)"
    and "list_all (\<lambda>p. snd p = of_int \<lfloor>snd p\<rfloor> \<and> \<bar>snd p\<bar> \<le> 2 ^ 52) z"
  shows "has_room z b"
proof -
  note rD = ZRank_SomeD [OF assms(1)]
  have int: "\<exists>a. snd (z ! i) = of_int a \<and> \<bar>a\<bar> \<le> 2 ^ 52" if "i < length z" for i
  proof -
    have "snd (z ! i) = of_int \<lfloor>snd (z ! i)\<rfloor>" "\<bar>snd (z ! i)\<bar> \<le> 2 ^ 52"
      using assms(4) that by (auto simp: list_all_length)
    moreover from this have "rat_of_int \<bar>\<lfloor>snd (z ! i)\<rfloor>\<bar> \<le> of_int (2 ^ 52)" by simp
    ultimately show ?thesis unfolding of_int_le_iff by blast
  qed
  obtain q where q: "snd (z ! r) = of_int q" "\<bar>q\<bar> \<le> 2 ^ 52" using int rD(1) by blast
  show ?thesis
  proof (cases "r = 0")
    case True
    have "f64 (of_int PriorityGap) = of_int PriorityGap" by (rule f64_int) (simp add: PriorityGap_def)
    moreover have "f64 (of_int (q - PriorityGap)) = of_int (q - PriorityGap)"
      using q(2) by (intro f64_int) (simp add: PriorityGap_def)
    ultimately have "fsub (of_int q) (f64 (of_int PriorityGap)) = of_int (q - PriorityGap)"
      by (simp add: fsub_def)
    then show ?thesis using True q assms(1) by (simp add: has_room_def PriorityGap_def)
  next
    case False
    obtain p where p: "snd (z ! (r - 1)) = of_int p" "\<bar>p\<bar> \<le> 2 ^ 52" using int rD(1) by (meson less_imp_diff_less)
    have "snd (z ! (r - 1)) \<noteq> snd (z ! r)"
      using assms(3) rD(1) False nth_eq_iff_index_eq [OF assms(3), of "r - 1" r] by simp
    moreover have "snd (z ! (r - 1)) \<le> snd (z ! r)"
      using zset_scores_mono [OF assms(2), of "r - 1" r] rD(1) by simp
    ultimately have "p < q" using p q by simp
    then show ?thesis
      using False p q assms(1) fmid_exact_int [OF p(2) q(2)] by (simp add: has_room_def)
  qed
qed

definition tight_queue :: queue_sys where
  "tight_queue = demo_queue\<lparr> qset := [(''4'', 4718592001048575 / 524288), (''5'', 9000000002), (''6'', 9000000003)] \<rparr>"

lemma Itoa_small: "Itoa 5 = ''5''" "Itoa 6 = ''6''"
  by code_simp+

lemma fmid_tight: "fmid (4718592001048575 / 524288) 9000000002 = 9000000002"
proof -
  let ?x = "4718592001048575 / 524288 + 9000000002 :: rat"
  have "expo ?x = 34" by (rule expo_unique) (simp_all add: pow2_def)
  then have u: "ulp_exp ?x = - 18" by (simp add: ulp_exp_def)
  have "?x / pow2 (- 18) = of_int 4718592001048576 - 1 / 2" by (simp add: pow2_def)
  moreover have "rne (of_int 4718592001048576 - 1 / 2) = 4718592001048576" by (rule rne_half_even) simp
  ultimately have "rne (?x / pow2 (- 18)) = 4718592001048576" by (simp only:)
  then have "f64 ?x = 18000000004" using u by (simp add: f64_def pow2_def)
  then show ?thesis using f64_int [of 9000000002] by (simp add: fmid_def fadd_def fdiv_def)
qed

text \<open>
  The midpoint runs out of precision. Each move halves the gap to the target; once two
  neighbours have adjacent float64 scores, the rounded midpoint is one of them. Here it is the
  target's own score, the order is decided by the bytes of the member names, and MoveBefore
  reports success although the job stays behind its target.
\<close>

theorem move_before_precision_limit:
  "list_all (\<lambda>p. is_f64 (snd p)) (qset tight_queue) \<and> zset_ok (qset tight_queue) \<and>
   snd (MoveBefore demo_move 0 tight_queue 6 5) = Ok () \<and>
   map fst (qset (fst (MoveBefore demo_move 0 tight_queue 6 5))) = [''4'', ''5'', ''6'']"
proof (intro conjI)
  have "is_f64 (of_int 4718592001048575 * pow2 (- 19))" unfolding is_f64_def by (rule f64_exact) simp_all
  then show "list_all (\<lambda>p. is_f64 (snd p)) (qset tight_queue)"
    using is_f64_int [of 9000000002] is_f64_int [of 9000000003]
    by (simp add: tight_queue_def pow2_def)
  show ok: "zset_ok (qset tight_queue)" by (simp add: tight_queue_def zset_ok_def zkey_def less_eq_prod_def)
  have pre: "members_ok (qset tight_queue)" "no_move_error demo_move" by code_simp+
  have r: "ZRank (qset tight_queue) (Itoa 5) = Some 1"
    by (simp add: tight_queue_def ZRank_def Itoa_small)
  show "snd (MoveBefore demo_move 0 tight_queue 6 5) = Ok ()" by (rule MoveBefore_qset(1) [OF ok pre r])
  have "target_score (qset tight_queue) 1 = 9000000002"
    using fmid_tight by (simp add: target_score_def tight_queue_def)
  then have "map fst (qset (fst (MoveBefore demo_move 0 tight_queue 6 5))) =
      map fst (ZAdd (qset tight_queue) ''6'' 9000000002)"
    using MoveBefore_qset(2) [OF ok pre r, of 0 6] by (simp add: Itoa_small)
  also have "\<dots> = [''4'', ''5'', ''6'']" by (simp add: tight_queue_def ZAdd_def zkey_def less_eq_prod_def)
  finally show "map fst (qset (fst (MoveBefore demo_move 0 tight_queue 6 5))) = [''4'', ''5'', ''6'']" .
qed

text \<open>
  Only the head of the queue waits for cards. MoveBefore keeps the invariant that no job
  behind the head is in the state WaitingGpu: a displaced head and a moved job that does not
  become the head return to the state Queued.
\<close>

theorem move_keeps_waiting_at_head:
  assumes "valid_id j" "zset_ok (qset s)" "members_ok (qset s)" "waiting_at_head s"
    and "no_move_error e" "no_fix_error (mv_fix_head e)" "no_fix_error (mv_fix_job e)"
    and "ZRank (qset s) (Itoa b) = Some r"
  shows "waiting_at_head (fst (MoveBefore e now s j b))"
  using assms by (intro waiting_at_head_MoveBefore)

text \<open>
  GetFrontCount is the number of jobs ahead. On a well formed queue it returns the position
  of the job in the order of service, and -1 exactly for a job that is not in the queue.
\<close>

lemma front_count_correct:
  assumes "zset_ok (qset s)"
  shows "GetFrontCount False s j = Ok (if Itoa j \<in> set (map fst (qset s))
    then int (length (takeWhile (\<lambda>m. m \<noteq> Itoa j) (map fst (qset s)))) else - 1)"
  by (auto simp: GetFrontCount_def q_Rank_def ZRank_def takeWhile_map comp_def)

text \<open>
  The queue page is cut twice. The repository already returns one page of the waiting jobs,
  and GetQueuePage cuts a page out of that page: when no job is running, every page after the
  first is empty, however many jobs wait.
\<close>

theorem second_page_empty:
  assumes "GetQueuePage like uname e now s req t1 t2 = Ok (rows, tot, pg, sz)"
    and "list_all (\<lambda>j. job_Status j \<noteq> JobStatusRunning) (qjobs s)"
    and "2 \<le> ql_Page req" "0 < ql_PageSize req" "ql_Page req * ql_PageSize req \<le> int_max"
  shows "rows = []"
proof -
  obtain rs k queued n xs where r: "GetRunningJobs like uname (pg_run_count e) (pg_run_scan e) (qjobs s) req t1 t2 = Ok (rs, k)"
    and q: "GetQueueJobListFiltered like uname (pg_list_count e) (pg_list_scan e) (qjobs s)
      (List.map_filter Atoi (map fst (ZRange (qset s) 0 (- 1)))) req t1 t2 = Ok (queued, n)"
    and xs: "page_slice (ql_Page req) (ql_PageSize req) (rs @ queued) = Ok xs"
      "rows = map (queue_response (pg_rank e) now s) xs"
    using assms(1,3,4)
    by (auto simp: GetQueuePage_def q_Range_def Let_def split: sum.splits if_splits)
  have "rs = []" by (rule running_none [OF assms(2) r])
  have "int (length queued) \<le> ql_PageSize req" using filtered_page_size [OF q] assms(4) by simp
  then have "page_slice (ql_Page req) (ql_PageSize req) queued = Ok []"
    using assms(3-5) by (intro page_slice_beyond)
  then show ?thesis using xs \<open>rs = []\<close> by simp
qed

end
