(* ===== verification/Scheduler.thy ===== *)
theory Scheduler
  imports JobQueue
begin

text \<open>
  The scheduler: internal/service/scheduler_service.go, internal/repository/process_repository.go
  and internal/model/entity/process.go.

  The state holds the stores the scheduler works on, its map of tracked processes and the
  monitor goroutines that are alive. A store call that may fail has a flag, and a call of
  another service (launching the remote command, reading an exit code, the access check, the
  process check of the operating system) its result, in the environment record of the
  operation. A monitor goroutine is a small state machine driven by its ticker.
\<close>

section \<open>The process table and the process cache\<close>

record Process =
  proc_ID :: int
  proc_PID :: int
  proc_CardID :: int
  proc_JobID :: int
  proc_CreatedAt :: int
  proc_EndedAt :: "int option"

type_synonym proc_table = "Process list"

definition proc_Create :: "(proc_table \<Rightarrow> int) \<Rightarrow> bool \<Rightarrow> proc_table \<Rightarrow> Process \<Rightarrow> proc_table result" where
  "proc_Create fresh err t p = (if err then Err DbError else Ok (t @ [p\<lparr> proc_ID := fresh t \<rparr>]))"

definition proc_Update :: "bool \<Rightarrow> proc_table \<Rightarrow> Process \<Rightarrow> proc_table result" where
  "proc_Update err t p = (if err then Err DbError
     else Ok (map (\<lambda>q. if proc_ID q = proc_ID p then p else q) t))"

definition FindActiveByJobID :: "bool \<Rightarrow> proc_table \<Rightarrow> int \<Rightarrow> Process list result" where
  "FindActiveByJobID err t jobID = (if err then Err DbError
     else Ok (filter (\<lambda>p. proc_JobID p = jobID \<and> proc_EndedAt p = None) t))"

definition proc_FindAll :: "bool \<Rightarrow> proc_table \<Rightarrow> Process list result" where
  "proc_FindAll err t = (if err then Err DbError else Ok (filter (\<lambda>p. proc_EndedAt p = None) t))"

type_synonym pid_cache = "(string \<times> string) list"

definition CreatePid :: "bool \<Rightarrow> pid_cache \<Rightarrow> int \<Rightarrow> string \<Rightarrow> pid_cache result" where
  "CreatePid err h pid jobName = (if err then Err RedisError else Ok (AList.update (Itoa pid) jobName h))"

definition DelPid :: "bool \<Rightarrow> pid_cache \<Rightarrow> int \<Rightarrow> pid_cache result" where
  "DelPid err h pid = (if err then Err RedisError else Ok (AList.delete (Itoa pid) h))"

fun parse_pids :: "pid_cache \<Rightarrow> (string list \<times> int list) result" where
  "parse_pids [] = Ok ([], [])"
| "parse_pids ((k, v) # h) = (case Atoi k of
     None \<Rightarrow> Err (Errorf ''pid'')
   | Some pid \<Rightarrow> map_sum id (\<lambda>(names, pids). (v # names, pid # pids)) (parse_pids h))"

definition GetAllPid :: "bool \<Rightarrow> pid_cache \<Rightarrow> (string list \<times> int list) result" where
  "GetAllPid err h = (if err then Err RedisError else parse_pids h)"

section \<open>State\<close>

record JobProcess =
  jp_pid :: int
  jp_jobID :: int
  jp_userID :: int
  jp_jobName :: string
  jp_cardIDs :: "int list"

record monitor =
  mon_jp :: JobProcess
  mon_failCount :: int

record sched =
  sc_queue :: queue_sys
  sc_gpu :: gpu_state
  sc_procs :: proc_table
  sc_pids :: pid_cache
  sc_runningJobs :: "int \<rightharpoonup> JobProcess"
  sc_monitors :: "monitor list"
  sc_isRunning :: bool
  sc_lock :: "string option"

abbreviation sc_jobs :: "sched \<Rightarrow> job_table" where
  "sc_jobs s \<equiv> qjobs (sc_queue s)"

abbreviation set_jobs :: "job_table \<Rightarrow> sched \<Rightarrow> sched" where
  "set_jobs t s \<equiv> s\<lparr> sc_queue := (sc_queue s)\<lparr> qjobs := t \<rparr> \<rparr>"

text \<open>Calls whose error is only logged: the state is kept when they fail.\<close>

definition try_status :: "bool \<Rightarrow> int \<Rightarrow> int \<Rightarrow> int \<Rightarrow> sched \<Rightarrow> sched" where
  "try_status err now i st s = (case UpdateStatus err now (sc_jobs s) i st of Inl _ \<Rightarrow> s | Inr t \<Rightarrow> set_jobs t s)"

definition try_release :: "bool \<Rightarrow> (int \<Rightarrow> nat) \<Rightarrow> int list \<Rightarrow> sched \<Rightarrow> sched" where
  "try_release err n ids s = (case ReleaseCards err n (sc_gpu s) ids of Inl _ \<Rightarrow> s | Inr g \<Rightarrow> s\<lparr> sc_gpu := g \<rparr>)"

definition try_remove :: "bool \<Rightarrow> int \<Rightarrow> sched \<Rightarrow> sched" where
  "try_remove err i s = (case Remove err (sc_queue s) i of Inl _ \<Rightarrow> s | Inr q \<Rightarrow> s\<lparr> sc_queue := q \<rparr>)"

definition try_DelPid :: "bool \<Rightarrow> int \<Rightarrow> sched \<Rightarrow> sched" where
  "try_DelPid err pid s = (case DelPid err (sc_pids s) pid of Inl _ \<Rightarrow> s | Inr h \<Rightarrow> s\<lparr> sc_pids := h \<rparr>)"

definition try_proc_Update :: "bool \<Rightarrow> Process \<Rightarrow> sched \<Rightarrow> sched" where
  "try_proc_Update err p s = (case proc_Update err (sc_procs s) p of Inl _ \<Rightarrow> s | Inr t \<Rightarrow> s\<lparr> sc_procs := t \<rparr>)"

section \<open>The queue lock\<close>

text \<open>
  The key lock:queue_process. SET NX stores the token unless the key exists; releasing and
  renewing are compare-and-act scripts on the token; the expiry of the key is the environment
  step \<open>lock_expire\<close>. A failing call, a missing client or an empty token changes nothing.
\<close>

definition acquireQueueLock :: "bool \<Rightarrow> string \<Rightarrow> sched \<Rightarrow> sched \<times> bool" where
  "acquireQueueLock err token s = (if err then (s, False)
     else case sc_lock s of None \<Rightarrow> (s\<lparr> sc_lock := Some token \<rparr>, True) | Some _ \<Rightarrow> (s, False))"

definition releaseQueueLock :: "bool \<Rightarrow> string \<Rightarrow> sched \<Rightarrow> sched" where
  "releaseQueueLock err token s = (if err \<or> token = [] then s
     else if sc_lock s = Some token then s\<lparr> sc_lock := None \<rparr> else s)"

definition lock_expire :: "sched \<Rightarrow> sched" where
  "lock_expire s = s\<lparr> sc_lock := None \<rparr>"

section \<open>Starting a job\<close>

fun parse_ids :: "string list \<Rightarrow> int list" where
  "parse_ids [] = []"
| "parse_ids (x # xs) = (case Atoi (TrimSpace x) of None \<Rightarrow> parse_ids xs | Some i \<Rightarrow> i # parse_ids xs)"

definition parseGpuIDs :: "string \<Rightarrow> int list" where
  "parseGpuIDs str = (if str \<noteq> [] then parse_ids (Split CHR '','' str) else [])"

record exec_env =
  ex_count :: bool
  ex_update :: bool
  ex_busy :: "int \<Rightarrow> nat"
  ex_status :: bool
  ex_release :: bool
  ex_idle :: "int \<Rightarrow> nat"
  ex_fail :: bool
  ex_remove :: bool
  ex_cards :: bool
  ex_access :: "int \<Rightarrow> bool result"
  ex_launch :: "int \<Rightarrow> string \<Rightarrow> string \<Rightarrow> (string \<times> string) list \<Rightarrow> bool \<Rightarrow> int result"
  ex_fresh :: "proc_table \<Rightarrow> int"
  ex_proc :: "int \<Rightarrow> bool"
  ex_cache :: bool

text \<open>The clean-up of the failing branches: release the cards, mark the job failed, drop it from the queue.\<close>

definition abort_job :: "exec_env \<Rightarrow> int \<Rightarrow> Job \<Rightarrow> int list \<Rightarrow> sched \<Rightarrow> sched" where
  "abort_job e now job cardIDs s =
     try_remove (ex_remove e) (job_ID job)
       (try_status (ex_fail e) now (job_ID job) JobStatusFailed
         (try_release (ex_release e) (ex_idle e) cardIDs s))"

definition env_vars :: "Job \<Rightarrow> gpu_card list \<Rightarrow> (string \<times> string) list" where
  "env_vars job cs = [(''CUDA_VISIBLE_DEVICES'', Join '','' (map (\<lambda>c. Itoa (gpu_Index c)) cs)),
     (''JOB_ID'', Itoa (job_ID job)), (''PYTHONUNBUFFERED'', ''1'')]"

text \<open>The loop that writes one process row per card; it stops at the first error.\<close>

fun write_procs :: "exec_env \<Rightarrow> int \<Rightarrow> int \<Rightarrow> int \<Rightarrow> int list \<Rightarrow> proc_table \<Rightarrow> proc_table \<times> unit result" where
  "write_procs e now pid jobID [] t = (t, Ok ())"
| "write_procs e now pid jobID (c # cs) t =
     (case proc_Create (ex_fresh e) (ex_proc e c) t
        \<lparr> proc_ID = 0, proc_PID = pid, proc_CardID = c, proc_JobID = jobID, proc_CreatedAt = now,
          proc_EndedAt = None \<rparr> of
        Inl x \<Rightarrow> (t, Err x)
      | Inr t' \<Rightarrow> write_procs e now pid jobID cs t')"

definition exec_prepare :: "exec_env \<Rightarrow> int \<Rightarrow> sched \<Rightarrow> Job \<Rightarrow> int list \<Rightarrow> sched \<times> unit result" where
  "exec_prepare e now s job cardIDs =
     (case AcquireCards (ex_count e) (ex_update e) (ex_busy e) (sc_gpu s) cardIDs (job_ID job) of
        Inl _ \<Rightarrow> (s, Err (Errorf ''acquire''))
      | Inr g \<Rightarrow>
         (let s1 = s\<lparr> sc_gpu := g \<rparr> in
          case UpdateStatus (ex_status e) now (sc_jobs s1) (job_ID job) JobStatusRunning of
            Inl _ \<Rightarrow> (try_release (ex_release e) (ex_idle e) cardIDs s1, Err (Errorf ''status''))
          | Inr t \<Rightarrow> (set_jobs t s1, Ok ())))"

definition exec_track :: "exec_env \<Rightarrow> int \<Rightarrow> sched \<Rightarrow> Job \<Rightarrow> int list \<Rightarrow> int \<Rightarrow> sched \<times> unit result" where
  "exec_track e now s job cardIDs pid =
     (let jp = \<lparr> jp_pid = pid, jp_jobID = job_ID job, jp_userID = job_UserId job,
                 jp_jobName = job_Name job, jp_cardIDs = cardIDs \<rparr>;
          s1 = s\<lparr> sc_runningJobs := (sc_runningJobs s)(pid \<mapsto> jp) \<rparr>
      in case write_procs e now pid (job_ID job) cardIDs (sc_procs s1) of
           (t, Inl x) \<Rightarrow> (s1\<lparr> sc_procs := t \<rparr>, Err x)
         | (t, Inr _) \<Rightarrow>
            (let s2 = s1\<lparr> sc_procs := t \<rparr> in
             case CreatePid (ex_cache e) (sc_pids s2) pid (job_Name job) of
               Inl x \<Rightarrow> (s2, Err x)
             | Inr h \<Rightarrow> (s2\<lparr> sc_pids := h,
                  sc_monitors := sc_monitors s2 @ [\<lparr> mon_jp = jp, mon_failCount = 0 \<rparr>] \<rparr>, Ok ())))"

definition executeJob :: "exec_env \<Rightarrow> int \<Rightarrow> sched \<Rightarrow> Job \<Rightarrow> int list \<Rightarrow> sched \<times> unit result" where
  "executeJob e now s job cardIDs = (case exec_prepare e now s job cardIDs of
     (s1, Inl x) \<Rightarrow> (s1, Err x)
   | (s1, Inr _) \<Rightarrow>
      (if job_FilePath job = [] then (abort_job e now job cardIDs s1, Err (Errorf ''script path''))
       else case GetByIDs (ex_cards e) (cards (sc_gpu s1)) cardIDs of
         Inl _ \<Rightarrow> (s1, Err (Errorf ''card details''))
       | Inr cs \<Rightarrow>
      (case ex_access e (job_UserId job) of
         Inl _ \<Rightarrow> (abort_job e now job cardIDs s1, Err (Errorf ''access''))
       | Inr isRoot \<Rightarrow>
      (case ex_launch e (job_UserId job) (job_CondaEnv job) (''python3 -u '' @ job_FilePath job)
              (env_vars job cs) isRoot of
         Inl _ \<Rightarrow> (abort_job e now job cardIDs s1, Err (Errorf ''launch''))
       | Inr pid \<Rightarrow> exec_track e now s1 job cardIDs pid))))"

section \<open>Serving the queue\<close>

record queue_env =
  pq_lock :: bool
  pq_token :: string
  pq_unlock :: bool
  pq_peek :: bool
  pq_get :: bool
  pq_remove :: bool
  pq_avail :: avail_env
  pq_wait :: bool
  pq_exec :: exec_env

definition serve_head :: "queue_env \<Rightarrow> int \<Rightarrow> sched \<Rightarrow> sched" where
  "serve_head e now s = (case Peek (pq_peek e) (sc_queue s) of
     Inl _ \<Rightarrow> s
   | Inr None \<Rightarrow> s
   | Inr (Some item) \<Rightarrow>
  (case GetByID (pq_get e) (sc_jobs s) (item_JobID item) of
     Inl _ \<Rightarrow> s
   | Inr job \<Rightarrow>
      (if job_Status job \<noteq> JobStatusQueued \<and> job_Status job \<noteq> JobStatusWaitingGpu
       then try_remove (pq_remove e) (item_JobID item) s
       else let cardIDs = parseGpuIDs (job_GpuIDs job) in
         if cardIDs = [] then try_remove (pq_remove e) (item_JobID item) s
         else case CheckAvailable (pq_avail e) (sc_gpu s) cardIDs of
           Inl _ \<Rightarrow> s
         | Inr False \<Rightarrow>
             (if job_Status job \<noteq> JobStatusWaitingGpu
              then try_status (pq_wait e) now (job_ID job) JobStatusWaitingGpu s else s)
         | Inr True \<Rightarrow>
             try_remove (pq_remove e) (item_JobID item) (fst (executeJob (pq_exec e) now s job cardIDs)))))"

definition processQueue :: "queue_env \<Rightarrow> int \<Rightarrow> sched \<Rightarrow> sched" where
  "processQueue e now s = (if \<not> sc_isRunning s then s
     else case acquireQueueLock (pq_lock e) (pq_token e) s of
       (s1, False) \<Rightarrow> s1
     | (s1, True) \<Rightarrow> releaseQueueLock (pq_unlock e) (pq_token e) (serve_head e now s1))"

section \<open>Watching a job\<close>

text \<open>process.PidExists takes an int32.\<close>

definition int32 :: "int \<Rightarrow> int" where
  "int32 i = (i + 2147483648) mod 4294967296 - 2147483648"

record monitor_env =
  mo_exists :: "int \<Rightarrow> bool result"
  mo_exit :: "int \<Rightarrow> int \<Rightarrow> bool \<Rightarrow> int result"
  mo_access :: "int \<Rightarrow> bool result"
  mo_status :: bool
  mo_delpid :: bool
  mo_find :: bool
  mo_ended :: "int \<Rightarrow> bool"
  mo_release :: bool
  mo_idle :: "int \<Rightarrow> nat"

text \<open>The deferred clean-up of monitorJob.\<close>

definition end_processes :: "monitor_env \<Rightarrow> int \<Rightarrow> int \<Rightarrow> sched \<Rightarrow> sched" where
  "end_processes e now jobID s = (case FindActiveByJobID (mo_find e) (sc_procs s) jobID of
     Inl _ \<Rightarrow> s
   | Inr ps \<Rightarrow> foldl (\<lambda>u p. try_proc_Update (mo_ended e (proc_ID p)) (p\<lparr> proc_EndedAt := Some now \<rparr>) u) s ps)"

definition monitor_cleanup :: "monitor_env \<Rightarrow> int \<Rightarrow> JobProcess \<Rightarrow> sched \<Rightarrow> sched" where
  "monitor_cleanup e now jp s =
     try_release (mo_release e) (mo_idle e) (jp_cardIDs jp)
       (end_processes e now (jp_jobID jp)
         (try_DelPid (mo_delpid e) (jp_pid jp)
           (s\<lparr> sc_runningJobs := (sc_runningJobs s)(jp_pid jp := None) \<rparr>)))"

definition exit_status :: "monitor_env \<Rightarrow> JobProcess \<Rightarrow> int" where
  "exit_status e jp =
     (let isRoot = (case mo_access e (jp_userID jp) of Inl _ \<Rightarrow> False | Inr b \<Rightarrow> b) in
      case mo_exit e (jp_userID jp) (jp_jobID jp) isRoot of
        Inl _ \<Rightarrow> JobStatusCompleted
      | Inr code \<Rightarrow> (if code \<noteq> 0 then JobStatusFailed else JobStatusCompleted))"

text \<open>One tick: None when the goroutine has returned, its new counter otherwise.\<close>

definition monitor_tick :: "monitor_env \<Rightarrow> int \<Rightarrow> monitor \<Rightarrow> sched \<Rightarrow> sched \<times> monitor option" where
  "monitor_tick e now m s = (let jp = mon_jp m in case mo_exists e (int32 (jp_pid jp)) of
     Inl _ \<Rightarrow>
      (let failCount = mon_failCount m + 1 in
       if failCount \<ge> 10
       then (monitor_cleanup e now jp (try_status (mo_status e) now (jp_jobID jp) JobStatusFailed s), None)
       else (s, Some (m\<lparr> mon_failCount := failCount \<rparr>)))
   | Inr running \<Rightarrow>
      (if \<not> running
       then (monitor_cleanup e now jp (try_status (mo_status e) now (jp_jobID jp) (exit_status e jp) s), None)
       else (s, Some (m\<lparr> mon_failCount := 0 \<rparr>))))"

definition monitor_cancel :: "monitor_env \<Rightarrow> int \<Rightarrow> monitor \<Rightarrow> sched \<Rightarrow> sched" where
  "monitor_cancel e now m s = monitor_cleanup e now (mon_jp m) s"

text \<open>The goroutine at position k of the live ones takes a tick.\<close>

definition tick_monitor :: "monitor_env \<Rightarrow> int \<Rightarrow> nat \<Rightarrow> sched \<Rightarrow> sched" where
  "tick_monitor e now k s = (if k < length (sc_monitors s) then
     (case monitor_tick e now (sc_monitors s ! k) s of
        (s', None) \<Rightarrow> s'\<lparr> sc_monitors := take k (sc_monitors s) @ drop (Suc k) (sc_monitors s) \<rparr>
      | (s', Some m) \<Rightarrow> s'\<lparr> sc_monitors := (sc_monitors s)[k := m] \<rparr>) else s)"

section \<open>Recovery and audit\<close>

record missing_env =
  mi_status :: bool
  mi_update :: bool
  mi_delpid :: bool
  mi_release :: bool
  mi_idle :: "int \<Rightarrow> nat"

definition handleMissingProcess :: "missing_env \<Rightarrow> int \<Rightarrow> Job \<Rightarrow> Process option \<Rightarrow> sched \<Rightarrow> sched" where
  "handleMissingProcess e now job rec s =
     (let s1 = try_status (mi_status e) now (job_ID job) JobStatusFailed s;
          s2 = (case rec of None \<Rightarrow> s1
                | Some p \<Rightarrow> try_proc_Update (mi_update e) (p\<lparr> proc_EndedAt := Some now \<rparr>) s1);
          s3 = (case rec of None \<Rightarrow> s2 | Some p \<Rightarrow> try_DelPid (mi_delpid e) (proc_PID p) s2)
      in try_release (mi_release e) (mi_idle e) (parseGpuIDs (job_GpuIDs job)) s3)"

record recover_env =
  re_list :: bool
  re_find :: "int \<Rightarrow> bool"
  re_exists :: "int \<Rightarrow> bool result"
  re_cache :: "int \<Rightarrow> bool"
  re_missing :: missing_env

definition adopt :: "recover_env \<Rightarrow> Job \<Rightarrow> int \<Rightarrow> sched \<Rightarrow> sched" where
  "adopt e job pid s =
     (let jp = \<lparr> jp_pid = pid, jp_jobID = job_ID job, jp_userID = job_UserId job,
                 jp_jobName = job_Name job, jp_cardIDs = parseGpuIDs (job_GpuIDs job) \<rparr>;
          s1 = s\<lparr> sc_runningJobs := (sc_runningJobs s)(pid \<mapsto> jp),
                 sc_monitors := sc_monitors s @ [\<lparr> mon_jp = jp, mon_failCount = 0 \<rparr>] \<rparr>
      in case CreatePid (re_cache e pid) (sc_pids s1) pid (job_Name job) of
           Inl _ \<Rightarrow> s1
         | Inr h \<Rightarrow> s1\<lparr> sc_pids := h \<rparr>)"

definition recover_process :: "recover_env \<Rightarrow> int \<Rightarrow> Job \<Rightarrow> sched \<Rightarrow> Process \<Rightarrow> sched" where
  "recover_process e now job s p = (case re_exists e (int32 (proc_PID p)) of
     Inl _ \<Rightarrow> s
   | Inr running \<Rightarrow> (if running then adopt e job (proc_PID p) s
       else handleMissingProcess (re_missing e) now job (Some p) s))"

definition recover_job :: "recover_env \<Rightarrow> int \<Rightarrow> sched \<Rightarrow> Job \<Rightarrow> sched" where
  "recover_job e now s job = (case FindActiveByJobID (re_find e (job_ID job)) (sc_procs s) (job_ID job) of
     Inl _ \<Rightarrow> s
   | Inr ps \<Rightarrow> (if ps = [] then handleMissingProcess (re_missing e) now job None s
       else foldl (recover_process e now job) s ps))"

definition recoverRunningJobs :: "recover_env \<Rightarrow> int \<Rightarrow> sched \<Rightarrow> sched" where
  "recoverRunningJobs e now s = (case GetRunningJobsWithoutPagination (re_list e) (sc_jobs s) of
     Inl _ \<Rightarrow> s
   | Inr js \<Rightarrow> foldl (recover_job e now) s js)"

definition audit_process :: "recover_env \<Rightarrow> int \<Rightarrow> Job \<Rightarrow> sched \<Rightarrow> Process \<Rightarrow> sched" where
  "audit_process e now job s p = (if sc_runningJobs s (proc_PID p) \<noteq> None then s
     else case re_exists e (int32 (proc_PID p)) of
       Inl _ \<Rightarrow> s
     | Inr running \<Rightarrow> (if \<not> running then handleMissingProcess (re_missing e) now job (Some p) s else s))"

definition audit_job :: "recover_env \<Rightarrow> int \<Rightarrow> sched \<Rightarrow> Job \<Rightarrow> sched" where
  "audit_job e now s job = (case FindActiveByJobID (re_find e (job_ID job)) (sc_procs s) (job_ID job) of
     Inl _ \<Rightarrow> s
   | Inr ps \<Rightarrow> (if ps = [] then handleMissingProcess (re_missing e) now job None s
       else foldl (audit_process e now job) s ps))"

definition auditRunningJobs :: "recover_env \<Rightarrow> int \<Rightarrow> sched \<Rightarrow> sched" where
  "auditRunningJobs e now s = (case GetRunningJobsWithoutPagination (re_list e) (sc_jobs s) of
     Inl _ \<Rightarrow> s
   | Inr js \<Rightarrow> foldl (audit_job e now) s js)"

section \<open>Start and stop\<close>

definition Start :: "recover_env \<Rightarrow> int \<Rightarrow> sched \<Rightarrow> sched" where
  "Start e now s = (if sc_isRunning s then s else recoverRunningJobs e now (s\<lparr> sc_isRunning := True \<rparr>))"

text \<open>
  Stop: the context is cancelled and every monitor goroutine leaves through its clean-up
  before the call returns.
\<close>

definition Stop :: "monitor_env \<Rightarrow> int \<Rightarrow> sched \<Rightarrow> sched" where
  "Stop e now s = (if \<not> sc_isRunning s then s
     else (foldl (\<lambda>u m. monitor_cancel e now m u) (s\<lparr> sc_isRunning := False \<rparr>) (sc_monitors s))
       \<lparr> sc_monitors := [] \<rparr>)"

end
