(* ===== verification/JobService.thy ===== *)
theory JobService
  imports JobQueue
begin

text \<open>
  Submitting, cancelling and reordering jobs: internal/service/job_service.go, the handlers
  of internal/api/v1/queue/controller.go and of internal/api/v1/job/controller.go, and
  StringToInt of pkg/utils/string.go.

  The job table and the queue are the state of JobQueue. The answers of the services that a
  submission consults first (access check, remote file check, user record) and the failure of
  each store call are fields of the environment records.
\<close>

section \<open>Requests\<close>

record SubmitJobRequest =
  sj_Name :: string
  sj_Description :: string
  sj_FilePath :: string
  sj_CondaEnv :: string
  sj_GpuIDs :: "int list"

record ReorderRequest =
  ro_JobID :: int
  ro_TargetJobID :: int


section \<open>Job lists\<close>

definition clamp_page_size :: "JobListRequest \<Rightarrow> JobListRequest" where
  "clamp_page_size req =
     (let req1 = (if jl_PageSize req \<le> 0 then req\<lparr> jl_PageSize := 5 \<rparr> else req) in
      if jl_PageSize req1 > 100 then req1\<lparr> jl_PageSize := 100 \<rparr> else req1)"

definition GetJobList ::
  "(string \<Rightarrow> string \<Rightarrow> bool) \<Rightarrow> list_env \<Rightarrow> card_table \<Rightarrow> job_table \<Rightarrow> JobListRequest \<Rightarrow> int option \<Rightarrow> int option \<Rightarrow>
   int \<Rightarrow> (JobResponse list \<times> int \<times> int \<times> int) result" where
  "GetJobList like e cs t req startTime endTime userID =
     repo_GetJobList like e cs t (clamp_page_size req) startTime endTime userID"

definition GetWaitJobList ::
  "(string \<Rightarrow> string \<Rightarrow> bool) \<Rightarrow> list_env \<Rightarrow> card_table \<Rightarrow> job_table \<Rightarrow> JobListRequest \<Rightarrow> int option \<Rightarrow> int option \<Rightarrow>
   int \<Rightarrow> (JobResponse list \<times> int \<times> int \<times> int) result" where
  "GetWaitJobList like e cs t req startTime endTime userID =
     repo_GetWaitJobList like e cs t (clamp_page_size req) startTime endTime userID"

text \<open>EnrichJobList fills the position and the waiting time; it stops at the first error.\<close>

fun EnrichJobList :: "(int \<Rightarrow> bool) \<Rightarrow> int \<Rightarrow> queue_sys \<Rightarrow> JobResponse list \<Rightarrow> JobResponse list result" where
  "EnrichJobList err now s [] = Ok []"
| "EnrichJobList err now s (j # js) = (case GetFrontCount (err (jr_ID j)) s (jr_ID j) of
     Inl e \<Rightarrow> Err e
   | Inr front \<Rightarrow>
      (let j' = (if front \<ge> 0
         then j\<lparr> jr_Count := front,
                 jr_WaitTime := Itoa (float_to_int (Seconds (time_sub now (jr_CreatedAt j)))) \<rparr>
         else j\<lparr> jr_Count := - 1 \<rparr>)
       in map_sum id (\<lambda>r. j' # r) (EnrichJobList err now s js)))"

section \<open>Submitting\<close>

record submit_env =
  su_access :: "int \<Rightarrow> bool result"
  su_exists :: "int \<Rightarrow> string \<Rightarrow> bool \<Rightarrow> bool result"
  su_user :: "int \<Rightarrow> int option result"
  su_fresh :: "job_table \<Rightarrow> int"
  su_create :: bool
  su_seq :: bool
  su_add :: bool
  su_delete :: bool

definition new_job :: "int \<Rightarrow> SubmitJobRequest \<Rightarrow> int \<Rightarrow> Job" where
  "new_job now req userID = \<lparr> job_ID = 0, job_Name = sj_Name req, job_Description = sj_Description req,
     job_UserId = userID, job_FilePath = sj_FilePath req, job_CondaEnv = sj_CondaEnv req,
     job_GpuIDs = Join '','' (map Itoa (sj_GpuIDs req)), job_Status = JobStatusQueued,
     job_CreatedAt = now, job_StartedAt = None, job_FinishedAt = None, job_Sug = 0 \<rparr>"

definition job_priority :: "int option \<Rightarrow> int" where
  "job_priority user = (case user of None \<Rightarrow> JobPriorityLow
     | Some p \<Rightarrow> (if p > 0 then p else JobPriorityLow))"

text \<open>Enqueueing the stored job; the row is deleted again when that fails.\<close>

definition enqueue_or_undo :: "submit_env \<Rightarrow> queue_sys \<Rightarrow> Job \<Rightarrow> int \<Rightarrow> queue_sys \<times> Job result" where
  "enqueue_or_undo e s job priority =
     (case Enqueue (su_seq e) (su_add e) s (job_ID job) priority of
        (s1, Inl _) \<Rightarrow>
           (case job_Delete (su_delete e) (qjobs s1) (job_ID job) of
              Inl _ \<Rightarrow> (s1, Err (Errorf ''enqueue''))
            | Inr t' \<Rightarrow> (s1\<lparr> qjobs := t' \<rparr>, Err (Errorf ''enqueue'')))
      | (s1, Inr _) \<Rightarrow> (s1, Ok job))"

definition SubmitJob ::
  "submit_env \<Rightarrow> int \<Rightarrow> queue_sys \<Rightarrow> SubmitJobRequest \<Rightarrow> int \<Rightarrow> queue_sys \<times> Job result" where
  "SubmitJob e now s req userID = (case su_access e userID of
     Inl _ \<Rightarrow> (s, Err (Errorf ''access''))
   | Inr isRoot \<Rightarrow> (case su_exists e userID (sj_FilePath req) isRoot of
       Inl _ \<Rightarrow> (s, Err (Errorf ''file check''))
     | Inr exists \<Rightarrow> (if \<not> exists then (s, Err (BizError CodeFileNotFound))
       else case su_user e userID of
         Inl _ \<Rightarrow> (s, Err (Errorf ''user''))
       | Inr user \<Rightarrow> (case job_Create (su_fresh e) (su_create e) (qjobs s) (new_job now req userID) of
           Inl _ \<Rightarrow> (s, Err (Errorf ''create''))
         | Inr (t, job) \<Rightarrow> enqueue_or_undo e (s\<lparr> qjobs := t \<rparr>) job (job_priority user)))))"

section \<open>Cancelling\<close>

record cancel_env =
  ca_get :: bool
  ca_update :: bool
  ca_remove :: bool
  ca_rollback :: bool

definition CancelJob :: "cancel_env \<Rightarrow> int \<Rightarrow> queue_sys \<Rightarrow> int \<Rightarrow> int \<Rightarrow> queue_sys \<times> unit result" where
  "CancelJob e now s jobID userID = (case GetByID (ca_get e) (qjobs s) jobID of
     Inl _ \<Rightarrow> (s, Err (Errorf ''get job''))
   | Inr job \<Rightarrow>
      (if job_UserId job \<noteq> userID then (s, Err (BizError CodeForbidden))
       else if job_Status job \<noteq> JobStatusQueued \<and> job_Status job \<noteq> JobStatusWaitingGpu
       then (s, Err (BizError CodeJobCannotCancel))
       else case UpdateStatus (ca_update e) now (qjobs s) jobID JobStatusCancelled of
         Inl _ \<Rightarrow> (s, Err (Errorf ''status''))
       | Inr t \<Rightarrow>
          (let s1 = s\<lparr> qjobs := t \<rparr> in case Remove (ca_remove e) s1 jobID of
             Inl _ \<Rightarrow>
               (case UpdateStatus (ca_rollback e) now (qjobs s1) jobID (job_Status job) of
                  Inl _ \<Rightarrow> (s1, Err (Errorf ''remove''))
                | Inr t' \<Rightarrow> (s1\<lparr> qjobs := t' \<rparr>, Err (Errorf ''remove'')))
           | Inr s2 \<Rightarrow> (s2, Ok ()))))"

section \<open>Handlers\<close>

datatype http = Success | BadRequest | InternalError | Code int

text \<open>StringToInt leaves the target at its zero value for the empty string.\<close>

definition StringToInt :: "string \<Rightarrow> int \<Rightarrow> (bool \<times> int) result" where
  "StringToInt s result = (if s = [] then Ok (False, result)
     else case Atoi s of None \<Rightarrow> Err (Errorf ''atoi'') | Some v \<Rightarrow> Ok (True, v))"

record reorder_env =
  ro_get :: bool
  ro_target :: bool
  ro_move :: move_env

definition ReorderQueue :: "reorder_env \<Rightarrow> int \<Rightarrow> queue_sys \<Rightarrow> ReorderRequest \<Rightarrow> queue_sys \<times> http" where
  "ReorderQueue e now s req = (case GetByID (ro_get e) (qjobs s) (ro_JobID req) of
     Inl _ \<Rightarrow> (s, InternalError)
   | Inr job \<Rightarrow> (if job_Status job = JobStatusRunning then (s, BadRequest)
       else case GetByID (ro_target e) (qjobs s) (ro_TargetJobID req) of
         Inl _ \<Rightarrow> (s, InternalError)
       | Inr target \<Rightarrow> (if job_Status target = JobStatusRunning then (s, BadRequest)
           else case MoveBefore (ro_move e) now s (ro_JobID req) (ro_TargetJobID req) of
             (s', Inl _) \<Rightarrow> (s', InternalError)
           | (s', Inr _) \<Rightarrow> (s', Success))))"

record remove_env =
  rm_get :: bool
  rm_remove :: bool
  rm_update :: bool

definition RemoveJob :: "remove_env \<Rightarrow> int \<Rightarrow> queue_sys \<Rightarrow> string \<Rightarrow> queue_sys \<times> http" where
  "RemoveJob e now s jobIDStr = (if jobIDStr = [] then (s, BadRequest)
     else case StringToInt jobIDStr 0 of
       Inl _ \<Rightarrow> (s, BadRequest)
     | Inr (_, jobID) \<Rightarrow> (case GetByID (rm_get e) (qjobs s) jobID of
         Inl _ \<Rightarrow> (s, InternalError)
       | Inr job \<Rightarrow> (case Remove (rm_remove e) s jobID of
           Inl _ \<Rightarrow> (s, InternalError)
         | Inr s1 \<Rightarrow>
            (if job_Status job = JobStatusQueued \<or> job_Status job = JobStatusWaitingGpu
             then (case UpdateStatus (rm_update e) now (qjobs s1) jobID JobStatusCancelled of
                     Inl _ \<Rightarrow> (s1, InternalError)
                   | Inr t \<Rightarrow> (s1\<lparr> qjobs := t \<rparr>, Success))
             else (s1, Success)))))"

definition CancelJob_handler :: "cancel_env \<Rightarrow> int \<Rightarrow> queue_sys \<Rightarrow> string \<Rightarrow> int \<Rightarrow> queue_sys \<times> http" where
  "CancelJob_handler e now s jobIDStr userID = (if jobIDStr = [] then (s, BadRequest)
     else case StringToInt jobIDStr 0 of
       Inl _ \<Rightarrow> (s, BadRequest)
     | Inr (_, jobID) \<Rightarrow> (case CancelJob e now s jobID userID of
         (s', Inl _) \<Rightarrow> (s', Code 4001)
       | (s', Inr _) \<Rightarrow> (s', Success)))"

section \<open>Effects on the statuses\<close>

abbreviation is_running :: "queue_sys \<Rightarrow> int \<Rightarrow> bool" where
  "is_running s i \<equiv> status_of (qjobs s) i = Some JobStatusRunning"

lemma Running_neq [simp]:
  "JobStatusQueued \<noteq> JobStatusRunning" "JobStatusWaitingGpu \<noteq> JobStatusRunning"
  "JobStatusCancelled \<noteq> JobStatusRunning" "JobStatusFailed \<noteq> JobStatusRunning"
  "JobStatusCompleted \<noteq> JobStatusRunning"
  by (simp_all add: job_status_defs)

lemma GetByID_Ok: "GetByID err t i = Ok j \<Longrightarrow> find_job t i = Some j \<and> status_of t i = Some (job_Status j) \<and> job_ID j = i"
  by (auto simp: GetByID_def status_of_def dest: find_job_ID split: if_splits option.splits)

lemma Remove_jobs: "Remove err s i = Ok s' \<Longrightarrow> qjobs s' = qjobs s"
  by (auto simp: Remove_def q_Remove_def split: if_splits)

lemma Enqueue_jobs: "qjobs (fst (Enqueue e1 e2 s i p)) = qjobs s"
  by (auto simp: Enqueue_def NextSeq_def q_Add_def split: sum.splits)

lemma status_append: "status_of (t @ [j]) i =
    (if status_of t i \<noteq> None then status_of t i else if job_ID j = i then Some (job_Status j) else None)"
  by (induction t) (auto simp: status_of_def find_job_def)

lemma status_filter: "status_of (filter (\<lambda>j. job_ID j \<noteq> i) t) k = (if k = i then None else status_of t k)"
  by (induction t) (auto simp: status_of_def find_job_def)

lemma status_None_iff: "status_of t i = None \<longleftrightarrow> i \<notin> job_ID ` set t"
  by (auto simp: status_of_def find_job_def find_None_iff)

lemma fix_running [simp]: "is_running (fixJobStatusIfMovedFromHead e now s j) k = is_running s k"
proof (cases "qjobs (fixJobStatusIfMovedFromHead e now s j) = qjobs s")
  case False
  then obtain job t where "GetByID (fx_get e) (qjobs s) j = Ok job" "job_Status job = JobStatusWaitingGpu"
      "UpdateStatus (fx_update e) now (qjobs s) j JobStatusQueued = Ok t"
      "fixJobStatusIfMovedFromHead e now s j = s\<lparr> qjobs := t \<rparr>"
    by (auto simp: fixJobStatusIfMovedFromHead_def split: sum.splits if_splits)
  then show ?thesis
    using status_UpdateStatus [of "fx_update e" now "qjobs s" j JobStatusQueued t k]
      GetByID_Ok [of "fx_get e" "qjobs s" j job] by simp
qed simp

lemma MoveBefore_running: "is_running (fst (MoveBefore e now s j b)) k = is_running s k"
  using status_UpdateSug
  by (auto simp: MoveBefore_def q_Add_def Let_def split: sum.splits if_splits)

lemma CancelJob_running: "is_running (fst (CancelJob e now s j u)) k = is_running s k"
proof (cases "GetByID (ca_get e) (qjobs s) j")
  case (Inr job)
  then have st: "status_of (qjobs s) j = Some (job_Status job)" using GetByID_Ok by blast
  then show ?thesis
    using Inr
    by (auto simp: CancelJob_def Let_def status_UpdateStatus Remove_jobs split: sum.splits if_splits)
qed (simp add: CancelJob_def)

lemma enqueue_or_undo_jobs:
  "qjobs (fst (enqueue_or_undo e s j p)) = qjobs s \<or>
   qjobs (fst (enqueue_or_undo e s j p)) = filter (\<lambda>k. job_ID k \<noteq> job_ID j) (qjobs s)"
  using Enqueue_jobs [of "su_seq e" "su_add e" s "job_ID j" p]
  by (auto simp: enqueue_or_undo_def job_Delete_def split: prod.splits sum.splits)

text \<open>What a submission can do to the table: nothing, one new queued row, or that row rolled back.\<close>

lemma SubmitJob_cases:
  obtains (same) "qjobs (fst (SubmitJob e now s req u)) = qjobs s"
  | (added) j where "job_ID j = su_fresh e (qjobs s)" "job_Status j = JobStatusQueued"
      "qjobs (fst (SubmitJob e now s req u)) = qjobs s @ [j]"
  | (undone) j where "job_ID j = su_fresh e (qjobs s)" "job_Status j = JobStatusQueued"
      "qjobs (fst (SubmitJob e now s req u)) = filter (\<lambda>k. job_ID k \<noteq> su_fresh e (qjobs s)) (qjobs s @ [j])"
proof (cases "qjobs (fst (SubmitJob e now s req u)) = qjobs s")
  case False
  define j where "j = (new_job now req u)\<lparr> job_ID := su_fresh e (qjobs s) \<rparr>"
  have j: "job_ID j = su_fresh e (qjobs s)" "job_Status j = JobStatusQueued"
    by (simp_all add: j_def new_job_def)
  obtain p where "SubmitJob e now s req u = enqueue_or_undo e (s\<lparr> qjobs := qjobs s @ [j] \<rparr>) j p"
    using False by (auto simp: SubmitJob_def job_Create_def Let_def j_def split: sum.splits if_splits)
  then show ?thesis
    using that(2,3) [of j] j enqueue_or_undo_jobs [of e "s\<lparr> qjobs := qjobs s @ [j] \<rparr>" j p] by auto
qed (use that(1) in simp)

lemma SubmitJob_running:
  assumes "su_fresh e (qjobs s) \<notin> job_ID ` set (qjobs s)"
  shows "is_running (fst (SubmitJob e now s req u)) k = is_running s k"
proof -
  have none: "status_of (qjobs s) (su_fresh e (qjobs s)) = None" using assms by (simp add: status_None_iff)
  show ?thesis
    by (cases rule: SubmitJob_cases [of e now s req u]) (auto simp: status_append status_filter none)
qed

section \<open>Properties\<close>

lemma Enqueue_Err_qset: "snd (Enqueue e1 e2 s i p) = Err x \<Longrightarrow> qset (fst (Enqueue e1 e2 s i p)) = qset s"
  by (auto simp: Enqueue_def NextSeq_def q_Add_def split: sum.splits if_splits)

lemma Enqueue_Ok_qset:
  "snd (Enqueue e1 e2 s i p) = Ok u \<Longrightarrow>
   set (map fst (qset (fst (Enqueue e1 e2 s i p)))) = insert (Itoa i) (set (map fst (qset s)))"
  by (auto simp: Enqueue_def NextSeq_def q_Add_def set_ZAdd split: sum.splits if_splits)

lemma find_job_snoc: "status_of t i = None \<Longrightarrow> job_ID j = i \<Longrightarrow> find_job (t @ [j]) i = Some j"
  by (induction t) (auto simp: find_job_def status_of_def)

lemma SubmitJob_shape:
  "(\<exists>x. SubmitJob e now s req u = (s, Err x)) \<or>
   (\<exists>j p. j = (new_job now req u)\<lparr> job_ID := su_fresh e (qjobs s) \<rparr> \<and>
      SubmitJob e now s req u = enqueue_or_undo e (s\<lparr> qjobs := qjobs s @ [j] \<rparr>) j p)"
  unfolding SubmitJob_def job_Create_def Let_def by (auto split: sum.split)


definition demo_submit :: submit_env where
  "demo_submit = \<lparr> su_access = (\<lambda>_. Ok False), su_exists = (\<lambda>_ _ _. Ok True), su_user = (\<lambda>_. Ok (Some 2)),
     su_fresh = (\<lambda>t. foldr (\<lambda>j m. max (job_ID j) m) t 0 + 1), su_create = False, su_seq = False,
     su_add = True, su_delete = False \<rparr>"


text \<open>
  Cancelling. A cancellation succeeds only for the owner of a job that is queued or waiting
  for cards; the job is then cancelled and out of the queue. A refused one leaves the queue and
  every status as they were, as long as the status can be rolled back when the removal from the
  queue fails.
\<close>

theorem cancel_effect:
  assumes "CancelJob e now s j u = (s', r)" "\<not> ca_rollback e"
  shows "case r of
      Inl x \<Rightarrow> qset s' = qset s \<and> (\<forall>k. status_of (qjobs s') k = status_of (qjobs s) k)
    | Inr w \<Rightarrow> (\<exists>job. find_job (qjobs s) j = Some job \<and> job_UserId job = u \<and>
         (job_Status job = JobStatusQueued \<or> job_Status job = JobStatusWaitingGpu)) \<and>
         status_of (qjobs s') j = Some JobStatusCancelled \<and> Itoa j \<notin> set (map fst (qset s')) \<and>
         (\<forall>k. k \<noteq> j \<longrightarrow> status_of (qjobs s') k = status_of (qjobs s) k)"
proof (cases "GetByID (ca_get e) (qjobs s) j")
  case (Inl x)
  then show ?thesis using assms(1) by (auto simp: CancelJob_def)
next
  case (Inr job)
  note job = GetByID_Ok [OF Inr]
  show ?thesis
  proof (cases "job_UserId job = u \<and> (job_Status job = JobStatusQueued \<or> job_Status job = JobStatusWaitingGpu) \<and> \<not> ca_update e")
    case False
    then show ?thesis using assms(1) Inr by (auto simp: CancelJob_def UpdateStatus_def split: if_splits)
  next
    case True
    then obtain t where t: "UpdateStatus (ca_update e) now (qjobs s) j JobStatusCancelled = Ok t"
      by (simp add: UpdateStatus_def)
    have st: "status_of t k = (if k = j then Some JobStatusCancelled else status_of (qjobs s) k)" for k
      using status_UpdateStatus [OF t, of k] job by auto
    show ?thesis
    proof (cases "ca_remove e")
      case rm: True
      obtain t' where t': "UpdateStatus (ca_rollback e) now t j (job_Status job) = Ok t'"
        using assms(2) by (simp add: UpdateStatus_def)
      then have "s' = s\<lparr> qjobs := t' \<rparr>" "\<exists>x. r = Err x"
        using assms(1) Inr True t rm by (auto simp: CancelJob_def Remove_def q_Remove_def)
      moreover have "status_of t' k = status_of (qjobs s) k" for k
        using status_UpdateStatus [OF t', of k] st job by auto
      ultimately show ?thesis by auto
    next
      case rm: False
      then have "s' = s\<lparr> qjobs := t, qset := ZRem (qset s) (Itoa j) \<rparr>" "r = Ok ()"
        using assms(1) Inr True t by (auto simp: CancelJob_def Remove_def q_Remove_def)
      then show ?thesis using True job st by (auto simp: ZRem_def)
    qed
  qed
qed

text \<open>
  Reordering only refuses running jobs: a job that has ended, been cancelled or was never queued
  enters the waiting queue when it is moved before a waiting one.
\<close>

theorem ended_job_requeued:
  assumes "ReorderQueue e now s req = (s', Success)"
  shows "Itoa (ro_JobID req) \<in> set (map fst (qset s'))"
proof -
  have "(Itoa j, v) \<in> set (ZAdd z (Itoa j) v)" for j z v by (simp add: set_ZAdd)
  then show ?thesis using assms
    by (force simp: ReorderQueue_def MoveBefore_def q_Add_def Let_def split: sum.splits if_splits prod.splits)
qed

end
