(* ===== verification/SchedulerSafety.thy ===== *)
theory SchedulerSafety
  imports Scheduler JobService
begin

text \<open>
  Safety of the scheduler over all interleavings: a step relation whose steps are the
  operations of the scheduler, the monitor goroutines and the requests of users, the invariant
  that ties the held cards, the running jobs and the live monitors together, and its
  preservation by every step.

  The relation leaves the failures open except for those after which the code itself gives up
  the bookkeeping (they are the subject of separate theorems): the environment of a step only
  has to let the clean-up calls of that step succeed.
\<close>

section \<open>Effects of the logged calls\<close>

abbreviation held :: "sched \<Rightarrow> int \<Rightarrow> int option" where
  "held s \<equiv> holder (cards (sc_gpu s))"

abbreviation running :: "sched \<Rightarrow> int \<Rightarrow> bool" where
  "running s j \<equiv> is_running (sc_queue s) j"

lemma try_status_same [simp]:
  "sc_gpu (try_status err now i st s) = sc_gpu s" "sc_monitors (try_status err now i st s) = sc_monitors s"
  "sc_procs (try_status err now i st s) = sc_procs s" "sc_runningJobs (try_status err now i st s) = sc_runningJobs s"
  "qset (sc_queue (try_status err now i st s)) = qset (sc_queue s)"
  "sc_pids (try_status err now i st s) = sc_pids s" "sc_lock (try_status err now i st s) = sc_lock s"
  by (auto simp: try_status_def split: sum.splits)

lemma try_release_same [simp]:
  "sc_queue (try_release err n ids s) = sc_queue s" "sc_monitors (try_release err n ids s) = sc_monitors s"
  "sc_procs (try_release err n ids s) = sc_procs s" "sc_runningJobs (try_release err n ids s) = sc_runningJobs s"
  "sc_pids (try_release err n ids s) = sc_pids s" "sc_lock (try_release err n ids s) = sc_lock s"
  by (auto simp: try_release_def split: sum.splits)

lemma try_remove_same [simp]:
  "sc_gpu (try_remove err i s) = sc_gpu s" "sc_monitors (try_remove err i s) = sc_monitors s"
  "sc_procs (try_remove err i s) = sc_procs s" "sc_runningJobs (try_remove err i s) = sc_runningJobs s"
  "sc_jobs (try_remove err i s) = sc_jobs s" "sc_pids (try_remove err i s) = sc_pids s"
  "sc_lock (try_remove err i s) = sc_lock s"
  by (auto simp: try_remove_def Remove_jobs split: sum.splits)

lemma try_DelPid_same [simp]:
  "sc_gpu (try_DelPid err i s) = sc_gpu s" "sc_monitors (try_DelPid err i s) = sc_monitors s"
  "sc_procs (try_DelPid err i s) = sc_procs s" "sc_runningJobs (try_DelPid err i s) = sc_runningJobs s"
  "sc_queue (try_DelPid err i s) = sc_queue s"
  by (auto simp: try_DelPid_def split: sum.splits)

lemma try_proc_Update_same [simp]:
  "sc_gpu (try_proc_Update err p s) = sc_gpu s" "sc_monitors (try_proc_Update err p s) = sc_monitors s"
  "sc_runningJobs (try_proc_Update err p s) = sc_runningJobs s"
  "sc_queue (try_proc_Update err p s) = sc_queue s"
  by (auto simp: try_proc_Update_def split: sum.splits)

lemma foldl_same:
  assumes "\<And>u x. f (g u x) = f u"
  shows "f (foldl g s xs) = f s"
  by (induction xs arbitrary: s) (simp_all add: assms)

lemma end_processes_same [simp]:
  "sc_gpu (end_processes e now j s) = sc_gpu s" "sc_monitors (end_processes e now j s) = sc_monitors s"
  "sc_runningJobs (end_processes e now j s) = sc_runningJobs s"
  "sc_queue (end_processes e now j s) = sc_queue s"
  by (auto simp: end_processes_def foldl_same split: sum.splits)

lemma running_try_status:
  "\<not> err \<Longrightarrow> running (try_status err now i st s) j \<longleftrightarrow>
   (if j = i \<and> status_of (sc_jobs s) i \<noteq> None then st = JobStatusRunning else running s j)"
  by (auto simp: try_status_def status_UpdateStatus UpdateStatus_def split: sum.splits)
    (auto simp: status_UpdateStatus [of False, unfolded UpdateStatus_def])

lemma held_try_release:
  assumes "cards_ok (cards (sc_gpu s))" "\<not> err"
  shows "cards_ok (cards (sc_gpu (try_release err n ids s)))"
    and "held (try_release err n ids s) i = (if i \<in> set ids then None else held s i)"
proof -
  have "is_ok (ReleaseCards err n (sc_gpu s) ids)"
    using assms(2) by (simp add: ReleaseCards_def repo_Release_def)
  then obtain g where g: "ReleaseCards err n (sc_gpu s) ids = Ok g" by (auto simp: is_ok_iff)
  then have r: "release_op (err, n) (sc_gpu s) ids = Some g" by (simp add: release_op_Some_iff)
  show "cards_ok (cards (sc_gpu (try_release err n ids s)))"
    using gpu.release_keeps [OF assms(1) r] g by (simp add: try_release_def)
  show "held (try_release err n ids s) i = (if i \<in> set ids then None else held s i)"
    using gpu.release_frees [OF assms(1) r] g by (simp add: try_release_def)
qed

section \<open>The invariant\<close>

abbreviation jps :: "sched \<Rightarrow> JobProcess list" where
  "jps s \<equiv> map mon_jp (sc_monitors s)"

abbreviation mon_jobs :: "sched \<Rightarrow> int list" where
  "mon_jobs s \<equiv> map jp_jobID (jps s)"

text \<open>
  A card is held exactly by the job of a live monitor that lists it, no job has two monitors,
  and the running jobs are exactly those with a monitor.
\<close>

definition sched_inv :: "sched \<Rightarrow> bool" where
  "sched_inv s \<longleftrightarrow> cards_ok (cards (sc_gpu s)) \<and> distinct (mon_jobs s) \<and>
     (\<forall>i j. held s i = Some j \<longleftrightarrow>
        (\<exists>p \<in> set (jps s). jp_jobID p = j \<and> i \<in> set (jp_cardIDs p))) \<and>
     (\<forall>j. running s j \<longleftrightarrow> j \<in> set (mon_jobs s))"

lemma sched_invD:
  assumes "sched_inv s"
  shows "cards_ok (cards (sc_gpu s))" "distinct (mon_jobs s)"
    "held s i = Some j \<longleftrightarrow> (\<exists>p \<in> set (jps s). jp_jobID p = j \<and> i \<in> set (jp_cardIDs p))"
    "running s j \<longleftrightarrow> j \<in> set (mon_jobs s)"
  using assms by (auto simp: sched_inv_def)

text \<open>The invariant only looks at the cards, the monitors and which jobs are running.\<close>

lemma sched_inv_cong:
  assumes "sched_inv s" "jps s' = jps s" "cards_ok (cards (sc_gpu s'))"
    "\<And>i. held s' i = held s i" "\<And>j. running s' j \<longleftrightarrow> running s j"
  shows "sched_inv s'"
  using assms unfolding sched_inv_def by metis

section \<open>Starting a job\<close>

definition exec_ok :: "exec_env \<Rightarrow> bool" where
  "exec_ok e \<longleftrightarrow> \<not> ex_release e \<and> \<not> ex_fail e \<and> \<not> ex_cards e \<and> (\<forall>c. \<not> ex_proc e c) \<and> \<not> ex_cache e"

lemma write_procs_ok: "\<forall>c. \<not> ex_proc e c \<Longrightarrow> \<exists>t'. write_procs e now pid j cs t = (t', Ok ())"
  by (induction cs arbitrary: t) (auto simp: proc_Create_def)

lemma exec_prepare_cases:
  assumes ok: "cards_ok (cards (sc_gpu s))" and e: "\<not> ex_release e" and job: "status_of (sc_jobs s) (job_ID job) \<noteq> None"
  obtains (refused) s1 x where "exec_prepare e now s job ids = (s1, Err x)"
      "sc_monitors s1 = sc_monitors s" "cards_ok (cards (sc_gpu s1))" "\<And>i. held s1 i = held s i"
      "sc_queue s1 = sc_queue s"
  | (granted) s1 where "exec_prepare e now s job ids = (s1, Ok ())"
      "sc_monitors s1 = sc_monitors s" "cards_ok (cards (sc_gpu s1))"
      "\<And>i. i \<in> set ids \<Longrightarrow> held s i = None"
      "\<And>i. held s1 i = (if i \<in> set ids then Some (job_ID job) else held s i)"
      "\<And>j. running s1 j \<longleftrightarrow> j = job_ID job \<or> running s j"
      "status_of (sc_jobs s1) (job_ID job) \<noteq> None"
proof (cases "AcquireCards (ex_count e) (ex_update e) (ex_busy e) (sc_gpu s) ids (job_ID job)")
  case (Inl x)
  then show ?thesis using that(1) [of s] ok by (simp add: exec_prepare_def)
next
  case (Inr g)
  then have a: "acquire_op (ex_count e, ex_update e, ex_busy e) (sc_gpu s) ids (job_ID job) = Some g"
    by (simp add: acquire_op_Some_iff)
  let ?s1 = "s\<lparr> sc_gpu := g \<rparr>"
  have ok1: "cards_ok (cards (sc_gpu ?s1))" using gpu.acquire_keeps [OF ok a] by simp
  have free: "i \<in> set ids \<Longrightarrow> held s i = None" for i using gpu.acquire_free [OF ok a] by simp
  have hold: "held ?s1 i = (if i \<in> set ids then Some (job_ID job) else held s i)" for i
    using gpu.acquire_holds [OF ok a] by simp
  show ?thesis
  proof (cases "UpdateStatus (ex_status e) now (sc_jobs s) (job_ID job) JobStatusRunning")
    case (Inl x)
    then have "exec_prepare e now s job ids = (try_release (ex_release e) (ex_idle e) ids ?s1, Err (Errorf ''status''))"
      using Inr by (simp add: exec_prepare_def)
    moreover have "held (try_release (ex_release e) (ex_idle e) ids ?s1) i = held s i" for i
      using held_try_release(2) [OF ok1 e] hold free by simp
    ultimately show ?thesis
      using that(1) held_try_release(1) [OF ok1 e] by simp
  next
    case t: (Inr t)
    have "status_of t j = (if j = job_ID job then Some JobStatusRunning else status_of (sc_jobs s) j)" for j
      using status_UpdateStatus [OF t] job by auto
    moreover have "exec_prepare e now s job ids = (set_jobs t ?s1, Ok ())"
      using Inr t by (simp add: exec_prepare_def)
    ultimately show ?thesis
      using that(2) [of "set_jobs t ?s1"] ok1 free hold by simp
  qed
qed

lemma abort_job_effect:
  assumes ok: "cards_ok (cards (sc_gpu s))" and e: "exec_ok e"
    and job: "status_of (sc_jobs s) (job_ID job) \<noteq> None"
  shows "sc_monitors (abort_job e now job ids s) = sc_monitors s"
    "cards_ok (cards (sc_gpu (abort_job e now job ids s)))"
    "held (abort_job e now job ids s) i = (if i \<in> set ids then None else held s i)"
    "running (abort_job e now job ids s) j \<longleftrightarrow> j \<noteq> job_ID job \<and> running s j"
  using assms
  by (auto simp: abort_job_def exec_ok_def held_try_release running_try_status)

lemma exec_track_effect:
  assumes "exec_ok e"
  shows "\<exists>s2 jp. exec_track e now s job ids pid = (s2, Ok ()) \<and> sc_gpu s2 = sc_gpu s \<and>
    sc_queue s2 = sc_queue s \<and> jp_jobID jp = job_ID job \<and> jp_cardIDs jp = ids \<and>
    sc_monitors s2 = sc_monitors s @ [\<lparr> mon_jp = jp, mon_failCount = 0 \<rparr>]"
proof -
  obtain t' where "write_procs e now pid (job_ID job) ids (sc_procs s) = (t', Ok ())"
    using write_procs_ok assms unfolding exec_ok_def by blast
  then show ?thesis
    using assms by (auto simp: exec_track_def exec_ok_def CreatePid_def Let_def)
qed

lemma sched_inv_executeJob:
  assumes inv: "sched_inv s" and e: "exec_ok e"
    and job: "status_of (sc_jobs s) (job_ID job) \<noteq> None" "\<not> running s (job_ID job)"
  shows "sched_inv (fst (executeJob e now s job ids))"
proof -
  note ok = sched_invD(1) [OF inv]
  have er: "\<not> ex_release e" "\<not> ex_cards e" using e by (auto simp: exec_ok_def)
  show ?thesis
    using ok er(1) job(1)
  proof (cases rule: exec_prepare_cases [of s e job now ids])
    case (refused s1 x)
    then have "executeJob e now s job ids = (s1, Err x)" by (simp add: executeJob_def)
    then show ?thesis using refused by (intro sched_inv_cong [OF inv]) simp_all
  next
    case (granted s1)
    have aborted: "sched_inv (abort_job e now job ids s1)"
      using abort_job_effect [OF granted(3) e granted(7)] granted job(2)
      by (intro sched_inv_cong [OF inv]) auto
    have tracked: "sched_inv (fst (exec_track e now s1 job ids pid))" for pid
    proof -
      obtain s2 jp where s2: "exec_track e now s1 job ids pid = (s2, Ok ())" "sc_gpu s2 = sc_gpu s1"
          "sc_queue s2 = sc_queue s1" "jp_jobID jp = job_ID job" "jp_cardIDs jp = ids"
          "sc_monitors s2 = sc_monitors s1 @ [\<lparr> mon_jp = jp, mon_failCount = 0 \<rparr>]"
        using exec_track_effect [OF e] by blast
      have new: "job_ID job \<notin> set (mon_jobs s)" using sched_invD(4) [OF inv] job(2) by simp
      have "held s2 i = Some j \<longleftrightarrow> (\<exists>p \<in> set (jps s2). jp_jobID p = j \<and> i \<in> set (jp_cardIDs p))" for i j
        using granted(2,4,5) sched_invD(3) [OF inv, of i j] s2 by (cases "i \<in> set ids") auto
      moreover have "running s2 j \<longleftrightarrow> j \<in> set (mon_jobs s2)" for j
        using granted(2,6) sched_invD(4) [OF inv, of j] s2 by auto
      ultimately have "sched_inv s2"
        using sched_invD(2) [OF inv] new granted(2,3) s2 by (auto simp: sched_inv_def)
      then show ?thesis using s2(1) by simp
    qed
    show ?thesis
      using granted(1) er(2) aborted tracked
      by (auto simp: executeJob_def GetByIDs_def split: sum.splits)
  qed
qed

section \<open>Serving the queue\<close>

lemma sched_inv_try_remove: "sched_inv s \<Longrightarrow> sched_inv (try_remove err i s)"
  by (rule sched_inv_cong) (simp_all add: sched_invD(1))

lemma sched_inv_try_status:
  assumes "sched_inv s" "st \<noteq> JobStatusRunning" "\<not> running s i"
  shows "sched_inv (try_status err now i st s)"
proof (cases err)
  case True
  then show ?thesis using assms by (simp add: try_status_def UpdateStatus_def)
next
  case False
  show ?thesis
    by (rule sched_inv_cong [OF assms(1)])
      (use assms False in \<open>auto simp: running_try_status sched_invD(1)\<close>)
qed

lemma sched_inv_serve_head:
  assumes inv: "sched_inv s" and e: "exec_ok (pq_exec e)"
  shows "sched_inv (serve_head e now s)"
proof (cases "\<exists>item job. Peek (pq_peek e) (sc_queue s) = Ok (Some item) \<and>
      GetByID (pq_get e) (sc_jobs s) (item_JobID item) = Ok job \<and>
      (job_Status job = JobStatusQueued \<or> job_Status job = JobStatusWaitingGpu)")
  case True
  then obtain item job where ij: "Peek (pq_peek e) (sc_queue s) = Ok (Some item)"
      "GetByID (pq_get e) (sc_jobs s) (item_JobID item) = Ok job"
      "job_Status job = JobStatusQueued \<or> job_Status job = JobStatusWaitingGpu" by blast
  then have st: "status_of (sc_jobs s) (job_ID job) = Some (job_Status job)" using GetByID_Ok [OF ij(2)] by simp
  then have nr: "\<not> running s (job_ID job)" using ij(3) by auto
  have "sched_inv (fst (executeJob (pq_exec e) now s job ids))" for ids
    using sched_inv_executeJob [OF inv e] st nr by simp
  then show ?thesis
    using ij inv nr
    by (auto simp: serve_head_def Let_def sched_inv_try_remove sched_inv_try_status
        split: sum.splits bool.splits)
next
  case False
  then show ?thesis
    using inv sched_inv_try_remove
    by (auto simp: serve_head_def Let_def split: sum.splits option.splits)
qed

lemma sched_inv_lock [simp]: "sched_inv (s\<lparr> sc_lock := l \<rparr>) = sched_inv s"
  by (simp add: sched_inv_def)

lemma sched_inv_processQueue:
  assumes "sched_inv s" "exec_ok (pq_exec e)"
  shows "sched_inv (processQueue e now s)"
  using assms sched_inv_serve_head
  by (auto simp: processQueue_def acquireQueueLock_def releaseQueueLock_def split: option.splits)

section \<open>Watching a job\<close>

definition monitor_ok :: "monitor_env \<Rightarrow> bool" where
  "monitor_ok e \<longleftrightarrow> \<not> mo_status e \<and> \<not> mo_release e"

lemma monitor_cleanup_effect:
  assumes "cards_ok (cards (sc_gpu s))" "\<not> mo_release e"
  shows "sc_monitors (monitor_cleanup e now jp s) = sc_monitors s"
    "cards_ok (cards (sc_gpu (monitor_cleanup e now jp s)))"
    "held (monitor_cleanup e now jp s) i = (if i \<in> set (jp_cardIDs jp) then None else held s i)"
    "sc_queue (monitor_cleanup e now jp s) = sc_queue s"
  using assms by (simp_all add: monitor_cleanup_def held_try_release)

text \<open>A goroutine that ends takes its job and its cards out of the invariant together.\<close>

lemma remove_nth_filter:
  "distinct (map f xs) \<Longrightarrow> k < length xs \<Longrightarrow>
   take k xs @ drop (Suc k) xs = filter (\<lambda>x. f x \<noteq> f (xs ! k)) xs"
proof (induction xs arbitrary: k)
  case (Cons x xs)
  show ?case
  proof (cases k)
    case 0
    then have "filter (\<lambda>y. f y \<noteq> f x) xs = xs" using Cons.prems by (auto simp: filter_id_conv image_iff)
    then show ?thesis using 0 by simp
  next
    case (Suc n)
    then have "f x \<noteq> f (xs ! n)" using Cons.prems by (auto simp: image_iff)
    then show ?thesis using Cons Suc by simp
  qed
qed simp

lemma sched_inv_finish:
  assumes inv: "sched_inv s" and e: "monitor_ok e" and st: "st \<noteq> JobStatusRunning"
    and k: "k < length (sc_monitors s)" and jp: "jp = mon_jp (sc_monitors s ! k)"
  shows "sched_inv ((monitor_cleanup e now jp (try_status (mo_status e) now (jp_jobID jp) st s))
    \<lparr> sc_monitors := take k (sc_monitors s) @ drop (Suc k) (sc_monitors s) \<rparr>)"
    (is "sched_inv ?s'")
proof -
  let ?u = "try_status (mo_status e) now (jp_jobID jp) st s"
  have ms: "jps ?s' = filter (\<lambda>p. jp_jobID p \<noteq> jp_jobID jp) (jps s)"
    using remove_nth_filter [OF sched_invD(2) [OF inv], of k] k jp by (simp add: take_map drop_map)
  have mem: "jp \<in> set (jps s)" using k jp by simp
  then have "running s (jp_jobID jp)" using sched_invD(4) [OF inv] by auto
  then have some: "status_of (sc_jobs s) (jp_jobID jp) \<noteq> None" by auto
  have ok: "cards_ok (cards (sc_gpu ?u))" using sched_invD(1) [OF inv] by simp
  have rel: "\<not> mo_release e" "\<not> mo_status e" using e by (auto simp: monitor_ok_def)
  note eff = monitor_cleanup_effect [OF ok rel(1), of now jp]
  have "held ?s' i = Some j \<longleftrightarrow>
      (\<exists>p \<in> set (jps ?s'). jp_jobID p = j \<and> i \<in> set (jp_cardIDs p))" for i j
  proof -
    have h: "held ?s' i = (if i \<in> set (jp_cardIDs jp) then None else held s i)" using eff(3) by simp
    have own: "held s i = Some (jp_jobID jp) \<longleftrightarrow> i \<in> set (jp_cardIDs jp)"
    proof
      assume "held s i = Some (jp_jobID jp)"
      then obtain p where p: "p \<in> set (jps s)" "jp_jobID p = jp_jobID jp" "i \<in> set (jp_cardIDs p)"
        using sched_invD(3) [OF inv] by blast
      then have "p = jp" using sched_invD(2) [OF inv] mem by (meson distinct_map inj_on_def)
      then show "i \<in> set (jp_cardIDs jp)" using p by simp
    qed (use sched_invD(3) [OF inv] mem in blast)
    show ?thesis
      unfolding ms h using sched_invD(3) [OF inv, of i j] own by (cases "j = jp_jobID jp") auto
  qed
  moreover have "running ?s' j \<longleftrightarrow> j \<in> set (mon_jobs ?s')" for j
    unfolding ms using eff(4) sched_invD(4) [OF inv, of j] some rel(2) st
    by (auto simp: running_try_status)
  moreover have "distinct (mon_jobs ?s')"
    unfolding ms using sched_invD(2) [OF inv] by (rule distinct_map_filter)
  ultimately show ?thesis using eff(2) by (simp add: sched_inv_def)
qed

lemma exit_status_not_running: "exit_status e jp \<noteq> JobStatusRunning"
  by (auto simp: exit_status_def Let_def split: sum.splits)

lemma sched_inv_tick_monitor:
  assumes inv: "sched_inv s" and e: "monitor_ok e"
  shows "sched_inv (tick_monitor e now k s)"
proof (cases "k < length (sc_monitors s)")
  case k: True
  have keep: "sched_inv (s\<lparr> sc_monitors := (sc_monitors s)[k := (sc_monitors s ! k)\<lparr> mon_failCount := n \<rparr>] \<rparr>)" for n
  proof -
    have "mon_jp (sc_monitors s ! k) = jps s ! k" using k by simp
    then show ?thesis
      using k inv by (intro sched_inv_cong [OF inv]) (simp_all add: map_update sched_invD(1) list_update_id del: nth_map)
  qed
  show ?thesis
    using k keep sched_inv_finish [OF inv e _ k refl] exit_status_not_running
    by (auto simp: tick_monitor_def monitor_tick_def Let_def split: sum.splits)
qed (use inv in \<open>simp add: tick_monitor_def\<close>)

section \<open>The step relation\<close>

inductive sched_step :: "sched \<Rightarrow> sched \<Rightarrow> bool" where
  queue_tick: "exec_ok (pq_exec e) \<Longrightarrow> sched_step s (processQueue e now s)"
| monitor_tick: "monitor_ok e \<Longrightarrow> sched_step s (tick_monitor e now k s)"
| submit: "su_fresh e (sc_jobs s) \<notin> job_ID ` set (sc_jobs s) \<Longrightarrow>
    sched_step s (s\<lparr> sc_queue := fst (SubmitJob e now (sc_queue s) req u) \<rparr>)"
| cancel: "sched_step s (s\<lparr> sc_queue := fst (CancelJob ce now (sc_queue s) j u) \<rparr>)"
| reorder: "sched_step s (s\<lparr> sc_queue := fst (ReorderQueue re now (sc_queue s) rr) \<rparr>)"
| remove: "sched_step s (s\<lparr> sc_queue := fst (RemoveJob me now (sc_queue s) str) \<rparr>)"
| lock_lost: "sched_step s (lock_expire s)"
| card_expired: "sched_step s (s\<lparr> sc_gpu := (sc_gpu s)\<lparr> cache := expire_key (cache (sc_gpu s)) i \<rparr> \<rparr>)"

inductive reachable :: "sched \<Rightarrow> sched \<Rightarrow> bool" for s0 where
  start: "reachable s0 s0"
| step: "reachable s0 s \<Longrightarrow> sched_step s s' \<Longrightarrow> reachable s0 s'"

inductive_cases sched_stepE: "sched_step s s'"

lemma ReorderQueue_running: "is_running (fst (ReorderQueue e now s req)) k = is_running s k"
  using MoveBefore_running [of "ro_move e" now s "ro_JobID req" "ro_TargetJobID req" k]
  by (auto simp: ReorderQueue_def split: sum.splits prod.splits)

lemma RemoveJob_running: "is_running (fst (RemoveJob e now s str)) k = is_running s k"
proof -
  have "is_running (s1\<lparr> qjobs := t \<rparr>) k = is_running s k"
    if "GetByID g (qjobs s) j = Ok job" "job_Status job = JobStatusQueued \<or> job_Status job = JobStatusWaitingGpu"
      "Remove r s j = Ok s1" "UpdateStatus u now (qjobs s1) j JobStatusCancelled = Ok t" for g j job r s1 u t
    using that GetByID_Ok [OF that(1)] Remove_jobs [OF that(3)] status_UpdateStatus [OF that(4)] by auto
  then show ?thesis
    by (auto simp: RemoveJob_def Remove_jobs split: sum.splits)
qed

lemma sched_inv_queue:
  "sched_inv s \<Longrightarrow> (\<And>j. is_running q j = is_running (sc_queue s) j) \<Longrightarrow> sched_inv (s\<lparr> sc_queue := q \<rparr>)"
  by (rule sched_inv_cong) (simp_all add: sched_invD(1))

lemma sched_inv_step:
  assumes "sched_step s s'" "sched_inv s"
  shows "sched_inv s'"
  using assms
proof (cases rule: sched_step.cases)
  case (card_expired i)
  then show ?thesis using assms(2) by (simp add: sched_inv_def)
next
  case lock_lost
  then show ?thesis using assms(2) by (simp add: lock_expire_def)
qed (use assms(2) in \<open>auto intro!: sched_inv_queue sched_inv_processQueue sched_inv_tick_monitor
       simp: SubmitJob_running CancelJob_running ReorderQueue_running RemoveJob_running\<close>)

lemma sched_inv_reachable: "reachable s0 s \<Longrightarrow> sched_inv s0 \<Longrightarrow> sched_inv s"
  by (induction rule: reachable.induct) (auto intro: sched_inv_step)

section \<open>A small installation\<close>

definition demo_card :: "int \<Rightarrow> gpu_card" where
  "demo_card i = \<lparr> gpu_ID = i, gpu_UUID = Itoa i, gpu_Name = ''gpu-'' @ Itoa i, gpu_Index = i,
     gpu_Status = GpuStatusIdle, gpu_CurrentJobID = None, gpu_GpuType = ''A100'', gpu_Memory = 40960 \<rparr>"

definition idle_sched :: sched where
  "idle_sched = \<lparr>
     sc_queue = \<lparr> qset = [(''4'', 8000000001), (''5'', 9000000002)], qseq = 2,
       qjobs = [(demo_job 4 1)\<lparr> job_GpuIDs := ''1,2'' \<rparr>, demo_job 5 1] \<rparr>,
     sc_gpu = \<lparr> cards = [demo_card 1, demo_card 2], cache = (\<lambda>_. []) \<rparr>,
     sc_procs = [], sc_pids = [], sc_runningJobs = (\<lambda>_. None), sc_monitors = [],
     sc_isRunning = True, sc_lock = None \<rparr>"

definition demo_exec :: exec_env where
  "demo_exec = \<lparr> ex_count = False, ex_update = False, ex_busy = (\<lambda>_. 3), ex_status = False,
     ex_release = False, ex_idle = (\<lambda>_. 3), ex_fail = False, ex_remove = False, ex_cards = False,
     ex_access = (\<lambda>_. Ok False), ex_launch = (\<lambda>u _ _ _ _. Ok (1000 + u)),
     ex_fresh = (\<lambda>t. int (length t) + 1), ex_proc = (\<lambda>_. False), ex_cache = False \<rparr>"

definition demo_env :: queue_env where
  "demo_env = \<lparr> pq_lock = False, pq_token = ''17-42'', pq_unlock = False, pq_peek = False, pq_get = False,
     pq_remove = False, pq_avail = \<lparr> av_exec = False, av_cmd = (\<lambda>_. False), av_db = False \<rparr>,
     pq_wait = False, pq_exec = demo_exec \<rparr>"

definition demo_monitor :: "bool result \<Rightarrow> monitor_env" where
  "demo_monitor alive = \<lparr> mo_exists = (\<lambda>_. alive), mo_exit = (\<lambda>_ _ _. Ok 0), mo_access = (\<lambda>_. Ok False),
     mo_status = False, mo_delpid = False, mo_find = False, mo_ended = (\<lambda>_. False), mo_release = False,
     mo_idle = (\<lambda>_. 3) \<rparr>"

definition demo_recover :: recover_env where
  "demo_recover = \<lparr> re_list = False, re_find = (\<lambda>_. False), re_exists = (\<lambda>_. Ok True),
     re_cache = (\<lambda>_. False), re_missing = \<lparr> mi_status = False, mi_update = False, mi_delpid = False,
     mi_release = False, mi_idle = (\<lambda>_. 3) \<rparr> \<rparr>"

lemma idle_sched_inv: "sched_inv idle_sched"
proof -
  have "cards_ok (cards (sc_gpu idle_sched))" by code_simp
  moreover have "held idle_sched i = None" for i
    by (simp add: idle_sched_def holder_def demo_card_def)
  moreover have "\<not> running idle_sched j" for j
    by (simp add: idle_sched_def status_of_def find_job_def demo_job_def JobStatusRunning_def)
  ultimately show ?thesis by (simp add: sched_inv_def idle_sched_def)
qed

section \<open>Properties\<close>



end
