(* ===== verification/SchedulerRuns.thy ===== *)
theory SchedulerRuns
  imports SchedulerSafety
begin

text \<open>
  What single runs of the scheduler do: the head of the queue is started or waits, a monitor
  gives up after ten failed checks, the lock keeps a second instance out, and the traces on
  which the bookkeeping of the code goes wrong.
\<close>

section \<open>Starting the head\<close>

definition launches :: "exec_env \<Rightarrow> Job \<Rightarrow> card_table \<Rightarrow> int list \<Rightarrow> int \<Rightarrow> bool" where
  "launches e job t ids pid \<longleftrightarrow> \<not> ex_count e \<and> \<not> ex_update e \<and> \<not> ex_status e \<and> \<not> ex_cards e \<and>
     (\<forall>c. \<not> ex_proc e c) \<and> \<not> ex_cache e \<and> job_FilePath job \<noteq> [] \<and>
     (\<exists>isRoot. ex_access e (job_UserId job) = Ok isRoot \<and>
        ex_launch e (job_UserId job) (job_CondaEnv job) (''python3 -u '' @ job_FilePath job)
          (env_vars job (filter (\<lambda>c. gpu_ID c \<in> set ids)
             (set_cards t ids GpuStatusBusy (Some (job_ID job))))) isRoot = Ok pid)"

lemma write_procs_rows:
  "\<forall>c. \<not> ex_proc e c \<Longrightarrow> \<exists>t'. write_procs e now pid j cs t = (t', Ok ()) \<and>
     (\<forall>c \<in> set cs. \<exists>p \<in> set t'. proc_PID p = pid \<and> proc_CardID p = c \<and> proc_JobID p = j \<and> proc_EndedAt p = None) \<and>
     set t \<subseteq> set t'"
proof (induction cs arbitrary: t)
  case (Cons c cs)
  let ?p = "\<lparr> proc_ID = ex_fresh e t, proc_PID = pid, proc_CardID = c, proc_JobID = j, proc_CreatedAt = now,
     proc_EndedAt = None \<rparr>"
  obtain t' where t': "write_procs e now pid j cs (t @ [?p]) = (t', Ok ())"
      "\<forall>c \<in> set cs. \<exists>p \<in> set t'. proc_PID p = pid \<and> proc_CardID p = c \<and> proc_JobID p = j \<and> proc_EndedAt p = None"
      "set (t @ [?p]) \<subseteq> set t'"
    using Cons.IH [OF Cons.prems] by blast
  have "write_procs e now pid j (c # cs) t = (t', Ok ())"
    using t'(1) Cons.prems by (simp add: proc_Create_def)
  moreover have "\<exists>p \<in> set t'. proc_PID p = pid \<and> proc_CardID p = c \<and> proc_JobID p = j \<and> proc_EndedAt p = None"
    using t'(3) by (intro bexI [of _ ?p]) auto
  ultimately show ?case using t'(2,3) by auto
qed simp

text \<open>What a started job leaves behind: its cards, its status, its monitor and its process rows.\<close>

definition process_of :: "Job \<Rightarrow> int list \<Rightarrow> int \<Rightarrow> JobProcess" where
  "process_of job ids pid = \<lparr> jp_pid = pid, jp_jobID = job_ID job, jp_userID = job_UserId job,
     jp_jobName = job_Name job, jp_cardIDs = ids \<rparr>"

definition started :: "sched \<Rightarrow> sched \<Rightarrow> Job \<Rightarrow> int list \<Rightarrow> int \<Rightarrow> bool" where
  "started s s' job ids pid \<longleftrightarrow>
     (\<forall>i \<in> set ids. held s' i = Some (job_ID job)) \<and> running s' (job_ID job) \<and>
     sc_monitors s' = sc_monitors s @ [\<lparr> mon_jp = process_of job ids pid, mon_failCount = 0 \<rparr>] \<and>
     sc_runningJobs s' pid = Some (process_of job ids pid) \<and>
     (\<forall>c \<in> set ids. \<exists>p \<in> set (sc_procs s'). proc_PID p = pid \<and> proc_CardID p = c \<and>
        proc_JobID p = job_ID job \<and> proc_EndedAt p = None)"

lemma executeJob_launches:
  assumes ok: "cards_ok (cards (sc_gpu s))" and ids: "ids \<noteq> []" "distinct ids" "set ids \<subseteq> idle_ids (cards (sc_gpu s))"
    and l: "launches e job (cards (sc_gpu s)) ids pid" and job: "status_of (sc_jobs s) (job_ID job) \<noteq> None"
  shows "\<exists>s'. executeJob e now s job ids = (s', Ok ()) \<and> started s s' job ids pid \<and>
     qset (sc_queue s') = qset (sc_queue s) \<and> sc_lock s' = sc_lock s"
proof -
  define g where "g = \<lparr> cards = set_cards (cards (sc_gpu s)) ids GpuStatusBusy (Some (job_ID job)),
    cache = foldl (\<lambda>h i. SetBusy (ex_busy e i) h i (job_ID job)) (cache (sc_gpu s)) ids \<rparr>"
  have l': "\<not> ex_count e" "\<not> ex_update e" "\<not> ex_status e" "\<not> ex_cards e" "\<forall>c. \<not> ex_proc e c" "\<not> ex_cache e"
    "job_FilePath job \<noteq> []" using l by (auto simp: launches_def)
  have acq: "AcquireCards (ex_count e) (ex_update e) (ex_busy e) (sc_gpu s) ids (job_ID job) = Ok g"
    using AcquireCards_Ok_iff [OF ok] ids l' g_def by auto
  obtain t where t: "UpdateStatus (ex_status e) now (sc_jobs s) (job_ID job) JobStatusRunning = Ok t"
    using l' by (simp add: UpdateStatus_def)
  let ?s1 = "set_jobs t (s\<lparr> sc_gpu := g \<rparr>)"
  have prep: "exec_prepare e now s job ids = (?s1, Ok ())" using acq t by (simp add: exec_prepare_def)
  obtain t' where t': "write_procs e now pid (job_ID job) ids (sc_procs s) = (t', Ok ())"
     "\<forall>c \<in> set ids. \<exists>p \<in> set t'. proc_PID p = pid \<and> proc_CardID p = c \<and> proc_JobID p = job_ID job \<and> proc_EndedAt p = None"
    using write_procs_rows [OF l'(5)] by blast
  have exec: "executeJob e now s job ids = exec_track e now ?s1 job ids pid"
    using prep l' l by (auto simp: executeJob_def GetByIDs_def launches_def g_def)
  have "holder (cards g) i = Some (job_ID job)" if "i \<in> set ids" for i
    using that gpu.acquire_holds [OF ok, of "(ex_count e, ex_update e, ex_busy e)" ids "job_ID job" g i] acq
    by (simp add: acquire_op_Some_iff)
  moreover have "status_of t (job_ID job) = Some JobStatusRunning"
    using status_UpdateStatus [OF t, of "job_ID job"] job by simp
  ultimately show ?thesis
    using exec t' l'(6) by (simp add: exec_track_def CreatePid_def started_def process_of_def Let_def)
qed

lemma demo_facts:
  "sc_isRunning idle_sched" "sc_lock idle_sched = None" "\<not> pq_lock demo_env" "\<not> pq_unlock demo_env"
  "pq_token demo_env \<noteq> []" "\<not> pq_remove demo_env" "cards_ok (cards (sc_gpu idle_sched))"
  "coherent (sc_gpu idle_sched)" "\<not> av_db (pq_avail demo_env)"
  "Peek (pq_peek demo_env) (sc_queue idle_sched) = Ok (Some \<lparr> item_JobID = 4, item_Score = 8000000001 \<rparr>)"
  "GetByID (pq_get demo_env) (sc_jobs idle_sched) (item_JobID \<lparr> item_JobID = 4, item_Score = 8000000001 \<rparr>) =
     Ok ((demo_job 4 1)\<lparr> job_GpuIDs := ''1,2'' \<rparr>)"
  "job_Status ((demo_job 4 1)\<lparr> job_GpuIDs := ''1,2'' \<rparr>) = JobStatusQueued"
  "[1, 2] = parseGpuIDs (job_GpuIDs ((demo_job 4 1)\<lparr> job_GpuIDs := ''1,2'' \<rparr>))"
  "distinct [1, 2 :: int]" "set [1, 2] \<subseteq> idle_ids (cards (sc_gpu idle_sched))"
  by code_simp+

section \<open>Properties of single runs\<close>

text \<open>
  C9: The head of the queue is started. When no other instance holds the lock and the head job
  is queued or waiting for cards that are all idle, one tick of the scheduler (whose store
  calls succeed and whose launch returns pid) gives the job its cards, marks it running, writes
  an active process row for each card, tracks and monitors the process, takes exactly this job
  out of the queue, and leaves the lock free.
\<close>

theorem head_is_started:
  assumes "sc_isRunning s" "sc_lock s = None" "\<not> pq_lock e" "\<not> pq_unlock e" "pq_token e \<noteq> []" "\<not> pq_remove e"
    and "cards_ok (cards (sc_gpu s))" "coherent (sc_gpu s)" "\<not> av_db (pq_avail e)"
    and "Peek (pq_peek e) (sc_queue s) = Ok (Some item)" "GetByID (pq_get e) (sc_jobs s) (item_JobID item) = Ok job"
    and "job_Status job = JobStatusQueued \<or> job_Status job = JobStatusWaitingGpu"
    and "ids = parseGpuIDs (job_GpuIDs job)" "ids \<noteq> []" "distinct ids" "set ids \<subseteq> idle_ids (cards (sc_gpu s))"
    and "launches (pq_exec e) job (cards (sc_gpu s)) ids pid"
  shows "started s (processQueue e now s) job ids pid \<and> sc_lock (processQueue e now s) = None \<and>
     qset (sc_queue (processQueue e now s)) = ZRem (qset (sc_queue s)) (Itoa (job_ID job))"
proof -
  let ?s0 = "s\<lparr> sc_lock := Some (pq_token e) \<rparr>"
  have job: "status_of (sc_jobs s) (job_ID job) \<noteq> None" "job_ID job = item_JobID item"
    using GetByID_Ok [OF assms(11)] by auto
  have av: "CheckAvailable (pq_avail e) (sc_gpu s) ids = Ok True"
    using CheckAvailable_coherent [OF assms(7,8,9,14)] assms(15,16) by simp
  obtain s1 where ex: "executeJob (pq_exec e) now ?s0 job ids = (s1, Ok ())" "started ?s0 s1 job ids pid"
      "qset (sc_queue s1) = qset (sc_queue s)" "sc_lock s1 = Some (pq_token e)"
    using executeJob_launches [of ?s0 ids "pq_exec e" job pid now] assms(7,14,15,16,17) job by auto
  have "serve_head e now ?s0 = try_remove (pq_remove e) (item_JobID item) s1"
    using assms(10-14) av ex(1) by (auto simp: serve_head_def Let_def)
  then have "processQueue e now s = (try_remove False (item_JobID item) s1)\<lparr> sc_lock := None \<rparr>"
    using assms(1-6) ex(4) by (simp add: processQueue_def acquireQueueLock_def releaseQueueLock_def)
  then show ?thesis
    using ex job(2) by (simp add: try_remove_def Remove_def q_Remove_def started_def)
qed

theorem head_is_started_witness:
  "started idle_sched (processQueue demo_env 5 idle_sched) ((demo_job 4 1)\<lparr> job_GpuIDs := ''1,2'' \<rparr>) [1, 2] 1001"
proof -
  have "launches (pq_exec demo_env) ((demo_job 4 1)\<lparr> job_GpuIDs := ''1,2'' \<rparr>) (cards (sc_gpu idle_sched)) [1, 2] 1001"
    by (auto simp: launches_def demo_env_def demo_exec_def demo_job_def)
  note l = this
  have ne: "[1, 2 :: int] \<noteq> []" by simp
  show ?thesis
    using head_is_started [OF demo_facts(1-11) disjI1 [OF demo_facts(12)] demo_facts(13) ne demo_facts(14,15) l] by blast
qed

text \<open>
  A head job whose cards are not all idle blocks the queue. The tick then starts no job and
  changes no card, queue entry, process row or monitor: at most the head job turns from Queued
  to WaitingGpu. In particular no job is taken from behind the head.
\<close>

theorem head_blocks_queue:
  assumes "Peek (pq_peek e) (sc_queue s) = Ok (Some item)" "GetByID (pq_get e) (sc_jobs s) (item_JobID item) = Ok job"
    and "job_Status job = JobStatusQueued \<or> job_Status job = JobStatusWaitingGpu"
    and "CheckAvailable (pq_avail e) (sc_gpu s) (parseGpuIDs (job_GpuIDs job)) \<noteq> Ok True"
    and "parseGpuIDs (job_GpuIDs job) \<noteq> []"
  shows "serve_head e now s = s \<or>
    CheckAvailable (pq_avail e) (sc_gpu s) (parseGpuIDs (job_GpuIDs job)) = Ok False \<and>
    (\<exists>t. UpdateStatus False now (sc_jobs s) (item_JobID item) JobStatusWaitingGpu = Ok t \<and>
         serve_head e now s = set_jobs t s)"
  using assms GetByID_Ok [OF assms(2)]
  by (auto simp: serve_head_def Let_def try_status_def UpdateStatus_def split: sum.splits bool.splits if_splits)

text \<open>
  A monitor gives up after exactly ten consecutive failed checks of its process: up to nine
  of them only count, the tenth marks the job failed, frees its cards and ends the goroutine.
\<close>

theorem monitor_gives_up:
  assumes "k < length (sc_monitors s)" "m = sc_monitors s ! k" "mon_failCount m = 0"
    and "\<forall>pid. mo_exists e pid = Err x" "monitor_ok e"
    and "cards_ok (cards (sc_gpu s))" "status_of (sc_jobs s) (jp_jobID (mon_jp m)) \<noteq> None"
  shows "(\<forall>n < 10. (tick_monitor e now k ^^ n) s = s\<lparr> sc_monitors := (sc_monitors s)[k := m\<lparr> mon_failCount := int n \<rparr>] \<rparr>) \<and>
    sc_monitors ((tick_monitor e now k ^^ 10) s) = take k (sc_monitors s) @ drop (Suc k) (sc_monitors s) \<and>
    status_of (sc_jobs ((tick_monitor e now k ^^ 10) s)) (jp_jobID (mon_jp m)) = Some JobStatusFailed \<and>
    (\<forall>i \<in> set (jp_cardIDs (mon_jp m)). held ((tick_monitor e now k ^^ 10) s) i = None)"
proof -
  let ?at = "\<lambda>n. s\<lparr> sc_monitors := (sc_monitors s)[k := m\<lparr> mon_failCount := int n \<rparr>] \<rparr>"
  have step: "tick_monitor e now k (?at n) = ?at (Suc n)" if "n < 9" for n
    using that assms(1,4) by (simp add: tick_monitor_def monitor_tick_def Let_def add.commute)
  have count: "(tick_monitor e now k ^^ n) s = ?at n" if "n < 10" for n
    using that
  proof (induction n)
    case 0
    have "m\<lparr> mon_failCount := 0 \<rparr> = m" using assms(3) by simp
    then show ?case using assms(2) by simp
  next
    case (Suc n)
    then show ?case using step [of n] by simp
  qed
  define u where "u = try_status (mo_status e) now (jp_jobID (mon_jp m)) JobStatusFailed (?at 9)"
  have rel: "\<not> mo_release e" "\<not> mo_status e" using assms(5) by (auto simp: monitor_ok_def)
  have ok: "cards_ok (cards (sc_gpu u))" using assms(6) by (simp add: u_def)
  note eff = monitor_cleanup_effect [OF ok rel(1), of now "mon_jp m"]
  have "(tick_monitor e now k ^^ 10) s = tick_monitor e now k (?at 9)"
    using count [of 9] by (simp add: numeral_eq_Suc)
  also have "\<dots> = (monitor_cleanup e now (mon_jp m) u)\<lparr> sc_monitors := take k (sc_monitors s) @ drop (Suc k) (sc_monitors s) \<rparr>"
    using assms(1,4) by (simp add: tick_monitor_def monitor_tick_def Let_def u_def take_update_cancel drop_update_cancel)
  finally have last: "(tick_monitor e now k ^^ 10) s =
    (monitor_cleanup e now (mon_jp m) u)\<lparr> sc_monitors := take k (sc_monitors s) @ drop (Suc k) (sc_monitors s) \<rparr>" .
  have "status_of (sc_jobs u) (jp_jobID (mon_jp m)) = Some JobStatusFailed"
    using rel(2) assms(7) status_UpdateStatus [of False now "sc_jobs s" "jp_jobID (mon_jp m)" JobStatusFailed]
    by (auto simp: u_def try_status_def UpdateStatus_def)
  then show ?thesis using count last eff by simp
qed

text \<open>
  The queue lock keeps a second instance out. While another instance's token is stored, a
  tick changes nothing; and a release with a token other than the stored one leaves the lock to
  its holder, so an instance whose lock has expired does not take away its successor's.
\<close>

theorem second_instance_excluded:
  assumes "sc_lock s = Some token" "token \<noteq> mine"
  shows "processQueue e now s = s \<and> releaseQueueLock err mine s = s"
  using assms by (simp add: processQueue_def acquireQueueLock_def releaseQueueLock_def)

section \<open>Where the bookkeeping goes wrong\<close>

text \<open>
  A head entry without a job row blocks the queue. GetByID reports a missing row as an
  error, so the branch that would remove the entry is never taken: the tick leaves the whole
  state as it was, whatever the stores answer.
\<close>

theorem missing_head_blocks_queue:
  assumes "Peek (pq_peek e) (sc_queue s) = Ok (Some item)" "find_job (sc_jobs s) (item_JobID item) = None"
  shows "serve_head e now s = s"
  using assms by (auto simp: serve_head_def GetByID_def)

lemma refused_start_drops_job:
  assumes "Peek (pq_peek e) (sc_queue s) = Ok (Some item)" "GetByID (pq_get e) (sc_jobs s) (item_JobID item) = Ok job"
    and "job_Status job = JobStatusQueued \<or> job_Status job = JobStatusWaitingGpu"
    and "CheckAvailable (pq_avail e) (sc_gpu s) (parseGpuIDs (job_GpuIDs job)) = Ok True"
    and "parseGpuIDs (job_GpuIDs job) \<noteq> []" "\<not> pq_remove e"
    and refused: "\<not> is_ok (AcquireCards (ex_count (pq_exec e)) (ex_update (pq_exec e)) (ex_busy (pq_exec e)) (sc_gpu s)
      (parseGpuIDs (job_GpuIDs job)) (job_ID job))"
  shows "status_of (sc_jobs (serve_head e now s)) (item_JobID item) = Some (job_Status job) \<and>
    Itoa (item_JobID item) \<notin> set (map fst (qset (sc_queue (serve_head e now s))))"
proof -
  have "executeJob (pq_exec e) now s job (parseGpuIDs (job_GpuIDs job)) = (s, Err (Errorf ''acquire''))"
    using refused by (auto simp: executeJob_def exec_prepare_def is_ok_iff split: sum.splits)
  then have "serve_head e now s = try_remove False (item_JobID item) s"
    using assms by (auto simp: serve_head_def Let_def)
  then show ?thesis
    using GetByID_Ok [OF assms(2)] by (auto simp: try_remove_def Remove_def q_Remove_def ZRem_def)
qed

text \<open>
  A start that fails before the job is marked running loses the job. When the cards cannot
  be acquired although the check found them available, the job leaves the queue but keeps its
  status, so it is shown as queued and is never served again.
\<close>

theorem failed_acquire_loses_job:
  assumes "Peek (pq_peek e) (sc_queue s) = Ok (Some item)" "GetByID (pq_get e) (sc_jobs s) (item_JobID item) = Ok job"
    and "job_Status job = JobStatusQueued \<or> job_Status job = JobStatusWaitingGpu"
    and "CheckAvailable (pq_avail e) (sc_gpu s) (parseGpuIDs (job_GpuIDs job)) = Ok True"
    and "parseGpuIDs (job_GpuIDs job) \<noteq> []" "ex_count (pq_exec e)" "\<not> pq_remove e"
  shows "status_of (sc_jobs (serve_head e now s)) (item_JobID item) = Some (job_Status job) \<and>
    Itoa (item_JobID item) \<notin> set (map fst (qset (sc_queue (serve_head e now s))))"
  using assms by (intro refused_start_drops_job [OF assms(1-5)]) (simp_all add: AcquireCards_def repo_Acquire_def)

text \<open>
  No failure is needed for that: a request that names a card twice is accepted, the check finds the
  card available, and the reservation, which counts rows against the length of the list, is refused.
\<close>

theorem repeated_card_loses_job:
  assumes "Peek (pq_peek e) (sc_queue s) = Ok (Some item)" "GetByID (pq_get e) (sc_jobs s) (item_JobID item) = Ok job"
    and "job_Status job = JobStatusQueued \<or> job_Status job = JobStatusWaitingGpu"
    and "CheckAvailable (pq_avail e) (sc_gpu s) (parseGpuIDs (job_GpuIDs job)) = Ok True"
    and "\<not> distinct (parseGpuIDs (job_GpuIDs job))" "cards_ok (cards (sc_gpu s))" "\<not> pq_remove e"
  shows "status_of (sc_jobs (serve_head e now s)) (item_JobID item) = Some (job_Status job) \<and>
    Itoa (item_JobID item) \<notin> set (map fst (qset (sc_queue (serve_head e now s))))"
proof (rule refused_start_drops_job [OF assms(1-4)])
  show "parseGpuIDs (job_GpuIDs job) \<noteq> []" using assms(5) by auto
  show "\<not> is_ok (AcquireCards (ex_count (pq_exec e)) (ex_update (pq_exec e)) (ex_busy (pq_exec e)) (sc_gpu s)
      (parseGpuIDs (job_GpuIDs job)) (job_ID job))"
    using assms(5) AcquireCards_Ok_iff [OF assms(6)] by (auto simp: is_ok_iff)
qed (rule assms(7))

text \<open>
  Traces from the small installation. The state after a crash of the service: the stores are
  as they were, the goroutines and the map of tracked processes are gone.
\<close>

definition crash :: "sched \<Rightarrow> sched" where
  "crash s = s\<lparr> sc_monitors := [], sc_runningJobs := (\<lambda>_. None), sc_isRunning := False, sc_lock := None \<rparr>"

definition recovered :: sched where
  "recovered = Start demo_recover 7 (crash (processQueue demo_env 5 idle_sched))"

text \<open>
  Recovery starts one monitor per process row, not per process. A job on two cards that
  survives a crash gets two monitors for the same process; after the first one has cleaned up
  and another job has been given the freed card, the clean-up of the second one frees that
  card again: the card is idle in the table while the other job runs on it.
\<close>

theorem recovery_frees_foreign_card:
  "jps recovered = [process_of ((demo_job 4 1)\<lparr> job_GpuIDs := ''1,2'' \<rparr>) [1, 2] 1001,
                    process_of ((demo_job 4 1)\<lparr> job_GpuIDs := ''1,2'' \<rparr>) [1, 2] 1001] \<and>
   (let s1 = processQueue demo_env 9 (tick_monitor (demo_monitor (Ok False)) 8 0 recovered);
        s2 = tick_monitor (demo_monitor (Ok False)) 10 0 s1
    in held s1 1 = Some 5 \<and> held s2 1 = None \<and> running s2 5 \<and> mon_jobs s2 = [5])"
  by code_simp

text \<open>
  An orderly restart fails the jobs that keep running. Stop makes every monitor end the
  process rows and free the cards although the processes go on; the following Start finds a
  running job without an active process row and marks it failed, with its process alive.
\<close>

theorem restart_fails_live_job:
  "let s1 = processQueue demo_env 5 idle_sched;
       s2 = Stop (demo_monitor (Ok True)) 6 s1;
       s3 = Start demo_recover 7 s2
   in running s2 4 \<and> held s2 1 = None \<and> sc_monitors s3 = [] \<and>
      status_of (sc_jobs s3) 4 = Some JobStatusFailed"
  by code_simp

text \<open>
  The hourly audit can fail a job that is being started. Between marking the job running
  and writing its process rows, executeJob waits for the remote launch; an audit in that window
  sees a running job without a process row, marks it failed and frees its cards, and the job
  then runs on idle cards.
\<close>

theorem audit_fails_starting_job:
  "let s1 = fst (exec_prepare demo_exec 5 idle_sched ((demo_job 4 1)\<lparr> job_GpuIDs := ''1,2'' \<rparr>) [1, 2]);
       s2 = auditRunningJobs demo_recover 6 s1;
       s3 = fst (exec_track demo_exec 7 s2 ((demo_job 4 1)\<lparr> job_GpuIDs := ''1,2'' \<rparr>) [1, 2] 1001)
   in held s1 1 = Some 4 \<and> status_of (sc_jobs s3) 4 = Some JobStatusFailed \<and> held s3 1 = None \<and> mon_jobs s3 = [4]"
  by code_simp

text \<open>
  The card list of a job survives its storage: the ids that SubmitJob joins into the text
  column are the ids that the scheduler parses out of it.
\<close>

theorem gpu_ids_roundtrip:
  assumes "list_all in_int (sj_GpuIDs req)"
  shows "parseGpuIDs (job_GpuIDs (new_job now req u)) = sj_GpuIDs req"
proof (cases "sj_GpuIDs req = []")
  case False
  have "Split CHR '','' (Join '','' (map Itoa (sj_GpuIDs req))) = map Itoa (sj_GpuIDs req)"
    using False Itoa_free(1) by (intro Split_Join) auto
  moreover have "parse_ids (map Itoa is) = is" if "list_all in_int is" for "is"
    using that by (induction "is") (auto simp: TrimSpace_trimmed Atoi_Itoa)
  moreover have "Join '','' (map Itoa (sj_GpuIDs req)) \<noteq> []"
    using False by (cases "sj_GpuIDs req" rule: list.exhaust; cases "tl (sj_GpuIDs req)") auto
  ultimately show ?thesis using assms by (simp add: parseGpuIDs_def new_job_def)
qed (simp add: parseGpuIDs_def new_job_def)

end
