(* ===== verification/GoPath.thy ===== *)
theory GoPath
  imports Prelude "HOL-Library.Sublist"
begin

text \<open>
  The package path of the Go library, as far as the file service uses it: Clean, Join, IsAbs,
  Base, Dir and Ext on slash separated paths, and the facts about cleaned absolute paths on
  which the confinement of users to their home directories rests.
\<close>

section \<open>Definitions\<close>

text \<open>
  Clean works on the components between the slashes: empty ones and single dots are dropped, a
  double dot removes the component before it, and is dropped at the root.
\<close>

definition clean_step :: "bool \<Rightarrow> string list \<Rightarrow> string \<Rightarrow> string list" where
  "clean_step rooted acc c =
     (if c = [] \<or> c = ''.'' then acc
      else if c = ''..'' then
        (case acc of
           [] \<Rightarrow> (if rooted then [] else [c])
         | x # xs \<Rightarrow> (if x = ''..'' then c # acc else xs))
      else c # acc)"

definition clean_parts :: "bool \<Rightarrow> string list \<Rightarrow> string list" where
  "clean_parts rooted cs = rev (foldl (clean_step rooted) [] cs)"

definition path_IsAbs :: "string \<Rightarrow> bool" where
  "path_IsAbs p = HasPrefix p ''/''"

definition abs_path :: "string list \<Rightarrow> string" where
  "abs_path parts = ''/'' @ Join ''/'' parts"

definition path_Clean :: "string \<Rightarrow> string" where
  "path_Clean p = (if p = [] then ''.''
     else let parts = clean_parts (path_IsAbs p) (Split CHR ''/'' p)
          in if path_IsAbs p then abs_path parts else if parts = [] then ''.'' else Join ''/'' parts)"

definition path_Join :: "string list \<Rightarrow> string" where
  "path_Join elems = (let es = filter (\<lambda>e. e \<noteq> []) elems in if es = [] then [] else path_Clean (Join ''/'' es))"

definition path_Base :: "string \<Rightarrow> string" where
  "path_Base p = (if p = [] then ''.''
     else let q = rev (dropWhile (\<lambda>c. c = CHR ''/'') (rev p));
              b = rev (takeWhile (\<lambda>c. c \<noteq> CHR ''/'') (rev q))
          in if b = [] then ''/'' else b)"

definition path_Dir :: "string \<Rightarrow> string" where
  "path_Dir p = path_Clean (rev (dropWhile (\<lambda>c. c \<noteq> CHR ''/'') (rev p)))"

definition path_Ext :: "string \<Rightarrow> string" where
  "path_Ext p =
     (let tl = takeWhile (\<lambda>c. c \<noteq> CHR ''/'' \<and> c \<noteq> CHR ''.'') (rev p);
          rest = drop (length tl) (rev p)
      in if rest \<noteq> [] \<and> hd rest = CHR ''.'' then CHR ''.'' # rev tl else [])"

section \<open>Cleaned paths\<close>

text \<open>A component that names an entry of a directory.\<close>

definition proper_part :: "string \<Rightarrow> bool" where
  "proper_part c \<longleftrightarrow> c \<noteq> [] \<and> c \<noteq> ''.'' \<and> c \<noteq> ''..'' \<and> CHR ''/'' \<notin> set c"

lemma foldl_clean_proper:
  "list_all proper_part acc \<Longrightarrow> \<forall>c \<in> set cs. CHR ''/'' \<notin> set c \<Longrightarrow>
   list_all proper_part (foldl (clean_step True) acc cs)"
  by (induction cs arbitrary: acc) (auto simp: clean_step_def proper_part_def split: list.splits)

lemma clean_parts_proper:
  "\<forall>c \<in> set cs. CHR ''/'' \<notin> set c \<Longrightarrow> list_all proper_part (clean_parts True cs)"
  using foldl_clean_proper [of "[]" cs] by (simp add: clean_parts_def list_all_iff)

lemma foldl_clean_append:
  "list_all proper_part cs \<Longrightarrow> foldl (clean_step r) acc cs = rev cs @ acc"
  by (induction cs arbitrary: acc) (auto simp: clean_step_def proper_part_def)

lemma clean_parts_id [simp]: "list_all proper_part cs \<Longrightarrow> clean_parts r cs = cs"
  using foldl_clean_append [of cs r "[]"] by (simp add: clean_parts_def)

lemma IsAbs_abs_path [simp]: "path_IsAbs (abs_path cs)"
  by (simp add: path_IsAbs_def HasPrefix_def abs_path_def)

lemma Split_abs_path:
  assumes "list_all proper_part cs"
  shows "Split CHR ''/'' (abs_path cs) = [] # (if cs = [] then [[]] else cs)"
  using assms Split_Join [of cs "CHR ''/''"]
  by (cases "cs = []") (auto simp: abs_path_def list_all_iff proper_part_def)

lemma clean_parts_abs_path:
  assumes "list_all proper_part cs"
  shows "clean_parts True (Split CHR ''/'' (abs_path cs)) = cs"
  using assms foldl_clean_append [of cs True "[]"]
  by (auto simp: Split_abs_path clean_parts_def clean_step_def)

text \<open>Clean of an absolute path is absolute with proper components only, and Clean is idempotent there.\<close>

lemma Clean_abs:
  assumes "path_IsAbs p"
  shows "path_Clean p = abs_path (clean_parts True (Split CHR ''/'' p)) \<and> list_all proper_part (clean_parts True (Split CHR ''/'' p))"
proof -
  have "p \<noteq> []" using assms by (auto simp: path_IsAbs_def HasPrefix_def)
  then show ?thesis
    using assms clean_parts_proper Split_parts_free by (auto simp: path_Clean_def)
qed

lemma Clean_abs_path [simp]: "list_all proper_part cs \<Longrightarrow> path_Clean (abs_path cs) = abs_path cs"
  using Clean_abs [of "abs_path cs"] clean_parts_abs_path by simp

lemma abs_path_inject:
  assumes "list_all proper_part cs" "list_all proper_part ds"
  shows "abs_path cs = abs_path ds \<longleftrightarrow> cs = ds"
  using clean_parts_abs_path assms by metis

lemma abs_path_root: "list_all proper_part cs \<Longrightarrow> abs_path cs = ''/'' \<longleftrightarrow> cs = []"
  using abs_path_inject [of cs "[]"] by (simp add: abs_path_def)

text \<open>Clean of a relative path is relative and not empty.\<close>

lemma clean_step_member: "x \<in> set (clean_step r acc c) \<Longrightarrow> x \<in> set acc \<or> x = c \<and> c \<noteq> []"
  by (cases acc) (auto simp: clean_step_def split: if_splits)

lemma foldl_clean_free:
  "\<forall>c \<in> set acc. c \<noteq> [] \<and> CHR ''/'' \<notin> set c \<Longrightarrow> \<forall>c \<in> set cs. CHR ''/'' \<notin> set c \<Longrightarrow>
   \<forall>c \<in> set (foldl (clean_step r) acc cs). c \<noteq> [] \<and> CHR ''/'' \<notin> set c"
proof (induction cs arbitrary: acc)
  case (Cons c cs)
  have "\<forall>x \<in> set (clean_step r acc c). x \<noteq> [] \<and> CHR ''/'' \<notin> set x"
  proof
    fix x assume "x \<in> set (clean_step r acc c)"
    then have "x \<in> set acc \<or> x = c \<and> c \<noteq> []" by (rule clean_step_member)
    then show "x \<noteq> [] \<and> CHR ''/'' \<notin> set x" using Cons.prems by auto
  qed
  moreover have "\<forall>x \<in> set cs. CHR ''/'' \<notin> set x" using Cons.prems(2) by simp
  ultimately show ?case unfolding foldl.simps by (rule Cons.IH)
qed simp

lemma Clean_rel:
  assumes "\<not> path_IsAbs p"
  shows "\<not> path_IsAbs (path_Clean p)"
proof -
  let ?parts = "clean_parts False (Split CHR ''/'' p)"
  have free: "\<forall>c \<in> set ?parts. c \<noteq> [] \<and> CHR ''/'' \<notin> set c"
    using foldl_clean_free [of "[]" "Split CHR ''/'' p" False] Split_parts_free by (auto simp: clean_parts_def)
  have "\<not> prefix ''/'' (Join ''/'' ?parts)" if ne: "?parts \<noteq> []"
  proof -
    obtain c cs where c: "?parts = c # cs" using ne by (cases ?parts) auto
    then have "c \<noteq> []" "CHR ''/'' \<notin> set c" using free by auto
    then show ?thesis using c by (cases c; cases cs) auto
  qed
  then show ?thesis using assms by (auto simp: path_Clean_def Let_def path_IsAbs_def HasPrefix_def)
qed

lemma Clean_not_Nil: "path_Clean p \<noteq> []"
proof (cases "path_IsAbs p")
  case True
  then show ?thesis using Clean_abs [OF True] by (simp add: abs_path_def)
next
  case False
  let ?parts = "clean_parts False (Split CHR ''/'' p)"
  have free: "\<forall>c \<in> set ?parts. c \<noteq> []"
    using foldl_clean_free [of "[]" "Split CHR ''/'' p" False] Split_parts_free by (auto simp: clean_parts_def)
  have "Join ''/'' ?parts \<noteq> []" if "?parts \<noteq> []"
    using that free by (cases ?parts; cases "tl ?parts") auto
  then show ?thesis using False by (auto simp: path_Clean_def Let_def)
qed

text \<open>Joining below an absolute path.\<close>

lemma Split_append_slash:
  "Split CHR ''/'' (a @ CHR ''/'' # b) = Split CHR ''/'' a @ Split CHR ''/'' b"
  by (induction a) (auto split: list.splits)

lemma Join_abs:
  assumes "list_all proper_part hs" "r \<noteq> []"
  shows "path_Join [abs_path hs, r] = abs_path (clean_parts True (hs @ Split CHR ''/'' r))"
    and "list_all proper_part (clean_parts True (hs @ Split CHR ''/'' r))"
proof -
  let ?p = "abs_path hs @ ''/'' @ r"
  have abs: "path_IsAbs ?p" by (simp add: path_IsAbs_def HasPrefix_def abs_path_def)
  have sp: "Split CHR ''/'' ?p = Split CHR ''/'' (abs_path hs) @ Split CHR ''/'' r" by (simp add: Split_append_slash)
  have "clean_parts True (Split CHR ''/'' ?p) = clean_parts True (hs @ Split CHR ''/'' r)"
    unfolding sp Split_abs_path [OF assms(1)] by (auto simp: clean_parts_def clean_step_def)
  then show "path_Join [abs_path hs, r] = abs_path (clean_parts True (hs @ Split CHR ''/'' r))"
    "list_all proper_part (clean_parts True (hs @ Split CHR ''/'' r))"
    using Clean_abs [OF abs] assms(2) by (auto simp: path_Join_def abs_path_def)
qed

text \<open>A relative path without double dots stays below the path it is joined to.\<close>

definition named :: "string \<Rightarrow> bool" where
  "named c \<longleftrightarrow> c \<noteq> [] \<and> c \<noteq> ''.''"

lemma foldl_clean_no_dotdot:
  "''..'' \<notin> set cs \<Longrightarrow> foldl (clean_step r) acc cs = rev (filter named cs) @ acc"
  by (induction cs arbitrary: acc) (auto simp: clean_step_def named_def)

lemma clean_parts_no_dotdot: "''..'' \<notin> set cs \<Longrightarrow> clean_parts r cs = filter named cs"
  by (simp add: clean_parts_def foldl_clean_no_dotdot)

lemma Join_below:
  assumes hs: "list_all proper_part hs" and rel: "\<not> path_IsAbs r" and dd: "''..'' \<notin> set (Split CHR ''/'' r)"
  shows "path_Join [abs_path hs, path_Clean r] = abs_path (hs @ filter named (Split CHR ''/'' r))"
proof -
  let ?ps = "filter named (Split CHR ''/'' r)"
  have free: "\<forall>c \<in> set ?ps. CHR ''/'' \<notin> set c" using Split_parts_free by auto
  have "Split CHR ''/'' (path_Clean r) = (if ?ps = [] then [''.''] else ?ps)"
    using rel dd Split_Join [of ?ps "CHR ''/''"] free
    by (auto simp: path_Clean_def Let_def clean_parts_no_dotdot named_def)
  moreover have "\<not> named ''.''" by (simp add: named_def)
  ultimately have "filter named (Split CHR ''/'' (path_Clean r)) = ?ps" "''..'' \<notin> set (Split CHR ''/'' (path_Clean r))"
    using dd by auto
  moreover have "foldl (clean_step True) [] hs = rev hs" using foldl_clean_append [OF hs, of True "[]"] by simp
  ultimately have "clean_parts True (hs @ Split CHR ''/'' (path_Clean r)) = hs @ ?ps"
    by (simp add: clean_parts_def foldl_clean_no_dotdot)
  then show ?thesis using Join_abs(1) [OF hs Clean_not_Nil, of r] by simp
qed

section \<open>String prefixes of paths\<close>

lemma prefix_Join:
  assumes "hs \<noteq> []" "list_all proper_part hs" "list_all proper_part qs" "prefix (Join ''/'' hs) (Join ''/'' qs)"
  shows "length hs \<le> length qs \<and> take (length hs - 1) qs = butlast hs \<and> prefix (last hs) (qs ! (length hs - 1))"
  using assms
proof (induction hs arbitrary: qs)
  case (Cons h hs)
  have h: "CHR ''/'' \<notin> set h" "h \<noteq> []" using Cons.prems(2) by (auto simp: proper_part_def)
  have "qs \<noteq> []"
  proof
    assume "qs = []"
    then have "Join ''/'' (h # hs) = []" using Cons.prems(4) by simp
    then show False using h(2) by (cases hs) auto
  qed
  then obtain q qs' where qs: "qs = q # qs'" by (cases qs) auto
  have q: "CHR ''/'' \<notin> set q" using Cons.prems(3) qs by (auto simp: proper_part_def)
  have pre: "prefix (h @ t) (q @ u) \<Longrightarrow> (t = [] \<or> (\<exists>t'. t = CHR ''/'' # t')) \<Longrightarrow> (u = [] \<or> (\<exists>u'. u = CHR ''/'' # u')) \<Longrightarrow>
      (if t = [] then prefix h q else q = h \<and> prefix t u)" for t u
  proof -
    assume p: "prefix (h @ t) (q @ u)" and t: "t = [] \<or> (\<exists>t'. t = CHR ''/'' # t')" and u: "u = [] \<or> (\<exists>u'. u = CHR ''/'' # u')"
    from p obtain v where "q @ u = h @ t @ v" by (auto simp: prefix_def)
    then obtain us where us: "q = h @ us \<and> us @ u = t @ v \<or> q @ us = h \<and> u = us @ t @ v" by (auto simp: append_eq_append_conv2)
    then show ?thesis
    proof
      assume a: "q = h @ us \<and> us @ u = t @ v"
      have "us = []" if "t \<noteq> []"
        using a q t that by (cases us) auto
      then show ?thesis using a by (auto simp: prefix_def)
    next
      assume a: "q @ us = h \<and> u = us @ t @ v"
      have "us = []" using a u h(1) by (cases us) auto
      then show ?thesis using a by (auto simp: prefix_def)
    qed
  qed
  show ?case
  proof (cases "hs = []")
    case True
    have "Join ''/'' qs = q @ (if qs' = [] then [] else CHR ''/'' # Join ''/'' qs')" using qs by (simp add: Join_Cons)
    then show ?thesis using pre [of "[]" "if qs' = [] then [] else CHR ''/'' # Join ''/'' qs'"] Cons.prems(4) True qs by auto
  next
    case False
    then have jh: "Join ''/'' (h # hs) = h @ CHR ''/'' # Join ''/'' hs" by (simp add: Join_Cons)
    have "Join ''/'' qs = q @ (if qs' = [] then [] else CHR ''/'' # Join ''/'' qs')" using qs by (simp add: Join_Cons)
    then have e: "q = h" "prefix (CHR ''/'' # Join ''/'' hs) (if qs' = [] then [] else CHR ''/'' # Join ''/'' qs')"
      using pre [of "CHR ''/'' # Join ''/'' hs" "if qs' = [] then [] else CHR ''/'' # Join ''/'' qs'"] Cons.prems(4) jh by auto
    then have "prefix (Join ''/'' hs) (Join ''/'' qs')" "qs' \<noteq> []" by (auto split: if_splits)
    then have "length hs \<le> length qs' \<and> take (length hs - 1) qs' = butlast hs \<and> prefix (last hs) (qs' ! (length hs - 1))"
      using Cons.IH [OF False] Cons.prems(2,3) qs by simp
    then show ?thesis using False qs e(1) by (cases "length hs") (auto simp: nth_Cons' )
  qed
qed simp

end
