(* ===== verification/Shell.thy ===== *)
theory Shell
  imports Prelude
begin

text \<open>
  The POSIX shell that reads the commands which the program sends over SSH, and the quoting that
  the program uses (files_service.go, user_service.go).
\<close>

section \<open>Quoting\<close>

text \<open>Single quotes around a text whose single quotes are closed, escaped and opened again.\<close>

definition shell_quote :: "string \<Rightarrow> string" where
  "shell_quote p = [CHR 0x27] @ ReplaceByte CHR 0x27 [CHR 0x27, CHR 0x5C, CHR 0x27, CHR 0x27] p @ [CHR 0x27]"

section \<open>Words\<close>

text \<open>
  How a POSIX shell splits a simple command into words: blanks separate, a backslash quotes one
  character, single quotes quote everything up to the next single quote. A command with any
  other special character outside quotes is not split here.
\<close>

definition is_alnum :: "char \<Rightarrow> bool" where
  "is_alnum c = (let n = (of_char c :: nat) in (48 \<le> n \<and> n \<le> 57) \<or> (65 \<le> n \<and> n \<le> 90) \<or> (97 \<le> n \<and> n \<le> 122))"

definition plain_char :: "char \<Rightarrow> bool" where
  "plain_char c \<longleftrightarrow> is_alnum c \<or> c \<in> set ''-_./''"

fun sh_from :: "bool \<Rightarrow> string option \<Rightarrow> string \<Rightarrow> string list option" where
  "sh_from q w [] = (if q then None else Some (case w of None \<Rightarrow> [] | Some x \<Rightarrow> [x]))"
| "sh_from q w (c # cs) =
     (let x = (case w of None \<Rightarrow> [] | Some x \<Rightarrow> x) in
      if q then (if c = CHR 0x27 then sh_from False (Some x) cs else sh_from True (Some (x @ [c])) cs)
      else if c = CHR '' '' then
        (case w of None \<Rightarrow> sh_from False None cs | Some y \<Rightarrow> map_option (\<lambda>ys. y # ys) (sh_from False None cs))
      else if c = CHR 0x27 then sh_from True (Some x) cs
      else if c = CHR 0x5C then (case cs of [] \<Rightarrow> None | d # ds \<Rightarrow> sh_from False (Some (x @ [d])) ds)
      else if plain_char c then sh_from False (Some (x @ [c])) cs else None)"

definition sh_words :: "string \<Rightarrow> string list option" where
  "sh_words cmd = sh_from False None cmd"

lemma sh_from_quoted:
  "sh_from True (Some x) (ReplaceByte CHR 0x27 [CHR 0x27, CHR 0x5C, CHR 0x27, CHR 0x27] p @ rest) = sh_from True (Some (x @ p)) rest"
  by (induction p arbitrary: x) (simp_all add: ReplaceByte_def Let_def)

lemma sh_from_quote: "sh_from False None (shell_quote p @ rest) = sh_from False (Some p) rest"
  by (simp add: shell_quote_def sh_from_quoted Let_def)

lemma plain_char_not_special:
  "plain_char c \<Longrightarrow> c \<noteq> CHR '' '' \<and> c \<noteq> CHR 0x27 \<and> c \<noteq> CHR 0x5C \<and> c \<noteq> CHR ''|'' \<and> c \<noteq> CHR 0x0A \<and> c \<noteq> CHR '':''"
  by (auto simp: plain_char_def is_alnum_def Let_def)

lemma sh_from_plain: "list_all plain_char u \<Longrightarrow> sh_from False (Some x) (u @ rest) = sh_from False (Some (x @ u)) rest"
  by (induction u arbitrary: x) (auto simp: Let_def dest: plain_char_not_special)

lemma sh_from_plain_word:
  "list_all plain_char u \<Longrightarrow> u \<noteq> [] \<Longrightarrow> sh_from False None (u @ rest) = sh_from False (Some u) rest"
  using sh_from_plain [of "tl u" "[hd u]" rest] by (cases u) (auto simp: Let_def dest: plain_char_not_special)

section \<open>Pipelines\<close>

text \<open>The commands of a pipeline: the parts between the bars that are not quoted.\<close>

fun pipe_from :: "bool \<Rightarrow> string \<Rightarrow> string \<Rightarrow> string list" where
  "pipe_from q acc [] = [acc]"
| "pipe_from q acc (c # cs) =
     (if q then pipe_from (c \<noteq> CHR 0x27) (acc @ [c]) cs
      else if c = CHR ''|'' then acc # pipe_from False [] cs
      else if c = CHR 0x27 then pipe_from True (acc @ [c]) cs
      else if c = CHR 0x5C then (case cs of [] \<Rightarrow> [acc @ [c]] | d # ds \<Rightarrow> pipe_from False (acc @ [c, d]) ds)
      else pipe_from False (acc @ [c]) cs)"

definition sh_pipeline :: "string \<Rightarrow> string list list option" where
  "sh_pipeline cmd = those (map sh_words (pipe_from False [] cmd))"

lemma pipe_from_quoted:
  "pipe_from True acc (ReplaceByte CHR 0x27 [CHR 0x27, CHR 0x5C, CHR 0x27, CHR 0x27] p @ rest) =
   pipe_from True (acc @ ReplaceByte CHR 0x27 [CHR 0x27, CHR 0x5C, CHR 0x27, CHR 0x27] p) rest"
  by (induction p arbitrary: acc) (simp_all add: ReplaceByte_def)

lemma pipe_from_quote: "pipe_from False acc (shell_quote p @ rest) = pipe_from False (acc @ shell_quote p) rest"
  by (simp add: shell_quote_def pipe_from_quoted)

end
