(* ===== verification/FileService.thy ===== *)
theory FileService
  imports GoPath Shell "HOL-Library.AList" "HOL-Library.List_Lexorder" "HOL-Library.Char_ord"
begin

text \<open>
  The file service: internal/service/files_service.go, without the disk usage commands and the
  upload stream.

  The SSH session of a call, the remote file system and Redis answer through environment
  records; the service keeps its caches and the log of the SSH commands that were executed.
  The cached file lists are kept as values (the code stores them as JSON), the other Redis
  entries as strings. Redis is always configured.
\<close>

section \<open>State and environment\<close>

record file_session =
  fz_Username :: string
  fz_Client :: bool
  fz_Sftp :: bool

text \<open>One call of getOrReconnectSession: what the manager, the probe and the restoring of the session answer.\<close>

record conn_env =
  ce_manager :: bool
  ce_first :: "file_session option"
  ce_ping :: bool
  ce_ensure :: bool
  ce_second :: "file_session option"

datatype stat_answer = Exists | NotExist | StatError

record file_entry =
  en_Name :: string
  en_IsDir :: bool
  en_Size :: int
  en_ModTime :: int
  en_Uid :: "nat option"

record remote_env =
  re_basePath :: string
  re_stat :: "string \<Rightarrow> stat_answer"
  re_stat_after :: "string \<Rightarrow> stat_answer"
  re_mkdir :: "string \<Rightarrow> bool"
  re_realpath :: "string \<Rightarrow> string option"
  re_readdir :: "string \<Rightarrow> file_entry list option"
  re_exec :: "string \<Rightarrow> string option"
  re_redis_get :: bool
  re_redis_set :: bool

record DirectoryItem =
  di_Name :: string
  di_UpdatedAt :: int
  di_Path :: string
  di_Username :: string

record FileItem =
  fi_Filename :: string
  fi_FileSize :: int
  fi_UpdatedAt :: int
  fi_Path :: string
  fi_Username :: string

record cached_list =
  cl_RealPath :: string
  cl_Dirs :: "DirectoryItem list"
  cl_Files :: "FileItem list"

record fileService =
  fs_homeDirCache :: "int list"
  fs_sessionCheckCache :: "int \<Rightarrow> int option"
  fs_redis :: "string \<Rightarrow> string option"
  fs_lists :: "string \<Rightarrow> cached_list option"
  fs_commands :: "string list"

section \<open>Sessions and commands\<close>

definition check_ttl :: int where "check_ttl = 3000000000"

definition getOrReconnectSession ::
  "conn_env \<Rightarrow> int \<Rightarrow> int \<Rightarrow> bool \<Rightarrow> fileService \<Rightarrow> fileService \<times> file_session result" where
  "getOrReconnectSession ce now userID isRoot s = (if \<not> ce_manager ce then (s, Err (BizError CodeInternalError))
     else
       let fresh = (case fs_sessionCheckCache s userID of None \<Rightarrow> False | Some t \<Rightarrow> now - t < check_ttl);
           restore = (if \<not> ce_ensure ce then Err (BizError CodeInternalError)
                      else case ce_second ce of
                        None \<Rightarrow> Err (BizError CodeUnauthorized)
                      | Some z \<Rightarrow> (if fz_Client z \<and> fz_Sftp z then Ok z else Err (BizError CodeInternalError)))
       in case ce_first ce of
            None \<Rightarrow> (s, restore)
          | Some z \<Rightarrow>
              (if \<not> fz_Client z then (s, restore)
               else if fresh then (s, Ok z)
               else if ce_ping ce \<and> fz_Sftp z
               then (s\<lparr> fs_sessionCheckCache := (fs_sessionCheckCache s)(userID := Some now) \<rparr>, Ok z)
               else (s, restore)))"

definition getSftpClient :: "conn_env \<Rightarrow> int \<Rightarrow> int \<Rightarrow> bool \<Rightarrow> fileService \<Rightarrow> fileService \<times> unit result" where
  "getSftpClient ce now userID isRoot s = (case getOrReconnectSession ce now userID isRoot s of
     (s1, Inl _) \<Rightarrow> (s1, Err (BizError CodeInternalError))
   | (s1, Inr _) \<Rightarrow> (s1, Ok ()))"

definition getSSHClient_file :: "conn_env \<Rightarrow> int \<Rightarrow> int \<Rightarrow> bool \<Rightarrow> fileService \<Rightarrow> fileService \<times> unit result" where
  "getSSHClient_file ce now userID isRoot s = (case getOrReconnectSession ce now userID isRoot s of
     (s1, Inl _) \<Rightarrow> (s1, Err (BizError CodeInternalError))
   | (s1, Inr _) \<Rightarrow> (s1, Ok ()))"

definition executeSSHCommand ::
  "conn_env \<Rightarrow> remote_env \<Rightarrow> int \<Rightarrow> int \<Rightarrow> string \<Rightarrow> bool \<Rightarrow> fileService \<Rightarrow> fileService \<times> string result" where
  "executeSSHCommand ce re now userID cmd isRoot s = (case getSSHClient_file ce now userID isRoot s of
     (s1, Inl _) \<Rightarrow> (s1, Err (BizError CodeInternalError))
   | (s1, Inr _) \<Rightarrow>
       (let s2 = s1\<lparr> fs_commands := fs_commands s1 @ [cmd] \<rparr> in
        case re_exec re cmd of
          None \<Rightarrow> (s2, Err (BizError CodeSSHCommandExecutionFailed))
        | Some out \<Rightarrow> (s2, Ok out)))"

section \<open>Paths\<close>

definition home_dir :: "remote_env \<Rightarrow> string \<Rightarrow> string" where
  "home_dir re username = path_Join [if re_basePath re = [] then ''/home'' else re_basePath re, username]"

text \<open>The check of the home directory, which is created when it is missing and remembered.\<close>

definition ensure_home :: "remote_env \<Rightarrow> int \<Rightarrow> string \<Rightarrow> fileService \<Rightarrow> fileService \<times> unit result" where
  "ensure_home re userID homeDir s = (if userID \<in> set (fs_homeDirCache s) then (s, Ok ())
     else let s1 = s\<lparr> fs_homeDirCache := userID # fs_homeDirCache s \<rparr> in
       case re_stat re homeDir of
         Exists \<Rightarrow> (s1, Ok ())
       | NotExist \<Rightarrow> (if re_mkdir re homeDir then (s1, Ok ()) else (s, Err (BizError CodeInternalError)))
       | StatError \<Rightarrow> (s, Err (BizError CodeInternalError)))"

definition user_path :: "string \<Rightarrow> string \<Rightarrow> string result" where
  "user_path homeDir p = (if p = [] \<or> p = ''.'' then Ok homeDir
     else let cleanPath = path_Clean p in
       if path_IsAbs cleanPath then
         (if HasPrefix cleanPath homeDir then Ok cleanPath
          else if cleanPath = ''/'' then Ok homeDir
          else Err (BizError CodeForbidden))
       else let finalPath = path_Join [homeDir, cleanPath] in
         (if \<not> HasPrefix finalPath homeDir then Err (BizError CodeForbidden) else Ok finalPath))"

definition resolvePath ::
  "conn_env \<Rightarrow> remote_env \<Rightarrow> int \<Rightarrow> int \<Rightarrow> string \<Rightarrow> bool \<Rightarrow> fileService \<Rightarrow> fileService \<times> string result" where
  "resolvePath ce re now userID p0 isRootMode s =
     (let p = TrimSpace p0 in
      case getOrReconnectSession ce now userID isRootMode s of
        (s1, Inl _) \<Rightarrow> (s1, Err (BizError CodeInternalError))
      | (s1, Inr session) \<Rightarrow>
          (if isRootMode then (s1, Ok (if p = [] \<or> p = ''.'' then ''/'' else path_Clean p))
           else let homeDir = home_dir re (fz_Username session) in
             case ensure_home re userID homeDir s1 of
               (s2, Inl e) \<Rightarrow> (s2, Err e)
             | (s2, Inr _) \<Rightarrow> (s2, user_path homeDir p)))"

section \<open>Listing\<close>

record BreadcrumbItem =
  bc_Name :: string
  bc_Path :: string

fun breadcrumb_loop :: "string \<Rightarrow> string list \<Rightarrow> BreadcrumbItem list" where
  "breadcrumb_loop cur [] = []"
| "breadcrumb_loop cur (part # ps) =
     (if part = [] then breadcrumb_loop (if cur = [] then ''/'' else cur) ps
      else let cur1 = (if cur = ''/'' then cur @ part else cur @ ''/'' @ part)
           in \<lparr> bc_Name = part, bc_Path = cur1 \<rparr> # breadcrumb_loop cur1 ps)"

definition buildBreadcrumb :: "string \<Rightarrow> BreadcrumbItem list" where
  "buildBreadcrumb p = (if HasPrefix p ''/'' then [\<lparr> bc_Name = ''/'', bc_Path = ''/'' \<rparr>] else []) @
     breadcrumb_loop [] (Split CHR ''/'' p)"

definition list_key :: "int \<Rightarrow> bool \<Rightarrow> string \<Rightarrow> string" where
  "list_key userID isRootMode p = ''file:list:'' @ Itoa userID @ '':'' @ show_bool isRootMode @ '':'' @ p"

definition invalidateFileListCache :: "remote_env \<Rightarrow> int \<Rightarrow> bool \<Rightarrow> string \<Rightarrow> fileService \<Rightarrow> fileService" where
  "invalidateFileListCache re userID isRootMode p s = (if re_redis_set re
     then s\<lparr> fs_lists := (fs_lists s)(list_key userID isRootMode p := None) \<rparr> else s)"

definition ParseUint32 :: "string \<Rightarrow> nat option" where
  "ParseUint32 t = (case read_digits t of None \<Rightarrow> None | Some n \<Rightarrow> if n < 2 ^ 32 then Some n else None)"

text \<open>The map from user numbers to names, from the cached text and from the password file.\<close>

fun parse_uid_pairs :: "string list \<Rightarrow> (nat \<times> string) list" where
  "parse_uid_pairs [] = []"
| "parse_uid_pairs (pair # ps) =
     (let kv = Split CHR '':'' pair in
      if length kv = 2 then
        (case ParseUint32 (kv ! 0) of Some uid \<Rightarrow> (uid, kv ! 1) # parse_uid_pairs ps | None \<Rightarrow> parse_uid_pairs ps)
      else parse_uid_pairs ps)"

fun parse_passwd :: "string list \<Rightarrow> (nat \<times> string) list" where
  "parse_passwd [] = []"
| "parse_passwd (line # ls) =
     (let parts = Split CHR '':'' line in
      if length parts \<ge> 3 then
        (case ParseUint32 (parts ! 2) of Some uid \<Rightarrow> (uid, parts ! 0) # parse_passwd ls | None \<Rightarrow> parse_passwd ls)
      else parse_passwd ls)"

definition uid_lookup :: "(nat \<times> string) list \<Rightarrow> nat \<Rightarrow> string option" where
  "uid_lookup ps = map_of (rev ps)"

definition show_uid_pairs :: "(nat \<times> string) list \<Rightarrow> string" where
  "show_uid_pairs ps = Join '','' (map (\<lambda>(uid, name). Itoa (int uid) @ '':'' @ name) ps)"

definition redis_get :: "remote_env \<Rightarrow> string \<Rightarrow> fileService \<Rightarrow> string option" where
  "redis_get re k s = (if re_redis_get re then fs_redis s k else None)"

definition redis_set :: "remote_env \<Rightarrow> string \<Rightarrow> string \<Rightarrow> fileService \<Rightarrow> fileService" where
  "redis_set re k v s = (if re_redis_set re then s\<lparr> fs_redis := (fs_redis s)(k := Some v) \<rparr> else s)"

definition load_uid_map ::
  "conn_env \<Rightarrow> remote_env \<Rightarrow> int \<Rightarrow> int \<Rightarrow> bool \<Rightarrow> fileService \<Rightarrow> fileService \<times> (nat \<times> string) list" where
  "load_uid_map ce re now userID isRootMode s =
     (let cached = (case redis_get re ''file:uid_map'' s of
            None \<Rightarrow> [] | Some t \<Rightarrow> (if t = [] then [] else parse_uid_pairs (Split CHR '','' t)))
      in if cached \<noteq> [] then (s, cached)
         else case executeSSHCommand ce re now userID ''getent passwd || cat /etc/passwd'' isRootMode s of
           (s1, Inl _) \<Rightarrow> (s1, [])
         | (s1, Inr out) \<Rightarrow>
             (let ps = parse_passwd (Split CHR 0x0A out)
              in (if ps = [] then s1 else redis_set re ''file:uid_map'' (show_uid_pairs ps) s1, ps)))"

definition owner_of :: "(nat \<times> string) list \<Rightarrow> file_entry \<Rightarrow> string" where
  "owner_of uids en = (case en_Uid en of
     None \<Rightarrow> ''unknown''
   | Some uid \<Rightarrow> (case uid_lookup uids uid of Some name \<Rightarrow> name | None \<Rightarrow> en_Name en))"

definition dir_items :: "(nat \<times> string) list \<Rightarrow> string \<Rightarrow> file_entry list \<Rightarrow> DirectoryItem list" where
  "dir_items uids rp es = sort_key di_Name (map (\<lambda>en. \<lparr> di_Name = en_Name en, di_UpdatedAt = en_ModTime en,
     di_Path = path_Join [rp, en_Name en], di_Username = owner_of uids en \<rparr>) (filter en_IsDir es))"

definition file_items :: "(nat \<times> string) list \<Rightarrow> string \<Rightarrow> file_entry list \<Rightarrow> FileItem list" where
  "file_items uids rp es = sort_key fi_Filename (map (\<lambda>en. \<lparr> fi_Filename = en_Name en, fi_FileSize = en_Size en,
     fi_UpdatedAt = en_ModTime en, fi_Path = path_Join [rp, en_Name en], fi_Username = owner_of uids en \<rparr>)
     (filter (\<lambda>en. \<not> en_IsDir en) es))"

text \<open>Reading a directory that is not cached.\<close>

definition read_list ::
  "conn_env \<Rightarrow> conn_env \<Rightarrow> remote_env \<Rightarrow> int \<Rightarrow> int \<Rightarrow> bool \<Rightarrow> string \<Rightarrow> fileService \<Rightarrow> fileService \<times> cached_list result" where
  "read_list ce1 ce2 re now userID isRootMode resolved s =
     (case getSftpClient ce1 now userID isRootMode s of
        (s1, Inl _) \<Rightarrow> (s1, Err (BizError CodeInternalError))
      | (s1, Inr _) \<Rightarrow>
          (case re_realpath re resolved of
             None \<Rightarrow> (s1, Err (BizError CodeInternalError))
           | Some rp \<Rightarrow>
               (case re_readdir re rp of
                  None \<Rightarrow> (s1, Err (BizError CodeInternalError))
                | Some es \<Rightarrow>
                    (case load_uid_map ce2 re now userID isRootMode s1 of
                       (s2, uids) \<Rightarrow>
                         (let c = \<lparr> cl_RealPath = rp, cl_Dirs = dir_items uids rp es, cl_Files = file_items uids rp es \<rparr>
                          in (if re_redis_set re then s2\<lparr> fs_lists := (fs_lists s2)(list_key userID isRootMode resolved := Some c) \<rparr> else s2,
                              Ok c))))))"

section \<open>Paging\<close>

fun page_loop :: "int \<Rightarrow> int \<Rightarrow> int \<Rightarrow> int \<Rightarrow> 'a list \<Rightarrow> 'a list \<times> int \<times> int" where
  "page_loop start psize idx cnt [] = ([], idx, cnt)"
| "page_loop start psize idx cnt (x # xs) =
     (if idx \<ge> start \<and> cnt < psize
      then (case page_loop start psize (idx + 1) (cnt + 1) xs of (ys, i, c) \<Rightarrow> (x # ys, i, c))
      else page_loop start psize (idx + 1) cnt xs)"

definition page_of :: "int \<Rightarrow> int \<Rightarrow> 'a list \<Rightarrow> 'b list \<Rightarrow> 'a list \<times> 'b list" where
  "page_of page pageSize dirs files =
     (let start = wrap64 (wrap64 (page - 1) * pageSize) in
      if start < int (length dirs + length files) then
        (case page_loop start pageSize 0 0 dirs of (ds, idx, cnt) \<Rightarrow>
          (case page_loop start pageSize idx cnt files of (fs, _, _) \<Rightarrow> (ds, fs)))
      else ([], []))"

definition page_count :: "int \<Rightarrow> int \<Rightarrow> int" where
  "page_count n pageSize = go_div n pageSize + (if go_mod n pageSize \<noteq> 0 then 1 else 0)"

record FileListRequest =
  fr_Path :: string
  fr_Keyword :: string
  fr_Page :: int
  fr_PageSize :: int

record FilesListData =
  fd_Breadcrumb :: "BreadcrumbItem list"
  fd_Path :: string
  fd_FileList :: "FileItem list"
  fd_DirectoryList :: "DirectoryItem list"
  fd_Total :: int
  fd_Pages :: int
  fd_Page :: int
  fd_PageSize :: int

definition list_data :: "cached_list \<Rightarrow> string \<Rightarrow> int \<Rightarrow> int \<Rightarrow> FilesListData" where
  "list_data c keyword page pageSize =
     (let dirs = (if keyword = [] then cl_Dirs c else filter (\<lambda>d. Contains_str (di_Name d) keyword) (cl_Dirs c));
          files = (if keyword = [] then cl_Files c else filter (\<lambda>f. Contains_str (fi_Filename f) keyword) (cl_Files c));
          n = int (length dirs + length files)
      in case page_of page pageSize dirs files of (ds, fs) \<Rightarrow>
        \<lparr> fd_Breadcrumb = buildBreadcrumb (cl_RealPath c), fd_Path = cl_RealPath c, fd_FileList = fs,
          fd_DirectoryList = ds, fd_Total = n, fd_Pages = page_count n pageSize, fd_Page = page, fd_PageSize = pageSize \<rparr>)"

definition last_path_key :: "int \<Rightarrow> string" where
  "last_path_key userID = ''file:last_path:'' @ Itoa userID"

definition GetFileList ::
  "conn_env \<Rightarrow> conn_env \<Rightarrow> conn_env \<Rightarrow> remote_env \<Rightarrow> int \<Rightarrow> int \<Rightarrow> FileListRequest \<Rightarrow> bool \<Rightarrow> fileService \<Rightarrow> fileService \<times> FilesListData result" where
  "GetFileList ce1 ce2 ce3 re now userID req isRootMode s =
     (let sp = (if fr_Path req = '' ''
                then (s, case redis_get re (last_path_key userID) s of Some l \<Rightarrow> l | None \<Rightarrow> [])
                else (redis_set re (last_path_key userID) (fr_Path req) s, fr_Path req));
          page = (if fr_Page req \<le> 0 then 1 else fr_Page req);
          pageSize = (if fr_PageSize req \<le> 0 then 100 else fr_PageSize req)
      in case resolvePath ce1 re now userID (snd sp) isRootMode (fst sp) of
           (s1, Inl _) \<Rightarrow> (s1, Err (BizError CodeInternalError))
         | (s1, Inr resolved) \<Rightarrow>
             (case (if re_redis_get re then fs_lists s1 (list_key userID isRootMode resolved) else None) of
                Some c \<Rightarrow> (s1, Ok (list_data c (fr_Keyword req) page pageSize))
              | None \<Rightarrow>
                  (case read_list ce2 ce3 re now userID isRootMode resolved s1 of
                     (s2, Inl e) \<Rightarrow> (s2, Err e)
                   | (s2, Inr c) \<Rightarrow> (s2, Ok (list_data c (fr_Keyword req) page pageSize)))))"

section \<open>Deleting and unpacking\<close>

definition rm_command :: "string \<Rightarrow> string" where
  "rm_command p = ''rm -rf '' @ shell_quote p"

definition unzip_command :: "string \<Rightarrow> string \<Rightarrow> string" where
  "unzip_command p t = ''unzip -n '' @ shell_quote p @ '' -d '' @ shell_quote t"

definition DeleteFile ::
  "conn_env \<Rightarrow> conn_env \<Rightarrow> conn_env \<Rightarrow> remote_env \<Rightarrow> int \<Rightarrow> int \<Rightarrow> string \<Rightarrow> bool \<Rightarrow> fileService \<Rightarrow> fileService \<times> unit result" where
  "DeleteFile ce1 ce2 ce3 re now userID p isRootMode s =
     (case resolvePath ce1 re now userID p isRootMode s of
        (s1, Inl e) \<Rightarrow> (s1, Err e)
      | (s1, Inr resolved) \<Rightarrow>
          (case getSftpClient ce2 now userID isRootMode s1 of
             (s2, Inl e) \<Rightarrow> (s2, Err e)
           | (s2, Inr _) \<Rightarrow>
               (case re_stat re resolved of
                  NotExist \<Rightarrow> (s2, Err (BizError CodeInvalidParam))
                | StatError \<Rightarrow> (s2, Err (BizError CodeInternalError))
                | Exists \<Rightarrow>
                    (case executeSSHCommand ce3 re now userID (rm_command resolved) isRootMode s2 of
                       (s3, Inl _) \<Rightarrow> (s3, Err (BizError CodeSSHCommandExecutionFailed))
                     | (s3, Inr _) \<Rightarrow>
                         (case re_stat_after re resolved of
                            Exists \<Rightarrow> (s3, Err (BizError CodeInternalError))
                          | StatError \<Rightarrow> (s3, Err (BizError CodeInternalError))
                          | NotExist \<Rightarrow> (invalidateFileListCache re userID isRootMode (path_Dir resolved) s3, Ok ()))))))"

definition TrimSuffix :: "string \<Rightarrow> string \<Rightarrow> string" where
  "TrimSuffix t x = (if HasSuffix t x then take (length t - length x) t else t)"

definition UnzipFile ::
  "conn_env \<Rightarrow> conn_env \<Rightarrow> conn_env \<Rightarrow> conn_env \<Rightarrow> remote_env \<Rightarrow> int \<Rightarrow> int \<Rightarrow> string \<Rightarrow> string \<Rightarrow> bool \<Rightarrow> fileService \<Rightarrow> fileService \<times> unit result" where
  "UnzipFile ce1 ce2 ce3 ce4 re now userID p targetPath isRootMode s =
     (case resolvePath ce1 re now userID p isRootMode s of
        (s1, Inl e) \<Rightarrow> (s1, Err e)
      | (s1, Inr resolved) \<Rightarrow>
          (case resolvePath ce2 re now userID targetPath isRootMode s1 of
             (s2, Inl e) \<Rightarrow> (s2, Err e)
           | (s2, Inr resolvedTarget) \<Rightarrow>
               (case getSftpClient ce3 now userID isRootMode s2 of
                  (s3, Inl e) \<Rightarrow> (s3, Err e)
                | (s3, Inr _) \<Rightarrow>
                    (let baseName = path_Base resolved;
                         expectedDirName = TrimSuffix baseName (path_Ext baseName);
                         finalTargetDir = path_Join [resolvedTarget, expectedDirName]
                     in case re_stat re finalTargetDir of
                          Exists \<Rightarrow> (s3, Err (BizError CodeFileExists))
                        | StatError \<Rightarrow> (s3, Err (BizError CodeInternalError))
                        | NotExist \<Rightarrow>
                            (case executeSSHCommand ce4 re now userID (unzip_command resolved finalTargetDir) isRootMode s3 of
                               (s4, Inl _) \<Rightarrow> (s4, Err (BizError CodeSSHCommandExecutionFailed))
                             | (s4, Inr _) \<Rightarrow> (invalidateFileListCache re userID isRootMode resolvedTarget s4, Ok ()))))))"

section \<open>Upload progress\<close>

definition getUploadProgressKey ::
  "conn_env \<Rightarrow> remote_env \<Rightarrow> int \<Rightarrow> int \<Rightarrow> string \<Rightarrow> string \<Rightarrow> bool \<Rightarrow> fileService \<Rightarrow> fileService \<times> string" where
  "getUploadProgressKey ce re now userID filename targetPath isRootMode s =
     (case resolvePath ce re now userID targetPath isRootMode s of (s1, r) \<Rightarrow>
       (s1, ''upload:progress:'' @ Itoa userID @ '':'' @ filename @ '':'' @ (case r of Inl _ \<Rightarrow> targetPath | Inr q \<Rightarrow> q)))"

definition two_digits :: "int \<Rightarrow> string" where
  "two_digits n = (if 0 \<le> n \<and> n < 10 then CHR ''0'' # Itoa n else Itoa n)"

text \<open>formatUploadDuration of a duration that was rounded to seconds already.\<close>

definition formatUploadDuration :: "int \<Rightarrow> string" where
  "formatUploadDuration secs =
     (let h = go_div secs 3600; r = secs - h * 3600; m = go_div r 60; t = r - m * 60
      in if h > 0 then two_digits h @ '':'' @ two_digits m @ '':'' @ two_digits t else two_digits m @ '':'' @ two_digits t)"

section \<open>Confinement\<close>

text \<open>
  The components of the home directory, and the paths that the string prefix test admits: the
  home directory, what is below it, and entries beside it whose name begins with the user name.
\<close>

definition home_parts :: "remote_env \<Rightarrow> string \<Rightarrow> string list" where
  "home_parts re username =
     clean_parts True (Split CHR ''/'' (if re_basePath re = [] then ''/home'' else re_basePath re) @ Split CHR ''/'' username)"

definition admitted :: "string list \<Rightarrow> string list \<Rightarrow> bool" where
  "admitted hs qs \<longleftrightarrow> length hs \<le> length qs \<and> take (length hs - 1) qs = butlast hs \<and> prefix (last hs) (qs ! (length hs - 1))"

lemma home_dir_abs:
  assumes "re_basePath re = [] \<or> path_IsAbs (re_basePath re)" "username \<noteq> []"
  shows "home_dir re username = abs_path (home_parts re username)" "list_all proper_part (home_parts re username)"
proof -
  let ?b = "if re_basePath re = [] then ''/home'' else re_basePath re"
  have b: "?b \<noteq> []" "path_IsAbs ?b" using assms(1) by (auto simp: path_IsAbs_def HasPrefix_def)
  then have "path_IsAbs (?b @ CHR ''/'' # username)" by (auto simp: path_IsAbs_def HasPrefix_def prefix_def)
  from Clean_abs [OF this] show "home_dir re username = abs_path (home_parts re username)"
    "list_all proper_part (home_parts re username)"
    using b(1) assms(2) by (auto simp: home_dir_def path_Join_def home_parts_def Split_append_slash)
qed

lemma user_path_admitted:
  assumes hs: "list_all proper_part hs" "hs \<noteq> []" and ok: "user_path (abs_path hs) p = Ok q"
  shows "\<exists>qs. q = abs_path qs \<and> list_all proper_part qs \<and> admitted hs qs"
proof -
  have self: "admitted hs hs" using hs(2) by (simp add: admitted_def butlast_conv_take last_conv_nth)
  have by_prefix: "admitted hs qs" if "HasPrefix (abs_path qs) (abs_path hs)" "list_all proper_part qs" for qs
    using prefix_Join [OF hs(2,1) that(2)] that(1) by (simp add: admitted_def HasPrefix_def abs_path_def)
  consider "q = abs_path hs" | "path_IsAbs (path_Clean p)" "q = path_Clean p" "HasPrefix q (abs_path hs)"
    | "\<not> path_IsAbs (path_Clean p)" "q = path_Join [abs_path hs, path_Clean p]" "HasPrefix q (abs_path hs)"
    using ok by (auto simp: user_path_def Let_def split: if_splits)
  then show ?thesis
  proof cases
    case 1
    then show ?thesis using self hs(1) by blast
  next
    case 2
    have abs: "path_IsAbs p" using 2(1) Clean_rel by blast
    then show ?thesis using Clean_abs [OF abs] 2 by_prefix by metis
  next
    case 3
    have "path_Clean p \<noteq> []" by (rule Clean_not_Nil)
    from Join_abs [OF hs(1) this] show ?thesis using 3 by_prefix by metis
  qed
qed

lemma getOrReconnect_session:
  "getOrReconnectSession ce now u r s = (s', Ok z) \<Longrightarrow> ce_first ce = Some z \<or> ce_second ce = Some z"
  by (auto simp: getOrReconnectSession_def Let_def split: if_splits option.splits)

lemma getOrReconnect_commands [simp]:
  "fs_commands (fst (getOrReconnectSession ce now u r s)) = fs_commands s"
  by (auto simp: getOrReconnectSession_def Let_def split: option.splits)

lemma getOrReconnect_commandsD:
  "getOrReconnectSession ce now u r s = (s', res) \<Longrightarrow> fs_commands s' = fs_commands s"
  using getOrReconnect_commands [of ce now u r s] by simp

lemma resolvePath_user:
  assumes "resolvePath ce re now u p False s = (s', Ok q)"
  obtains z where "ce_first ce = Some z \<or> ce_second ce = Some z" "user_path (home_dir re (fz_Username z)) (TrimSpace p) = Ok q"
  using assms getOrReconnect_session
  by (auto simp: resolvePath_def Let_def split: prod.splits sum.splits) metis

lemma resolvePath_commands [simp]: "fs_commands (fst (resolvePath ce re now u p r s)) = fs_commands s"
  by (auto simp: resolvePath_def ensure_home_def Let_def dest!: getOrReconnect_commandsD
      split: prod.splits sum.splits stat_answer.splits if_splits)

text \<open>The session of the call belongs to an account of this name.\<close>

definition session_of :: "conn_env \<Rightarrow> string \<Rightarrow> bool" where
  "session_of ce name \<longleftrightarrow> (\<forall>z. ce_first ce = Some z \<or> ce_second ce = Some z \<longrightarrow> fz_Username z = name)"

lemma resolvePath_admitted:
  assumes "resolvePath ce re now u p False s = (s', Ok q)" "session_of ce name" "name \<noteq> []"
    and "re_basePath re = [] \<or> path_IsAbs (re_basePath re)" "home_parts re name \<noteq> []"
  shows "\<exists>qs. q = abs_path qs \<and> list_all proper_part qs \<and> admitted (home_parts re name) qs"
proof -
  obtain z where "ce_first ce = Some z \<or> ce_second ce = Some z" "user_path (home_dir re (fz_Username z)) (TrimSpace p) = Ok q"
    using resolvePath_user [OF assms(1)] .
  moreover from this(1) have "fz_Username z = name" using assms(2) unfolding session_of_def by blast
  ultimately show ?thesis using user_path_admitted home_dir_abs [OF assms(4,3)] assms(5) by metis
qed

section \<open>The shell\<close>

lemma sh_words_rm: "sh_words (rm_command p) = Some [''rm'', ''-rf'', p]"
  using sh_from_quote [of p "[]"] by (simp add: rm_command_def sh_words_def Let_def plain_char_def is_alnum_def)

lemma sh_words_unzip:
  "sh_words (unzip_command p t) = Some [''unzip'', ''-n'', p, ''-d'', t]"
proof -
  have "sh_from False None (shell_quote p @ '' -d '' @ shell_quote t) = Some [p, ''-d'', t]"
    using sh_from_quote [of p "'' -d '' @ shell_quote t"] sh_from_quote [of t "[]"]
    by (simp add: Let_def plain_char_def is_alnum_def)
  then show ?thesis by (simp add: unzip_command_def sh_words_def Let_def plain_char_def is_alnum_def)
qed

lemma execute_commands:
  "executeSSHCommand ce re now u cmd r s = (s', res) \<Longrightarrow>
   fs_commands s' = fs_commands s \<and> \<not> is_ok res \<or> fs_commands s' = fs_commands s @ [cmd]"
  by (auto simp: executeSSHCommand_def getSSHClient_file_def Let_def dest!: getOrReconnect_commandsD
      split: prod.splits sum.splits option.splits)

lemma getSftp_commands: "getSftpClient ce now u r s = (s', res) \<Longrightarrow> fs_commands s' = fs_commands s"
  by (auto simp: getSftpClient_def dest!: getOrReconnect_commandsD split: prod.splits sum.splits)

lemma invalidate_commands [simp]: "fs_commands (invalidateFileListCache re u r p s) = fs_commands s"
  by (simp add: invalidateFileListCache_def)

lemma DeleteFile_commands:
  assumes "DeleteFile ce1 ce2 ce3 re now u p r s = (s', res)"
  shows "fs_commands s' = fs_commands s \<and> \<not> is_ok res \<or>
    (\<exists>s1 q. resolvePath ce1 re now u p r s = (s1, Ok q) \<and> fs_commands s' = fs_commands s @ [rm_command q] \<and>
       re_stat re q = Exists \<and> (is_ok res \<longrightarrow> re_stat_after re q = NotExist))"
proof -
  obtain s1 rp where r1: "resolvePath ce1 re now u p r s = (s1, rp)" by (cases "resolvePath ce1 re now u p r s")
  have c1: "fs_commands s1 = fs_commands s" using resolvePath_commands [of ce1 re now u p r s] r1 by simp
  obtain s2 rg where r2: "getSftpClient ce2 now u r s1 = (s2, rg)" by (cases "getSftpClient ce2 now u r s1")
  note c2 = getSftp_commands [OF r2]
  show ?thesis
  proof (cases rp)
    case (Inr q)
    obtain s3 rx where r3: "executeSSHCommand ce3 re now u (rm_command q) r s2 = (s3, rx)"
      by (cases "executeSSHCommand ce3 re now u (rm_command q) r s2")
    show ?thesis
      using assms execute_commands [OF r3] c1 c2 Inr
      by (auto simp: DeleteFile_def r1 r2 r3 split: sum.splits stat_answer.splits)
  qed (use assms c1 in \<open>auto simp: DeleteFile_def r1\<close>)
qed

section \<open>Pages\<close>

lemma page_loop_eq:
  "page_loop start ps idx cnt xs =
    (take (nat (ps - cnt)) (drop (nat (start - idx)) xs), idx + int (length xs),
     cnt + int (length (take (nat (ps - cnt)) (drop (nat (start - idx)) xs))))"
proof (induction xs arbitrary: idx cnt)
  case (Cons x xs)
  show ?case
  proof (cases "idx < start")
    case True
    then have "nat (start - idx) = Suc (nat (start - (idx + 1)))" by simp
    then show ?thesis using Cons.IH True by simp
  next
    case False
    then have "nat (start - idx) = 0" "nat (start - (idx + 1)) = 0" by simp_all
    moreover have "cnt < ps \<Longrightarrow> nat (ps - cnt) = Suc (nat (ps - (cnt + 1)))" by simp
    ultimately show ?thesis using Cons.IH False by (cases "cnt < ps") auto
  qed
qed simp

definition both :: "'a list \<times> 'b list \<Rightarrow> ('a + 'b) list" where
  "both p = map Inl (fst p) @ map Inr (snd p)"

lemma both_slice: "both (xs, ys) = map Inl xs @ map Inr ys"
  by (simp add: both_def)

lemma page_of_eq:
  assumes "0 < page" "0 < ps" "in_int ((page - 1) * ps)" "in_int page"
  shows "both (page_of page ps dirs files) = take (nat ps) (drop (nat ((page - 1) * ps)) (both (dirs, files)))"
proof -
  have start: "wrap64 (wrap64 (page - 1) * ps) = (page - 1) * ps"
    using assms by (simp add: wrap64_id in_int_def int_min_def)
  define a n where "a = nat ((page - 1) * ps)" and "n = nat ps"
  have st: "(page - 1) * ps = int a" and n: "ps = int n" using assms by (simp_all add: a_def n_def)
  have ws: "wrap64 (wrap64 (page - 1) * int n) = int a" using start st n by simp
  have "page_of page ps dirs files = (take n (drop a dirs), take (n - length (take n (drop a dirs))) (drop (a - length dirs) files))"
    unfolding page_of_def n ws Let_def page_loop_eq by (auto simp: nat_diff_distrib')
  then show ?thesis unfolding a_def [symmetric] n_def [symmetric] by (auto simp: both_def take_map drop_map min_def)
qed

lemma page_count_covers:
  assumes "0 < ps"
  shows "0 \<le> page_count (int n) ps" "int n \<le> page_count (int n) ps * ps" "(page_count (int n) ps - 1) * ps < int n \<or> n = 0"
proof -
  have nn: "go_div (int n) ps = int n div ps" "go_mod (int n) ps = int n mod ps"
    using assms by (simp_all add: go_div_nonneg go_mod_def minus_div_mult_eq_mod)
  define q r where "q = int n div ps" and "r = int n mod ps"
  have "int n = q * ps + r" "0 \<le> r" "r < ps" "0 \<le> q"
    using assms by (simp_all add: q_def r_def pos_imp_zdiv_nonneg_iff)
  moreover have "page_count (int n) ps = q + (if r \<noteq> 0 then 1 else 0)" by (simp add: page_count_def nn q_def r_def)
  ultimately show "0 \<le> page_count (int n) ps" "int n \<le> page_count (int n) ps * ps" "(page_count (int n) ps - 1) * ps < int n \<or> n = 0"
    by (auto simp: algebra_simps)
qed

lemma length_both: "length (both p) = length (fst p) + length (snd p)"
  by (simp add: both_def)

lemma page_of_listed:
  assumes "0 < ps" "int (length dirs + length files) + ps \<le> int_max"
    and k: "1 \<le> k" "int k \<le> page_count (int (length dirs + length files)) ps"
  shows "both (page_of (int k) ps dirs files) = take (nat ps) (drop ((k - 1) * nat ps) (both (dirs, files)))"
proof -
  let ?n = "length dirs + length files"
  have "(int k - 1) * ps \<le> (page_count (int ?n) ps - 1) * ps" using k(2) assms(1) by (simp add: mult_right_mono)
  then have le: "(int k - 1) * ps \<le> int ?n"
    using page_count_covers(3) [OF assms(1), of ?n] k by (auto simp: page_count_def go_div_def go_mod_def split: if_splits)
  have "int k - 1 \<le> (int k - 1) * ps" using k(1) assms(1) by (simp add: mult_le_cancel_left1)
  then have "in_int ((int k - 1) * ps)" "in_int (int k)"
    using le assms(1,2) k(1) mult_nonneg_nonneg [of "int k - 1" ps] by (auto simp: in_int_def int_min_def)
  moreover have "nat ((int k - 1) * ps) = (k - 1) * nat ps"
    using k(1) assms(1) by (simp add: nat_mult_distrib of_nat_diff nat_diff_distrib)
  ultimately show ?thesis using page_of_eq [of "int k" ps dirs files] k(1) assms(1) by simp
qed

section \<open>Properties\<close>

text \<open>
  a normal user cannot leave the home directory through dots, slashes or symbolic tricks of
  spelling: every path that resolvePath returns is absolute and free of dot components, agrees
  with the home directory up to its last component, and its next component begins with the user
  name; and a relative path without double dots is resolved to exactly that path below the home
  directory.
\<close>

theorem resolve_path_confined:
  assumes "resolvePath ce re now u p False s = (s', Ok q)" "session_of ce name" "name \<noteq> []"
    and "re_basePath re = [] \<or> path_IsAbs (re_basePath re)" "home_parts re name \<noteq> []"
  shows "(\<exists>qs. q = abs_path qs \<and> list_all proper_part qs \<and> admitted (home_parts re name) qs) \<and>
    (\<not> path_IsAbs (TrimSpace p) \<and> ''..'' \<notin> set (Split CHR ''/'' (TrimSpace p)) \<longrightarrow>
       q = abs_path (home_parts re name @ filter named (Split CHR ''/'' (TrimSpace p))))"
proof (intro conjI impI)
  show "\<exists>qs. q = abs_path qs \<and> list_all proper_part qs \<and> admitted (home_parts re name) qs"
    using assms by (rule resolvePath_admitted)
next
  assume rel: "\<not> path_IsAbs (TrimSpace p) \<and> ''..'' \<notin> set (Split CHR ''/'' (TrimSpace p))"
  obtain z where z: "ce_first ce = Some z \<or> ce_second ce = Some z"
    and up: "user_path (home_dir re (fz_Username z)) (TrimSpace p) = Ok q"
    using resolvePath_user [OF assms(1)] .
  have "fz_Username z = name" using z assms(2) unfolding session_of_def by blast
  then show "q = abs_path (home_parts re name @ filter named (Split CHR ''/'' (TrimSpace p)))"
    using up home_dir_abs [OF assms(4,3)] Join_below [of "home_parts re name" "TrimSpace p"] Clean_rel [of "TrimSpace p"] rel
    by (auto simp: user_path_def Let_def named_def split: if_splits)
qed

definition bob_env :: conn_env where
  "bob_env = (let z = \<lparr> fz_Username = ''bob'', fz_Client = True, fz_Sftp = True \<rparr>
     in \<lparr> ce_manager = True, ce_first = Some z, ce_ping = True, ce_ensure = True, ce_second = Some z \<rparr>)"

definition demo_remote :: remote_env where
  "demo_remote = \<lparr> re_basePath = [], re_stat = (\<lambda>_. Exists), re_stat_after = (\<lambda>_. NotExist), re_mkdir = (\<lambda>_. True),
     re_realpath = Some, re_readdir = (\<lambda>_. Some []), re_exec = (\<lambda>_. Some []), re_redis_get = True, re_redis_set = True \<rparr>"

definition no_files :: fileService where
  "no_files = \<lparr> fs_homeDirCache = [], fs_sessionCheckCache = (\<lambda>_. None), fs_redis = (\<lambda>_. None), fs_lists = (\<lambda>_. None), fs_commands = [] \<rparr>"

lemma bob_facts:
  "session_of bob_env ''bob''" "re_basePath demo_remote = []" "home_parts demo_remote ''bob'' = [''home'', ''bob'']"
proof -
  show "session_of bob_env ''bob''" by (auto simp: session_of_def bob_env_def Let_def)
  show "re_basePath demo_remote = []" "home_parts demo_remote ''bob'' = [''home'', ''bob'']" by code_simp+
qed

text \<open>
  The last component is compared as a string prefix only, so a user reaches the home
  directories of all users whose name begins with the own name, by an absolute and by a
  relative path.
\<close>

theorem resolve_path_admits_sibling:
  "snd (resolvePath bob_env demo_remote 9 4 ''/home/bobby/key'' False no_files) = Ok ''/home/bobby/key'' \<and>
   snd (resolvePath bob_env demo_remote 9 4 ''../bobby/key'' False no_files) = Ok ''/home/bobby/key'' \<and>
   snd (resolvePath bob_env demo_remote 9 4 ''/home/alice'' False no_files) = Err (BizError CodeForbidden)"
  by (intro conjI) code_simp+



text \<open>
  paging of a file list loses and repeats nothing: the pages 1 to Pages, in order, are
  exactly the matching directories followed by the matching files, and no page has more than
  PageSize entries.
\<close>

theorem file_pages_partition:
  assumes "0 < ps" "dirs = filter (\<lambda>d. kw = [] \<or> Contains_str (di_Name d) kw) (cl_Dirs c)"
    "files = filter (\<lambda>f. kw = [] \<or> Contains_str (fi_Filename f) kw) (cl_Files c)"
    and room: "int (length dirs + length files) + ps \<le> int_max"
  shows "concat (map (\<lambda>k. let d = list_data c kw (int k) ps in both (fd_DirectoryList d, fd_FileList d))
       [1..<nat (fd_Pages (list_data c kw 1 ps)) + 1]) = both (dirs, files) \<and>
    (\<forall>k \<in> set [1..<nat (fd_Pages (list_data c kw 1 ps)) + 1].
       length (fd_DirectoryList (list_data c kw (int k) ps)) + length (fd_FileList (list_data c kw (int k) ps)) \<le> nat ps)"
proof -
  define n pages where "n = length dirs + length files" and "pages = nat (page_count (int n) ps)"
  have ld: "(fd_DirectoryList (list_data c kw k ps), fd_FileList (list_data c kw k ps)) = page_of k ps dirs files"
    "fd_Pages (list_data c kw k ps) = page_count (int n) ps" for k
    by (auto simp: list_data_def Let_def assms(2,3) n_def split: prod.splits)
  have pg: "both (page_of (int k) ps dirs files) = take (nat ps) (drop ((k - 1) * nat ps) (both (dirs, files)))"
    if "k \<in> set [1..<pages + 1]" for k
  proof (rule page_of_listed [OF assms(1) room])
    show "1 \<le> k" "int k \<le> page_count (int (length dirs + length files)) ps"
      using that page_count_covers(1) [OF assms(1), of n] unfolding n_def [symmetric] by (auto simp: pages_def)
  qed
  have all: "both (dirs, files) = take (pages * nat ps) (both (dirs, files))"
    using page_count_covers(1,2) [OF assms(1), of n] assms(1)
    by (simp add: both_def n_def pages_def nat_mult_distrib [symmetric] le_nat_iff)
  have "concat (map (\<lambda>k. both (page_of (int k) ps dirs files)) [1..<pages + 1]) =
      concat (map (\<lambda>k. take (nat ps) (drop ((k - 1) * nat ps) (both (dirs, files)))) [1..<pages + 1])"
    using pg by (intro arg_cong [of _ _ concat] map_cong) auto
  also have "\<dots> = both (dirs, files)" using pages_concat [of "nat ps" "both (dirs, files)" pages] all assms(1) by simp
  finally have "concat (map (\<lambda>k. both (page_of (int k) ps dirs files)) [1..<pages + 1]) = both (dirs, files)" .
  moreover have "length (fst (page_of (int k) ps dirs files)) + length (snd (page_of (int k) ps dirs files)) \<le> nat ps"
    if "k \<in> set [1..<pages + 1]" for k
    using length_both [of "page_of (int k) ps dirs files"] by (simp add: pg [OF that])
  ultimately show ?thesis
    unfolding ld(2) Let_def ld(1) pages_def [symmetric] by (metis (no_types, lifting) fst_conv ld(1) snd_conv)
qed

end
