(* ===== verification/Directory.thy ===== *)
theory Directory
  imports Prelude
begin

text \<open>
  The directory of accounts, roles, permissions and menus: the entities of
  internal/model/entity and the repositories role_repository.go, menu_repository.go,
  api_repository.go and user_repository.go of internal/repository.

  A table is the list of its rows in the order in which they were inserted; the three join
  tables are lists of pairs of ids, without foreign keys (the migration disables them). First
  reads in the order of the primary key. The database is a parameter in four respects: each
  query has a flag that makes it fail, \<open>w\<close> is the weight that the collation gives a string (two
  strings are equal in a query when their weights are, and ORDER BY compares weights), \<open>like\<close> is
  the operator LIKE, and \<open>fresh\<close> is the id that the auto increment gives. A unique index refuses a
  write that would leave two rows with the same key, with the error DuplicateKey. Times are
  nanoseconds.
\<close>

section \<open>Entities\<close>

record Role =
  rl_ID :: int
  rl_Name :: string
  rl_Status :: int
  rl_Slug :: string
  rl_CreatedAt :: int
  rl_UpdatedAt :: int

record Permission =
  pm_ID :: int
  pm_Name :: string
  pm_Category :: string
  pm_Slug :: string
  pm_Type :: string
  pm_Status :: int
  pm_HttpMethod :: string
  pm_HttpPath :: string
  pm_Sort :: int
  pm_UpdatedAt :: int

record Menu =
  mn_ID :: int
  mn_ParentID :: int
  mn_Title :: string
  mn_Type :: string
  mn_Sort :: int
  mn_Status :: int
  mn_Icon :: string
  mn_URI :: string
  mn_UpdatedAt :: int

record User =
  ac_ID :: int
  ac_Username :: string
  ac_Password :: string
  ac_RealName :: string
  ac_Phone :: string
  ac_Avatar :: string
  ac_Email :: string
  ac_Status :: int
  ac_Priority :: int
  ac_MultiTraining :: int
  ac_CrossServer :: int
  ac_CreatedAt :: int
  ac_UpdatedAt :: int

text \<open>
  The tables admin_users, admin_roles, admin_permissions and admin_menu, and the join tables
  admin_role_users (role, user), admin_role_permissions (role, permission) and admin_role_menu
  (role, menu).
\<close>

record directory =
  d_users :: "User list"
  d_roles :: "Role list"
  d_permissions :: "Permission list"
  d_menus :: "Menu list"
  d_role_users :: "(int \<times> int) list"
  d_role_permissions :: "(int \<times> int) list"
  d_role_menu :: "(int \<times> int) list"

type_synonym collation = "string \<Rightarrow> string"

section \<open>Tables\<close>

text \<open>
  The statements that the repositories share: First with a condition, the count of a condition,
  the update and the deletion of the rows of an id, and the check of a unique index.
\<close>

definition first_row :: "('r \<Rightarrow> int) \<Rightarrow> ('r \<Rightarrow> bool) \<Rightarrow> 'r list \<Rightarrow> 'r option" where
  "first_row rid P t = find P (sort_key rid t)"

definition count_rows :: "('r \<Rightarrow> bool) \<Rightarrow> 'r list \<Rightarrow> int" where
  "count_rows P t = int (length (filter P t))"

definition update_row :: "('r \<Rightarrow> int) \<Rightarrow> int \<Rightarrow> ('r \<Rightarrow> 'r) \<Rightarrow> 'r list \<Rightarrow> 'r list" where
  "update_row rid i f t = map (\<lambda>x. if rid x = i then f x else x) t"

definition index_ok :: "collation \<Rightarrow> ('r \<Rightarrow> string) \<Rightarrow> 'r list \<Rightarrow> bool" where
  "index_ok w key t = distinct (map (\<lambda>x. w (key x)) t)"

text \<open>Inserting pairs in a join table, whose primary key is the pair.\<close>

definition insert_links :: "bool \<Rightarrow> (int \<times> int) list \<Rightarrow> (int \<times> int) list \<Rightarrow> (int \<times> int) list result" where
  "insert_links err new t = (if err then Err DbError
     else if distinct (t @ new) then Ok (t @ new) else Err DuplicateKey)"

lemma find_SomeD: "find P xs = Some x \<Longrightarrow> x \<in> set xs \<and> P x"
  by (induction xs) (auto split: if_splits)

lemma first_row_SomeD: "first_row rid P t = Some x \<Longrightarrow> x \<in> set t \<and> P x"
  unfolding first_row_def by (drule find_SomeD) simp

lemma first_row_None: "first_row rid P t = None \<longleftrightarrow> (\<forall>x \<in> set t. \<not> P x)"
  by (auto simp: first_row_def find_None_iff)

lemma first_row_ex: "x \<in> set t \<Longrightarrow> P x \<Longrightarrow> \<exists>y. first_row rid P t = Some y"
  using first_row_None [of rid P t] by fastforce

lemma row_eq: "distinct (map rid t) \<Longrightarrow> x \<in> set t \<Longrightarrow> y \<in> set t \<Longrightarrow> rid x = rid y \<Longrightarrow> x = y"
  by (meson distinct_map inj_onD)

lemma first_row_id:
  "distinct (map rid t) \<Longrightarrow> first_row rid (\<lambda>x. rid x = i) t = Some x \<longleftrightarrow> x \<in> set t \<and> rid x = i"
  by (metis (mono_tags, lifting) first_row_SomeD first_row_ex row_eq)

lemma count_rows_pos: "0 < count_rows P t \<longleftrightarrow> (\<exists>x \<in> set t. P x)"
  by (auto simp: count_rows_def filter_empty_conv)

lemma index_ok_snoc:
  "index_ok w key (t @ [r]) \<longleftrightarrow> index_ok w key t \<and> (\<forall>x \<in> set t. w (key x) \<noteq> w (key r))"
  by (simp add: index_ok_def image_iff) metis

lemma index_ok_filter: "index_ok w key t \<Longrightarrow> index_ok w key (filter P t)"
  by (simp add: index_ok_def distinct_map_filter)

text \<open>
  Rewriting the rows of one id keeps a unique index when the new key is the old one, or is the
  key of no other row.
\<close>

lemma index_ok_update:
  assumes "index_ok w key t" "distinct (map rid t)"
    and new: "\<And>x y. x \<in> set t \<Longrightarrow> rid x = i \<Longrightarrow> y \<in> set t \<Longrightarrow> rid y \<noteq> i \<Longrightarrow> w (key y) = w (key (f x)) \<Longrightarrow> w (key y) = w (key x)"
  shows "index_ok w key (update_row rid i f t)"
proof -
  let ?g = "\<lambda>x. if rid x = i then f x else x"
  have inj: "inj_on (\<lambda>x. w (key x)) (set t)" "inj_on rid (set t)" "distinct t"
    using assms(1,2) by (simp_all add: index_ok_def distinct_map)
  have "x = y" if "x \<in> set t" "y \<in> set t" "w (key (?g x)) = w (key (?g y))" for x y
    using that inj new [of x y] new [of y x] by (auto split: if_splits dest: inj_onD)
  then show ?thesis
    using inj(3) by (auto simp: index_ok_def update_row_def comp_def distinct_map intro!: inj_onI)
qed

subsection \<open>Tables with a primary key\<close>

text \<open>
  What the repositories promise of a table with an auto increment id, proved once: \<open>rid\<close> reads
  the id, \<open>with_id\<close> sets it, and \<open>apply_updates\<close> is the SET clause of an update, which never
  touches the id.
\<close>

locale id_table =
  fixes rid :: "'r \<Rightarrow> int"
    and with_id :: "int \<Rightarrow> 'r \<Rightarrow> 'r"
    and apply_updates :: "'u \<Rightarrow> 'r \<Rightarrow> 'r"
  assumes rid_with_id: "rid (with_id i r) = i"
    and rid_apply_updates: "rid (apply_updates u r) = rid r"
begin

lemma insert_distinct:
  "distinct (map rid t) \<Longrightarrow> i \<notin> rid ` set t \<Longrightarrow> distinct (map rid (t @ [with_id i r]))"
  by (auto simp: rid_with_id)

lemma update_ids: "map rid (update_row rid i (apply_updates u) t) = map rid t"
  by (induction t) (simp_all add: update_row_def rid_apply_updates)

lemma delete_distinct: "distinct (map rid t) \<Longrightarrow> distinct (map rid (filter P t))"
  by (simp add: distinct_map_filter)

lemma find_inserted:
  "distinct (map rid t) \<Longrightarrow> i \<notin> rid ` set t \<Longrightarrow>
   first_row rid (\<lambda>x. rid x = i) (t @ [with_id i r]) = Some (with_id i r)"
  by (subst first_row_id) (auto simp: rid_with_id)

lemma find_updated:
  assumes "distinct (map rid t)" "first_row rid (\<lambda>x. rid x = i) t = Some r"
  shows "first_row rid (\<lambda>x. rid x = i) (update_row rid i (apply_updates u) t) = Some (apply_updates u r)"
  using assms
  by (subst first_row_id) (auto simp: update_ids, auto simp: first_row_id update_row_def rid_apply_updates)

lemma find_other_updated:
  assumes "distinct (map rid t)" "j \<noteq> i"
  shows "first_row rid (\<lambda>x. rid x = j) (update_row rid i (apply_updates u) t) = first_row rid (\<lambda>x. rid x = j) t"
proof -
  have "distinct (map rid (update_row rid i (apply_updates u) t))" using assms by (simp add: update_ids)
  moreover have "x \<in> set (update_row rid i (apply_updates u) t) \<and> rid x = j \<longleftrightarrow> x \<in> set t \<and> rid x = j" for x
    using assms(2) by (force simp: update_row_def rid_apply_updates)
  ultimately have "first_row rid (\<lambda>x. rid x = j) (update_row rid i (apply_updates u) t) = Some x \<longleftrightarrow>
      first_row rid (\<lambda>x. rid x = j) t = Some x" for x
    using assms(1) by (simp add: first_row_id)
  then show ?thesis by (metis option.exhaust)
qed

lemma find_deleted: "first_row rid (\<lambda>x. rid x = i) (filter (\<lambda>x. rid x \<noteq> i) t) = None"
  by (auto simp: first_row_None)

end

section \<open>Roles\<close>

text \<open>The map of columns that an update of a role sets.\<close>

record RoleUpdates =
  ru_name :: "string option"
  ru_slug :: "string option"
  ru_status :: "int option"
  ru_updated_at :: "int option"

definition no_role_updates :: RoleUpdates where
  "no_role_updates = \<lparr> ru_name = None, ru_slug = None, ru_status = None, ru_updated_at = None \<rparr>"

definition set_role :: "RoleUpdates \<Rightarrow> Role \<Rightarrow> Role" where
  "set_role u r = r\<lparr> rl_Name := (case ru_name u of None \<Rightarrow> rl_Name r | Some v \<Rightarrow> v),
     rl_Slug := (case ru_slug u of None \<Rightarrow> rl_Slug r | Some v \<Rightarrow> v),
     rl_Status := (case ru_status u of None \<Rightarrow> rl_Status r | Some v \<Rightarrow> v),
     rl_UpdatedAt := (case ru_updated_at u of None \<Rightarrow> rl_UpdatedAt r | Some v \<Rightarrow> v) \<rparr>"

definition with_role_id :: "int \<Rightarrow> Role \<Rightarrow> Role" where
  "with_role_id i r = r\<lparr> rl_ID := i \<rparr>"

text \<open>The unique indexes of admin_roles, and a write that has to respect them.\<close>

definition role_index :: "collation \<Rightarrow> Role list \<Rightarrow> bool" where
  "role_index w t = (index_ok w rl_Name t \<and> index_ok w rl_Slug t)"

definition write_roles :: "collation \<Rightarrow> bool \<Rightarrow> directory \<Rightarrow> Role list \<Rightarrow> directory \<times> unit result" where
  "write_roles w err d t = (if err then (d, Err DbError)
     else if role_index w t then (d\<lparr> d_roles := t \<rparr>, Ok ()) else (d, Err DuplicateKey))"

definition role_GetRoleByID :: "bool \<Rightarrow> directory \<Rightarrow> int \<Rightarrow> Role option result" where
  "role_GetRoleByID err d i =
     (if err then Err DbError else Ok (first_row rl_ID (\<lambda>r. rl_ID r = i) (d_roles d)))"

text \<open>The rows that Preload joins to a role.\<close>

definition permissions_of :: "directory \<Rightarrow> int \<Rightarrow> Permission list" where
  "permissions_of d r = filter (\<lambda>p. (r, pm_ID p) \<in> set (d_role_permissions d)) (d_permissions d)"

definition menus_of :: "directory \<Rightarrow> int \<Rightarrow> Menu list" where
  "menus_of d r = filter (\<lambda>m. (r, mn_ID m) \<in> set (d_role_menu d)) (d_menus d)"

definition role_FindBySlug ::
  "collation \<Rightarrow> bool \<Rightarrow> directory \<Rightarrow> string \<Rightarrow> (Role \<times> Permission list \<times> Menu list) option result" where
  "role_FindBySlug w err d slug = (if err then Err DbError
     else Ok (map_option (\<lambda>r. (r, permissions_of d (rl_ID r), menus_of d (rl_ID r)))
                (first_row rl_ID (\<lambda>r. w (rl_Slug r) = w slug) (d_roles d))))"

text \<open>A page of the rows that match, with their number: the count and the page are two queries.\<close>

definition page_rows ::
  "bool \<Rightarrow> bool \<Rightarrow> ('r \<Rightarrow> bool) \<Rightarrow> ('r list \<Rightarrow> 'r list) \<Rightarrow> int \<Rightarrow> int \<Rightarrow> 'r list \<Rightarrow> ('r list \<times> int) result" where
  "page_rows cerr ferr P ord offset lim t =
     (if cerr then Err DbError
      else if ferr then Err DbError
      else Ok (limit_offset lim offset (ord (filter P t)), count_rows P t))"

definition role_PageList ::
  "(string \<Rightarrow> string \<Rightarrow> bool) \<Rightarrow> bool \<Rightarrow> bool \<Rightarrow> directory \<Rightarrow> int \<Rightarrow> int \<Rightarrow> string \<Rightarrow> int option \<Rightarrow> (Role list \<times> int) result" where
  "role_PageList like cerr ferr d offset lim name status =
     page_rows cerr ferr (\<lambda>r. (name \<noteq> [] \<longrightarrow> like (''%'' @ name @ ''%'') (rl_Name r)) \<and>
        (case status of None \<Rightarrow> True | Some v \<Rightarrow> rl_Status r = v))
       (sort_key (\<lambda>r. - rl_CreatedAt r)) offset lim (d_roles d)"

definition role_Create :: "collation \<Rightarrow> (Role list \<Rightarrow> int) \<Rightarrow> bool \<Rightarrow> directory \<Rightarrow> Role \<Rightarrow> directory \<times> unit result" where
  "role_Create w fresh err d r = write_roles w err d (d_roles d @ [with_role_id (fresh (d_roles d)) r])"

definition role_Update :: "collation \<Rightarrow> bool \<Rightarrow> directory \<Rightarrow> int \<Rightarrow> RoleUpdates \<Rightarrow> directory \<times> unit result" where
  "role_Update w err d i u = write_roles w err d (update_row rl_ID i (set_role u) (d_roles d))"

definition role_Delete :: "bool \<Rightarrow> directory \<Rightarrow> int \<Rightarrow> directory \<times> unit result" where
  "role_Delete err d i = (if err then (d, Err DbError)
     else (d\<lparr> d_roles := filter (\<lambda>r. rl_ID r \<noteq> i) (d_roles d) \<rparr>, Ok ()))"

definition role_BatchDelete :: "bool \<Rightarrow> directory \<Rightarrow> int list \<Rightarrow> directory \<times> unit result" where
  "role_BatchDelete err d ids = (if err then (d, Err DbError)
     else (d\<lparr> d_roles := filter (\<lambda>r. rl_ID r \<notin> set ids) (d_roles d) \<rparr>, Ok ()))"

text \<open>
  GetRolePermissionByID: the active menus and permissions in their order, and the ids that the
  role has. The errors of the last two queries are dropped by the code: their result is then
  empty.
\<close>

record role_page_env =
  rg_menus :: bool
  rg_perms :: bool
  rg_role_menus :: bool
  rg_role_perms :: bool

definition role_GetRolePermissionByID ::
  "role_page_env \<Rightarrow> directory \<Rightarrow> int \<Rightarrow> (Menu list \<times> Permission list \<times> (int \<Rightarrow> bool) \<times> (int \<Rightarrow> bool)) result" where
  "role_GetRolePermissionByID e d roleID =
     (if rg_menus e then Err DbError
      else if rg_perms e then Err DbError
      else Ok (sort_key mn_Sort (filter (\<lambda>m. mn_Status m = 1) (d_menus d)),
               sort_key pm_Sort (filter (\<lambda>p. pm_Status p = 1) (d_permissions d)),
               (\<lambda>i. \<not> rg_role_menus e \<and> (roleID, i) \<in> set (d_role_menu d)),
               (\<lambda>i. \<not> rg_role_perms e \<and> (roleID, i) \<in> set (d_role_permissions d))))"

text \<open>
  UpdateRolePermission: one transaction that deletes the links of the role and writes the new
  ones. An error of a statement, or of the commit, rolls all of it back.
\<close>

record role_perm_env =
  rp_del_menu :: bool
  rp_del_perm :: bool
  rp_ins_menu :: bool
  rp_ins_perm :: bool
  rp_commit :: bool

definition role_links :: "int \<Rightarrow> bool \<Rightarrow> int list \<Rightarrow> (int \<times> int) list \<Rightarrow> (int \<times> int) list result" where
  "role_links roleID err ids t =
     (if ids = [] then Ok t else insert_links err (map (\<lambda>i. (roleID, i)) ids) t)"

definition role_UpdateRolePermission ::
  "role_perm_env \<Rightarrow> directory \<Rightarrow> int \<Rightarrow> int list \<Rightarrow> int list \<Rightarrow> directory \<times> unit result" where
  "role_UpdateRolePermission e d roleID menuIDs permissionIDs =
     (if rp_del_menu e then (d, Err DbError)
      else if rp_del_perm e then (d, Err DbError)
      else (case role_links roleID (rp_ins_menu e) menuIDs (filter (\<lambda>x. fst x \<noteq> roleID) (d_role_menu d)) of
        Inl x \<Rightarrow> (d, Err x)
      | Inr ms \<Rightarrow> (case role_links roleID (rp_ins_perm e) permissionIDs
                       (filter (\<lambda>x. fst x \<noteq> roleID) (d_role_permissions d)) of
          Inl x \<Rightarrow> (d, Err x)
        | Inr ps \<Rightarrow> (if rp_commit e then (d, Err DbError)
                     else (d\<lparr> d_role_menu := ms, d_role_permissions := ps \<rparr>, Ok ())))))"

definition role_ExistsByName :: "collation \<Rightarrow> bool \<Rightarrow> directory \<Rightarrow> string \<Rightarrow> bool result" where
  "role_ExistsByName w err d name =
     (if err then Err DbError else Ok (0 < count_rows (\<lambda>r. w (rl_Name r) = w name) (d_roles d)))"

text \<open>ExistsBySlug compares the column name.\<close>

definition role_ExistsBySlug :: "collation \<Rightarrow> bool \<Rightarrow> directory \<Rightarrow> string \<Rightarrow> bool result" where
  "role_ExistsBySlug w err d slug =
     (if err then Err DbError else Ok (0 < count_rows (\<lambda>r. w (rl_Name r) = w slug) (d_roles d)))"

definition role_ExistsByNameExcludingID :: "collation \<Rightarrow> bool \<Rightarrow> directory \<Rightarrow> string \<Rightarrow> int \<Rightarrow> bool result" where
  "role_ExistsByNameExcludingID w err d name i = (if err then Err DbError
     else Ok (0 < count_rows (\<lambda>r. w (rl_Name r) = w name \<and> rl_ID r \<noteq> i) (d_roles d)))"

definition role_ExistsBySlugExcludingID :: "collation \<Rightarrow> bool \<Rightarrow> directory \<Rightarrow> string \<Rightarrow> int \<Rightarrow> bool result" where
  "role_ExistsBySlugExcludingID w err d slug i = (if err then Err DbError
     else Ok (0 < count_rows (\<lambda>r. w (rl_Slug r) = w slug \<and> rl_ID r \<noteq> i) (d_roles d)))"

definition role_ListAll :: "bool \<Rightarrow> directory \<Rightarrow> Role list result" where
  "role_ListAll err d = (if err then Err DbError else Ok (sort_key rl_ID (d_roles d)))"

text \<open>The query of the permission check: the number of joined rows that match.\<close>

definition permission_rows ::
  "collation \<Rightarrow> directory \<Rightarrow> int \<Rightarrow> string \<Rightarrow> string \<Rightarrow> (User \<times> Role \<times> Permission) list" where
  "permission_rows w d userID meth path =
     concat (map (\<lambda>u. concat (map (\<lambda>ru. concat (map (\<lambda>ro. concat (map (\<lambda>rp.
       map (\<lambda>p. (u, ro, p))
         (filter (\<lambda>p. pm_ID p = snd rp \<and> w (pm_HttpMethod p) = w meth \<and>
                       w (pm_HttpPath p) = w path \<and> pm_Status p = 1) (d_permissions d)))
       (filter (\<lambda>rp. fst rp = rl_ID ro) (d_role_permissions d))))
       (filter (\<lambda>ro. rl_ID ro = fst ru) (d_roles d))))
       (filter (\<lambda>ru. snd ru = ac_ID u) (d_role_users d))))
       (filter (\<lambda>u. ac_ID u = userID) (d_users d)))"

definition role_CheckUserPermission ::
  "collation \<Rightarrow> bool \<Rightarrow> directory \<Rightarrow> int \<Rightarrow> string \<Rightarrow> string \<Rightarrow> bool result" where
  "role_CheckUserPermission w err d userID meth path =
     (if err then Err DbError else Ok (0 < int (length (permission_rows w d userID meth path))))"

interpretation role_tbl: id_table rl_ID with_role_id set_role
  by unfold_locales (simp_all add: with_role_id_def set_role_def)

section \<open>Menus\<close>

record MenuUpdates =
  mu_title :: "string option"
  mu_uri :: "string option"
  mu_type :: "string option"
  mu_status :: "int option"
  mu_icon :: "string option"
  mu_sort :: "int option"
  mu_parent_id :: "int option"
  mu_updated_at :: "int option"

definition no_menu_updates :: MenuUpdates where
  "no_menu_updates = \<lparr> mu_title = None, mu_uri = None, mu_type = None, mu_status = None, mu_icon = None,
     mu_sort = None, mu_parent_id = None, mu_updated_at = None \<rparr>"

definition set_menu :: "MenuUpdates \<Rightarrow> Menu \<Rightarrow> Menu" where
  "set_menu u m = m\<lparr> mn_Title := (case mu_title u of None \<Rightarrow> mn_Title m | Some v \<Rightarrow> v),
     mn_URI := (case mu_uri u of None \<Rightarrow> mn_URI m | Some v \<Rightarrow> v),
     mn_Type := (case mu_type u of None \<Rightarrow> mn_Type m | Some v \<Rightarrow> v),
     mn_Status := (case mu_status u of None \<Rightarrow> mn_Status m | Some v \<Rightarrow> v),
     mn_Icon := (case mu_icon u of None \<Rightarrow> mn_Icon m | Some v \<Rightarrow> v),
     mn_Sort := (case mu_sort u of None \<Rightarrow> mn_Sort m | Some v \<Rightarrow> v),
     mn_ParentID := (case mu_parent_id u of None \<Rightarrow> mn_ParentID m | Some v \<Rightarrow> v),
     mn_UpdatedAt := (case mu_updated_at u of None \<Rightarrow> mn_UpdatedAt m | Some v \<Rightarrow> v) \<rparr>"

definition with_menu_id :: "int \<Rightarrow> Menu \<Rightarrow> Menu" where
  "with_menu_id i m = m\<lparr> mn_ID := i \<rparr>"

definition write_menus :: "collation \<Rightarrow> bool \<Rightarrow> directory \<Rightarrow> Menu list \<Rightarrow> directory \<times> unit result" where
  "write_menus w err d t = (if err then (d, Err DbError)
     else if index_ok w mn_Title t then (d\<lparr> d_menus := t \<rparr>, Ok ()) else (d, Err DuplicateKey))"

definition menu_GetMenuByID :: "bool \<Rightarrow> directory \<Rightarrow> int \<Rightarrow> Menu option result" where
  "menu_GetMenuByID err d i =
     (if err then Err DbError else Ok (first_row mn_ID (\<lambda>m. mn_ID m = i) (d_menus d)))"

text \<open>PageList: a page of the top level menus, and the menus below the ones of the page.\<close>

record menu_page_env =
  mp_count :: bool
  mp_parents :: bool
  mp_children :: bool

definition menu_PageList ::
  "(string \<Rightarrow> string \<Rightarrow> bool) \<Rightarrow> menu_page_env \<Rightarrow> directory \<Rightarrow> int \<Rightarrow> int \<Rightarrow> string \<Rightarrow> int option \<Rightarrow>
   (Menu list \<times> Menu list \<times> int) result" where
  "menu_PageList like e d offset lim title status =
     (case page_rows (mp_count e) (mp_parents e) (\<lambda>m. mn_ParentID m = 0 \<and>
             (title \<noteq> [] \<longrightarrow> like (''%'' @ title @ ''%'') (mn_Title m)) \<and>
             (case status of None \<Rightarrow> True | Some v \<Rightarrow> mn_Status m = v))
             (sort_key mn_Sort) offset lim (d_menus d) of
        Inl x \<Rightarrow> Err x
      | Inr (parents, n) \<Rightarrow>
          (let parentIDs = map mn_ID parents in
           if parentIDs \<noteq> [] \<and> mp_children e then Err DbError
           else Ok (parents,
                    (if parentIDs = [] then []
                     else sort_key mn_Sort (filter (\<lambda>m. mn_ParentID m \<in> set parentIDs) (d_menus d))),
                    n)))"

definition menu_Create :: "collation \<Rightarrow> (Menu list \<Rightarrow> int) \<Rightarrow> bool \<Rightarrow> directory \<Rightarrow> Menu \<Rightarrow> directory \<times> unit result" where
  "menu_Create w fresh err d m = write_menus w err d (d_menus d @ [with_menu_id (fresh (d_menus d)) m])"

definition menu_Update :: "collation \<Rightarrow> bool \<Rightarrow> directory \<Rightarrow> int \<Rightarrow> MenuUpdates \<Rightarrow> directory \<times> unit result" where
  "menu_Update w err d i u = write_menus w err d (update_row mn_ID i (set_menu u) (d_menus d))"

text \<open>The deletions report a missing row when no row was affected.\<close>

definition menu_Delete :: "bool \<Rightarrow> directory \<Rightarrow> int \<Rightarrow> directory \<times> unit result" where
  "menu_Delete err d i = (if err then (d, Err DbError)
     else if count_rows (\<lambda>m. mn_ID m = i) (d_menus d) = 0 then (d, Err RecordNotFound)
     else (d\<lparr> d_menus := filter (\<lambda>m. mn_ID m \<noteq> i) (d_menus d) \<rparr>, Ok ()))"

definition menu_BatchDelete :: "bool \<Rightarrow> directory \<Rightarrow> int list \<Rightarrow> directory \<times> unit result" where
  "menu_BatchDelete err d ids = (if err then (d, Err DbError)
     else if count_rows (\<lambda>m. mn_ID m \<in> set ids) (d_menus d) = 0 then (d, Err RecordNotFound)
     else (d\<lparr> d_menus := filter (\<lambda>m. mn_ID m \<notin> set ids) (d_menus d) \<rparr>, Ok ()))"

definition menu_ExistsByTitle :: "collation \<Rightarrow> bool \<Rightarrow> directory \<Rightarrow> string \<Rightarrow> bool result" where
  "menu_ExistsByTitle w err d title =
     (if err then Err DbError else Ok (0 < count_rows (\<lambda>m. w (mn_Title m) = w title) (d_menus d)))"

definition menu_ExistsByURI :: "collation \<Rightarrow> bool \<Rightarrow> directory \<Rightarrow> string \<Rightarrow> bool result" where
  "menu_ExistsByURI w err d uri =
     (if err then Err DbError else Ok (0 < count_rows (\<lambda>m. w (mn_URI m) = w uri) (d_menus d)))"

definition menu_ExistsByTitleExcludingID :: "collation \<Rightarrow> bool \<Rightarrow> directory \<Rightarrow> string \<Rightarrow> int \<Rightarrow> bool result" where
  "menu_ExistsByTitleExcludingID w err d title i = (if err then Err DbError
     else Ok (0 < count_rows (\<lambda>m. w (mn_Title m) = w title \<and> mn_ID m \<noteq> i) (d_menus d)))"

definition menu_ExistsByURIExcludingID :: "collation \<Rightarrow> bool \<Rightarrow> directory \<Rightarrow> string \<Rightarrow> int \<Rightarrow> bool result" where
  "menu_ExistsByURIExcludingID w err d uri i = (if err then Err DbError
     else Ok (0 < count_rows (\<lambda>m. w (mn_URI m) = w uri \<and> mn_ID m \<noteq> i) (d_menus d)))"

interpretation menu_tbl: id_table mn_ID with_menu_id set_menu
  by unfold_locales (simp_all add: with_menu_id_def set_menu_def)

section \<open>Permissions\<close>

record PermissionUpdates =
  pu_slug :: "string option"
  pu_name :: "string option"
  pu_category :: "string option"
  pu_status :: "int option"
  pu_http_method :: "string option"
  pu_http_path :: "string option"
  pu_sort :: "int option"
  pu_updated_at :: "int option"

definition no_permission_updates :: PermissionUpdates where
  "no_permission_updates = \<lparr> pu_slug = None, pu_name = None, pu_category = None, pu_status = None,
     pu_http_method = None, pu_http_path = None, pu_sort = None, pu_updated_at = None \<rparr>"

definition set_permission :: "PermissionUpdates \<Rightarrow> Permission \<Rightarrow> Permission" where
  "set_permission u p = p\<lparr> pm_Slug := (case pu_slug u of None \<Rightarrow> pm_Slug p | Some v \<Rightarrow> v),
     pm_Name := (case pu_name u of None \<Rightarrow> pm_Name p | Some v \<Rightarrow> v),
     pm_Category := (case pu_category u of None \<Rightarrow> pm_Category p | Some v \<Rightarrow> v),
     pm_Status := (case pu_status u of None \<Rightarrow> pm_Status p | Some v \<Rightarrow> v),
     pm_HttpMethod := (case pu_http_method u of None \<Rightarrow> pm_HttpMethod p | Some v \<Rightarrow> v),
     pm_HttpPath := (case pu_http_path u of None \<Rightarrow> pm_HttpPath p | Some v \<Rightarrow> v),
     pm_Sort := (case pu_sort u of None \<Rightarrow> pm_Sort p | Some v \<Rightarrow> v),
     pm_UpdatedAt := (case pu_updated_at u of None \<Rightarrow> pm_UpdatedAt p | Some v \<Rightarrow> v) \<rparr>"

definition with_permission_id :: "int \<Rightarrow> Permission \<Rightarrow> Permission" where
  "with_permission_id i p = p\<lparr> pm_ID := i \<rparr>"

definition write_permissions :: "collation \<Rightarrow> bool \<Rightarrow> directory \<Rightarrow> Permission list \<Rightarrow> directory \<times> unit result" where
  "write_permissions w err d t = (if err then (d, Err DbError)
     else if index_ok w pm_Slug t then (d\<lparr> d_permissions := t \<rparr>, Ok ()) else (d, Err DuplicateKey))"

definition api_GetAPIByID :: "bool \<Rightarrow> directory \<Rightarrow> int \<Rightarrow> Permission option result" where
  "api_GetAPIByID err d i =
     (if err then Err DbError else Ok (first_row pm_ID (\<lambda>p. pm_ID p = i) (d_permissions d)))"

text \<open>The page is ordered by category and then by sort: two stable sorts, the last key first.\<close>

definition api_PageList ::
  "collation \<Rightarrow> (string \<Rightarrow> string \<Rightarrow> bool) \<Rightarrow> bool \<Rightarrow> bool \<Rightarrow> directory \<Rightarrow> int \<Rightarrow> int \<Rightarrow> string \<Rightarrow> int option \<Rightarrow>
   (Permission list \<times> int) result" where
  "api_PageList w like cerr ferr d offset lim httpPath status =
     page_rows cerr ferr (\<lambda>p. (httpPath \<noteq> [] \<longrightarrow> like (''%'' @ httpPath @ ''%'') (pm_HttpPath p)) \<and>
        (case status of None \<Rightarrow> True | Some v \<Rightarrow> pm_Status p = v))
       (\<lambda>ps. sort_key (\<lambda>p. w (pm_Category p)) (sort_key pm_Sort ps)) offset lim (d_permissions d)"

definition api_Create ::
  "collation \<Rightarrow> (Permission list \<Rightarrow> int) \<Rightarrow> bool \<Rightarrow> directory \<Rightarrow> Permission \<Rightarrow> directory \<times> unit result" where
  "api_Create w fresh err d p =
     write_permissions w err d (d_permissions d @ [with_permission_id (fresh (d_permissions d)) p])"

definition api_Update :: "collation \<Rightarrow> bool \<Rightarrow> directory \<Rightarrow> int \<Rightarrow> PermissionUpdates \<Rightarrow> directory \<times> unit result" where
  "api_Update w err d i u =
     write_permissions w err d (update_row pm_ID i (set_permission u) (d_permissions d))"

definition api_Delete :: "bool \<Rightarrow> directory \<Rightarrow> int \<Rightarrow> directory \<times> unit result" where
  "api_Delete err d i = (if err then (d, Err DbError)
     else (d\<lparr> d_permissions := filter (\<lambda>p. pm_ID p \<noteq> i) (d_permissions d) \<rparr>, Ok ()))"

definition api_BatchDelete :: "bool \<Rightarrow> directory \<Rightarrow> int list \<Rightarrow> directory \<times> unit result" where
  "api_BatchDelete err d ids = (if err then (d, Err DbError)
     else (d\<lparr> d_permissions := filter (\<lambda>p. pm_ID p \<notin> set ids) (d_permissions d) \<rparr>, Ok ()))"

definition api_ExistsBySlug :: "collation \<Rightarrow> bool \<Rightarrow> directory \<Rightarrow> string \<Rightarrow> bool result" where
  "api_ExistsBySlug w err d slug =
     (if err then Err DbError else Ok (0 < count_rows (\<lambda>p. w (pm_Slug p) = w slug) (d_permissions d)))"

definition api_ExistsBySlugExcludingID :: "collation \<Rightarrow> bool \<Rightarrow> directory \<Rightarrow> string \<Rightarrow> int \<Rightarrow> bool result" where
  "api_ExistsBySlugExcludingID w err d slug i = (if err then Err DbError
     else Ok (0 < count_rows (\<lambda>p. w (pm_Slug p) = w slug \<and> pm_ID p \<noteq> i) (d_permissions d)))"

definition api_ExistsByMethodAndPath :: "collation \<Rightarrow> bool \<Rightarrow> directory \<Rightarrow> string \<Rightarrow> string \<Rightarrow> bool result" where
  "api_ExistsByMethodAndPath w err d meth path = (if err then Err DbError
     else Ok (0 < count_rows (\<lambda>p. w (pm_HttpMethod p) = w meth \<and> w (pm_HttpPath p) = w path) (d_permissions d)))"

interpretation perm_tbl: id_table pm_ID with_permission_id set_permission
  by unfold_locales (simp_all add: with_permission_id_def set_permission_def)

section \<open>Users\<close>

text \<open>
  Preload joins the roles of the user. Create leaves out the zero values of columns with a
  default, so a status or priority of 0 is stored as 1. Update writes every column but the id
  and the time of creation.
\<close>

definition roles_of :: "directory \<Rightarrow> int \<Rightarrow> Role list" where
  "roles_of d u = filter (\<lambda>r. (rl_ID r, u) \<in> set (d_role_users d)) (d_roles d)"

definition user_first :: "bool \<Rightarrow> directory \<Rightarrow> (User \<Rightarrow> bool) \<Rightarrow> (User \<times> Role list) option result" where
  "user_first err d P = (if err then Err DbError
     else Ok (map_option (\<lambda>u. (u, roles_of d (ac_ID u))) (first_row ac_ID P (d_users d))))"

definition user_FindByID :: "bool \<Rightarrow> directory \<Rightarrow> int \<Rightarrow> (User \<times> Role list) option result" where
  "user_FindByID err d i = user_first err d (\<lambda>u. ac_ID u = i)"

definition user_FindByUsername :: "collation \<Rightarrow> bool \<Rightarrow> directory \<Rightarrow> string \<Rightarrow> (User \<times> Role list) option result" where
  "user_FindByUsername w err d username = user_first err d (\<lambda>u. w (ac_Username u) = w username)"

definition user_FindByEmail :: "collation \<Rightarrow> bool \<Rightarrow> directory \<Rightarrow> string \<Rightarrow> (User \<times> Role list) option result" where
  "user_FindByEmail w err d email = user_first err d (\<lambda>u. w (ac_Email u) = w email)"

definition write_users :: "collation \<Rightarrow> bool \<Rightarrow> directory \<Rightarrow> User list \<Rightarrow> directory \<times> unit result" where
  "write_users w err d t = (if err then (d, Err DbError)
     else if index_ok w ac_Username t then (d\<lparr> d_users := t \<rparr>, Ok ()) else (d, Err DuplicateKey))"

definition column_defaults :: "User \<Rightarrow> User" where
  "column_defaults u = u\<lparr> ac_Status := (if ac_Status u = 0 then 1 else ac_Status u),
     ac_Priority := (if ac_Priority u = 0 then 1 else ac_Priority u) \<rparr>"

definition with_user_id :: "int \<Rightarrow> User \<Rightarrow> User" where
  "with_user_id i u = u\<lparr> ac_ID := i \<rparr>"

definition user_Create ::
  "collation \<Rightarrow> (User list \<Rightarrow> int) \<Rightarrow> bool \<Rightarrow> int \<Rightarrow> directory \<Rightarrow> User \<Rightarrow> directory \<times> unit result" where
  "user_Create w fresh err now d u =
     write_users w err d (d_users d @
       [with_user_id (fresh (d_users d)) ((column_defaults u)\<lparr> ac_CreatedAt := now, ac_UpdatedAt := now \<rparr>)])"

definition set_user :: "int \<times> User \<Rightarrow> User \<Rightarrow> User" where
  "set_user v r = (snd v)\<lparr> ac_ID := ac_ID r, ac_CreatedAt := ac_CreatedAt r, ac_UpdatedAt := fst v \<rparr>"

definition user_Update :: "collation \<Rightarrow> bool \<Rightarrow> int \<Rightarrow> directory \<Rightarrow> User \<Rightarrow> directory \<times> unit result" where
  "user_Update w err now d u = write_users w err d (update_row ac_ID (ac_ID u) (set_user (now, u)) (d_users d))"

definition user_Delete :: "bool \<Rightarrow> directory \<Rightarrow> int \<Rightarrow> directory \<times> unit result" where
  "user_Delete err d i = (if err then (d, Err DbError)
     else (d\<lparr> d_users := filter (\<lambda>u. ac_ID u \<noteq> i) (d_users d) \<rparr>, Ok ()))"

definition user_List ::
  "(string \<Rightarrow> string \<Rightarrow> bool) \<Rightarrow> bool \<Rightarrow> bool \<Rightarrow> directory \<Rightarrow> int \<Rightarrow> int \<Rightarrow> string \<Rightarrow> string \<Rightarrow> int option \<Rightarrow>
   ((User \<times> Role list) list \<times> int) result" where
  "user_List like cerr ferr d offset lim username email status =
     (let P = (\<lambda>u. (username \<noteq> [] \<longrightarrow> like (''%'' @ username @ ''%'') (ac_Username u)) \<and>
                   (email \<noteq> [] \<longrightarrow> like (''%'' @ email @ ''%'') (ac_Email u)) \<and>
                   (case status of None \<Rightarrow> True | Some v \<Rightarrow> ac_Status u = v));
          hits = sort_key (\<lambda>u. - ac_CreatedAt u) (filter P (d_users d))
      in if cerr then Err DbError
         else if count_rows P (d_users d) = 0 then Ok ([], 0)
         else if ferr then Err DbError
         else Ok (map (\<lambda>u. (u, roles_of d (ac_ID u)))
                    (if lim > 0 then limit_offset lim offset hits else hits), count_rows P (d_users d)))"

definition user_ExistsByUsername :: "collation \<Rightarrow> bool \<Rightarrow> directory \<Rightarrow> string \<Rightarrow> bool result" where
  "user_ExistsByUsername w err d username =
     (if err then Err DbError else Ok (0 < count_rows (\<lambda>u. w (ac_Username u) = w username) (d_users d)))"

definition user_ExistsByEmail :: "collation \<Rightarrow> bool \<Rightarrow> directory \<Rightarrow> string \<Rightarrow> bool result" where
  "user_ExistsByEmail w err d email =
     (if err then Err DbError else Ok (0 < count_rows (\<lambda>u. w (ac_Email u) = w email) (d_users d)))"

text \<open>
  The associations of a user. Append adds a link that is not there yet; Replace adds the
  missing links and then deletes the others of the user, in two statements without a
  transaction; Clear deletes the links of the user.
\<close>

definition AssignRoleByName ::
  "collation \<Rightarrow> bool \<Rightarrow> bool \<Rightarrow> directory \<Rightarrow> int \<Rightarrow> string \<Rightarrow> directory \<times> unit result" where
  "AssignRoleByName w ferr aerr d userID name =
     (if ferr then (d, Err DbError)
      else (case first_row rl_ID (\<lambda>r. w (rl_Slug r) = w name) (d_roles d) of
        None \<Rightarrow> (d, Err RecordNotFound)
      | Some r \<Rightarrow> (if aerr then (d, Err DbError)
          else (d\<lparr> d_role_users := List.insert (rl_ID r, userID) (d_role_users d) \<rparr>, Ok ()))))"

definition ClearRoles :: "bool \<Rightarrow> directory \<Rightarrow> int \<Rightarrow> directory \<times> unit result" where
  "ClearRoles err d userID = (if err then (d, Err DbError)
     else (d\<lparr> d_role_users := filter (\<lambda>x. snd x \<noteq> userID) (d_role_users d) \<rparr>, Ok ()))"

record replace_env =
  rr_find :: bool
  rr_append :: bool
  rr_delete :: bool

definition ReplaceRolesByNames ::
  "collation \<Rightarrow> replace_env \<Rightarrow> directory \<Rightarrow> int \<Rightarrow> string list \<Rightarrow> directory \<times> unit result" where
  "ReplaceRolesByNames w e d userID names =
     (if names = [] then ClearRoles (rr_delete e) d userID
      else if rr_find e then (d, Err DbError)
      else let roles = filter (\<lambda>r. w (rl_Slug r) \<in> w ` set names) (d_roles d) in
        if roles \<noteq> [] \<and> rr_append e then (d, Err DbError)
        else let d1 = d\<lparr> d_role_users := fold (\<lambda>r. List.insert (rl_ID r, userID)) roles (d_role_users d) \<rparr> in
          if rr_delete e then (d1, Err DbError)
          else (d1\<lparr> d_role_users := filter (\<lambda>x. snd x \<noteq> userID \<or> fst x \<in> rl_ID ` set roles) (d_role_users d1) \<rparr>, Ok ()))"

interpretation user_tbl: id_table ac_ID with_user_id set_user
  by unfold_locales (simp_all add: with_user_id_def set_user_def)

section \<open>Consistency of the tables\<close>

text \<open>
  Ids and unique keys occur once, and no join table holds a pair twice. Every statement of the
  repositories keeps this, an insertion under the condition that the auto increment gives an id
  that is not in use.
\<close>

definition directory_ok :: "collation \<Rightarrow> directory \<Rightarrow> bool" where
  "directory_ok w d =
     (distinct (map ac_ID (d_users d)) \<and> index_ok w ac_Username (d_users d) \<and>
      distinct (map rl_ID (d_roles d)) \<and> role_index w (d_roles d) \<and>
      distinct (map pm_ID (d_permissions d)) \<and> index_ok w pm_Slug (d_permissions d) \<and>
      distinct (map mn_ID (d_menus d)) \<and> index_ok w mn_Title (d_menus d) \<and>
      distinct (d_role_users d) \<and> distinct (d_role_permissions d) \<and> distinct (d_role_menu d))"

definition unused_id :: "('r \<Rightarrow> int) \<Rightarrow> ('r list \<Rightarrow> int) \<Rightarrow> bool" where
  "unused_id rid fresh = (\<forall>t. fresh t \<notin> rid ` set t)"

lemmas write_defs = write_roles_def write_menus_def write_permissions_def write_users_def

lemma role_Create_keeps [keeps]:
  "directory_ok w d \<Longrightarrow> unused_id rl_ID fresh \<Longrightarrow> directory_ok w (fst (role_Create w fresh err d r))"
  using role_tbl.insert_distinct [of "d_roles d" "fresh (d_roles d)" r]
  by (simp add: directory_ok_def role_Create_def write_roles_def unused_id_def)

lemma menu_Create_keeps [keeps]:
  "directory_ok w d \<Longrightarrow> unused_id mn_ID fresh \<Longrightarrow> directory_ok w (fst (menu_Create w fresh err d m))"
  using menu_tbl.insert_distinct [of "d_menus d" "fresh (d_menus d)" m]
  by (simp add: directory_ok_def menu_Create_def write_menus_def unused_id_def)

lemma api_Create_keeps [keeps]:
  "directory_ok w d \<Longrightarrow> unused_id pm_ID fresh \<Longrightarrow> directory_ok w (fst (api_Create w fresh err d p))"
  using perm_tbl.insert_distinct [of "d_permissions d" "fresh (d_permissions d)" p]
  by (simp add: directory_ok_def api_Create_def write_permissions_def unused_id_def)

lemma user_Create_keeps [keeps]:
  "directory_ok w d \<Longrightarrow> unused_id ac_ID fresh \<Longrightarrow> directory_ok w (fst (user_Create w fresh err now d u))"
  using user_tbl.insert_distinct [of "d_users d" "fresh (d_users d)"]
  by (simp add: directory_ok_def user_Create_def write_users_def unused_id_def)

lemma updates_keep [keeps]:
  assumes "directory_ok w d"
  shows "directory_ok w (fst (role_Update w err d i ru))" "directory_ok w (fst (menu_Update w err d i mu))"
    "directory_ok w (fst (api_Update w err d i pu))" "directory_ok w (fst (user_Update w err now d u))"
  using assms
  by (simp_all add: directory_ok_def role_Update_def menu_Update_def api_Update_def user_Update_def
      write_defs role_tbl.update_ids menu_tbl.update_ids perm_tbl.update_ids user_tbl.update_ids)

lemma deletes_keep [keeps]:
  assumes "directory_ok w d"
  shows "directory_ok w (fst (role_Delete err d i))" "directory_ok w (fst (role_BatchDelete err d ids))"
    "directory_ok w (fst (menu_Delete err d i))" "directory_ok w (fst (menu_BatchDelete err d ids))"
    "directory_ok w (fst (api_Delete err d i))" "directory_ok w (fst (api_BatchDelete err d ids))"
    "directory_ok w (fst (user_Delete err d i))"
  using assms
  by (simp_all add: directory_ok_def role_Delete_def role_BatchDelete_def menu_Delete_def menu_BatchDelete_def
      api_Delete_def api_BatchDelete_def user_Delete_def role_index_def index_ok_filter distinct_map_filter)

lemma distinct_fold_insert: "distinct t \<Longrightarrow> distinct (fold (\<lambda>r. List.insert (f r)) rs t)"
  by (induction rs arbitrary: t) auto

lemma set_fold_insert: "set (fold (\<lambda>r. List.insert (f r)) rs t) = f ` set rs \<union> set t"
  by (induction rs arbitrary: t) auto

lemma roles_links_keep [keeps]:
  assumes "directory_ok w d"
  shows "directory_ok w (fst (AssignRoleByName w ferr aerr d u name))"
    "directory_ok w (fst (ClearRoles err d u))" "directory_ok w (fst (ReplaceRolesByNames w e d u names))"
  using assms
  by (simp_all add: directory_ok_def AssignRoleByName_def ClearRoles_def ReplaceRolesByNames_def Let_def
      distinct_fold_insert split: option.split)

lemma role_links_distinct:
  "role_links r err ids t = Ok t' \<Longrightarrow> distinct t \<Longrightarrow> distinct t'"
  by (auto simp: role_links_def insert_links_def split: if_splits)

lemma role_UpdateRolePermission_keeps [keeps]:
  "directory_ok w d \<Longrightarrow> directory_ok w (fst (role_UpdateRolePermission e d r ms ps))"
  by (auto simp: role_UpdateRolePermission_def directory_ok_def dest: role_links_distinct split: sum.splits)

section \<open>What the permission check grants\<close>

definition grants :: "collation \<Rightarrow> string \<Rightarrow> string \<Rightarrow> Permission \<Rightarrow> bool" where
  "grants w meth path p =
     (w (pm_HttpMethod p) = w meth \<and> w (pm_HttpPath p) = w path \<and> pm_Status p = 1)"

definition granted :: "collation \<Rightarrow> directory \<Rightarrow> int \<Rightarrow> string \<Rightarrow> string \<Rightarrow> bool" where
  "granted w d u meth path =
     (u \<in> ac_ID ` set (d_users d) \<and>
      (\<exists>r \<in> set (roles_of d u). \<exists>p \<in> set (permissions_of d (rl_ID r)). grants w meth path p))"

lemma permission_rows_granted: "permission_rows w d u meth path \<noteq> [] \<longleftrightarrow> granted w d u meth path"
proof -
  have "set (permission_rows w d u meth path) =
    {(x, r, p). x \<in> set (d_users d) \<and> ac_ID x = u \<and> r \<in> set (roles_of d u) \<and>
       p \<in> set (permissions_of d (rl_ID r)) \<and> grants w meth path p}"
    by (fastforce simp: permission_rows_def roles_of_def permissions_of_def grants_def)
  then show ?thesis
    by (auto simp: granted_def set_empty [symmetric] simp del: set_empty)
qed

lemma CheckUserPermission_granted:
  "role_CheckUserPermission w False d u meth path = Ok (granted w d u meth path)"
  using permission_rows_granted [of w d u meth path] by (auto simp: role_CheckUserPermission_def)

end
