(* ===== verification/RoleService.thy ===== *)
theory RoleService
  imports Directory
begin

text \<open>
  The administration of roles, menus and permissions: internal/service/role_service.go,
  menu_service.go and api_service.go, without the trees of menus (theory MenuTree).

  A handler takes the failures of its queries, the time and the request, and gives the new
  directory with the answer. The dereference of a missing pointer is the error Panic.
\<close>

section \<open>Requests\<close>

record CreateRoleRequest =
  cr_Name :: string
  cr_Status :: "int option"
  cr_Slug :: string

record UpdateRoleRequest =
  urq_ID :: int
  urq_Name :: string
  urq_Status :: "int option"
  urq_Slug :: string

record CreateMenuRequest =
  cm_ParentID :: "int option"
  cm_Title :: string
  cm_Type :: string
  cm_Status :: "int option"
  cm_Icon :: string
  cm_URI :: string
  cm_Sort :: int

record UpdateMenuRequest =
  umq_ID :: int
  umq_Title :: string
  umq_Type :: string
  umq_Status :: "int option"
  umq_Icon :: string
  umq_URI :: string
  umq_Sort :: "int option"
  umq_ParentID :: int

record CreateAPIRequest =
  ca_Name :: string
  ca_Category :: string
  ca_Slug :: string
  ca_Status :: "int option"
  ca_HTTPMethod :: string
  ca_HTTPPath :: string
  ca_Sort :: int

record UpdateAPIRequest =
  uaq_ID :: int
  uaq_Name :: string
  uaq_Category :: string
  uaq_Slug :: string
  uaq_Status :: "int option"
  uaq_HTTPMethod :: string
  uaq_HTTPPath :: string
  uaq_Sort :: "int option"

text \<open>The failures of the lookup, of the two checks of uniqueness and of the write.\<close>

record service_env =
  se_find :: bool
  se_first :: bool
  se_second :: bool
  se_write :: bool

abbreviation no_failures :: service_env where
  "no_failures \<equiv> \<lparr> se_find = False, se_first = False, se_second = False, se_write = False \<rparr>"

section \<open>Shared parts\<close>

text \<open>
  A check of uniqueness: an error of the query is internal, a hit is a conflict, and otherwise
  the handler goes on. The answer of a write: Create maps the refusal of a unique index to a
  conflict, Update reports every error as internal.
\<close>

definition check_free :: "bool result \<Rightarrow> (unit \<Rightarrow> directory \<times> unit result) \<Rightarrow> directory \<Rightarrow> directory \<times> unit result" where
  "check_free q k d = (case q of
     Inl _ \<Rightarrow> (d, Err (BizError CodeInternalError))
   | Inr b \<Rightarrow> (if b then (d, Err (BizError CodeResourceAlreadyExists)) else k ()))"

definition create_answer :: "directory \<times> unit result \<Rightarrow> directory \<times> unit result" where
  "create_answer x = (case snd x of
     Inl e \<Rightarrow> (fst x, Err (BizError (if e = DuplicateKey then CodeResourceAlreadyExists else CodeInternalError)))
   | Inr _ \<Rightarrow> (fst x, Ok ()))"

definition update_answer :: "directory \<times> unit result \<Rightarrow> directory \<times> unit result" where
  "update_answer x = (case snd x of
     Inl e \<Rightarrow> (fst x, Err (BizError CodeInternalError))
   | Inr _ \<Rightarrow> (fst x, Ok ()))"

text \<open>The loop of BatchDelete over the ids; \<open>ferr k\<close> is the failure of the k-th lookup.\<close>

fun check_ids :: "(bool \<Rightarrow> int \<Rightarrow> 'r option result) \<Rightarrow> (nat \<Rightarrow> bool) \<Rightarrow> nat \<Rightarrow> int list \<Rightarrow> unit result" where
  "check_ids look ferr k [] = Ok ()"
| "check_ids look ferr k (i # ids) = (case look (ferr k) i of
     Inl _ \<Rightarrow> Err (BizError CodeInternalError)
   | Inr None \<Rightarrow> Err (BizError CodeResourceNotFound)
   | Inr (Some _) \<Rightarrow> check_ids look ferr (Suc k) ids)"

text \<open>The page parameters: a page below 1 is page 1, a size outside 1 to 100 is 10.\<close>

definition page_params :: "int \<Rightarrow> int \<Rightarrow> int \<times> int" where
  "page_params page size' =
     (let p = (if page \<le> 0 then 1 else page); s = (if size' \<le> 0 \<or> size' > 100 then 10 else size')
      in (wrap64 ((p - 1) * s), s))"

section \<open>Roles\<close>

definition roleService_PageList ::
  "(string \<Rightarrow> string \<Rightarrow> bool) \<Rightarrow> bool \<Rightarrow> bool \<Rightarrow> directory \<Rightarrow> int \<Rightarrow> int \<Rightarrow> string \<Rightarrow> int option \<Rightarrow> (Role list \<times> int) result" where
  "roleService_PageList like cerr ferr d page size' name status =
     (case page_params page size' of (offset, s) \<Rightarrow> role_PageList like cerr ferr d offset s name status)"

definition roleService_Create ::
  "collation \<Rightarrow> (Role list \<Rightarrow> int) \<Rightarrow> service_env \<Rightarrow> int \<Rightarrow> directory \<Rightarrow> CreateRoleRequest \<Rightarrow> directory \<times> unit result" where
  "roleService_Create w fresh e now d req =
     (if cr_Name req = [] then (d, Err (BizError CodeMissingParam))
      else check_free (role_ExistsByName w (se_first e) d (cr_Name req)) (\<lambda>_.
        if cr_Slug req = [] then (d, Err (BizError CodeMissingParam))
        else check_free (role_ExistsBySlug w (se_second e) d (cr_Slug req)) (\<lambda>_.
          (case cr_Status req of
             None \<Rightarrow> (d, Err (Panic ''nil status''))
           | Some st \<Rightarrow> create_answer (role_Create w fresh (se_write e) d
               \<lparr> rl_ID = 0, rl_Name = cr_Name req, rl_Status = st, rl_Slug = cr_Slug req,
                 rl_CreatedAt = now, rl_UpdatedAt = now \<rparr>))) d) d)"

definition roleService_Update ::
  "collation \<Rightarrow> service_env \<Rightarrow> int \<Rightarrow> directory \<Rightarrow> UpdateRoleRequest \<Rightarrow> directory \<times> unit result" where
  "roleService_Update w e now d req =
     (case role_GetRoleByID (se_find e) d (urq_ID req) of
        Inl _ \<Rightarrow> (d, Err (BizError CodeInternalError))
      | Inr None \<Rightarrow> (d, Err (BizError CodeResourceNotFound))
      | Inr (Some existing) \<Rightarrow>
          (let newName = urq_Name req \<noteq> [] \<and> urq_Name req \<noteq> rl_Name existing;
               newSlug = urq_Slug req \<noteq> [] \<and> urq_Slug req \<noteq> rl_Slug existing;
               updates = no_role_updates\<lparr>
                 ru_name := (if newName then Some (urq_Name req) else None),
                 ru_slug := (if newSlug then Some (urq_Slug req) else None),
                 ru_status := urq_Status req \<rparr>
           in check_free (if newName then role_ExistsByNameExcludingID w (se_first e) d (urq_Name req) (urq_ID req) else Ok False) (\<lambda>_.
              check_free (if newSlug then role_ExistsBySlugExcludingID w (se_second e) d (urq_Slug req) (urq_ID req) else Ok False) (\<lambda>_.
                if updates = no_role_updates then (d, Ok ())
                else update_answer (role_Update w (se_write e) d (urq_ID req) (updates\<lparr> ru_updated_at := Some now \<rparr>))) d) d))"

definition roleService_Delete :: "bool \<Rightarrow> bool \<Rightarrow> directory \<Rightarrow> int \<Rightarrow> directory \<times> unit result" where
  "roleService_Delete ferr derr d i = (case role_GetRoleByID ferr d i of
     Inl _ \<Rightarrow> (d, Err (BizError CodeInternalError))
   | Inr None \<Rightarrow> (d, Err (BizError CodeResourceNotFound))
   | Inr (Some _) \<Rightarrow> role_Delete derr d i)"

definition roleService_BatchDelete :: "(nat \<Rightarrow> bool) \<Rightarrow> bool \<Rightarrow> directory \<Rightarrow> int list \<Rightarrow> directory \<times> unit result" where
  "roleService_BatchDelete ferr derr d ids =
     (if ids = [] then (d, Err (BizError CodeMissingParam))
      else (case check_ids (\<lambda>err. role_GetRoleByID err d) ferr 0 ids of
        Inl x \<Rightarrow> (d, Err x)
      | Inr _ \<Rightarrow> role_BatchDelete derr d ids))"

definition roleService_UpdateRolePermission ::
  "role_perm_env \<Rightarrow> directory \<Rightarrow> int \<Rightarrow> int list \<Rightarrow> int list \<Rightarrow> directory \<times> unit result" where
  "roleService_UpdateRolePermission e d roleID menuIDs permissionIDs =
     role_UpdateRolePermission e d roleID menuIDs permissionIDs"

section \<open>Menus\<close>

text \<open>
  Create computes the parent from the request and the type, but the row takes the pointer of
  the request; of the computation only the type of a menu below another one is used.
\<close>

definition menuService_Create ::
  "collation \<Rightarrow> (Menu list \<Rightarrow> int) \<Rightarrow> service_env \<Rightarrow> int \<Rightarrow> directory \<Rightarrow> CreateMenuRequest \<Rightarrow> directory \<times> unit result" where
  "menuService_Create w fresh e now d req =
     (if cm_Title req = [] then (d, Err (BizError CodeMissingParam))
      else if cm_URI req = [] then (d, Err (BizError CodeMissingParam))
      else if cm_Type req = [] then (d, Err (BizError CodeMissingParam))
      else check_free (menu_ExistsByTitle w (se_first e) d (cm_Title req)) (\<lambda>_.
        check_free (menu_ExistsByURI w (se_second e) d (cm_URI req)) (\<lambda>_.
          (let parentID = (case cm_ParentID req of Some p \<Rightarrow> p | None \<Rightarrow> 0);
               parentID' = (if cm_Type req = ''catalogue'' then 0 else parentID);
               type' = (if parentID' \<noteq> 0 then ''menu'' else cm_Type req)
           in case cm_Status req of
                None \<Rightarrow> (d, Err (Panic ''nil status''))
              | Some st \<Rightarrow> (case cm_ParentID req of
                  None \<Rightarrow> (d, Err (Panic ''nil parent''))
                | Some p \<Rightarrow> create_answer (menu_Create w fresh (se_write e) d
                    \<lparr> mn_ID = 0, mn_ParentID = p, mn_Title = cm_Title req, mn_Type = type',
                      mn_Sort = cm_Sort req, mn_Status = st, mn_Icon = cm_Icon req, mn_URI = cm_URI req,
                      mn_UpdatedAt = now \<rparr>)))) d) d)"

definition menuService_Update ::
  "collation \<Rightarrow> service_env \<Rightarrow> int \<Rightarrow> directory \<Rightarrow> UpdateMenuRequest \<Rightarrow> directory \<times> unit result" where
  "menuService_Update w e now d req =
     (case menu_GetMenuByID (se_find e) d (umq_ID req) of
        Inl _ \<Rightarrow> (d, Err (BizError CodeInternalError))
      | Inr None \<Rightarrow> (d, Err (BizError CodeResourceNotFound))
      | Inr (Some existing) \<Rightarrow>
          (let newTitle = umq_Title req \<noteq> [] \<and> umq_Title req \<noteq> mn_Title existing;
               newURI = umq_URI req \<noteq> [] \<and> umq_URI req \<noteq> mn_URI existing;
               updates = no_menu_updates\<lparr>
                 mu_title := (if newTitle then Some (umq_Title req) else None),
                 mu_uri := (if newURI then Some (umq_URI req) else None),
                 mu_type := (if umq_Type req \<noteq> [] then Some (umq_Type req) else None),
                 mu_status := umq_Status req,
                 mu_icon := (if umq_Icon req \<noteq> [] then Some (umq_Icon req) else None),
                 mu_sort := umq_Sort req,
                 mu_parent_id := (if umq_ParentID req \<noteq> 0 then Some (umq_ParentID req) else None) \<rparr>
           in check_free (if newTitle then menu_ExistsByTitleExcludingID w (se_first e) d (umq_Title req) (umq_ID req) else Ok False) (\<lambda>_.
              check_free (if newURI then menu_ExistsByURIExcludingID w (se_second e) d (umq_URI req) (umq_ID req) else Ok False) (\<lambda>_.
                if updates = no_menu_updates then (d, Ok ())
                else update_answer (menu_Update w (se_write e) d (umq_ID req) (updates\<lparr> mu_updated_at := Some now \<rparr>))) d) d))"

definition menuService_Delete :: "bool \<Rightarrow> bool \<Rightarrow> directory \<Rightarrow> int \<Rightarrow> directory \<times> unit result" where
  "menuService_Delete ferr derr d i = (case menu_GetMenuByID ferr d i of
     Inl _ \<Rightarrow> (d, Err (BizError CodeInternalError))
   | Inr None \<Rightarrow> (d, Err (BizError CodeResourceNotFound))
   | Inr (Some _) \<Rightarrow> menu_Delete derr d i)"

definition menuService_BatchDelete :: "(nat \<Rightarrow> bool) \<Rightarrow> bool \<Rightarrow> directory \<Rightarrow> int list \<Rightarrow> directory \<times> unit result" where
  "menuService_BatchDelete ferr derr d ids =
     (if ids = [] then (d, Err (BizError CodeMissingParam))
      else (case check_ids (\<lambda>err. menu_GetMenuByID err d) ferr 0 ids of
        Inl x \<Rightarrow> (d, Err x)
      | Inr _ \<Rightarrow> menu_BatchDelete derr d ids))"

section \<open>Permissions\<close>

definition apiService_PageList ::
  "collation \<Rightarrow> (string \<Rightarrow> string \<Rightarrow> bool) \<Rightarrow> bool \<Rightarrow> bool \<Rightarrow> directory \<Rightarrow> int \<Rightarrow> int \<Rightarrow> string \<Rightarrow> int option \<Rightarrow>
   (Permission list \<times> int) result" where
  "apiService_PageList w like cerr ferr d page size' httpPath status =
     (case page_params page size' of (offset, s) \<Rightarrow> api_PageList w like cerr ferr d offset s httpPath status)"

definition apiService_Create ::
  "collation \<Rightarrow> (Permission list \<Rightarrow> int) \<Rightarrow> service_env \<Rightarrow> int \<Rightarrow> directory \<Rightarrow> CreateAPIRequest \<Rightarrow> directory \<times> unit result" where
  "apiService_Create w fresh e now d req =
     (if ca_Name req = [] then (d, Err (BizError CodeMissingParam))
      else if ca_Slug req = [] then (d, Err (BizError CodeMissingParam))
      else if ca_HTTPMethod req = [] then (d, Err (BizError CodeMissingParam))
      else if \<not> HasPrefix (ca_HTTPPath req) ''/api'' then (d, Err (BizError CodeInvalidParam))
      else check_free (api_ExistsBySlug w (se_first e) d (ca_Slug req)) (\<lambda>_.
        (case ca_Status req of
           None \<Rightarrow> (d, Err (Panic ''nil status''))
         | Some st \<Rightarrow> create_answer (api_Create w fresh (se_write e) d
             \<lparr> pm_ID = 0, pm_Name = ca_Name req, pm_Category = ca_Category req, pm_Slug = ca_Slug req,
               pm_Type = [], pm_Status = st, pm_HttpMethod = ca_HTTPMethod req,
               pm_HttpPath = ca_HTTPPath req, pm_Sort = ca_Sort req, pm_UpdatedAt = now \<rparr>))) d)"

definition apiService_Update ::
  "collation \<Rightarrow> service_env \<Rightarrow> int \<Rightarrow> directory \<Rightarrow> UpdateAPIRequest \<Rightarrow> directory \<times> unit result" where
  "apiService_Update w e now d req =
     (case api_GetAPIByID (se_find e) d (uaq_ID req) of
        Inl _ \<Rightarrow> (d, Err (BizError CodeInternalError))
      | Inr None \<Rightarrow> (d, Err (BizError CodeResourceNotFound))
      | Inr (Some existing) \<Rightarrow>
          (let newSlug = uaq_Slug req \<noteq> [] \<and> uaq_Slug req \<noteq> pm_Slug existing;
               updates = no_permission_updates\<lparr>
                 pu_slug := (if newSlug then Some (uaq_Slug req) else None),
                 pu_name := (if uaq_Name req \<noteq> [] then Some (uaq_Name req) else None),
                 pu_category := (if uaq_Category req \<noteq> [] then Some (uaq_Category req) else None),
                 pu_status := uaq_Status req,
                 pu_http_method := (if uaq_HTTPMethod req \<noteq> [] then Some (uaq_HTTPMethod req) else None),
                 pu_http_path := (if uaq_HTTPPath req \<noteq> [] then Some (uaq_HTTPPath req) else None),
                 pu_sort := uaq_Sort req \<rparr>
           in check_free (if newSlug then api_ExistsBySlugExcludingID w (se_first e) d (uaq_Slug req) (uaq_ID req) else Ok False) (\<lambda>_.
                if updates = no_permission_updates then (d, Ok ())
                else update_answer (api_Update w (se_write e) d (uaq_ID req) (updates\<lparr> pu_updated_at := Some now \<rparr>))) d))"

definition apiService_Delete :: "bool \<Rightarrow> bool \<Rightarrow> directory \<Rightarrow> int \<Rightarrow> directory \<times> unit result" where
  "apiService_Delete ferr derr d i = (case api_GetAPIByID ferr d i of
     Inl _ \<Rightarrow> (d, Err (BizError CodeInternalError))
   | Inr None \<Rightarrow> (d, Err (BizError CodeResourceNotFound))
   | Inr (Some _) \<Rightarrow> api_Delete derr d i)"

definition apiService_BatchDelete :: "(nat \<Rightarrow> bool) \<Rightarrow> bool \<Rightarrow> directory \<Rightarrow> int list \<Rightarrow> directory \<times> unit result" where
  "apiService_BatchDelete ferr derr d ids =
     (if ids = [] then (d, Err (BizError CodeMissingParam))
      else (case check_ids (\<lambda>err. api_GetAPIByID err d) ferr 0 ids of
        Inl x \<Rightarrow> (d, Err x)
      | Inr _ \<Rightarrow> api_BatchDelete derr d ids))"

section \<open>Properties\<close>

text \<open>
  A request on an id that the table does not hold, or for a key that another row has, is
  answered with its code and changes nothing; the unique indexes are never what refuses an
  update.
\<close>

lemma check_free_Ok: "check_free (Ok b) k d = (if b then (d, Err (BizError CodeResourceAlreadyExists)) else k ())"
  by (simp add: check_free_def)

lemma role_update_index:
  assumes ok: "directory_ok w d" and r: "first_row rl_ID (\<lambda>r. rl_ID r = i) (d_roles d) = Some r"
    and name: "\<And>n. ru_name u = Some n \<Longrightarrow> \<not> (\<exists>x \<in> set (d_roles d). w (rl_Name x) = w n \<and> rl_ID x \<noteq> i)"
    and slug: "\<And>n. ru_slug u = Some n \<Longrightarrow> \<not> (\<exists>x \<in> set (d_roles d). w (rl_Slug x) = w n \<and> rl_ID x \<noteq> i)"
  shows "role_index w (update_row rl_ID i (set_role u) (d_roles d))"
proof -
  have "index_ok w rl_Name (update_row rl_ID i (set_role u) (d_roles d))"
    using ok name by (intro index_ok_update) (auto simp: directory_ok_def role_index_def set_role_def split: option.splits)
  moreover have "index_ok w rl_Slug (update_row rl_ID i (set_role u) (d_roles d))"
    using ok slug by (intro index_ok_update) (auto simp: directory_ok_def role_index_def set_role_def split: option.splits)
  ultimately show ?thesis by (simp add: role_index_def)
qed

lemma menu_update_index:
  assumes "directory_ok w d"
    and "\<And>n. mu_title u = Some n \<Longrightarrow> \<not> (\<exists>x \<in> set (d_menus d). w (mn_Title x) = w n \<and> mn_ID x \<noteq> i)"
  shows "index_ok w mn_Title (update_row mn_ID i (set_menu u) (d_menus d))"
  using assms by (intro index_ok_update) (auto simp: directory_ok_def set_menu_def split: option.splits)

lemma api_update_index:
  assumes "directory_ok w d"
    and "\<And>n. pu_slug u = Some n \<Longrightarrow> \<not> (\<exists>x \<in> set (d_permissions d). w (pm_Slug x) = w n \<and> pm_ID x \<noteq> i)"
  shows "index_ok w pm_Slug (update_row pm_ID i (set_permission u) (d_permissions d))"
  using assms by (intro index_ok_update) (auto simp: directory_ok_def set_permission_def split: option.splits)

definition conflict_codes :: "int set" where
  "conflict_codes = {CodeResourceNotFound, CodeResourceAlreadyExists}"

definition clean_update :: "directory \<Rightarrow> directory \<times> unit result \<Rightarrow> bool" where
  "clean_update d x = (case snd x of Inl e \<Rightarrow> e \<in> BizError ` conflict_codes \<and> fst x = d | Inr _ \<Rightarrow> True)"

lemma clean_missing: "clean_update d (d, Err (BizError CodeResourceNotFound))"
  by (simp add: clean_update_def conflict_codes_def)

lemma clean_Ok [simp]: "clean_update d (d', Ok ())"
  by (simp add: clean_update_def)

lemma clean_check:
  "q = Ok b \<Longrightarrow> (\<not> b \<Longrightarrow> clean_update d (k ())) \<Longrightarrow> clean_update d (check_free q k d)"
  by (simp add: check_free_def clean_update_def conflict_codes_def)

lemma exists_queries:
  "role_ExistsByNameExcludingID w False d n i = Ok (\<exists>x \<in> set (d_roles d). w (rl_Name x) = w n \<and> rl_ID x \<noteq> i)"
  "role_ExistsBySlugExcludingID w False d n i = Ok (\<exists>x \<in> set (d_roles d). w (rl_Slug x) = w n \<and> rl_ID x \<noteq> i)"
  "menu_ExistsByTitleExcludingID w False d n i = Ok (\<exists>x \<in> set (d_menus d). w (mn_Title x) = w n \<and> mn_ID x \<noteq> i)"
  "menu_ExistsByURIExcludingID w False d n i = Ok (\<exists>x \<in> set (d_menus d). w (mn_URI x) = w n \<and> mn_ID x \<noteq> i)"
  "api_ExistsBySlugExcludingID w False d n i = Ok (\<exists>x \<in> set (d_permissions d). w (pm_Slug x) = w n \<and> pm_ID x \<noteq> i)"
  by (simp_all add: role_ExistsByNameExcludingID_def role_ExistsBySlugExcludingID_def
      menu_ExistsByTitleExcludingID_def menu_ExistsByURIExcludingID_def api_ExistsBySlugExcludingID_def count_rows_pos)

lemma clean_writes:
  "role_index w (update_row rl_ID i (set_role ru) (d_roles d)) \<Longrightarrow> clean_update d (update_answer (role_Update w False d i ru))"
  "index_ok w mn_Title (update_row mn_ID i (set_menu mu) (d_menus d)) \<Longrightarrow> clean_update d (update_answer (menu_Update w False d i mu))"
  "index_ok w pm_Slug (update_row pm_ID i (set_permission pu) (d_permissions d)) \<Longrightarrow> clean_update d (update_answer (api_Update w False d i pu))"
  by (simp_all add: role_Update_def menu_Update_def api_Update_def write_defs update_answer_def)

lemma if_Ok: "(if c then Ok b else Ok False) = Ok (c \<and> b)"
  by simp

lemma clean_if: "clean_update d b \<Longrightarrow> clean_update d (if c then (d, Ok ()) else b)"
  by simp

lemmas clean_rules = allI impI clean_check [OF refl] clean_if clean_writes

lemma role_Update_clean: "directory_ok w d \<Longrightarrow> clean_update d (roleService_Update w no_failures now d req)"
  unfolding roleService_Update_def role_GetRoleByID_def Let_def service_env.simps exists_queries if_Ok if_False
  by (simp add: clean_missing split: option.split split del: if_split)
    (intro clean_rules role_update_index, assumption+, auto simp: no_role_updates_def split: if_splits)

lemma menu_Update_clean: "directory_ok w d \<Longrightarrow> clean_update d (menuService_Update w no_failures now d req)"
  unfolding menuService_Update_def menu_GetMenuByID_def Let_def service_env.simps exists_queries if_Ok if_False
  by (simp add: clean_missing split: option.split split del: if_split)
    (intro clean_rules menu_update_index, assumption+, auto simp: no_menu_updates_def split: if_splits)

lemma api_Update_clean: "directory_ok w d \<Longrightarrow> clean_update d (apiService_Update w no_failures now d req)"
  unfolding apiService_Update_def api_GetAPIByID_def Let_def service_env.simps exists_queries if_Ok if_False
  by (simp add: clean_missing split: option.split split del: if_split)
    (intro clean_rules api_update_index, assumption+, auto simp: no_permission_updates_def split: if_splits)


definition two_roles :: directory where
  "two_roles = \<lparr> d_users = [],
     d_roles = [\<lparr> rl_ID = 1, rl_Name = ''Admin'', rl_Status = 1, rl_Slug = ''admin'', rl_CreatedAt = 0, rl_UpdatedAt = 0 \<rparr>,
                \<lparr> rl_ID = 2, rl_Name = ''User'', rl_Status = 1, rl_Slug = ''user'', rl_CreatedAt = 1, rl_UpdatedAt = 1 \<rparr>],
     d_permissions = [], d_menus = [], d_role_users = [], d_role_permissions = [(1, 7), (2, 7)], d_role_menu = [(2, 4)] \<rparr>"

definition rename_request :: UpdateRoleRequest where
  "rename_request = \<lparr> urq_ID = 2, urq_Name = ''Admin'', urq_Status = None, urq_Slug = [] \<rparr>"


subsection \<open>The access matrix\<close>

text \<open>
  The specification of the links of roles: a matrix that gives each role its set of permissions
  and its set of menus. Updating a role replaces its row of the matrix, or nothing happens.
\<close>

definition matrix :: "directory \<Rightarrow> int \<Rightarrow> int set \<times> int set" where
  "matrix d r = ({p. (r, p) \<in> set (d_role_permissions d)}, {m. (r, m) \<in> set (d_role_menu d)})"

definition matrix_granted :: "collation \<Rightarrow> directory \<Rightarrow> (int \<Rightarrow> int set \<times> int set) \<Rightarrow> int \<Rightarrow> string \<Rightarrow> string \<Rightarrow> bool" where
  "matrix_granted w d M u meth path =
     (u \<in> ac_ID ` set (d_users d) \<and>
      (\<exists>r \<in> set (roles_of d u). \<exists>p \<in> set (d_permissions d). pm_ID p \<in> fst (M (rl_ID r)) \<and> grants w meth path p))"

definition perm_env_ok :: "role_perm_env \<Rightarrow> int list \<Rightarrow> int list \<Rightarrow> bool" where
  "perm_env_ok e ms ps = (\<not> rp_del_menu e \<and> \<not> rp_del_perm e \<and> \<not> rp_commit e \<and>
     (ms = [] \<or> \<not> rp_ins_menu e) \<and> (ps = [] \<or> \<not> rp_ins_perm e))"

lemma granted_matrix: "granted w d u meth path = matrix_granted w d (matrix d) u meth path"
  by (auto simp: granted_def matrix_granted_def matrix_def permissions_of_def)

lemma role_links_iff:
  assumes "distinct t"
  shows "role_links r err ids (filter (\<lambda>x. fst x \<noteq> r) t) =
    (if ids = [] then Ok (filter (\<lambda>x. fst x \<noteq> r) t)
     else if err then Err DbError
     else if distinct ids then Ok (filter (\<lambda>x. fst x \<noteq> r) t @ map (\<lambda>i. (r, i)) ids)
     else Err DuplicateKey)"
  using assms by (auto simp: role_links_def insert_links_def distinct_map inj_on_def)

lemma update_matrix:
  assumes ok: "directory_ok w d" and e: "perm_env_ok e ms ps" and "distinct ms" "distinct ps"
  shows "\<exists>d'. role_UpdateRolePermission e d r ms ps = (d', Ok ()) \<and> matrix d' = (matrix d)(r := (set ps, set ms)) \<and>
    d_users d' = d_users d \<and> d_roles d' = d_roles d \<and> d_permissions d' = d_permissions d \<and> d_menus d' = d_menus d \<and>
    d_role_users d' = d_role_users d"
  using assms
  by (fastforce simp: role_UpdateRolePermission_def role_links_iff directory_ok_def perm_env_ok_def matrix_def fun_eq_iff)

lemma update_matrix_fails:
  assumes "directory_ok w d" "\<not> (perm_env_ok e ms ps \<and> distinct ms \<and> distinct ps)"
  shows "\<exists>x. role_UpdateRolePermission e d r ms ps = (d, Err x)"
  using assms
  by (auto simp: role_UpdateRolePermission_def role_links_iff directory_ok_def perm_env_ok_def)

text \<open>
  C10: Updating the permissions of a role refines the replacement of its row in the access
  matrix. When every statement succeeds and neither list names an id twice, the role has
  exactly the permissions and menus of the request, no other role changes, and the permission
  check then grants a user a request exactly when the new matrix does. In every other case the
  transaction leaves the directory as it was and reports an error.
\<close>

theorem role_permissions_refine_matrix:
  assumes "directory_ok w d"
  shows "(case roleService_UpdateRolePermission e d r ms ps of (d', answer) \<Rightarrow>
    if perm_env_ok e ms ps \<and> distinct ms \<and> distinct ps
    then answer = Ok () \<and> matrix d' = (matrix d)(r := (set ps, set ms)) \<and>
         (\<forall>u meth path. role_CheckUserPermission w False d' u meth path =
            Ok (matrix_granted w d ((matrix d)(r := (set ps, set ms))) u meth path))
    else d' = d \<and> \<not> is_ok answer)"
proof (cases "perm_env_ok e ms ps \<and> distinct ms \<and> distinct ps")
  case True
  then obtain d' where "role_UpdateRolePermission e d r ms ps = (d', Ok ())"
    "matrix d' = (matrix d)(r := (set ps, set ms))" "d_users d' = d_users d" "d_roles d' = d_roles d"
    "d_permissions d' = d_permissions d" "d_role_users d' = d_role_users d"
    using update_matrix [OF assms, of e ms ps r] by auto
  then show ?thesis using True
    by (simp add: roleService_UpdateRolePermission_def CheckUserPermission_granted granted_matrix
        matrix_granted_def roles_of_def)
next
  case False
  then show ?thesis using update_matrix_fails [OF assms, of e ms ps r]
    by (auto simp: roleService_UpdateRolePermission_def)
qed

lemma role_permissions_refine_matrix_witness:
  "matrix (fst (roleService_UpdateRolePermission \<lparr> rp_del_menu = False, rp_del_perm = False, rp_ins_menu = False,
      rp_ins_perm = False, rp_commit = False \<rparr> two_roles 2 [4, 5] [8])) = (matrix two_roles)(2 := ({8}, {4, 5}))"
proof -
  let ?e = "\<lparr> rp_del_menu = False, rp_del_perm = False, rp_ins_menu = False, rp_ins_perm = False, rp_commit = False \<rparr>"
  have "directory_ok (\<lambda>s. s) two_roles" by code_simp
  from role_permissions_refine_matrix [OF this, where e = ?e and r = 2 and ms = "[4, 5]" and ps = "[8]"] show ?thesis
    by (simp add: perm_env_ok_def case_prod_beta)
qed

subsection \<open>What the permission check does not look at\<close>

text \<open>
  The check behind every protected route does not look at the status of the account or of
  the role. Giving any accounts and any roles other status values, 0 for disabled included,
  changes no answer: a disabled account whose token is still valid, and the members of a
  disabled role, keep every permission.
\<close>

theorem check_ignores_status:
  "role_CheckUserPermission w err (d\<lparr> d_users := map (\<lambda>u. u\<lparr> ac_Status := f u \<rparr>) (d_users d),
       d_roles := map (\<lambda>r. r\<lparr> rl_Status := g r \<rparr>) (d_roles d) \<rparr>) u meth path =
   role_CheckUserPermission w err d u meth path"
proof (cases err)
  case False
  have "granted w (d\<lparr> d_users := map (\<lambda>u. u\<lparr> ac_Status := f u \<rparr>) (d_users d),
       d_roles := map (\<lambda>r. r\<lparr> rl_Status := g r \<rparr>) (d_roles d) \<rparr>) u meth path = granted w d u meth path"
    by (auto simp: granted_def roles_of_def permissions_of_def image_image)
  then show ?thesis using False by (simp add: CheckUserPermission_granted)
qed (simp add: role_CheckUserPermission_def)

text \<open>
  Deleting a role takes exactly its permissions from its members: what another role grants
  stays. The links of the deleted role remain in the join tables and grant nothing.
\<close>

theorem delete_role_revokes:
  assumes "roleService_Delete False False d i = (d', Ok ())"
  shows "granted w d' u meth path \<longleftrightarrow>
    u \<in> ac_ID ` set (d_users d) \<and> (\<exists>r \<in> set (roles_of d u). rl_ID r \<noteq> i \<and>
       (\<exists>p \<in> set (permissions_of d (rl_ID r)). grants w meth path p))"
  using assms
  by (auto simp: roleService_Delete_def role_GetRoleByID_def role_Delete_def granted_def roles_of_def
      permissions_of_def split: option.splits) blast+

text \<open>
  ExistsBySlug counts the rows whose name is the slug. A free slug that happens to be the name of
  some role is refused, and a slug in use passes the check and is refused by the unique index.
\<close>

theorem slug_check_reads_names:
  assumes "cr_Name req \<noteq> []" "cr_Slug req \<noteq> []"
    and "\<forall>x \<in> set (d_roles d). w (rl_Name x) \<noteq> w (cr_Name req)"
    and "\<exists>x \<in> set (d_roles d). w (rl_Name x) = w (cr_Slug req)"
  shows "roleService_Create w fresh no_failures now d req = (d, Err (BizError CodeResourceAlreadyExists))"
proof -
  have "role_ExistsByName w False d (cr_Name req) = Ok False"
    using assms(3) count_rows_pos [of "\<lambda>r. w (rl_Name r) = w (cr_Name req)"] by (auto simp: role_ExistsByName_def)
  moreover have "role_ExistsBySlug w False d (cr_Slug req) = Ok True"
    using assms(4) count_rows_pos [of "\<lambda>r. w (rl_Name r) = w (cr_Slug req)"] by (auto simp: role_ExistsBySlug_def)
  ultimately show ?thesis using assms(1,2) by (simp add: roleService_Create_def check_free_Ok)
qed

text \<open>
  A menu request without a parent never creates a menu: the handler dereferences the missing
  pointer although it computed a default.
\<close>

theorem menu_create_needs_parent:
  assumes "cm_ParentID req = None"
  shows "\<not> is_ok (snd (menuService_Create w fresh e now d req)) \<and> fst (menuService_Create w fresh e now d req) = d"
  using assms
  by (auto simp: menuService_Create_def check_free_def Let_def split: sum.splits option.splits)

end
