(* ===== verification/MenuTree.thy ===== *)
theory MenuTree
  imports Directory RoleService "HOL-Library.Product_Lexorder" "HOL-Library.Multiset"
begin

text \<open>
  The trees of menus: buildMenuTree of internal/service/auth_service.go (the menus of a logged in
  user), buildMenuTree, buildApiPermissions and extractCategoryOrder of role_service.go (the page
  on which an administrator ticks what a role has), and PageList, BuildMenuTree and convertToNode
  of menu_service.go.

  The code links nodes by pointers. A node is the tree that is read through its pointers: the
  datatype MenuTreeNode, read with as much fuel as there are nodes, which is enough (theorem
  below). The order in which Go ranges over a map is an arbitrary permutation, and sort.Slice is an
  arbitrary function that sorts, not necessarily a stable one.
\<close>

section \<open>Nodes\<close>

record MenuItem =
  mi_ID :: int
  mi_ParentID :: int
  mi_Title :: string
  mi_Type :: string
  mi_Status :: int
  mi_Icon :: string
  mi_URI :: string
  mi_Sort :: int

datatype 'n tree_node = Node (tn_item: 'n) (tn_children: "'n tree_node list")

type_synonym MenuTreeNode = "MenuItem tree_node"

definition item_of :: "Menu \<Rightarrow> MenuItem" where
  "item_of m = \<lparr> mi_ID = mn_ID m, mi_ParentID = mn_ParentID m, mi_Title = mn_Title m, mi_Type = mn_Type m,
     mi_Status = mn_Status m, mi_Icon = mn_Icon m, mi_URI = mn_URI m, mi_Sort = mn_Sort m \<rparr>"

text \<open>The map from ids to nodes, as the list of its values: a later row replaces an earlier one.\<close>

definition put_node :: "('n \<Rightarrow> int) \<Rightarrow> 'n \<Rightarrow> 'n list \<Rightarrow> 'n list" where
  "put_node nid n ns = filter (\<lambda>x. nid x \<noteq> nid n) ns @ [n]"

definition nodes_of :: "('n \<Rightarrow> int) \<Rightarrow> 'n list \<Rightarrow> 'n list" where
  "nodes_of nid xs = fold (put_node nid) xs []"

text \<open>Reading a tree through the pointers of the children.\<close>

fun expand :: "('n \<Rightarrow> 'n list) \<Rightarrow> nat \<Rightarrow> 'n \<Rightarrow> 'n tree_node" where
  "expand ch 0 n = Node n []"
| "expand ch (Suc k) n = Node n (map (expand ch k) (ch n))"

section \<open>The menus of a logged in user\<close>

definition menu_key :: "MenuItem \<Rightarrow> int \<times> string" where
  "menu_key n = (mi_Sort n, mi_Title n)"

definition auth_children :: "(MenuItem list \<Rightarrow> MenuItem list) \<Rightarrow> (MenuItem list \<Rightarrow> MenuItem list) \<Rightarrow> MenuItem list \<Rightarrow> MenuItem \<Rightarrow> MenuItem list" where
  "auth_children srt it ns n =
     (let parentChildren = filter (\<lambda>c. mi_ParentID c \<noteq> 0 \<and> mi_ParentID c = mi_ID n) (it ns)
      in if parentChildren = [] then [] else srt parentChildren)"

definition auth_roots :: "(MenuItem list \<Rightarrow> MenuItem list) \<Rightarrow> MenuItem list \<Rightarrow> MenuItem list" where
  "auth_roots it ns = filter (\<lambda>n. mi_ParentID n = 0 \<or> mi_ParentID n \<notin> mi_ID ` set ns) (it ns)"

definition buildMenuTree ::
  "(MenuItem list \<Rightarrow> MenuItem list) \<Rightarrow> (MenuItem list \<Rightarrow> MenuItem list) \<Rightarrow> (MenuItem list \<Rightarrow> MenuItem list) \<Rightarrow>
   Menu list \<Rightarrow> MenuTreeNode list" where
  "buildMenuTree srt it1 it2 menus =
     (let ns = nodes_of mi_ID (map item_of menus)
      in map (expand (auth_children srt it1 ns) (length ns)) (srt (auth_roots it2 ns)))"

text \<open>What the code relies on: sort.Slice sorts by (Sort, Title), ranging visits each entry once.\<close>

definition sorts :: "(MenuItem list \<Rightarrow> MenuItem list) \<Rightarrow> bool" where
  "sorts srt = (\<forall>xs. mset (srt xs) = mset xs \<and> sorted (map menu_key (srt xs)))"

definition ranges :: "(MenuItem list \<Rightarrow> MenuItem list) \<Rightarrow> bool" where
  "ranges it = (\<forall>xs. mset (it xs) = mset xs)"

section \<open>The page of a role\<close>

record RoleMenuItem =
  rm_ID :: int
  rm_ParentID :: int
  rm_Title :: string
  rm_Checked :: bool

type_synonym MenuNodeResponse = "RoleMenuItem tree_node"

definition role_item :: "(int \<Rightarrow> bool) \<Rightarrow> Menu \<Rightarrow> RoleMenuItem" where
  "role_item checked m = \<lparr> rm_ID = mn_ID m, rm_ParentID = mn_ParentID m, rm_Title = mn_Title m, rm_Checked = checked (mn_ID m) \<rparr>"

text \<open>
  The second loop of both builders goes through the rows: the children of a node and the roots
  are the rows in their order (each row reads its node from the map), and a row whose parent is
  neither 0 nor a row is dropped.
\<close>

definition list_children :: "('n \<Rightarrow> int) \<Rightarrow> ('n \<Rightarrow> int) \<Rightarrow> 'n list \<Rightarrow> 'n \<Rightarrow> 'n list" where
  "list_children nid parent ns n = filter (\<lambda>c. parent c \<noteq> 0 \<and> parent c = nid n) ns"

definition role_buildMenuTree :: "Menu list \<Rightarrow> (int \<Rightarrow> bool) \<Rightarrow> MenuNodeResponse list" where
  "role_buildMenuTree menus checked =
     (let ns = map (role_item checked) menus
      in map (expand (list_children rm_ID rm_ParentID ns) (length ns)) (filter (\<lambda>n. rm_ParentID n = 0) ns))"

definition menuService_BuildMenuTree :: "Menu list \<Rightarrow> MenuTreeNode list" where
  "menuService_BuildMenuTree menus =
     (let ns = map (\<lambda>m. (item_of m)\<lparr> mi_ParentID := 0 \<rparr>) menus; ps = map item_of menus
      in map (expand (\<lambda>n. map (\<lambda>c. c\<lparr> mi_ParentID := 0 \<rparr>) (list_children mi_ID mi_ParentID ps n)) (length ns))
           (map (\<lambda>n. n\<lparr> mi_ParentID := 0 \<rparr>) (filter (\<lambda>n. mi_ParentID n = 0) ps)))"

text \<open>The page of menus: the top level menus of the page, each with the menus below it.\<close>

definition convertToNode :: "Menu \<Rightarrow> MenuTreeNode" where
  "convertToNode m = Node (item_of m) []"

definition menuService_PageList ::
  "(string \<Rightarrow> string \<Rightarrow> bool) \<Rightarrow> menu_page_env \<Rightarrow> directory \<Rightarrow> int \<Rightarrow> int \<Rightarrow> string \<Rightarrow> int option \<Rightarrow> (MenuTreeNode list \<times> int) result" where
  "menuService_PageList like e d page size' title status =
     (case page_params page size' of (offset, s) \<Rightarrow>
       (case menu_PageList like e d offset s title status of
          Inl x \<Rightarrow> Err x
        | Inr (parents, children, n) \<Rightarrow>
            Ok (map (\<lambda>p. Node (item_of p)
                     (map convertToNode (filter (\<lambda>c. mn_ParentID c \<noteq> 0 \<and> mn_ParentID c = mn_ID p) children))) parents, n)))"

text \<open>The categories: the title of a root without children, or the titles of its children.\<close>

definition extractCategoryOrder :: "MenuNodeResponse list \<Rightarrow> string list" where
  "extractCategoryOrder tree = concat (map (\<lambda>t.
     if tn_children t = [] then [rm_Title (tn_item t)]
     else map (\<lambda>c. rm_Title (tn_item c)) (tn_children t)) tree)"

record ApiPermissionRes =
  ap_ID :: int
  ap_Name :: string
  ap_Slug :: string
  ap_Checked :: bool

definition api_res :: "(int \<Rightarrow> bool) \<Rightarrow> Permission \<Rightarrow> ApiPermissionRes" where
  "api_res checked p = \<lparr> ap_ID = pm_ID p, ap_Name = pm_Name p, ap_Slug = pm_Slug p, ap_Checked = checked (pm_ID p) \<rparr>"

text \<open>
  The groups of permissions: first the categories of the menu tree in its order (a group is
  deleted from the map when it has been put out, so a second menu of the same title adds
  nothing), then the remaining categories in the order \<open>it\<close> of the map.
\<close>

definition group_of :: "(int \<Rightarrow> bool) \<Rightarrow> Permission list \<Rightarrow> string \<Rightarrow> string \<times> ApiPermissionRes list" where
  "group_of checked perms cat = (cat, map (api_res checked) (filter (\<lambda>p. pm_Category p = cat) perms))"

fun ordered_groups :: "(int \<Rightarrow> bool) \<Rightarrow> Permission list \<Rightarrow> string list \<Rightarrow> string list \<Rightarrow> (string \<times> ApiPermissionRes list) list \<times> string list" where
  "ordered_groups checked perms keys [] = ([], keys)"
| "ordered_groups checked perms keys (cat # cats) =
     (if cat \<in> set keys
      then (case ordered_groups checked perms (filter (\<lambda>k. k \<noteq> cat) keys) cats of
              (gs, rest) \<Rightarrow> (group_of checked perms cat # gs, rest))
      else ordered_groups checked perms keys cats)"

definition buildApiPermissions ::
  "(string list \<Rightarrow> string list) \<Rightarrow> Permission list \<Rightarrow> (int \<Rightarrow> bool) \<Rightarrow> string list \<Rightarrow> (string \<times> ApiPermissionRes list) list" where
  "buildApiPermissions it perms checked categoryOrder =
     (case ordered_groups checked perms (remdups (map pm_Category perms)) categoryOrder of
        (gs, rest) \<Rightarrow> gs @ map (group_of checked perms) (it rest))"

definition roleService_GetRolePermissionByID ::
  "(string list \<Rightarrow> string list) \<Rightarrow> role_page_env \<Rightarrow> directory \<Rightarrow> int \<Rightarrow>
   (MenuNodeResponse list \<times> (string \<times> ApiPermissionRes list) list) result" where
  "roleService_GetRolePermissionByID it e d roleID = (case role_GetRolePermissionByID e d roleID of
     Inl x \<Rightarrow> Err x
   | Inr (menus, perms, roleMenus, rolePerms) \<Rightarrow>
       (let tree = role_buildMenuTree menus roleMenus
        in Ok (tree, buildApiPermissions it perms rolePerms (extractCategoryOrder tree))))"

section \<open>Forests\<close>

text \<open>
  What the builders share: nodes with an id and the id of a parent, of which \<open>ch\<close> lists the
  children of a node and \<open>rts\<close> lists nodes without a parent among the nodes. Proved once: reading
  the trees with the number of nodes as fuel cuts nothing off, no node occurs twice, and the
  nodes that occur are the ones whose chain of parents ends in a listed root.
\<close>

primrec flat :: "'n tree_node \<Rightarrow> 'n list" where
  "flat (Node n ts) = n # concat (map flat ts)"

primrec complete :: "('n \<Rightarrow> 'n list) \<Rightarrow> 'n tree_node \<Rightarrow> bool" where
  "complete ch (Node n ts) = (map tn_item ts = ch n \<and> list_all (complete ch) ts)"

fun level :: "('n \<Rightarrow> 'n list) \<Rightarrow> nat \<Rightarrow> 'n list \<Rightarrow> 'n list" where
  "level ch 0 xs = xs"
| "level ch (Suc k) xs = level ch k (concat (map ch xs))"

lemma tn_item_expand [simp]: "tn_item (expand ch k n) = n"
  by (cases k) simp_all

lemma level_append: "level ch k (xs @ ys) = level ch k xs @ level ch k ys"
  by (induction k arbitrary: xs ys) simp_all

lemma level_concat: "level ch k xs = concat (map (\<lambda>x. level ch k [x]) xs)"
proof (induction xs)
  case Nil
  show ?case by (induction k) simp_all
next
  case (Cons x xs)
  then show ?case using level_append [of ch k "[x]" xs] by simp
qed

lemma level_Suc_end: "level ch (Suc k) xs = concat (map ch (level ch k xs))"
  by (induction k arbitrary: xs) simp_all

lemma level_add: "level ch (j + k) xs = level ch k (level ch j xs)"
  by (induction j arbitrary: xs) simp_all

lemma level_Nil [simp]: "level ch k [] = []"
  by (induction k) simp_all

lemma complete_expand: "level ch (Suc k) [n] = [] \<Longrightarrow> complete ch (expand ch k n)"
proof (induction k arbitrary: n)
  case (Suc k)
  have "level ch (Suc k) [c] = []" if "c \<in> set (ch n)" for c
    using Suc.prems that level_concat [of ch "Suc k" "ch n"] by auto
  then show ?case using Suc.IH by (simp add: list_all_iff comp_def)
qed simp

lemma mset_concat_cong: "(\<And>x. x \<in> set xs \<Longrightarrow> mset (f x) = mset (g x)) \<Longrightarrow> mset (concat (map f xs)) = mset (concat (map g xs))"
  by (induction xs) auto

lemma mset_concat_map_append:
  "mset (concat (map (\<lambda>x. f x @ g x) xs)) = mset (concat (map f xs)) + mset (concat (map g xs))"
  by (induction xs) auto

lemma concat_map_concat: "concat (map f (concat (map g xs))) = concat (map (\<lambda>x. concat (map f (g x))) xs)"
  by (induction xs) auto

lemma distinct_concat_map:
  "distinct xs \<Longrightarrow> (\<And>x. x \<in> set xs \<Longrightarrow> distinct (f x)) \<Longrightarrow>
   (\<And>x y. x \<in> set xs \<Longrightarrow> y \<in> set xs \<Longrightarrow> x \<noteq> y \<Longrightarrow> set (f x) \<inter> set (f y) = {}) \<Longrightarrow> distinct (concat (map f xs))"
proof (induction xs)
  case (Cons x xs)
  have "set (f x) \<inter> set (f y) = {}" if "y \<in> set xs" for y using Cons.prems that by (intro Cons.prems(3)) auto
  moreover have "distinct (concat (map f xs))" using Cons.prems by (intro Cons.IH) auto
  ultimately show ?case using Cons.prems(2) [of x] by auto
qed simp

lemma mset_flat_forest:
  "mset (concat (map (\<lambda>n. flat (expand ch k n)) xs)) = mset (concat (map (\<lambda>j. level ch j xs) [0..<Suc k]))"
proof (induction k arbitrary: xs)
  case (Suc k)
  have "mset (concat (map (\<lambda>n. flat (expand ch (Suc k) n)) xs)) =
      mset (concat (map (\<lambda>n. [n] @ concat (map (\<lambda>c. flat (expand ch k c)) (ch n))) xs))"
    by (simp add: comp_def)
  also have "\<dots> = mset xs + mset (concat (map (\<lambda>c. flat (expand ch k c)) (concat (map ch xs))))"
    by (subst mset_concat_map_append) (simp add: concat_map_concat)
  also have "\<dots> = mset xs + mset (concat (map (\<lambda>j. level ch (Suc j) xs) [0..<Suc k]))"
    using Suc by simp
  also have "\<dots> = mset (concat (map (\<lambda>j. level ch j xs) (0 # map Suc [0..<Suc k])))"
    by (simp add: comp_def)
  also have "0 # map Suc [0..<Suc k] = [0..<Suc (Suc k)]"
    by (simp only: map_Suc_upt upt_conv_Cons [of 0 "Suc (Suc k)"])
  finally show ?case .
qed simp

inductive rooted :: "('n \<Rightarrow> 'n list) \<Rightarrow> 'n list \<Rightarrow> 'n \<Rightarrow> bool" for ch rts where
  root: "n \<in> set rts \<Longrightarrow> rooted ch rts n"
| child: "rooted ch rts p \<Longrightarrow> n \<in> set (ch p) \<Longrightarrow> rooted ch rts n"

lemma rooted_level: "rooted ch rts n \<longleftrightarrow> (\<exists>k. n \<in> set (level ch k rts))"
proof
  assume "rooted ch rts n"
  then show "\<exists>k. n \<in> set (level ch k rts)"
  proof induction
    case (root n)
    then show ?case by (metis level.simps(1))
  next
    case (child p n)
    then obtain k where "p \<in> set (level ch k rts)" by blast
    then have "n \<in> set (level ch (Suc k) rts)" using child by (auto simp: level_Suc_end simp del: level.simps)
    then show ?case by blast
  qed
next
  have "n \<in> set (level ch k rts) \<Longrightarrow> rooted ch rts n" for k
  proof (induction k arbitrary: n)
    case (Suc k)
    then show ?case by (auto simp: level_Suc_end simp del: level.simps intro: rooted.child)
  qed (simp add: rooted.root)
  then show "\<exists>k. n \<in> set (level ch k rts) \<Longrightarrow> rooted ch rts n" by blast
qed

locale forest =
  fixes nid parent :: "'n \<Rightarrow> int" and ns :: "'n list" and ch :: "'n \<Rightarrow> 'n list" and rts :: "'n list"
  assumes ids: "distinct (map nid ns)"
    and children: "n \<in> set ns \<Longrightarrow> set (ch n) = {c \<in> set ns. parent c \<noteq> 0 \<and> parent c = nid n}"
    and children_distinct: "n \<in> set ns \<Longrightarrow> distinct (ch n)"
    and roots: "set rts \<subseteq> {n \<in> set ns. parent n = 0 \<or> parent n \<notin> nid ` set ns}"
    and roots_distinct: "distinct rts"
begin

lemma level_in: "set (level ch k rts) \<subseteq> set ns"
proof (induction k)
  case (Suc k)
  then show ?case using children by (fastforce simp: level_Suc_end simp del: level.simps)
qed (use roots in auto)

lemma level_node: "n \<in> set (level ch k rts) \<Longrightarrow> n \<in> set ns"
  using level_in by blast

lemma child_parent:
  assumes "m \<in> set (level ch i rts)" "n \<in> set (level ch j rts)" "c \<in> set (ch m)" "c \<in> set (ch n)"
  shows "m = n"
  using assms children [OF level_node] ids level_node by (intro row_eq [of nid ns]) auto

lemma level_distinct: "distinct (level ch k rts)"
proof (induction k)
  case (Suc k)
  have "distinct (concat (map ch (level ch k rts)))"
    using Suc children_distinct [OF level_node] child_parent by (intro distinct_concat_map) blast+
  then show ?case by (simp add: level_Suc_end del: level.simps)
qed (simp add: roots_distinct)

lemma root_not_child: "n \<in> set rts \<Longrightarrow> n \<notin> set (level ch (Suc k) rts)"
  using roots children [OF level_node] level_node by (fastforce simp: level_Suc_end simp del: level.simps)

lemma levels_disjoint: "i < j \<Longrightarrow> set (level ch i rts) \<inter> set (level ch j rts) = {}"
proof (induction i arbitrary: j)
  case 0
  then obtain k where "j = Suc k" by (cases j) auto
  then show ?case using root_not_child by (auto simp del: level.simps(2))
next
  case (Suc i)
  then obtain k where k: "j = Suc k" "i < k" by (cases j) auto
  have "set (level ch (Suc i) rts) \<inter> set (level ch (Suc k) rts) = {}"
    using Suc.IH [OF k(2)] child_parent by (auto simp: level_Suc_end simp del: level.simps) blast
  then show ?case by (simp only: k)
qed

lemma level_end: "level ch (length ns) rts = []"
proof (rule ccontr)
  assume "level ch (length ns) rts \<noteq> []"
  then have ne: "level ch j rts \<noteq> []" if "j \<le> length ns" for j
    using that level_add [of ch j "length ns - j" rts] by auto
  let ?f = "\<lambda>j. hd (level ch j rts)"
  have f: "?f j \<in> set (level ch j rts)" if "j \<le> length ns" for j using ne that by simp
  have "inj_on ?f {..length ns}"
  proof (rule inj_onI)
    fix i j assume ij: "i \<in> {..length ns}" "j \<in> {..length ns}" "?f i = ?f j"
    then show "i = j"
      using f [of i] f [of j] levels_disjoint [of i j] levels_disjoint [of j i] by (cases i j rule: linorder_cases) auto
  qed
  moreover have "?f ` {..length ns} \<subseteq> set ns" using f level_in by blast
  ultimately have "card {..length ns} \<le> card (set ns)" by (intro card_inj_on_le) auto
  also have "\<dots> \<le> length ns" by (rule card_length)
  finally show False by simp
qed

lemma forest_complete: "n \<in> set rts \<Longrightarrow> complete ch (expand ch (length ns) n)"
proof (rule complete_expand)
  assume "n \<in> set rts"
  moreover have "level ch (Suc (length ns)) rts = []" by (simp only: level_Suc_end level_end) simp
  ultimately show "level ch (Suc (length ns)) [n] = []"
    using level_concat [of ch "Suc (length ns)" rts] by simp
qed

lemma forest_flat:
  "distinct (concat (map (\<lambda>n. flat (expand ch (length ns) n)) rts)) \<and>
   set (concat (map (\<lambda>n. flat (expand ch (length ns) n)) rts)) = {n. rooted ch rts n}"
proof -
  let ?f = "concat (map (\<lambda>n. flat (expand ch (length ns) n)) rts)"
  let ?l = "concat (map (\<lambda>j. level ch j rts) [0..<Suc (length ns)])"
  have m: "mset ?f = mset ?l" by (rule mset_flat_forest)
  have "distinct ?l"
  proof (rule distinct_concat_map)
    fix i j :: nat assume "i \<noteq> j"
    then show "set (level ch i rts) \<inter> set (level ch j rts) = {}"
      using levels_disjoint [of i j] levels_disjoint [of j i] by (cases i j rule: linorder_cases) auto
  qed (simp_all add: level_distinct)
  then have "distinct ?f" using m by (metis mset_eq_imp_distinct_iff)
  moreover have "set ?f = set ?l" using m by (metis set_mset_mset)
  moreover have "n \<in> set ?l \<longleftrightarrow> rooted ch rts n" for n
  proof -
    have "k \<le> length ns" if "n \<in> set (level ch k rts)" for k
    proof (rule ccontr)
      assume "\<not> k \<le> length ns"
      then have "level ch k rts = []" using level_add [of ch "length ns" "k - length ns" rts] level_end by simp
      then show False using that by simp
    qed
    then show ?thesis by (auto simp: rooted_level less_Suc_eq_le simp del: upt_Suc)
  qed
  ultimately show ?thesis by (intro conjI set_eqI) (simp_all only: mem_Collect_eq)
qed

end

section \<open>The menus of a user\<close>

lemma nodes_of_distinct: "distinct (map nid xs) \<Longrightarrow> nodes_of nid xs = xs"
proof -
  have "distinct (map nid (ys @ xs)) \<Longrightarrow> fold (put_node nid) xs ys = ys @ xs" for ys
  proof (induction xs arbitrary: ys)
    case (Cons x xs)
    have "filter (\<lambda>y. nid y \<noteq> nid x) ys = ys"
      using Cons.prems by (auto simp: filter_id_conv) (metis image_eqI)
    then show ?case using Cons.IH [of "ys @ [x]"] Cons.prems by (simp add: put_node_def)
  qed simp
  from this [of "[]"] show "distinct (map nid xs) \<Longrightarrow> nodes_of nid xs = xs" by (simp add: nodes_of_def)
qed

lemma nodes_of_ids: "distinct (map nid (nodes_of nid xs))"
proof -
  have "distinct (map nid ys) \<Longrightarrow> distinct (map nid (fold (put_node nid) xs ys))" for ys
  proof (induction xs arbitrary: ys)
    case (Cons x xs)
    have "distinct (map nid (put_node nid x ys))" using Cons.prems by (auto simp: put_node_def distinct_map_filter)
    then show ?case using Cons.IH by simp
  qed simp
  from this [of "[]"] show ?thesis by (simp add: nodes_of_def)
qed

abbreviation slice_sort :: "MenuItem list \<Rightarrow> MenuItem list" where
  "slice_sort \<equiv> sort_key menu_key"

interpretation auth_menus: forest mi_ID mi_ParentID "nodes_of mi_ID (map item_of menus)"
  "auth_children slice_sort (\<lambda>x. x) (nodes_of mi_ID (map item_of menus))"
  "slice_sort (auth_roots (\<lambda>x. x) (nodes_of mi_ID (map item_of menus)))" for menus
proof (unfold_locales, goal_cases)
  case 1
  show ?case by (rule nodes_of_ids)
next
  case (3 n)
  then show ?case using nodes_of_ids [of mi_ID "map item_of menus"] by (simp add: auth_children_def distinct_map Let_def)
next
  case 5
  then show ?case using nodes_of_ids [of mi_ID "map item_of menus"] by (simp add: auth_roots_def distinct_map)
qed (auto simp: auth_children_def auth_roots_def Let_def filter_empty_conv)

text \<open>The order of sort.Slice and of the maps does not show when the titles differ.\<close>

lemma slice_sort_unique:
  assumes "sorts srt" "mset ys = mset xs" "inj_on menu_key (set xs)"
  shows "srt ys = slice_sort xs"
  using assms by (intro sort_key_inj_key_eq [symmetric]) (auto simp: sorts_def)

lemma menu_key_inj: "distinct (map mi_Title ns) \<Longrightarrow> inj_on menu_key (set ns)"
  by (auto simp: distinct_map menu_key_def inj_on_def)

lemma buildMenuTree_canonical:
  assumes "sorts srt" "ranges it1" "ranges it2" "distinct (map mi_Title (nodes_of mi_ID (map item_of menus)))"
  shows "buildMenuTree srt it1 it2 menus = buildMenuTree slice_sort (\<lambda>x. x) (\<lambda>x. x) menus"
proof -
  let ?ns = "nodes_of mi_ID (map item_of menus)"
  have m: "mset (filter P (it1 ?ns)) = mset (filter P ?ns)" "mset (filter P (it2 ?ns)) = mset (filter P ?ns)" for P
    using assms(2,3) by (simp_all add: ranges_def)
  have inj: "inj_on menu_key (set (filter P ?ns))" for P
    using menu_key_inj [OF assms(4)] by (rule inj_on_subset) auto
  have s: "srt (filter P (it1 ?ns)) = slice_sort (filter P ?ns)" "srt (filter P (it2 ?ns)) = slice_sort (filter P ?ns)" for P
    using assms(1) m inj by (intro slice_sort_unique; simp)+
  have e: "filter P (it1 ?ns) = [] \<longleftrightarrow> filter P ?ns = []" for P
    using m(1) [of P] by (metis mset_zero_iff)
  have "auth_children srt it1 ?ns = auth_children slice_sort (\<lambda>x. x) ?ns"
    by (rule ext) (simp only: auth_children_def Let_def s e)
  moreover have "srt (auth_roots it2 ?ns) = slice_sort (auth_roots (\<lambda>x. x) ?ns)"
    by (simp only: auth_roots_def s)
  ultimately show ?thesis by (simp only: buildMenuTree_def Let_def)
qed

text \<open>The menus whose chain of parents ends in a menu without a parent in the list.\<close>

inductive anchored :: "Menu list \<Rightarrow> Menu \<Rightarrow> bool" for ms where
  top: "m \<in> set ms \<Longrightarrow> mn_ParentID m = 0 \<or> mn_ParentID m \<notin> mn_ID ` set ms \<Longrightarrow> anchored ms m"
| below: "anchored ms p \<Longrightarrow> m \<in> set ms \<Longrightarrow> mn_ParentID m \<noteq> 0 \<Longrightarrow> mn_ParentID m = mn_ID p \<Longrightarrow> anchored ms m"

lemma ranked_anchored:
  assumes "\<forall>m \<in> set ms. \<forall>p \<in> set ms. mn_ParentID m = mn_ID p \<longrightarrow> rank (mn_ID p) < (rank (mn_ID m) :: nat)" "m \<in> set ms"
  shows "anchored ms m"
  using assms(2)
proof (induction "rank (mn_ID m)" arbitrary: m rule: less_induct)
  case less
  show ?case
  proof (cases "mn_ParentID m = 0 \<or> mn_ParentID m \<notin> mn_ID ` set ms")
    case False
    then obtain p where p: "p \<in> set ms" "mn_ParentID m = mn_ID p" by blast
    then have "rank (mn_ID p) < rank (mn_ID m)" using assms(1) less.prems by blast
    then have "anchored ms p" using less.hyps p(1) by blast
    then show ?thesis using less.prems False p(2) anchored.below [of ms p m] by simp
  next
    case True
    then show ?thesis using less.prems by (intro anchored.top)
  qed
qed

lemma item_of_sel [simp]:
  "mi_ID (item_of m) = mn_ID m" "mi_ParentID (item_of m) = mn_ParentID m" "mi_Title (item_of m) = mn_Title m"
  by (simp_all add: item_of_def)

lemma set_auth_children:
  "set (auth_children slice_sort (\<lambda>x. x) ns n) = {c \<in> set ns. mi_ParentID c \<noteq> 0 \<and> mi_ParentID c = mi_ID n}"
  by (auto simp: auth_children_def Let_def filter_empty_conv)

lemma rooted_anchored:
  assumes "ns = map item_of ms"
  shows "rooted (auth_children slice_sort (\<lambda>x. x) ns) (slice_sort (auth_roots (\<lambda>x. x) ns)) n \<longleftrightarrow>
    (\<exists>m. anchored ms m \<and> n = item_of m)" (is "?l \<longleftrightarrow> ?r")
proof
  assume ?l
  then show ?r
  proof induction
    case (root n)
    then obtain m where "m \<in> set ms" "n = item_of m" "mn_ParentID m = 0 \<or> mn_ParentID m \<notin> mn_ID ` set ms"
      using assms by (auto simp: auth_roots_def image_image)
    then show ?case by (blast intro: anchored.top)
  next
    case (child p n)
    then obtain q where "anchored ms q" "p = item_of q" by blast
    moreover obtain m where "m \<in> set ms" "n = item_of m" "mn_ParentID m \<noteq> 0" "mn_ParentID m = mi_ID p"
      using child.hyps(2) assms by (auto simp: set_auth_children)
    ultimately have "anchored ms m" using anchored.below [of ms q m] by simp
    then show ?case using \<open>n = item_of m\<close> by blast
  qed
next
  assume ?r
  then obtain m where "anchored ms m" "n = item_of m" by blast
  from this(1) have "rooted (auth_children slice_sort (\<lambda>x. x) ns) (slice_sort (auth_roots (\<lambda>x. x) ns)) (item_of m)"
  proof induction
    case (top m)
    then show ?case using assms by (intro rooted.root) (auto simp: auth_roots_def image_image)
  next
    case (below p m)
    then show ?case using assms by (intro rooted.child [OF below.IH]) (auto simp: set_auth_children)
  qed
  then show ?l using \<open>n = item_of m\<close> by simp
qed

definition siblings :: "Menu list \<Rightarrow> MenuItem \<Rightarrow> MenuItem list" where
  "siblings ms n = slice_sort (filter (\<lambda>c. mi_ParentID c \<noteq> 0 \<and> mi_ParentID c = mi_ID n) (map item_of ms))"

lemma auth_children_siblings: "auth_children slice_sort (\<lambda>x. x) (map item_of ms) = siblings ms"
  by (rule ext) (auto simp: auth_children_def siblings_def Let_def)

text \<open>
  C21: The menu tree of a user does not depend on the order in which Go ranges over its maps, nor
  on the sorting algorithm: titles are unique, so (Sort, Title) is a total order. The tree is
  read completely: below each node stand exactly its children, sorted. Every menu whose chain of
  parents ends (in a top level menu, or in a menu whose parent the user does not have) occurs
  exactly once, and menus on a cycle of parents do not occur. Without cycles every menu occurs.
\<close>

theorem menu_tree_correct:
  assumes "sorts srt" "ranges it1" "ranges it2" "distinct (map mn_ID ms)" "distinct (map mn_Title ms)"
  shows "buildMenuTree srt it1 it2 ms = buildMenuTree slice_sort (\<lambda>x. x) (\<lambda>x. x) ms \<and>
    list_all (complete (siblings ms)) (buildMenuTree srt it1 it2 ms) \<and>
    distinct (concat (map flat (buildMenuTree srt it1 it2 ms))) \<and>
    set (concat (map flat (buildMenuTree srt it1 it2 ms))) = item_of ` {m. anchored ms m} \<and>
    ((\<forall>m \<in> set ms. \<forall>p \<in> set ms. mn_ParentID m = mn_ID p \<longrightarrow> rank (mn_ID p) < (rank (mn_ID m) :: nat)) \<longrightarrow>
      set (concat (map flat (buildMenuTree srt it1 it2 ms))) = item_of ` set ms)"
proof -
  have ns: "nodes_of mi_ID (map item_of ms) = map item_of ms"
    using assms(4) by (intro nodes_of_distinct) (simp add: comp_def)
  let ?ch = "siblings ms" and ?r = "slice_sort (auth_roots (\<lambda>x. x) (map item_of ms))"
  have can: "buildMenuTree srt it1 it2 ms = buildMenuTree slice_sort (\<lambda>x. x) (\<lambda>x. x) ms"
    using assms by (intro buildMenuTree_canonical) (simp_all add: ns comp_def)
  have t: "buildMenuTree slice_sort (\<lambda>x. x) (\<lambda>x. x) ms = map (expand ?ch (length ms)) ?r"
    by (simp add: buildMenuTree_def ns auth_children_siblings)
  have "list_all (complete ?ch) (map (expand ?ch (length ms)) ?r)"
    using auth_menus.forest_complete [of _ ms] by (simp add: ns auth_children_siblings list_all_iff)
  moreover have flat: "distinct (concat (map flat (map (expand ?ch (length ms)) ?r)))"
    "set (concat (map flat (map (expand ?ch (length ms)) ?r))) = item_of ` {m. anchored ms m}"
    using auth_menus.forest_flat [of ms] rooted_anchored [OF refl, of ms]
    by (auto simp: ns auth_children_siblings comp_def)
  moreover have "(\<forall>m \<in> set ms. \<forall>p \<in> set ms. mn_ParentID m = mn_ID p \<longrightarrow> rank (mn_ID p) < rank (mn_ID m)) \<Longrightarrow>
      {m. anchored ms m} = set ms"
    using ranked_anchored [of ms rank] by (auto elim: anchored.cases)
  ultimately show ?thesis by (simp only: can t) simp
qed

definition demo_menus :: "Menu list" where
  "demo_menus = [
     \<lparr> mn_ID = 1, mn_ParentID = 0, mn_Title = ''System'', mn_Type = ''catalogue'', mn_Sort = 2, mn_Status = 1, mn_Icon = [], mn_URI = ''/s'', mn_UpdatedAt = 0 \<rparr>,
     \<lparr> mn_ID = 2, mn_ParentID = 1, mn_Title = ''Users'', mn_Type = ''menu'', mn_Sort = 1, mn_Status = 1, mn_Icon = [], mn_URI = ''/u'', mn_UpdatedAt = 0 \<rparr>,
     \<lparr> mn_ID = 3, mn_ParentID = 1, mn_Title = ''Roles'', mn_Type = ''menu'', mn_Sort = 1, mn_Status = 1, mn_Icon = [], mn_URI = ''/r'', mn_UpdatedAt = 0 \<rparr>]"

lemma menu_tree_correct_witness:
  "buildMenuTree slice_sort rev rev demo_menus = buildMenuTree slice_sort (\<lambda>x. x) (\<lambda>x. x) demo_menus \<and>
   map mi_ID (concat (map flat (buildMenuTree slice_sort rev rev demo_menus))) = [1, 3, 2]"
proof -
  have "sorts slice_sort" "ranges rev" by (simp_all add: sorts_def ranges_def)
  moreover have "distinct (map mn_ID demo_menus)" "distinct (map mn_Title demo_menus)" by code_simp+
  ultimately have "buildMenuTree slice_sort rev rev demo_menus = buildMenuTree slice_sort (\<lambda>x. x) (\<lambda>x. x) demo_menus"
    using menu_tree_correct [of slice_sort rev rev demo_menus] by simp
  moreover have "map mi_ID (concat (map flat (buildMenuTree slice_sort rev rev demo_menus))) = [1, 3, 2]"
    by code_simp
  ultimately show ?thesis by simp
qed

section \<open>The page of a role\<close>

lemma mset_filter_disj:
  "(\<And>x. \<not> (P x \<and> Q x)) \<Longrightarrow> mset (filter (\<lambda>x. P x \<or> Q x) xs) = mset (filter P xs) + mset (filter Q xs)"
  by (induction xs) auto

lemma mset_groups:
  "distinct ks \<Longrightarrow> mset (concat (map (\<lambda>k. filter (\<lambda>x. f x = k) xs) ks)) = mset (filter (\<lambda>x. f x \<in> set ks) xs)"
proof (induction ks)
  case (Cons k ks)
  have "mset (filter (\<lambda>x. f x \<in> set (k # ks)) xs) = mset (filter (\<lambda>x. f x = k) xs) + mset (filter (\<lambda>x. f x \<in> set ks) xs)"
    using Cons.prems mset_filter_disj [of "\<lambda>x. f x = k" "\<lambda>x. f x \<in> set ks" xs] by auto
  then show ?case using Cons by simp
qed simp

lemma ordered_groups_spec:
  "distinct keys \<Longrightarrow> \<exists>ks rest. ordered_groups checked perms keys cats = (map (group_of checked perms) ks, rest) \<and>
     mset (ks @ rest) = mset keys \<and> set ks = set cats \<inter> set keys \<and>
     subseq ks cats"
proof (induction checked perms keys cats rule: ordered_groups.induct)
  case (2 checked perms keys cat cats)
  show ?case
  proof (cases "cat \<in> set keys")
    case True
    then obtain ks rest where *:
      "ordered_groups checked perms (filter (\<lambda>k. k \<noteq> cat) keys) cats = (map (group_of checked perms) ks, rest)"
      "mset (ks @ rest) = mset (filter (\<lambda>k. k \<noteq> cat) keys)"
      "set ks = set cats \<inter> set (filter (\<lambda>k. k \<noteq> cat) keys)" "subseq ks cats"
      using 2 by (auto simp: distinct_filter)
    have "count (mset keys) cat = 1" using 2(3) True by (simp add: distinct_count_atmost_1)
    then have "mset keys = add_mset cat (mset (filter (\<lambda>k. k \<noteq> cat) keys))"
      by (intro multiset_eqI) auto
    then have "mset ((cat # ks) @ rest) = mset keys" using *(2) by simp
    moreover have "set (cat # ks) = set (cat # cats) \<inter> set keys" using *(3) True by auto
    moreover have "subseq (cat # ks) (cat # cats)" using *(4) by simp
    moreover have "ordered_groups checked perms keys (cat # cats) = (map (group_of checked perms) (cat # ks), rest)"
      using *(1) True by simp
    ultimately show ?thesis by blast
  next
    case False
    then show ?thesis using 2(2) [OF False 2(3)] by (auto intro: list_emb_Cons)
  qed
qed auto

lemma buildApiPermissions_spec:
  assumes "\<And>xs. mset (it xs) = mset (xs :: string list)"
  shows "\<exists>ks rest. buildApiPermissions it perms checked order = map (group_of checked perms) (ks @ rest) \<and>
    distinct (ks @ rest) \<and> set (ks @ rest) = pm_Category ` set perms \<and> subseq ks order \<and>
    set ks = set order \<inter> pm_Category ` set perms"
proof -
  obtain ks rest where *: "ordered_groups checked perms (remdups (map pm_Category perms)) order = (map (group_of checked perms) ks, rest)"
    "mset (ks @ rest) = mset (remdups (map pm_Category perms))" "set ks = set order \<inter> pm_Category ` set perms" "subseq ks order"
    using ordered_groups_spec [of "remdups (map pm_Category perms)" checked perms order] by auto
  have m: "mset (ks @ it rest) = mset (remdups (map pm_Category perms))" using *(2) assms [of rest] by simp
  then have "distinct (ks @ it rest)" by (metis distinct_remdups mset_eq_imp_distinct_iff)
  moreover have "set (ks @ it rest) = pm_Category ` set perms" using m by (metis set_mset_mset set_remdups list.set_map)
  ultimately show ?thesis using * by (intro exI [of _ ks] exI [of _ "it rest"]) (simp add: buildApiPermissions_def)
qed

lemma groups_exact:
  assumes "distinct ks" "set ks = pm_Category ` set perms"
  shows "mset (concat (map snd (map (group_of checked perms) ks))) = mset (map (api_res checked) perms)"
proof -
  have "concat (map snd (map (group_of checked perms) ks)) =
      map (api_res checked) (concat (map (\<lambda>k. filter (\<lambda>p. pm_Category p = k) perms) ks))"
    by (simp add: group_of_def comp_def map_concat)
  also have "mset \<dots> = mset (map (api_res checked) (filter (\<lambda>p. pm_Category p \<in> set ks) perms))"
    by (simp only: mset_map mset_groups [OF assms(1)])
  also have "filter (\<lambda>p. pm_Category p \<in> set ks) perms = perms" using assms(2) by (auto simp: filter_id_conv)
  finally show ?thesis .
qed

lemma list_forest:
  "distinct (map nid ns) \<Longrightarrow> forest nid parent ns (list_children nid parent ns) (filter (\<lambda>n. parent n = 0) ns)"
  by unfold_locales (auto simp: list_children_def distinct_map)

definition active_menus :: "directory \<Rightarrow> Menu list" where
  "active_menus d = sort_key mn_Sort (filter (\<lambda>m. mn_Status m = 1) (d_menus d))"

definition active_permissions :: "directory \<Rightarrow> Permission list" where
  "active_permissions d = sort_key pm_Sort (filter (\<lambda>p. pm_Status p = 1) (d_permissions d))"

abbreviation page_ok :: role_page_env where
  "page_ok \<equiv> \<lparr> rg_menus = False, rg_perms = False, rg_role_menus = False, rg_role_perms = False \<rparr>"

lemma role_page:
  "roleService_GetRolePermissionByID it page_ok d r =
     (let tree = role_buildMenuTree (active_menus d) (\<lambda>i. i \<in> snd (matrix d r)) in
      Ok (tree, buildApiPermissions it (active_permissions d) (\<lambda>i. i \<in> fst (matrix d r)) (extractCategoryOrder tree)))"
  by (simp add: roleService_GetRolePermissionByID_def role_GetRolePermissionByID_def active_menus_def
      active_permissions_def matrix_def)

lemma role_tree:
  assumes "distinct (map mn_ID ms)"
  shows "map tn_item (role_buildMenuTree ms checked) = filter (\<lambda>n. rm_ParentID n = 0) (map (role_item checked) ms) \<and>
    list_all (complete (list_children rm_ID rm_ParentID (map (role_item checked) ms))) (role_buildMenuTree ms checked) \<and>
    distinct (concat (map flat (role_buildMenuTree ms checked)))"
proof -
  let ?ns = "map (role_item checked) ms"
  have d: "distinct (map rm_ID ?ns)" using assms by (simp add: comp_def role_item_def)
  have "list_all (complete (list_children rm_ID rm_ParentID ?ns)) (role_buildMenuTree ms checked)"
    using forest.forest_complete [OF list_forest [OF d, where parent = rm_ParentID]]
    by (auto simp: role_buildMenuTree_def list_all_iff Let_def)
  moreover have "distinct (concat (map flat (role_buildMenuTree ms checked)))"
    using forest.forest_flat [OF list_forest [OF d, where parent = rm_ParentID]]
    by (simp add: role_buildMenuTree_def comp_def Let_def)
  ultimately show ?thesis by (simp add: role_buildMenuTree_def comp_def Let_def)
qed

lemma distinct_active: "distinct (map mn_ID t) \<Longrightarrow> distinct (map mn_ID (sort_key f (filter P t)))"
  by (simp add: distinct_map distinct_filter inj_on_def)

text \<open>
  What an administrator saves for a role is what the page of the role shows. After a
  successful update the page lists every active permission exactly once, in groups of distinct
  categories, ticked exactly when it was in the request, and the tree of the active menus: the
  top level menus in their order, below each node exactly its children, no node twice, ticked
  exactly when the menu was in the request.
\<close>

theorem role_page_roundtrip:
  assumes ok: "directory_ok w d" and e: "perm_env_ok e ms ps" "distinct ms" "distinct ps"
    and it: "\<And>xs. mset (it xs) = mset (xs :: string list)"
    and d': "roleService_UpdateRolePermission e d r ms ps = (d', answer)"
  shows "\<exists>tree groups. roleService_GetRolePermissionByID it page_ok d' r = Ok (tree, groups) \<and>
    distinct (map fst groups) \<and>
    mset (concat (map snd groups)) = mset (map (api_res (\<lambda>i. i \<in> set ps)) (active_permissions d)) \<and>
    map tn_item tree = filter (\<lambda>n. rm_ParentID n = 0) (map (role_item (\<lambda>i. i \<in> set ms)) (active_menus d)) \<and>
    list_all (complete (list_children rm_ID rm_ParentID (map (role_item (\<lambda>i. i \<in> set ms)) (active_menus d)))) tree \<and>
    distinct (concat (map flat tree))"
proof -
  have m: "matrix d' r = (set ps, set ms)" "d_permissions d' = d_permissions d" "d_menus d' = d_menus d"
    using update_matrix [OF ok e, of r] d' by (auto simp: roleService_UpdateRolePermission_def)
  have act: "active_menus d' = active_menus d" "active_permissions d' = active_permissions d"
    using m by (simp_all add: active_menus_def active_permissions_def)
  let ?tree = "role_buildMenuTree (active_menus d) (\<lambda>i. i \<in> set ms)"
  obtain ks rest where g: "buildApiPermissions it (active_permissions d) (\<lambda>i. i \<in> set ps) (extractCategoryOrder ?tree) =
      map (group_of (\<lambda>i. i \<in> set ps) (active_permissions d)) (ks @ rest)"
    "distinct (ks @ rest)" "set (ks @ rest) = pm_Category ` set (active_permissions d)"
    using buildApiPermissions_spec [of it, OF it] by metis
  have "distinct (map mn_ID (active_menus d))"
    using ok by (simp add: active_menus_def distinct_active directory_ok_def)
  note tree = role_tree [OF this, of "\<lambda>i. i \<in> set ms"]
  have "roleService_GetRolePermissionByID it page_ok d' r =
      Ok (?tree, map (group_of (\<lambda>i. i \<in> set ps) (active_permissions d)) (ks @ rest))"
    by (simp only: role_page Let_def m(1) act fst_conv snd_conv g(1))
  moreover have "distinct (map fst (map (group_of (\<lambda>i. i \<in> set ps) (active_permissions d)) (ks @ rest)))"
    using g(2) by (simp add: group_of_def comp_def)
  ultimately show ?thesis using groups_exact [OF g(2,3), of "\<lambda>i. i \<in> set ps"] tree by blast
qed

definition demo_directory :: directory where
  "demo_directory = two_roles\<lparr> d_menus := demo_menus, d_permissions := [
     \<lparr> pm_ID = 7, pm_Name = ''list'', pm_Category = ''Users'', pm_Slug = ''u:list'', pm_Type = [], pm_Status = 1,
       pm_HttpMethod = ''GET'', pm_HttpPath = ''/api/v1/user/list'', pm_Sort = 2, pm_UpdatedAt = 0 \<rparr>,
     \<lparr> pm_ID = 8, pm_Name = ''roles'', pm_Category = ''Roles'', pm_Slug = ''r:list'', pm_Type = [], pm_Status = 1,
       pm_HttpMethod = ''GET'', pm_HttpPath = ''/api/v1/role/list'', pm_Sort = 1, pm_UpdatedAt = 0 \<rparr>] \<rparr>"

end
