(* ===== verification/Access.thy ===== *)
theory Access
  imports RoleService MenuTree
begin

text \<open>
  Who may do what: the permission functions of internal/service/auth_service.go, the token
  functions of pkg/jwt and the middleware of internal/middleware/auth.go.

  The signature check of the JWT library is a parameter: \<open>verify\<close> takes the secret and the text
  of a token. The k-th lookup of a role in a loop fails when \<open>ferr k\<close> holds.
\<close>

section \<open>Permissions of a user\<close>

definition PrefixRootFile :: string where "PrefixRootFile = ''cloud:file:root:''"

definition PrefixRootTerminal :: string where "PrefixRootTerminal = ''cloud:terminal:root:''"

datatype SystemAccessType = AccessTypeTerminal | AccessTypeFile | AccessTypeOther

text \<open>
  The two loops over the roles differ in the test of the slug only: disabled roles and roles that
  cannot be loaded are skipped, and the first active permission that passes the test ends them.
\<close>

fun role_loop :: "collation \<Rightarrow> (nat \<Rightarrow> bool) \<Rightarrow> directory \<Rightarrow> (string \<Rightarrow> bool) \<Rightarrow> nat \<Rightarrow> Role list \<Rightarrow> bool" where
  "role_loop w ferr d test k [] = False"
| "role_loop w ferr d test k (r # rs) =
     (if rl_Status r \<noteq> 1 then role_loop w ferr d test (Suc k) rs
      else (case role_FindBySlug w (ferr k) d (rl_Slug r) of
        Inl _ \<Rightarrow> role_loop w ferr d test (Suc k) rs
      | Inr None \<Rightarrow> role_loop w ferr d test (Suc k) rs
      | Inr (Some (_, ps, _)) \<Rightarrow>
          (if list_ex (\<lambda>p. test (pm_Slug p) \<and> pm_Status p = 1) ps then True
           else role_loop w ferr d test (Suc k) rs)))"

definition userHasPermission :: "collation \<Rightarrow> (nat \<Rightarrow> bool) \<Rightarrow> directory \<Rightarrow> Role list \<Rightarrow> string \<Rightarrow> bool" where
  "userHasPermission w ferr d roles permissionSlug = role_loop w ferr d (\<lambda>s. s = permissionSlug) 0 roles"

definition userHasPermissionPrefix :: "collation \<Rightarrow> (nat \<Rightarrow> bool) \<Rightarrow> directory \<Rightarrow> Role list \<Rightarrow> string \<Rightarrow> bool" where
  "userHasPermissionPrefix w ferr d roles pre = role_loop w ferr d (\<lambda>s. HasPrefix s pre) 0 roles"

definition HasSystemAccess ::
  "collation \<Rightarrow> bool \<Rightarrow> (nat \<Rightarrow> bool) \<Rightarrow> directory \<Rightarrow> int \<Rightarrow> SystemAccessType \<Rightarrow> bool result" where
  "HasSystemAccess w uerr ferr d userID accessType = (case user_FindByID uerr d userID of
     Inl _ \<Rightarrow> Err (BizError CodeInternalError)
   | Inr None \<Rightarrow> Ok False
   | Inr (Some (user, roles)) \<Rightarrow> (case accessType of
       AccessTypeTerminal \<Rightarrow> Ok (userHasPermissionPrefix w ferr d roles PrefixRootTerminal)
     | AccessTypeFile \<Rightarrow> Ok (userHasPermissionPrefix w ferr d roles PrefixRootFile)
     | AccessTypeOther \<Rightarrow> Ok False))"

definition buildRoles :: "Role list \<Rightarrow> string list" where
  "buildRoles roles = map rl_Slug (filter (\<lambda>r. rl_Status r = 1) roles)"

record PermissionResponse =
  pr_ID :: int
  pr_Name :: string
  pr_Category :: string
  pr_Slug :: string
  pr_Type :: string
  pr_Status :: int
  pr_HttpMethod :: string
  pr_HttpPath :: string
  pr_Sort :: int

definition permission_response :: "Permission \<Rightarrow> PermissionResponse" where
  "permission_response p = \<lparr> pr_ID = pm_ID p, pr_Name = pm_Name p, pr_Category = pm_Category p, pr_Slug = pm_Slug p,
     pr_Type = pm_Type p, pr_Status = pm_Status p, pr_HttpMethod = pm_HttpMethod p, pr_HttpPath = pm_HttpPath p, pr_Sort = 0 \<rparr>"

text \<open>
  aggregate: the active permissions and menus of the enabled roles, collected in maps by id. The
  results come in the order in which Go ranges over the maps, \<open>itp\<close> and \<open>itm\<close>.
\<close>

fun collect :: "collation \<Rightarrow> (nat \<Rightarrow> bool) \<Rightarrow> directory \<Rightarrow> nat \<Rightarrow> Role list \<Rightarrow> Permission list \<times> Menu list \<Rightarrow> Permission list \<times> Menu list" where
  "collect w ferr d k [] acc = acc"
| "collect w ferr d k (r # rs) acc =
     (if rl_Status r \<noteq> 1 then collect w ferr d (Suc k) rs acc
      else (case role_FindBySlug w (ferr k) d (rl_Slug r) of
        Inl _ \<Rightarrow> collect w ferr d (Suc k) rs acc
      | Inr None \<Rightarrow> collect w ferr d (Suc k) rs acc
      | Inr (Some (_, ps, ms)) \<Rightarrow> collect w ferr d (Suc k) rs
          (fold (put_node pm_ID) (filter (\<lambda>p. pm_Status p = 1) ps) (fst acc),
           fold (put_node mn_ID) (filter (\<lambda>m. mn_Status m = 1) ms) (snd acc))))"

definition aggregate ::
  "(Permission list \<Rightarrow> Permission list) \<Rightarrow> (Menu list \<Rightarrow> Menu list) \<Rightarrow> collation \<Rightarrow> (nat \<Rightarrow> bool) \<Rightarrow> directory \<Rightarrow> Role list \<Rightarrow>
   PermissionResponse list \<times> Menu list" where
  "aggregate itp itm w ferr d roles =
     (case collect w ferr d 0 roles ([], []) of (ps, ms) \<Rightarrow> (map permission_response (itp ps), itm ms))"

text \<open>The ways in which Go may range over the maps of a request, and sort.Slice.\<close>

record go_order =
  go_perms :: "Permission list \<Rightarrow> Permission list"
  go_menus :: "Menu list \<Rightarrow> Menu list"
  go_nodes :: "MenuItem list \<Rightarrow> MenuItem list"
  go_nodes' :: "MenuItem list \<Rightarrow> MenuItem list"
  go_slice :: "MenuItem list \<Rightarrow> MenuItem list"

definition GetUserMenuPermission ::
  "go_order \<Rightarrow> collation \<Rightarrow> bool \<Rightarrow> (nat \<Rightarrow> bool) \<Rightarrow> directory \<Rightarrow> int \<Rightarrow> (PermissionResponse list \<times> MenuTreeNode list) result" where
  "GetUserMenuPermission go w uerr ferr d userID = (case user_FindByID uerr d userID of
     Inl _ \<Rightarrow> Err (BizError CodeInternalError)
   | Inr None \<Rightarrow> Err (BizError CodeUserNotFound)
   | Inr (Some (user, roles)) \<Rightarrow>
       (case aggregate (go_perms go) (go_menus go) w ferr d roles of (ps, ms) \<Rightarrow>
          Ok (ps, buildMenuTree (go_slice go) (go_nodes go) (go_nodes' go) ms)))"

definition GetPermissionsByRole :: "collation \<Rightarrow> bool \<Rightarrow> directory \<Rightarrow> string \<Rightarrow> Permission list result" where
  "GetPermissionsByRole w err d slug = (case role_FindBySlug w err d slug of
     Inl _ \<Rightarrow> Err (BizError CodeInternalError)
   | Inr None \<Rightarrow> Err (BizError CodeInvalidParam)
   | Inr (Some (_, ps, _)) \<Rightarrow> Ok ps)"

definition CheckUserPermission :: "collation \<Rightarrow> bool \<Rightarrow> directory \<Rightarrow> int \<Rightarrow> string \<Rightarrow> string \<Rightarrow> bool result" where
  "CheckUserPermission w err d userID meth path = (case role_CheckUserPermission w err d userID meth path of
     Inl _ \<Rightarrow> Err (BizError CodeInternalError)
   | Inr b \<Rightarrow> Ok b)"

definition GetAllRoles :: "bool \<Rightarrow> directory \<Rightarrow> Role list result" where
  "GetAllRoles err d = (case role_ListAll err d of Inl _ \<Rightarrow> Err (BizError CodeInternalError) | Inr rs \<Rightarrow> Ok rs)"

section \<open>Tokens\<close>

record CustomClaims =
  cl_UserID :: int
  cl_Username :: string
  cl_Roles :: "string list"
  cl_ExpiresAt :: int
  cl_IssuedAt :: int

datatype jwt_answer = JwtClaims CustomClaims bool | JwtExpired | JwtError

datatype token_error = ErrTokenInvalid | ErrTokenExpired

text \<open>
  ParseToken reads the answer of the library (the claims, and whether the token is valid);
  GenerateToken signs claims that expire after the configured number of hours, and RefreshToken
  signs the claims of a token that parses again.
\<close>

definition hour :: int where "hour = 3600 * 1000000000"

definition ParseToken :: "(string \<Rightarrow> string \<Rightarrow> jwt_answer) \<Rightarrow> string \<Rightarrow> string \<Rightarrow> token_error + CustomClaims" where
  "ParseToken verify secret token = (case verify secret token of
     JwtExpired \<Rightarrow> Inl ErrTokenExpired
   | JwtError \<Rightarrow> Inl ErrTokenInvalid
   | JwtClaims claims valid \<Rightarrow> (if valid then Inr claims else Inl ErrTokenInvalid))"

definition new_claims :: "int \<Rightarrow> int \<Rightarrow> int \<Rightarrow> string \<Rightarrow> string list \<Rightarrow> CustomClaims" where
  "new_claims expireHours now userID username roles = \<lparr> cl_UserID = userID, cl_Username = username, cl_Roles = roles,
     cl_ExpiresAt = now + wrap64 (expireHours * hour), cl_IssuedAt = now \<rparr>"

definition GenerateToken ::
  "(string \<Rightarrow> CustomClaims \<Rightarrow> string option) \<Rightarrow> string \<Rightarrow> int \<Rightarrow> int \<Rightarrow> int \<Rightarrow> string \<Rightarrow> string list \<Rightarrow> string result" where
  "GenerateToken sign secret expireHours now userID username roles =
     (case sign secret (new_claims expireHours now userID username roles) of
        None \<Rightarrow> Err (Errorf ''sign token'') | Some t \<Rightarrow> Ok t)"

definition RefreshToken ::
  "(string \<Rightarrow> string \<Rightarrow> jwt_answer) \<Rightarrow> (string \<Rightarrow> CustomClaims \<Rightarrow> string option) \<Rightarrow> string \<Rightarrow> int \<Rightarrow> int \<Rightarrow> string \<Rightarrow> string result" where
  "RefreshToken verify sign secret expireHours now token = (case ParseToken verify secret token of
     Inl e \<Rightarrow> Err (Errorf (case e of ErrTokenInvalid \<Rightarrow> ''token invalid'' | ErrTokenExpired \<Rightarrow> ''token expired''))
   | Inr c \<Rightarrow> GenerateToken sign secret expireHours now (cl_UserID c) (cl_Username c) (cl_Roles c))"

section \<open>The middleware\<close>

record http_request =
  rq_Method :: string
  rq_FullPath :: string
  rq_Authorization :: string
  rq_QueryToken :: string
  rq_CookieToken :: "string option"

text \<open>strings.SplitN with a blank and at most two parts.\<close>

definition SplitN2 :: "string \<Rightarrow> string list" where
  "SplitN2 s = (if CHR '' '' \<in> set s
     then [takeWhile (\<lambda>c. c \<noteq> CHR '' '') s, tl (dropWhile (\<lambda>c. c \<noteq> CHR '' '') s)] else [s])"

definition header_token :: "string \<Rightarrow> string" where
  "header_token h = (if h = [] then []
     else (case SplitN2 h of [a, b] \<Rightarrow> (if a = ''Bearer'' then b else []) | [_] \<Rightarrow> h | _ \<Rightarrow> []))"

definition request_token :: "http_request \<Rightarrow> string" where
  "request_token rq =
     (let t1 = header_token (rq_Authorization rq);
          t2 = (if t1 = [] then rq_QueryToken rq else t1)
      in if t2 = [] then (case rq_CookieToken rq of Some c \<Rightarrow> c | None \<Rightarrow> t2) else t2)"

text \<open>Auth answers 401, or puts the claims in the context and goes on.\<close>

definition Auth :: "(string \<Rightarrow> string \<Rightarrow> jwt_answer) \<Rightarrow> string \<Rightarrow> http_request \<Rightarrow> int + CustomClaims" where
  "Auth verify secret rq =
     (let token = request_token rq in
      if token = [] then Inl CodeUnauthorized
      else (case ParseToken verify secret token of
        Inl _ \<Rightarrow> Inl CodeUnauthorized
      | Inr claims \<Rightarrow> Inr claims))"

text \<open>RequirePermission answers 403, also when the check itself fails, or goes on.\<close>

definition RequirePermission :: "collation \<Rightarrow> bool \<Rightarrow> directory \<Rightarrow> int option \<Rightarrow> http_request \<Rightarrow> int + unit" where
  "RequirePermission w err d ctxUser rq = (case ctxUser of
     None \<Rightarrow> Inl CodeForbidden
   | Some userID \<Rightarrow> (case CheckUserPermission w err d userID (rq_Method rq) (rq_FullPath rq) of
       Inl _ \<Rightarrow> Inl CodeForbidden
     | Inr hasPermission \<Rightarrow> (if hasPermission then Inr () else Inl CodeForbidden)))"

text \<open>The chain of a protected group of routes (internal/api/v1/user/routes.go and others).\<close>

definition protected_route ::
  "(string \<Rightarrow> string \<Rightarrow> jwt_answer) \<Rightarrow> string \<Rightarrow> collation \<Rightarrow> bool \<Rightarrow> directory \<Rightarrow> http_request \<Rightarrow> int + CustomClaims" where
  "protected_route verify secret w err d rq = (case Auth verify secret rq of
     Inl c \<Rightarrow> Inl c
   | Inr claims \<Rightarrow> (case RequirePermission w err d (Some (cl_UserID claims)) rq of
       Inl c \<Rightarrow> Inl c
     | Inr _ \<Rightarrow> Inr claims))"

section \<open>What the functions compute\<close>

lemma index_rows_eq: "index_ok w key t \<Longrightarrow> x \<in> set t \<Longrightarrow> y \<in> set t \<Longrightarrow> w (key x) = w (key y) \<Longrightarrow> x = y"
  by (auto simp: index_ok_def distinct_map dest: inj_onD)

text \<open>The slug is unique, so loading a role by its slug gives that role.\<close>

lemma FindBySlug_role:
  assumes "directory_ok w d" "r \<in> set (d_roles d)"
  shows "role_FindBySlug w False d (rl_Slug r) = Ok (Some (r, permissions_of d (rl_ID r), menus_of d (rl_ID r)))"
proof -
  obtain x where x: "first_row rl_ID (\<lambda>q. w (rl_Slug q) = w (rl_Slug r)) (d_roles d) = Some x"
    using first_row_ex [OF assms(2), of "\<lambda>q. w (rl_Slug q) = w (rl_Slug r)"] by blast
  then have "x = r" using first_row_SomeD [OF x] assms
    by (intro index_rows_eq [of w rl_Slug "d_roles d"]) (auto simp: directory_ok_def role_index_def)
  then show ?thesis using x by (simp add: role_FindBySlug_def)
qed

lemma role_loop_iff:
  assumes "directory_ok w d"
  shows "set rs \<subseteq> set (d_roles d) \<Longrightarrow> role_loop w (\<lambda>_. False) d test k rs \<longleftrightarrow>
    (\<exists>r \<in> set rs. rl_Status r = 1 \<and> (\<exists>p \<in> set (permissions_of d (rl_ID r)). test (pm_Slug p) \<and> pm_Status p = 1))"
proof (induction rs arbitrary: k)
  case (Cons r rs)
  then show ?case using FindBySlug_role [OF assms, of r] by (auto simp: list_ex_iff)
qed simp

lemma set_put_node: "set (put_node nid n ns) = insert n {x \<in> set ns. nid x \<noteq> nid n}"
  by (auto simp: put_node_def)

text \<open>Rows of one table: putting them in a map by id loses none.\<close>

lemma set_fold_put:
  assumes "distinct (map nid t)"
  shows "set xs \<subseteq> set t \<Longrightarrow> set ys \<subseteq> set t \<Longrightarrow> set (fold (put_node nid) xs ys) = set xs \<union> set ys"
proof (induction xs arbitrary: ys)
  case (Cons x xs)
  have "y = x" if "y \<in> set ys" "nid y = nid x" for y
    using that Cons.prems by (intro row_eq [OF assms]) auto
  then have "set (put_node nid x ys) = insert x (set ys)" by (auto simp: set_put_node)
  then show ?case using Cons.IH [of "put_node nid x ys"] Cons.prems by auto
qed simp

lemma collect_sets:
  assumes ok: "directory_ok w d"
  shows "set rs \<subseteq> set (d_roles d) \<Longrightarrow> set ps \<subseteq> set (d_permissions d) \<Longrightarrow> set ms \<subseteq> set (d_menus d) \<Longrightarrow>
    set (fst (collect w (\<lambda>_. False) d k rs (ps, ms))) =
      set ps \<union> {p. \<exists>r \<in> set rs. rl_Status r = 1 \<and> p \<in> set (permissions_of d (rl_ID r)) \<and> pm_Status p = 1} \<and>
    set (snd (collect w (\<lambda>_. False) d k rs (ps, ms))) =
      set ms \<union> {m. \<exists>r \<in> set rs. rl_Status r = 1 \<and> m \<in> set (menus_of d (rl_ID r)) \<and> mn_Status m = 1}"
proof (induction rs arbitrary: k ps ms)
  case (Cons r rs)
  show ?case
  proof (cases "rl_Status r = 1")
    case True
    let ?p = "fold (put_node pm_ID) (filter (\<lambda>p. pm_Status p = 1) (permissions_of d (rl_ID r))) ps"
    let ?m = "fold (put_node mn_ID) (filter (\<lambda>m. mn_Status m = 1) (menus_of d (rl_ID r))) ms"
    have sub: "set (permissions_of d (rl_ID r)) \<subseteq> set (d_permissions d)" "set (menus_of d (rl_ID r)) \<subseteq> set (d_menus d)"
      by (auto simp: permissions_of_def menus_of_def)
    have setp: "set ?p = {p \<in> set (permissions_of d (rl_ID r)). pm_Status p = 1} \<union> set ps"
      using ok sub Cons.prems by (subst set_fold_put [of _ "d_permissions d"]) (auto simp: directory_ok_def)
    have setm: "set ?m = {m \<in> set (menus_of d (rl_ID r)). mn_Status m = 1} \<union> set ms"
      using ok sub Cons.prems by (subst set_fold_put [of _ "d_menus d"]) (auto simp: directory_ok_def)
    have "collect w (\<lambda>_. False) d k (r # rs) (ps, ms) = collect w (\<lambda>_. False) d (Suc k) rs (?p, ?m)"
      using True FindBySlug_role [OF ok, of r] Cons.prems by simp
    then show ?thesis using Cons.IH [of ?p ?m "Suc k"] Cons.prems sub setp setm True by auto
  next
    case False
    then show ?thesis using Cons by auto
  qed
qed simp

section \<open>Properties\<close>

definition enabled_roles :: "directory \<Rightarrow> directory" where
  "enabled_roles d = d\<lparr> d_roles := filter (\<lambda>r. rl_Status r = 1) (d_roles d) \<rparr>"

lemma roles_of_subset: "set (roles_of d u) \<subseteq> set (d_roles d)"
  by (auto simp: roles_of_def)

lemma FindByID_Some:
  "user_FindByID False d u = Ok (Some (x, rs)) \<Longrightarrow> x \<in> set (d_users d) \<and> ac_ID x = u \<and> rs = roles_of d u"
  by (auto simp: user_FindByID_def user_first_def dest: first_row_SomeD split: if_splits)

lemma aggregate_perms:
  assumes "directory_ok w d" "\<And>xs. set (itp xs) = set xs"
  shows "set (fst (aggregate itp itm w (\<lambda>_. False) d (roles_of d u))) =
    permission_response ` {p. \<exists>r \<in> set (roles_of d u). rl_Status r = 1 \<and> p \<in> set (permissions_of d (rl_ID r)) \<and> pm_Status p = 1}"
  using collect_sets [OF assms(1) roles_of_subset, of "[]" "[]" 0 u] assms(2)
  by (cases "collect w (\<lambda>_. False) d 0 (roles_of d u) ([], [])") (simp add: aggregate_def)

text \<open>
  C22: The permissions that a user is shown (at login and by GetUserMenuPermission) are sound for
  the check of the routes: whatever is shown is let through. They are exactly what the check
  would grant if disabled roles did not exist, so for a user without disabled roles the two agree.
\<close>

theorem shown_permissions_are_granted:
  assumes ok: "directory_ok w d" and perms: "\<And>xs. set (go_perms go xs) = set xs"
    and shown: "GetUserMenuPermission go w False (\<lambda>_. False) d u = Ok (ps, tree)"
  shows "((\<exists>q \<in> set ps. w (pr_HttpMethod q) = w meth \<and> w (pr_HttpPath q) = w path) \<longleftrightarrow> granted w (enabled_roles d) u meth path) \<and>
    (granted w (enabled_roles d) u meth path \<longrightarrow> CheckUserPermission w False d u meth path = Ok True) \<and>
    ((\<forall>r \<in> set (roles_of d u). rl_Status r = 1) \<longrightarrow>
       CheckUserPermission w False d u meth path = Ok (granted w (enabled_roles d) u meth path))"
proof -
  obtain x rs where x: "user_FindByID False d u = Ok (Some (x, rs))"
    "ps = fst (aggregate (go_perms go) (go_menus go) w (\<lambda>_. False) d rs)"
    using shown by (auto simp: GetUserMenuPermission_def split: sum.splits option.splits prod.splits)
  then have u: "u \<in> ac_ID ` set (d_users d)" "rs = roles_of d u" using FindByID_Some by blast+
  have "set ps = permission_response ` {p. \<exists>r \<in> set (roles_of d u). rl_Status r = 1 \<and>
      p \<in> set (permissions_of d (rl_ID r)) \<and> pm_Status p = 1}"
    using aggregate_perms [OF ok perms] x u by simp
  then have "(\<exists>q \<in> set ps. w (pr_HttpMethod q) = w meth \<and> w (pr_HttpPath q) = w path) \<longleftrightarrow>
      granted w (enabled_roles d) u meth path"
    using u(1) by (auto simp: granted_def enabled_roles_def roles_of_def permissions_of_def grants_def
        permission_response_def)
  moreover have "granted w (enabled_roles d) u meth path \<Longrightarrow> granted w d u meth path"
    by (auto simp: granted_def enabled_roles_def roles_of_def permissions_of_def)
  moreover have "granted w (enabled_roles d) u meth path = granted w d u meth path"
    if "\<forall>r \<in> set (roles_of d u). rl_Status r = 1"
    using that by (auto simp: granted_def enabled_roles_def roles_of_def permissions_of_def)
  ultimately show ?thesis by (auto simp: CheckUserPermission_def CheckUserPermission_granted)
qed

lemma FindByID_cases:
  "\<exists>x. user_FindByID False d u = (if u \<in> ac_ID ` set (d_users d) then Ok (Some (x, roles_of d u)) else Ok None)"
proof (cases "u \<in> ac_ID ` set (d_users d)")
  case True
  then obtain y where y: "y \<in> set (d_users d)" "ac_ID y = u" by blast
  obtain x where "first_row ac_ID (\<lambda>x. ac_ID x = u) (d_users d) = Some x"
    using first_row_ex [of y "d_users d" "\<lambda>x. ac_ID x = u" ac_ID] y by blast
  then show ?thesis using True first_row_SomeD [of ac_ID "\<lambda>x. ac_ID x = u" "d_users d" x]
    by (auto simp: user_FindByID_def user_first_def)
next
  case False
  then have "first_row ac_ID (\<lambda>x. ac_ID x = u) (d_users d) = None" by (auto simp: first_row_None)
  then show ?thesis using False by (simp add: user_FindByID_def user_first_def)
qed

text \<open>
  A user has root access to files or terminals exactly when the account exists and one of its
  enabled roles has an active permission whose slug begins with the prefix of that access; an
  unknown account is denied. A failing query of the account is an error, and roles that fail to
  load grant nothing.
\<close>

theorem system_access_exact:
  assumes ok: "directory_ok w d"
  shows "HasSystemAccess w False (\<lambda>_. False) d u t =
      Ok (u \<in> ac_ID ` set (d_users d) \<and> t \<noteq> AccessTypeOther \<and>
          (\<exists>r \<in> set (roles_of d u). rl_Status r = 1 \<and> (\<exists>p \<in> set (permissions_of d (rl_ID r)).
             HasPrefix (pm_Slug p) (if t = AccessTypeFile then PrefixRootFile else PrefixRootTerminal) \<and> pm_Status p = 1))) \<and>
    HasSystemAccess w True ferr d u t = Err (BizError CodeInternalError) \<and>
    HasSystemAccess w False (\<lambda>_. True) d u t = Ok False"
proof -
  obtain x where x: "user_FindByID False d u = (if u \<in> ac_ID ` set (d_users d) then Ok (Some (x, roles_of d u)) else Ok None)"
    using FindByID_cases by blast
  have err: "user_FindByID True d u = Err DbError" by (simp add: user_FindByID_def user_first_def)
  have fail: "\<not> role_loop w (\<lambda>_. True) d test k rs" for test k rs
    by (induction rs arbitrary: k) (auto simp: role_FindBySlug_def)
  show ?thesis
    by (cases t) (simp_all add: HasSystemAccess_def userHasPermissionPrefix_def x err fail
        role_loop_iff [OF ok roles_of_subset])
qed

definition access_demo :: directory where
  "access_demo = demo_directory\<lparr>
     d_users := [\<lparr> ac_ID = 5, ac_Username = ''bob'', ac_Password = ''x'', ac_RealName = [], ac_Phone = [], ac_Avatar = [],
       ac_Email = ''bob12@qq.com'', ac_Status = 1, ac_Priority = 1, ac_MultiTraining = 0, ac_CrossServer = 0,
       ac_CreatedAt = 0, ac_UpdatedAt = 0 \<rparr>],
     d_role_users := [(2, 5)] \<rparr>"

abbreviation go_plain :: go_order where
  "go_plain \<equiv> \<lparr> go_perms = (\<lambda>x. x), go_menus = (\<lambda>x. x), go_nodes = (\<lambda>x. x), go_nodes' = (\<lambda>x. x), go_slice = sort_key menu_key \<rparr>"

lemma shown_permissions_are_granted_witness:
  "CheckUserPermission (\<lambda>s. s) False access_demo 5 ''GET'' ''/api/v1/user/list'' = Ok True"
proof -
  have ok: "directory_ok (\<lambda>s. s) access_demo" by code_simp
  obtain ps tree where p: "GetUserMenuPermission go_plain (\<lambda>s. s) False (\<lambda>_. False) access_demo 5 = Ok (ps, tree)"
    "map pr_HttpPath ps = [''/api/v1/user/list'']" "map pr_HttpMethod ps = [''GET'']"
  proof -
    have "(case GetUserMenuPermission go_plain (\<lambda>s. s) False (\<lambda>_. False) access_demo 5 of Inl _ \<Rightarrow> False
        | Inr (ps, _) \<Rightarrow> map pr_HttpPath ps = [''/api/v1/user/list''] \<and> map pr_HttpMethod ps = [''GET''])"
      by code_simp
    then show ?thesis using that by (auto split: sum.splits)
  qed
  have "\<exists>q \<in> set ps. pr_HttpMethod q = ''GET'' \<and> pr_HttpPath q = ''/api/v1/user/list''" using p(2,3) by (cases ps) auto
  then show ?thesis using shown_permissions_are_granted [OF ok _ p(1), of "''GET''" "''/api/v1/user/list''"] by simp
qed

text \<open>
  A protected route is entered exactly by requests whose token (of the header, else of the
  query, else of the cookie) the JWT library accepts and whose user the directory grants the
  method and path. Without an accepted token the answer is 401, without the permission it is 403,
  and a failing permission query lets nobody in.
\<close>

theorem protected_route_exact:
  "(protected_route verify secret w False d rq = Inr claims \<longleftrightarrow>
      request_token rq \<noteq> [] \<and> verify secret (request_token rq) = JwtClaims claims True \<and>
      granted w d (cl_UserID claims) (rq_Method rq) (rq_FullPath rq)) \<and>
   (protected_route verify secret w err d rq = Inl CodeUnauthorized \<longleftrightarrow>
      request_token rq = [] \<or> (\<forall>c. verify secret (request_token rq) \<noteq> JwtClaims c True)) \<and>
   protected_route verify secret w True d rq \<in> {Inl CodeUnauthorized, Inl CodeForbidden}"
proof -
  have "CodeUnauthorized \<noteq> CodeForbidden" by (simp add: CodeUnauthorized_def CodeForbidden_def)
  then show ?thesis using permission_rows_granted [of w d "cl_UserID claims" "rq_Method rq" "rq_FullPath rq"]
    by (auto simp: protected_route_def Auth_def RequirePermission_def ParseToken_def CheckUserPermission_def
        permission_rows_granted role_CheckUserPermission_def Let_def split: jwt_answer.splits sum.splits)
qed

lemma bearer_token: "t \<noteq> [] \<Longrightarrow> request_token (rq\<lparr> rq_Authorization := ''Bearer '' @ t \<rparr>) = t"
  by (simp add: request_token_def header_token_def SplitN2_def)

end
