(* ===== verification/Passwords.thy ===== *)
theory Passwords
  imports Prelude
begin

text \<open>
  Passwords on their way in: pkg/utils/aes_cryptojs.go (the browser encrypts a password with the
  default format of CryptoJS: base64 of a header, a salt and AES-256-CBC blocks) and
  pkg/utils/validator.go.

  The digest md5 and the block cipher of AES are parameters. The standard base64 decoder, the
  chaining of blocks and the counting of runes are written out.
\<close>

section \<open>base64\<close>

definition b64_alphabet :: string where
  "b64_alphabet = ''ABCDEFGHIJKLMNOPQRSTUVWXYZabcdefghijklmnopqrstuvwxyz0123456789+/''"

definition b64_val :: "char \<Rightarrow> nat option" where
  "b64_val c = (if c \<in> set b64_alphabet then Some (length (takeWhile (\<lambda>x. x \<noteq> c) b64_alphabet)) else None)"

definition byte :: "nat \<Rightarrow> char" where
  "byte n = char_of n"

definition p0 :: "nat \<Rightarrow> nat \<Rightarrow> nat" where "p0 x y = x * 4 + y div 16"
definition p1 :: "nat \<Rightarrow> nat \<Rightarrow> nat" where "p1 y z = y mod 16 * 16 + z div 4"
definition p2 :: "nat \<Rightarrow> nat \<Rightarrow> nat" where "p2 z v = z mod 4 * 64 + v"

text \<open>Groups of four characters; the last one may end in one or two equal signs.\<close>

fun b64_quads :: "string \<Rightarrow> string option" where
  "b64_quads [] = Some []"
| "b64_quads (a # b # c # d # rest) =
     (case (b64_val a, b64_val b) of
        (Some x, Some y) \<Rightarrow>
          (if rest = [] \<and> c = CHR ''='' \<and> d = CHR ''='' then Some [byte (p0 x y)]
           else (case b64_val c of
             None \<Rightarrow> None
           | Some z \<Rightarrow>
               (if rest = [] \<and> d = CHR ''='' then Some [byte (p0 x y), byte (p1 y z)]
                else (case b64_val d of
                  None \<Rightarrow> None
                | Some v \<Rightarrow> map_option (\<lambda>t. byte (p0 x y) # byte (p1 y z) # byte (p2 z v) # t)
                            (b64_quads rest)))))
      | _ \<Rightarrow> None)"
| "b64_quads _ = None"

text \<open>DecodeString of the standard encoding skips line breaks.\<close>

definition b64_decode :: "string \<Rightarrow> string option" where
  "b64_decode s = b64_quads (filter (\<lambda>c. c \<noteq> CHR 0x0A \<and> c \<noteq> CHR 0x0D) s)"

section \<open>AES-256-CBC\<close>

fun xor_char :: "char \<Rightarrow> char \<Rightarrow> char" where
  "xor_char (Char a0 a1 a2 a3 a4 a5 a6 a7) (Char b0 b1 b2 b3 b4 b5 b6 b7) =
     Char (a0 \<noteq> b0) (a1 \<noteq> b1) (a2 \<noteq> b2) (a3 \<noteq> b3) (a4 \<noteq> b4) (a5 \<noteq> b5) (a6 \<noteq> b6) (a7 \<noteq> b7)"

definition xor_block :: "string \<Rightarrow> string \<Rightarrow> string" where
  "xor_block a b = map2 xor_char a b"

definition BlockSize :: nat where "BlockSize = 16"

function cbc_decrypt :: "(string \<Rightarrow> string) \<Rightarrow> string \<Rightarrow> string \<Rightarrow> string" where
  "cbc_decrypt dec iv ct = (if length ct < BlockSize then []
     else xor_block (dec (take BlockSize ct)) iv @ cbc_decrypt dec (take BlockSize ct) (drop BlockSize ct))"
  by pat_completeness auto
termination
  by (relation "measure (\<lambda>(_, _, ct). length ct)") (auto simp: BlockSize_def)

declare cbc_decrypt.simps [simp del]

text \<open>
  evpBytesToKey: digests are appended until there are enough bytes. The fuel bounds the rounds;
  three are enough for the 48 bytes of key and vector.
\<close>

fun evp_loop :: "(string \<Rightarrow> string) \<Rightarrow> string \<Rightarrow> string \<Rightarrow> nat \<Rightarrow> nat \<Rightarrow> string \<Rightarrow> string \<Rightarrow> string" where
  "evp_loop md5 pass salt need 0 d di = d"
| "evp_loop md5 pass salt need (Suc k) d di =
     (if length d < need then let di' = md5 (di @ pass @ salt) in evp_loop md5 pass salt need k (d @ di') di' else d)"

definition evpBytesToKey :: "(string \<Rightarrow> string) \<Rightarrow> string \<Rightarrow> string \<Rightarrow> nat \<Rightarrow> nat \<Rightarrow> string \<times> string" where
  "evpBytesToKey md5 pass salt keyLen ivLen =
     (let d = evp_loop md5 pass salt (keyLen + ivLen) (keyLen + ivLen) [] []
      in (take keyLen d, take ivLen (drop keyLen d)))"

text \<open>
  DecryptCryptoJSPassphrase. The last byte of the plain text is read before anything is known of
  its length: an empty cipher text is an index out of range.
\<close>

definition DecryptCryptoJSPassphrase ::
  "(string \<Rightarrow> string) \<Rightarrow> (string \<Rightarrow> string \<Rightarrow> string) \<Rightarrow> string \<Rightarrow> string \<Rightarrow> string result" where
  "DecryptCryptoJSPassphrase md5 aes_dec cipherBase64 pass = (case b64_decode cipherBase64 of
     None \<Rightarrow> Err (BizError CodeParamFormatError)
   | Some data \<Rightarrow>
      (if length data < 16 \<or> take 8 data \<noteq> ''Salted__'' then Err (BizError CodeParamFormatError)
       else let salt = take 8 (drop 8 data); ciphertext = drop 16 data
            in case evpBytesToKey md5 pass salt 32 16 of (key, iv) \<Rightarrow>
              (if length ciphertext mod BlockSize \<noteq> 0 then Err (BizError CodeParamFormatError)
               else let plain = cbc_decrypt (aes_dec key) iv ciphertext
                    in if plain = [] then Err (Panic ''index out of range'')
                       else let pad = (of_char (last plain) :: nat)
                            in if pad = 0 \<or> pad > BlockSize \<or> pad > length plain then Err (BizError CodeParamFormatError)
                               else Ok (take (length plain - pad) plain))))"

text \<open>The passphrase: of the configuration, else of two environment variables.\<close>

record aes_env =
  ae_config :: "string option"
  ae_AES_SECRET :: string
  ae_VITE_AES_KEY :: string
  ae_md5 :: "string \<Rightarrow> string"
  ae_decrypt :: "string \<Rightarrow> string \<Rightarrow> string"

definition aes_passphrase :: "aes_env \<Rightarrow> string" where
  "aes_passphrase ae =
     (let p = (case ae_config ae of Some s \<Rightarrow> s | None \<Rightarrow> []);
          p = (if p = [] then ae_AES_SECRET ae else p)
      in if p = [] then ae_VITE_AES_KEY ae else p)"

definition DecryptIfCryptoJS :: "aes_env \<Rightarrow> string \<Rightarrow> string result" where
  "DecryptIfCryptoJS ae s =
     (if s = [] then Ok s
      else if \<not> HasPrefix s ''U2FsdGVkX1'' then Ok s
      else if aes_passphrase ae = [] then Ok s
      else (case DecryptCryptoJSPassphrase (ae_md5 ae) (ae_decrypt ae) s (aes_passphrase ae) of
        Inl (Panic m) \<Rightarrow> Err (Panic m)
      | Inl _ \<Rightarrow> Ok s
      | Inr p \<Rightarrow> Ok p))"

section \<open>Validation\<close>

text \<open>
  The width of the first rune: a valid UTF-8 sequence, or one byte when there is none.
\<close>

definition in_range :: "nat \<Rightarrow> nat \<Rightarrow> char \<Rightarrow> bool" where
  "in_range lo hi c = (lo \<le> (of_char c :: nat) \<and> (of_char c :: nat) \<le> hi)"

definition rune_width :: "string \<Rightarrow> nat" where
  "rune_width s =
     (case s of
        a # b # c # d # _ \<Rightarrow>
          (if in_range 0xC2 0xDF a \<and> in_range 0x80 0xBF b then 2
           else if ((in_range 0xE0 0xE0 a \<and> in_range 0xA0 0xBF b) \<or> (in_range 0xE1 0xEC a \<and> in_range 0x80 0xBF b) \<or>
                    (in_range 0xED 0xED a \<and> in_range 0x80 0x9F b) \<or> (in_range 0xEE 0xEF a \<and> in_range 0x80 0xBF b))
                   \<and> in_range 0x80 0xBF c then 3
           else if ((in_range 0xF0 0xF0 a \<and> in_range 0x90 0xBF b) \<or> (in_range 0xF1 0xF3 a \<and> in_range 0x80 0xBF b) \<or>
                    (in_range 0xF4 0xF4 a \<and> in_range 0x80 0x8F b))
                   \<and> in_range 0x80 0xBF c \<and> in_range 0x80 0xBF d then 4
           else 1)
      | a # b # c # _ \<Rightarrow>
          (if in_range 0xC2 0xDF a \<and> in_range 0x80 0xBF b then 2
           else if ((in_range 0xE0 0xE0 a \<and> in_range 0xA0 0xBF b) \<or> (in_range 0xE1 0xEC a \<and> in_range 0x80 0xBF b) \<or>
                    (in_range 0xED 0xED a \<and> in_range 0x80 0x9F b) \<or> (in_range 0xEE 0xEF a \<and> in_range 0x80 0xBF b))
                   \<and> in_range 0x80 0xBF c then 3
           else 1)
      | a # b # _ \<Rightarrow> (if in_range 0xC2 0xDF a \<and> in_range 0x80 0xBF b then 2 else 1)
      | _ \<Rightarrow> 1)"

lemma rune_width_range: "1 \<le> rune_width s \<and> rune_width s \<le> 4"
  by (auto simp: rune_width_def split: list.split)

function RuneCountInString :: "string \<Rightarrow> nat" where
  "RuneCountInString s = (if s = [] then 0 else Suc (RuneCountInString (drop (rune_width s) s)))"
  by pat_completeness auto
termination
proof (relation "measure length")
  fix s :: string assume "s \<noteq> []"
  moreover have "1 \<le> rune_width s" using rune_width_range by blast
  ultimately show "(drop (rune_width s) s, s) \<in> measure length" by (cases s) auto
qed simp

declare RuneCountInString.simps [simp del]

definition ValidatePassword :: "string \<Rightarrow> unit result" where
  "ValidatePassword pwd =
     (if Contains_str pwd '' '' then Err (Errorf ''password has a blank'')
      else let n = RuneCountInString pwd in
        if n < 6 \<or> n > 18 then Err (Errorf ''password length'') else Ok ())"

lemma RuneCount_bounds: "RuneCountInString s \<le> length s \<and> length s \<le> 4 * RuneCountInString s"
proof (induction s rule: RuneCountInString.induct)
  case (1 s)
  show ?case
  proof (cases "s = []")
    case False
    have "1 \<le> rune_width s" "rune_width s \<le> 4" using rune_width_range by blast+
    then have "length s \<le> length (drop (rune_width s) s) + 4" "length (drop (rune_width s) s) < length s"
      using False by auto
    then show ?thesis using 1 [OF False] False by (subst (1 2) RuneCountInString.simps) auto
  qed (simp add: RuneCountInString.simps)
qed

text \<open>
  A password that passes the validation has no blank and between 6 and 72 bytes, whatever
  its encoding; 72 bytes is the most that bcrypt takes, so the length check of bcrypt never
  refuses a validated password.
\<close>

theorem validated_password_fits_bcrypt:
  assumes "ValidatePassword pwd = Ok ()"
  shows "6 \<le> length pwd \<and> length pwd \<le> 72 \<and> CHR '' '' \<notin> set pwd"
proof -
  have "\<not> Contains_str pwd '' ''" "6 \<le> RuneCountInString pwd" "RuneCountInString pwd \<le> 18"
    using assms by (auto simp: ValidatePassword_def Let_def split: if_splits)
  moreover from this(1) have "CHR '' '' \<notin> set pwd" by (auto simp: Contains_str_def sublist_def in_set_conv_decomp)
  ultimately show ?thesis using RuneCount_bounds [of pwd] by simp
qed

section \<open>What the browser sends\<close>

text \<open>
  The format of CryptoJS: padding to full blocks, chaining, the header and the salt in front, and
  base64 around it.
\<close>

definition pad_blocks :: "string \<Rightarrow> string" where
  "pad_blocks p = (let n = BlockSize - length p mod BlockSize in p @ replicate n (byte n))"

function cbc_encrypt :: "(string \<Rightarrow> string) \<Rightarrow> string \<Rightarrow> string \<Rightarrow> string" where
  "cbc_encrypt enc iv pt = (if length pt < BlockSize then []
     else let b = enc (xor_block (take BlockSize pt) iv) in b @ cbc_encrypt enc b (drop BlockSize pt))"
  by pat_completeness auto
termination
  by (relation "measure (\<lambda>(_, _, pt). length pt)") (auto simp: BlockSize_def)

declare cbc_encrypt.simps [simp del]

definition b64_char :: "nat \<Rightarrow> char" where
  "b64_char v = b64_alphabet ! v"

definition q0 :: "nat \<Rightarrow> nat" where "q0 x = x div 4"
definition q1 :: "nat \<Rightarrow> nat \<Rightarrow> nat" where "q1 x y = x mod 4 * 16 + y div 16"
definition q2 :: "nat \<Rightarrow> nat \<Rightarrow> nat" where "q2 y z = y mod 16 * 4 + z div 64"
definition q3 :: "nat \<Rightarrow> nat" where "q3 z = z mod 64"

fun b64_encode :: "string \<Rightarrow> string" where
  "b64_encode [] = []"
| "b64_encode [a] = (let x = of_char a in [b64_char (q0 x), b64_char (q1 x 0), CHR ''='', CHR ''=''])"
| "b64_encode [a, b] = (let x = of_char a; y = of_char b in
     [b64_char (q0 x), b64_char (q1 x y), b64_char (q2 y 0), CHR ''=''])"
| "b64_encode (a # b # c # rest) = (let x = of_char a; y = of_char b; z = of_char c in
     [b64_char (q0 x), b64_char (q1 x y), b64_char (q2 y z), b64_char (q3 z)] @ b64_encode rest)"

definition cryptojs_encrypt ::
  "(string \<Rightarrow> string) \<Rightarrow> (string \<Rightarrow> string \<Rightarrow> string) \<Rightarrow> string \<Rightarrow> string \<Rightarrow> string \<Rightarrow> string" where
  "cryptojs_encrypt md5 aes_enc pass salt p = (case evpBytesToKey md5 pass salt 32 16 of
     (key, iv) \<Rightarrow> b64_encode (''Salted__'' @ salt @ cbc_encrypt (aes_enc key) iv (pad_blocks p)))"

lemma b64_table: "list_all (\<lambda>v. b64_val (b64_char v) = Some v \<and> b64_char v \<notin> {CHR ''='', CHR 0x0A, CHR 0x0D}) [0..<64]"
  by code_simp

lemma b64_char [simp]:
  "v < 64 \<Longrightarrow> b64_val (b64_char v) = Some v" "v < 64 \<Longrightarrow> b64_char v \<noteq> CHR ''=''"
  "v < 64 \<Longrightarrow> b64_char v \<noteq> CHR 0x0A" "v < 64 \<Longrightarrow> b64_char v \<noteq> CHR 0x0D"
  using b64_table by (auto simp: list_all_iff)

lemma byte_of_char [simp]: "byte (of_char c) = c"
  by (simp add: byte_def)

lemma of_char_less [simp]: "(of_char (c :: char) :: nat) < 256"
  by (metis mod_less_divisor of_char_mod_256 zero_less_numeral)

text \<open>The digits of three bytes in base 64, and back.\<close>

lemma b64_digits [simp]:
  "x < 256 \<Longrightarrow> q0 x < 64" "y < 256 \<Longrightarrow> q1 x y < 64" "z < 256 \<Longrightarrow> q2 y z < 64" "q3 z < 64"
proof -
  have m: "x mod 4 < 4" "y mod 16 < 16" by simp_all
  show "x < 256 \<Longrightarrow> q0 x < 64" "q3 z < 64" by (simp_all add: q0_def q3_def)
  show "q1 x y < 64" if "y < 256" using less_mult_imp_div_less [of y 16 16] that m(1) by (simp add: q1_def)
  show "q2 y z < 64" if "z < 256" using less_mult_imp_div_less [of z 4 64] that m(2) by (simp add: q2_def)
qed

lemma b64_bytes [simp]:
  "x < 256 \<Longrightarrow> y < 256 \<Longrightarrow> p0 (q0 x) (q1 x y) = x"
  "y < 256 \<Longrightarrow> z < 256 \<Longrightarrow> p1 (q1 x y) (q2 y z) = y"
  "z < 256 \<Longrightarrow> p2 (q2 y z) (q3 z) = z"
proof -
  have d: "(a * 16 + b) div 16 = a" "(a * 16 + b) mod 16 = b" if "b < 16" for a b :: nat using that by simp_all
  have e: "(a * 4 + b) div 4 = a" "(a * 4 + b) mod 4 = b" if "b < 4" for a b :: nat using that by simp_all
  show "p0 (q0 x) (q1 x y) = x" if "x < 256" "y < 256"
    using that by (simp add: p0_def q0_def q1_def d less_mult_imp_div_less)
  show "p1 (q1 x y) (q2 y z) = y" if "y < 256" "z < 256"
    using that by (simp add: p1_def q1_def q2_def d e less_mult_imp_div_less)
  show "p2 (q2 y z) (q3 z) = z" if "z < 256"
    using that by (simp add: p2_def q2_def q3_def e less_mult_imp_div_less)
qed

lemma b64_quads_encode: "b64_quads (b64_encode s) = Some s"
proof (induction s rule: b64_encode.induct)
  case (2 a)
  then show ?case by (simp add: Let_def)
next
  case (3 a b)
  then show ?case by (simp add: Let_def)
next
  case (4 a b c rest)
  then show ?case by (simp add: Let_def)
qed simp

lemma b64_encode_chars: "list_all (\<lambda>c. c \<noteq> CHR 0x0A \<and> c \<noteq> CHR 0x0D) (b64_encode s)"
  by (induction s rule: b64_encode.induct) (simp_all add: Let_def)

lemma b64_decode_encode: "b64_decode (b64_encode s) = Some s"
proof -
  have "filter (\<lambda>c. c \<noteq> CHR 0x0A \<and> c \<noteq> CHR 0x0D) (b64_encode s) = b64_encode s"
    using b64_encode_chars by (simp add: filter_id_conv list_all_iff)
  then show ?thesis by (simp add: b64_decode_def b64_quads_encode)
qed

section \<open>The round trip\<close>

lemma xor_char_twice [simp]: "xor_char (xor_char a b) b = a"
  by (cases a; cases b) auto

lemma xor_block_twice: "length a = length b \<Longrightarrow> xor_block (xor_block a b) b = a"
  by (induction a b rule: list_induct2) (simp_all add: xor_block_def)

lemma length_xor_block [simp]: "length (xor_block a b) = min (length a) (length b)"
  by (simp add: xor_block_def)

text \<open>What the program relies on: digests have 16 bytes, and AES maps blocks to blocks one to one.\<close>

definition aes_ok :: "(string \<Rightarrow> string) \<Rightarrow> (string \<Rightarrow> string \<Rightarrow> string) \<Rightarrow> (string \<Rightarrow> string \<Rightarrow> string) \<Rightarrow> bool" where
  "aes_ok md5 enc dec = ((\<forall>s. length (md5 s) = 16) \<and>
     (\<forall>k b. length k = 32 \<longrightarrow> length b = 16 \<longrightarrow> length (enc k b) = 16 \<and> dec k (enc k b) = b))"

lemma cbc_roundtrip:
  assumes "\<And>b. length b = 16 \<Longrightarrow> length (enc b) = 16 \<and> dec (enc b) = b"
  shows "length iv = 16 \<Longrightarrow> length pt mod 16 = 0 \<Longrightarrow>
    cbc_decrypt dec iv (cbc_encrypt enc iv pt) = pt \<and> length (cbc_encrypt enc iv pt) = length pt"
proof (induction "length pt" arbitrary: iv pt rule: less_induct)
  case less
  show ?case
  proof (cases "length pt < 16")
    case True
    then have "pt = []" using less.prems by simp
    then show ?thesis by (simp add: cbc_encrypt.simps cbc_decrypt.simps BlockSize_def)
  next
    case False
    let ?x = "xor_block (take 16 pt) iv"
    have x: "length ?x = 16" using False less.prems by simp
    have b: "length (enc ?x) = 16" "dec (enc ?x) = ?x" using assms [OF x] by auto
    have "length (drop 16 pt) mod 16 = 0" using less.prems False by (metis length_drop le_mod_geq not_less)
    then have IH: "cbc_decrypt dec (enc ?x) (cbc_encrypt enc (enc ?x) (drop 16 pt)) = drop 16 pt"
      "length (cbc_encrypt enc (enc ?x) (drop 16 pt)) = length (drop 16 pt)"
      using less.hyps [of "drop 16 pt" "enc ?x"] False b(1) by auto
    have e: "cbc_encrypt enc iv pt = enc ?x @ cbc_encrypt enc (enc ?x) (drop 16 pt)"
      using False by (subst cbc_encrypt.simps) (simp add: BlockSize_def Let_def)
    have "cbc_decrypt dec iv (cbc_encrypt enc iv pt) = xor_block ?x iv @ drop 16 pt"
      unfolding e using b IH(1) by (subst cbc_decrypt.simps) (simp add: BlockSize_def)
    also have "xor_block ?x iv = take 16 pt" using False less.prems by (intro xor_block_twice) simp
    finally show ?thesis using e b IH(2) False by simp
  qed
qed

lemma evp_lengths:
  assumes "\<And>s. length (md5 s) = (16 :: nat)"
  shows "length (fst (evpBytesToKey md5 pass salt 32 16)) = 32 \<and> length (snd (evpBytesToKey md5 pass salt 32 16)) = 16"
  using assms by (simp add: evpBytesToKey_def numeral_eq_Suc Let_def)

lemma pad_blocks_props:
  "length (pad_blocks p) mod 16 = 0" "pad_blocks p \<noteq> []"
  "(of_char (last (pad_blocks p)) :: nat) = 16 - length p mod 16" "length (pad_blocks p) = length p + (16 - length p mod 16)"
proof -
  define m where "m = length p mod 16"
  then have m: "length p mod 16 = m" "m < 16" by simp_all
  then show "pad_blocks p \<noteq> []" "length (pad_blocks p) = length p + (16 - length p mod 16)"
    by (auto simp: pad_blocks_def BlockSize_def Let_def)
  have "(length p + (16 - length p mod 16)) mod 16 = 0" by presburger
  then show "length (pad_blocks p) mod 16 = 0" by (simp add: pad_blocks_def BlockSize_def Let_def)
  show "(of_char (last (pad_blocks p)) :: nat) = 16 - length p mod 16"
    using m by (auto simp: pad_blocks_def BlockSize_def Let_def byte_def)
qed

lemma decrypt_encrypt:
  assumes "aes_ok md5 enc dec" "length salt = 8"
  shows "DecryptCryptoJSPassphrase md5 dec (cryptojs_encrypt md5 enc pass salt p) pass = Ok p"
proof -
  obtain key iv where k: "evpBytesToKey md5 pass salt 32 16 = (key, iv)" by force
  have len: "length key = 32" "length iv = 16"
    using evp_lengths [of md5 pass salt] assms(1) k by (auto simp: aes_ok_def)
  define m where "m = length p mod 16"
  then have m: "length p mod 16 = m" "m < 16" by simp_all
  let ?ct = "cbc_encrypt (enc key) iv (pad_blocks p)"
  have ct: "cbc_decrypt (dec key) iv ?ct = pad_blocks p" "length ?ct = length (pad_blocks p)"
    using cbc_roundtrip [of "enc key" "dec key" iv "pad_blocks p"] assms(1) len pad_blocks_props(1) by (auto simp: aes_ok_def)
  have "take (length (pad_blocks p) - (16 - length p mod 16)) (pad_blocks p) = p"
    using pad_blocks_props(4) [of p] by (simp add: pad_blocks_def Let_def)
  then show ?thesis
    using assms(2) k ct pad_blocks_props [of p] m
    by (simp add: DecryptCryptoJSPassphrase_def cryptojs_encrypt_def b64_decode_encode BlockSize_def Let_def del: b64_encode.simps) linarith
qed

lemma header_prefix: "length salt = 8 \<Longrightarrow> HasPrefix (b64_encode (''Salted__'' @ salt @ rest)) ''U2FsdGVkX1''"
proof -
  assume "length salt = 8"
  then obtain c cs where s: "salt = c # cs" by (cases salt) auto
  have q: "q0 83 = 20" "q1 83 97 = 54" "q2 97 108 = 5" "q3 108 = 44" "q0 116 = 29" "q1 116 101 = 6" "q2 101 100 = 21"
    "q3 100 = 36" "q0 95 = 23" "q1 95 95 = 53"
    by (simp_all add: q0_def q1_def q2_def q3_def)
  show ?thesis unfolding s by (simp add: HasPrefix_def Let_def q b64_char_def b64_alphabet_def)
qed



text \<open>
  A text of the format without any block panics in the decryption, for every passphrase: the code
  reads the last byte of an empty plain text.
\<close>

theorem empty_ciphertext_panics:
  assumes "length salt = 8" "aes_passphrase ae \<noteq> []"
  shows "\<exists>m. DecryptIfCryptoJS ae (b64_encode (''Salted__'' @ salt)) = Err (Panic m)"
proof -
  have p: "HasPrefix (b64_encode (''Salted__'' @ salt)) ''U2FsdGVkX1''" using header_prefix [OF assms(1), of "[]"] by simp
  then have "b64_encode (''Salted__'' @ salt) \<noteq> []" by (auto simp: HasPrefix_def simp del: b64_encode.simps)
  then show ?thesis using p assms
    by (auto simp: DecryptIfCryptoJS_def DecryptCryptoJSPassphrase_def b64_decode_encode Let_def cbc_decrypt.simps
        BlockSize_def split: prod.split simp del: b64_encode.simps)
qed

end
