(* ===== verification/SshSessions.thy ===== *)
theory SshSessions
  imports Prelude "HOL-Library.AList"
begin

text \<open>
  SSH clients and the table of SSH sessions: pkg/server/client.go (NewClient and dialling) and
  pkg/ssh/session_manager.go.

  The file of the private key, the key parser and the network are the environment of a dial.
  Clients are numbered in the order in which they were dialled; closing one records its number.
  The closing that AddSession and cleanupExpiredSessions start in a goroutine of its own is
  done at once here. NewSessionManager always stores a configuration, so the clean-up never
  meets a missing one.
\<close>

section \<open>Dialling\<close>

record server_config =
  sc_Host :: string
  sc_Username :: string
  sc_Password :: string
  sc_PrivateKeyPath :: string
  sc_PrivateKeyPassphrase :: string
  sc_Timeout :: int

datatype auth_method = PublicKeys string | Password_auth string

text \<open>
  The network: the contents of a key file, whether a key can be parsed (with a passphrase or
  without), the error text of the i-th attempt to dial, None when it succeeds, and whether the
  SFTP subsystem answers.
\<close>

record net_env =
  ne_ReadFile :: "string \<Rightarrow> string option"
  ne_ParseKey :: "string \<Rightarrow> string option \<Rightarrow> bool"
  ne_Dial :: "server_config \<Rightarrow> auth_method list \<Rightarrow> nat \<Rightarrow> string option"
  ne_Sftp :: bool

definition second :: int where "second = 1000000000"

definition auth_methods :: "net_env \<Rightarrow> server_config \<Rightarrow> auth_method list result" where
  "auth_methods ne cfg =
     (let pw = (if sc_Password cfg \<noteq> [] then [Password_auth (sc_Password cfg)] else [])
      in if sc_PrivateKeyPath cfg = [] then Ok pw
         else case ne_ReadFile ne (sc_PrivateKeyPath cfg) of
           None \<Rightarrow> Err (Errorf ''read key'')
         | Some content \<Rightarrow>
             (let key = TrimSpace content;
                  phrase = (if sc_PrivateKeyPassphrase cfg \<noteq> [] then Some (sc_PrivateKeyPassphrase cfg) else None)
              in if ne_ParseKey ne key phrase then Ok (PublicKeys key # pw) else Err (Errorf ''parse key'')))"

definition transient :: "string \<Rightarrow> bool" where
  "transient msg = (Contains_str msg ''handshake failed'' \<or> Contains_str msg ''timeout'' \<or>
     Contains_str msg ''connection refused'' \<or> Contains_str msg ''reset by peer'' \<or> Contains_str msg ''wsarecv'')"

definition maxRetries :: nat where "maxRetries = 3"

text \<open>The retry loop from attempt i on: the seconds slept and the answer.\<close>

function dial_loop :: "(nat \<Rightarrow> string option) \<Rightarrow> nat \<Rightarrow> nat \<times> unit result" where
  "dial_loop dial i =
     (if i < maxRetries then
        (case dial i of
           None \<Rightarrow> (0, Ok ())
         | Some msg \<Rightarrow>
             (if i < maxRetries - 1 \<and> transient msg
              then (case dial_loop dial (i + 1) of (t, r) \<Rightarrow> (i + 1 + t, r))
              else (0, Err SshError)))
      else (0, Ok ()))"
  by pat_completeness auto
termination
  by (relation "measure (\<lambda>(_, i). maxRetries - i)") auto

declare dial_loop.simps [simp del]

definition dialAndCreateClient :: "net_env \<Rightarrow> server_config \<Rightarrow> auth_method list \<Rightarrow> unit result" where
  "dialAndCreateClient ne cfg auth = (case snd (dial_loop (ne_Dial ne cfg auth) 0) of
     Inl e \<Rightarrow> Err e
   | Inr _ \<Rightarrow> (if ne_Sftp ne then Ok () else Err SshError))"

definition NewClient :: "net_env \<Rightarrow> server_config \<Rightarrow> unit result" where
  "NewClient ne config =
     (let cfg = (if sc_Timeout config = 0 then config\<lparr> sc_Timeout := 30 * second \<rparr> else config)
      in case auth_methods ne cfg of
           Inl e \<Rightarrow> Err e
         | Inr auth \<Rightarrow> (if auth = [] then Err (Errorf ''no authentication'') else dialAndCreateClient ne cfg auth))"

section \<open>Sessions\<close>

record Config =
  cfg_ServerHost :: string
  cfg_RootUsername :: string
  cfg_RootPassword :: string
  cfg_PrivateKeyPath :: string
  cfg_PrivateKeyPassphrase :: string
  cfg_Timeout :: int
  cfg_SessionTimeout :: int

record UserSession =
  us_Client :: "nat option"
  us_UserID :: int
  us_Username :: string
  us_Password :: string
  us_CreatedAt :: int
  us_LastUsedAt :: int
  us_IsRootUser :: bool

record SessionManager =
  sm_Cfg :: "Config option"
  sm_sessions :: "(string \<times> UserSession) list"
  sm_stopped :: bool
  sm_dialled :: nat
  sm_closed :: "nat list"

definition getSessionKey :: "int \<Rightarrow> bool \<Rightarrow> string" where
  "getSessionKey userID isRoot = Itoa userID @ '':'' @ show_bool isRoot"

definition GetRootUsername :: "SessionManager \<Rightarrow> string" where
  "GetRootUsername sm = (case sm_Cfg sm of
     Some cfg \<Rightarrow> (if cfg_RootUsername cfg \<noteq> [] then cfg_RootUsername cfg else ''root'')
   | None \<Rightarrow> ''root'')"

definition GetRootPassword :: "SessionManager \<Rightarrow> string" where
  "GetRootPassword sm = (case sm_Cfg sm of Some cfg \<Rightarrow> cfg_RootPassword cfg | None \<Rightarrow> [])"

definition SetTimeout :: "int \<Rightarrow> SessionManager \<Rightarrow> SessionManager" where
  "SetTimeout timeout sm = sm\<lparr> sm_Cfg := map_option (\<lambda>cfg. cfg\<lparr> cfg_Timeout := timeout \<rparr>) (sm_Cfg sm) \<rparr>"

definition GetTimeout :: "SessionManager \<Rightarrow> int" where
  "GetTimeout sm = (case sm_Cfg sm of
     Some cfg \<Rightarrow> (if cfg_Timeout cfg > 0 then cfg_Timeout cfg else 30 * second)
   | None \<Rightarrow> 30 * second)"

definition NewSessionManager :: "Config \<Rightarrow> SessionManager" where
  "NewSessionManager cfg = \<lparr>
     sm_Cfg = Some (if cfg_Timeout cfg = 0 then cfg\<lparr> cfg_Timeout := 30 * second \<rparr> else cfg),
     sm_sessions = [], sm_stopped = False, sm_dialled = 0, sm_closed = [] \<rparr>"

definition UpdateLastUsed :: "int \<Rightarrow> UserSession \<Rightarrow> UserSession" where
  "UpdateLastUsed now us = us\<lparr> us_LastUsedAt := now \<rparr>"

definition Close_session :: "UserSession \<Rightarrow> SessionManager \<Rightarrow> SessionManager" where
  "Close_session us sm = (case us_Client us of None \<Rightarrow> sm | Some c \<Rightarrow> sm\<lparr> sm_closed := c # sm_closed sm \<rparr>)"

definition put_session :: "string \<Rightarrow> UserSession \<Rightarrow> (string \<times> UserSession) list \<Rightarrow> (string \<times> UserSession) list" where
  "put_session k us t = (k, us) # AList.delete k t"

text \<open>The configuration with which CreateSession dials.\<close>

definition session_config :: "SessionManager \<Rightarrow> Config \<Rightarrow> string \<Rightarrow> string \<Rightarrow> bool \<Rightarrow> server_config" where
  "session_config sm cfg username password isRoot = \<lparr>
     sc_Host = cfg_ServerHost cfg,
     sc_Username = (if isRoot then GetRootUsername sm else username),
     sc_Password = (if isRoot \<and> cfg_RootPassword cfg \<noteq> [] then cfg_RootPassword cfg else password),
     sc_PrivateKeyPath = (if isRoot then cfg_PrivateKeyPath cfg else []),
     sc_PrivateKeyPassphrase = (if isRoot then cfg_PrivateKeyPassphrase cfg else []),
     sc_Timeout = GetTimeout sm \<rparr>"

definition store_session :: "string \<Rightarrow> UserSession \<Rightarrow> SessionManager \<Rightarrow> SessionManager" where
  "store_session k us sm =
     (let sm1 = (case map_of (sm_sessions sm) k of None \<Rightarrow> sm | Some old \<Rightarrow> Close_session old sm)
      in sm1\<lparr> sm_sessions := put_session k us (sm_sessions sm1) \<rparr>)"

definition CreateSession ::
  "net_env \<Rightarrow> int \<Rightarrow> int \<Rightarrow> string \<Rightarrow> string \<Rightarrow> bool \<Rightarrow> SessionManager \<Rightarrow> SessionManager \<times> UserSession result" where
  "CreateSession ne now userID username password isRoot sm = (case sm_Cfg sm of
     None \<Rightarrow> (sm, Err (Panic ''nil Cfg''))
   | Some cfg \<Rightarrow>
       (let sc = session_config sm cfg username password isRoot in
        case NewClient ne sc of
          Inl _ \<Rightarrow> (sm, Err SshError)
        | Inr _ \<Rightarrow>
            (let us = \<lparr> us_Client = Some (sm_dialled sm), us_UserID = userID, us_Username = sc_Username sc,
                        us_Password = password, us_CreatedAt = now, us_LastUsedAt = now, us_IsRootUser = isRoot \<rparr>
             in (store_session (getSessionKey userID isRoot) us (sm\<lparr> sm_dialled := sm_dialled sm + 1 \<rparr>), Ok us))))"

definition AddSession :: "int \<Rightarrow> UserSession \<Rightarrow> SessionManager \<Rightarrow> SessionManager" where
  "AddSession userID us sm = store_session (getSessionKey userID (us_IsRootUser us)) us sm"

definition GetSession :: "int \<Rightarrow> int \<Rightarrow> bool \<Rightarrow> SessionManager \<Rightarrow> SessionManager \<times> UserSession result" where
  "GetSession now userID isRoot sm =
     (let k = getSessionKey userID isRoot in case map_of (sm_sessions sm) k of
        None \<Rightarrow> (sm, Err (Errorf ''no session''))
      | Some us \<Rightarrow> (sm\<lparr> sm_sessions := put_session k (UpdateLastUsed now us) (sm_sessions sm) \<rparr>, Ok (UpdateLastUsed now us)))"

definition DeleteSession :: "int \<Rightarrow> bool \<Rightarrow> SessionManager \<Rightarrow> SessionManager" where
  "DeleteSession userID isRoot sm =
     (let k = getSessionKey userID isRoot in case map_of (sm_sessions sm) k of
        None \<Rightarrow> sm
      | Some us \<Rightarrow> Close_session us (sm\<lparr> sm_sessions := AList.delete k (sm_sessions sm) \<rparr>))"

definition isSessionValid :: "(nat \<Rightarrow> bool) \<Rightarrow> UserSession \<Rightarrow> bool" where
  "isSessionValid answers us = (case us_Client us of None \<Rightarrow> False | Some c \<Rightarrow> answers c)"

definition GetOrCreateSession ::
  "(nat \<Rightarrow> bool) \<Rightarrow> net_env \<Rightarrow> int \<Rightarrow> int \<Rightarrow> string \<Rightarrow> string \<Rightarrow> bool \<Rightarrow> SessionManager \<Rightarrow> SessionManager \<times> UserSession result" where
  "GetOrCreateSession answers ne now userID username password isRoot sm =
     (case GetSession now userID isRoot sm of
        (sm1, Inr us) \<Rightarrow> (if isSessionValid answers us then (sm1, Ok us)
           else CreateSession ne now userID username password isRoot (DeleteSession userID isRoot sm1))
      | (sm1, Inl _) \<Rightarrow> CreateSession ne now userID username password isRoot sm1)"

definition GetSessionWithFallback :: "int \<Rightarrow> int \<Rightarrow> bool \<Rightarrow> SessionManager \<Rightarrow> SessionManager \<times> UserSession result" where
  "GetSessionWithFallback now userID preferRoot sm = (case GetSession now userID preferRoot sm of
     (sm1, Inr us) \<Rightarrow> (sm1, Ok us)
   | (sm1, Inl _) \<Rightarrow> (case GetSession now userID (\<not> preferRoot) sm1 of
       (sm2, Inr us) \<Rightarrow> (sm2, Ok us)
     | (sm2, Inl _) \<Rightarrow> (sm2, Err (Errorf ''no valid session''))))"

definition close_where :: "(UserSession \<Rightarrow> bool) \<Rightarrow> SessionManager \<Rightarrow> SessionManager" where
  "close_where P sm = (foldl (\<lambda>s p. Close_session (snd p) s) sm (filter (\<lambda>p. P (snd p)) (sm_sessions sm)))
     \<lparr> sm_sessions := filter (\<lambda>p. \<not> P (snd p)) (sm_sessions sm) \<rparr>"

definition CloseAllSessionsForUser :: "int \<Rightarrow> SessionManager \<Rightarrow> SessionManager" where
  "CloseAllSessionsForUser userID sm = close_where (\<lambda>us. us_UserID us = userID) sm"

definition HasSession :: "int \<Rightarrow> bool \<Rightarrow> SessionManager \<Rightarrow> bool" where
  "HasSession userID isRoot sm = (map_of (sm_sessions sm) (getSessionKey userID isRoot) \<noteq> None)"

definition GetActiveSessionCount :: "SessionManager \<Rightarrow> nat" where
  "GetActiveSessionCount sm = length (sm_sessions sm)"

definition cleanupExpiredSessions :: "int \<Rightarrow> SessionManager \<Rightarrow> SessionManager" where
  "cleanupExpiredSessions now sm = (case sm_Cfg sm of
     None \<Rightarrow> sm
   | Some cfg \<Rightarrow> close_where (\<lambda>us. now - us_LastUsedAt us > cfg_SessionTimeout cfg) sm)"

text \<open>One tick of the clean-up timer, which runs only with a positive timeout and until CloseAll.\<close>

definition cleanup_tick :: "int \<Rightarrow> SessionManager \<Rightarrow> SessionManager" where
  "cleanup_tick now sm = (case sm_Cfg sm of
     None \<Rightarrow> sm
   | Some cfg \<Rightarrow> (if cfg_SessionTimeout cfg \<le> 0 \<or> sm_stopped sm then sm else cleanupExpiredSessions now sm))"

definition CloseAll_sessions :: "SessionManager \<Rightarrow> SessionManager result" where
  "CloseAll_sessions sm = (if sm_stopped sm then Err (Panic ''close of closed channel'')
     else Ok (close_where (\<lambda>_. True) (sm\<lparr> sm_stopped := True \<rparr>)))"

section \<open>Invariant\<close>

text \<open>
  Every session is filed under its own identity and has a client of its own that is open, and
  every client that was ever dialled and is not closed belongs to a session of the table.
\<close>

definition held_by :: "SessionManager \<Rightarrow> string \<Rightarrow> nat \<Rightarrow> bool" where
  "held_by sm k c = (case map_of (sm_sessions sm) k of None \<Rightarrow> False | Some us \<Rightarrow> us_Client us = Some c)"

definition ssh_inv :: "SessionManager \<Rightarrow> bool" where
  "ssh_inv sm \<longleftrightarrow> sm_Cfg sm \<noteq> None \<and> distinct (map fst (sm_sessions sm)) \<and>
     (\<forall>k us. map_of (sm_sessions sm) k = Some us \<longrightarrow> k = getSessionKey (us_UserID us) (us_IsRootUser us) \<and> us_Client us \<noteq> None) \<and>
     (\<forall>k c. held_by sm k c \<longrightarrow> c < sm_dialled sm \<and> c \<notin> set (sm_closed sm)) \<and>
     (\<forall>k l c. held_by sm k c \<and> held_by sm l c \<longrightarrow> k = l) \<and>
     (\<forall>c < sm_dialled sm. c \<in> set (sm_closed sm) \<or> (\<exists>k. held_by sm k c)) \<and>
     (\<forall>c \<in> set (sm_closed sm). c < sm_dialled sm)"

lemma ssh_invI:
  assumes "sm_Cfg sm \<noteq> None" "distinct (map fst (sm_sessions sm))"
    and "\<And>k us. map_of (sm_sessions sm) k = Some us \<Longrightarrow> k = getSessionKey (us_UserID us) (us_IsRootUser us) \<and> us_Client us \<noteq> None"
    and "\<And>k c. held_by sm k c \<Longrightarrow> c < sm_dialled sm \<and> c \<notin> set (sm_closed sm)"
    and "\<And>k l c. held_by sm k c \<Longrightarrow> held_by sm l c \<Longrightarrow> k = l"
    and "\<And>c. c < sm_dialled sm \<Longrightarrow> c \<in> set (sm_closed sm) \<or> (\<exists>k. held_by sm k c)"
    and "\<And>c. c \<in> set (sm_closed sm) \<Longrightarrow> c < sm_dialled sm"
  shows "ssh_inv sm"
  unfolding ssh_inv_def using assms by blast

lemma ssh_invD:
  assumes "ssh_inv sm"
  shows "sm_Cfg sm \<noteq> None" "distinct (map fst (sm_sessions sm))"
    and "map_of (sm_sessions sm) k = Some us \<Longrightarrow> k = getSessionKey (us_UserID us) (us_IsRootUser us) \<and> us_Client us \<noteq> None"
    and "held_by sm k c \<Longrightarrow> c < sm_dialled sm \<and> c \<notin> set (sm_closed sm)"
    and "held_by sm k c \<Longrightarrow> held_by sm l c \<Longrightarrow> k = l"
    and "c < sm_dialled sm \<Longrightarrow> c \<in> set (sm_closed sm) \<or> (\<exists>k. held_by sm k c)"
    and "c \<in> set (sm_closed sm) \<Longrightarrow> c < sm_dialled sm"
  using assms unfolding ssh_inv_def by blast+

lemma held_some: "held_by sm k c \<Longrightarrow> \<exists>us. map_of (sm_sessions sm) k = Some us \<and> us_Client us = Some c"
  by (auto simp: held_by_def split: option.splits)

lemma getSessionKey_inject [simp]: "getSessionKey u r = getSessionKey v q \<longleftrightarrow> u = v \<and> r = q"
  by (simp add: getSessionKey_def colon_key_inject)

lemma map_of_put_session: "map_of (put_session k us t) = (map_of t)(k \<mapsto> us)"
  by (auto simp: put_session_def AList.delete_conv)

lemma distinct_put_session: "distinct (map fst t) \<Longrightarrow> distinct (map fst (put_session k us t))"
  by (auto simp: put_session_def AList.delete_eq distinct_map_filter)

lemma map_of_filter_snd:
  "distinct (map fst t) \<Longrightarrow> map_of (filter (\<lambda>p. Q (snd p)) t) k = (case map_of t k of None \<Rightarrow> None | Some v \<Rightarrow> if Q v then Some v else None)"
proof (induction t)
  case (Cons p t)
  have "map_of t (fst p) = None" using Cons.prems by (simp add: map_of_eq_None_iff)
  then show ?case using Cons by (auto split: option.splits)
qed simp

lemma ssh_inv_new: "ssh_inv (NewSessionManager cfg)"
  by (simp add: ssh_inv_def NewSessionManager_def held_by_def)

text \<open>Some sessions are closed and dropped.\<close>

lemma inv_shrink:
  assumes inv: "ssh_inv sm" and cfg: "sm_Cfg sm' = sm_Cfg sm" and dist: "distinct (map fst (sm_sessions sm'))"
    and tab: "\<And>k. map_of (sm_sessions sm') k = (case map_of (sm_sessions sm) k of None \<Rightarrow> None | Some us \<Rightarrow> if P us then None else Some us)"
    and cl: "set (sm_closed sm') = set (sm_closed sm) \<union> {c. \<exists>k us. map_of (sm_sessions sm) k = Some us \<and> P us \<and> us_Client us = Some c}"
    and dl: "sm_dialled sm' = sm_dialled sm"
  shows "ssh_inv sm'"
proof -
  have held: "held_by sm' k c \<longleftrightarrow> held_by sm k c \<and> (\<exists>us. map_of (sm_sessions sm) k = Some us \<and> \<not> P us)" for k c
    by (auto simp: held_by_def tab split: option.splits)
  have hit: "c \<in> set (sm_closed sm') \<longleftrightarrow> c \<in> set (sm_closed sm) \<or>
      (\<exists>k us. held_by sm k c \<and> map_of (sm_sessions sm) k = Some us \<and> P us)" for c
    unfolding cl by (auto simp: held_by_def split: option.splits)
  note I = ssh_invD [OF inv]
  show ?thesis
  proof (rule ssh_invI, goal_cases)
    case (3 k us)
    then show ?case using I(3) [of k us] by (auto simp: tab split: option.splits if_splits)
  next
    case (4 k c)
    then show ?case using I(4) [of k c] I(5) [of k c] unfolding held hit dl by (metis option.inject)
  next
    case (6 c)
    then show ?case using I(6) [of c] held_some [of sm _ c] unfolding held hit dl by metis
  next
    case (7 c)
    then show ?case using I(4) I(7) unfolding hit dl by blast
  qed (use I(1,5) cfg dist held in auto)
qed

text \<open>A session with a client just dialled is filed under a key that is free.\<close>

lemma inv_grow:
  assumes inv: "ssh_inv sm" and free: "map_of (sm_sessions sm) k = None" and k: "k = getSessionKey (us_UserID us) (us_IsRootUser us)"
    and new: "us_Client us = Some (sm_dialled sm)"
  shows "ssh_inv (sm\<lparr> sm_sessions := put_session k us (sm_sessions sm), sm_dialled := Suc (sm_dialled sm) \<rparr>)"
proof -
  have held: "held_by (sm\<lparr> sm_sessions := put_session k us (sm_sessions sm), sm_dialled := Suc (sm_dialled sm) \<rparr>) l c \<longleftrightarrow>
      (if l = k then c = sm_dialled sm else held_by sm l c)" for l c
    using new by (auto simp: held_by_def map_of_put_session)
  have no: "\<not> held_by sm k c" "\<not> held_by sm l (sm_dialled sm)" "sm_dialled sm \<notin> set (sm_closed sm)" for c l
    using free inv by (auto simp: held_by_def ssh_inv_def)
  note I = ssh_invD [OF inv]
  show ?thesis
  proof (rule ssh_invI, goal_cases)
    case (3 l vs)
    then show ?case using I(3) [of l vs] k new by (auto simp: map_of_put_session split: if_splits)
  next
    case (4 l c)
    then show ?case using I(4) [of l c] no unfolding held by (auto split: if_splits)
  next
    case (5 l m c)
    then show ?case using I(5) [of l c m] no unfolding held by (auto split: if_splits)
  next
    case (6 c)
    then have "c < sm_dialled sm \<or> c = sm_dialled sm" by auto
    then show ?case using I(6) [of c] no(1) unfolding held by auto metis
  next
    case (7 c)
    then show ?case using I(7) [of c] by simp
  qed (use I(1,2) in \<open>auto simp: distinct_put_session\<close>)
qed

lemma Close_session_simps [simp]:
  "sm_Cfg (Close_session us sm) = sm_Cfg sm" "sm_sessions (Close_session us sm) = sm_sessions sm"
  "sm_dialled (Close_session us sm) = sm_dialled sm" "sm_stopped (Close_session us sm) = sm_stopped sm"
  "set (sm_closed (Close_session us sm)) = set (sm_closed sm) \<union> set_option (us_Client us)"
  by (auto simp: Close_session_def split: option.splits)

lemma foldl_Close_simps:
  "sm_Cfg (foldl (\<lambda>s p. Close_session (snd p) s) sm ps) = sm_Cfg sm"
  "sm_dialled (foldl (\<lambda>s p. Close_session (snd p) s) sm ps) = sm_dialled sm"
  "sm_stopped (foldl (\<lambda>s p. Close_session (snd p) s) sm ps) = sm_stopped sm"
  "set (sm_closed (foldl (\<lambda>s p. Close_session (snd p) s) sm ps)) = set (sm_closed sm) \<union> {c. \<exists>p \<in> set ps. us_Client (snd p) = Some c}"
  by (induction ps arbitrary: sm) auto

lemma close_where_tab:
  "ssh_inv sm \<Longrightarrow> map_of (sm_sessions (close_where P sm)) k =
     (case map_of (sm_sessions sm) k of None \<Rightarrow> None | Some us \<Rightarrow> if P us then None else Some us)"
  using map_of_filter_snd [OF ssh_invD(2), of sm "\<lambda>us. \<not> P us" k] by (auto simp: close_where_def split: option.splits)

lemma close_where_closed:
  assumes "ssh_inv sm"
  shows "set (sm_closed (close_where P sm)) = set (sm_closed sm) \<union>
     {c. \<exists>k us. map_of (sm_sessions sm) k = Some us \<and> P us \<and> us_Client us = Some c}"
proof -
  have "(k, us) \<in> set (sm_sessions sm) \<longleftrightarrow> map_of (sm_sessions sm) k = Some us" for k us
    using ssh_invD(2) [OF assms] by simp
  then show ?thesis by (fastforce simp: close_where_def foldl_Close_simps)
qed

lemma close_where_simps [simp]:
  "sm_Cfg (close_where P sm) = sm_Cfg sm" "sm_dialled (close_where P sm) = sm_dialled sm"
  "sm_stopped (close_where P sm) = sm_stopped sm"
  by (simp_all add: close_where_def foldl_Close_simps)

lemma inv_close_where [keeps]:
  assumes "ssh_inv sm"
  shows "ssh_inv (close_where P sm)"
proof -
  have "distinct (map fst (sm_sessions (close_where P sm)))"
    using ssh_invD(2) [OF assms] by (simp add: close_where_def distinct_map_filter)
  then show ?thesis
    using inv_shrink [OF assms, of "close_where P sm" P] close_where_tab [OF assms] close_where_closed [OF assms] by simp
qed

lemma inv_drop_key:
  assumes "ssh_inv sm" "map_of (sm_sessions sm) k = Some old"
  shows "ssh_inv (Close_session old (sm\<lparr> sm_sessions := AList.delete k (sm_sessions sm) \<rparr>))"
proof (rule inv_shrink [OF assms(1), where P = "\<lambda>us. getSessionKey (us_UserID us) (us_IsRootUser us) = k"], goal_cases)
  case (3 l)
  then show ?case using ssh_invD(3) [OF assms(1), of l] by (auto simp: AList.delete_conv split: option.splits)
next
  case 4
  then show ?case using ssh_invD(3) [OF assms(1)] assms(2) by (auto simp: elem_set)
qed (use ssh_invD(2) [OF assms(1)] in \<open>auto simp: distinct_delete\<close>)

lemma inv_DeleteSession [keeps]: "ssh_inv sm \<Longrightarrow> ssh_inv (DeleteSession u r sm)"
  using inv_drop_key by (auto simp: DeleteSession_def Let_def split: option.splits)

lemma put_delete: "put_session k us (AList.delete k t) = put_session k us t"
  by (simp add: put_session_def AList.delete_idem)

lemma store_after_drop:
  "store_session k us sm = (case map_of (sm_sessions sm) k of None \<Rightarrow> sm\<lparr> sm_sessions := put_session k us (sm_sessions sm) \<rparr>
   | Some old \<Rightarrow> (Close_session old (sm\<lparr> sm_sessions := AList.delete k (sm_sessions sm) \<rparr>))
       \<lparr> sm_sessions := put_session k us (AList.delete k (sm_sessions sm)) \<rparr>)"
  by (auto simp: store_session_def Let_def put_delete Close_session_def split: option.splits)

lemma inv_store:
  assumes inv: "ssh_inv sm" and k: "k = getSessionKey (us_UserID us) (us_IsRootUser us)" and new: "us_Client us = Some (sm_dialled sm)"
  shows "ssh_inv (store_session k us (sm\<lparr> sm_dialled := Suc (sm_dialled sm) \<rparr>))"
proof (cases "map_of (sm_sessions sm) k")
  case None
  have "store_session k us (sm\<lparr> sm_dialled := Suc (sm_dialled sm) \<rparr>) =
      sm\<lparr> sm_sessions := put_session k us (sm_sessions sm), sm_dialled := Suc (sm_dialled sm) \<rparr>"
    using None by (intro SessionManager.equality) (simp_all add: store_after_drop)
  then show ?thesis using inv_grow [OF inv None k new] by simp
next
  case (Some old)
  let ?d = "Close_session old (sm\<lparr> sm_sessions := AList.delete k (sm_sessions sm) \<rparr>)"
  have "ssh_inv (?d\<lparr> sm_sessions := put_session k us (sm_sessions ?d), sm_dialled := Suc (sm_dialled ?d) \<rparr>)"
    using inv_grow [OF inv_drop_key [OF inv Some] _ k] new by (simp add: AList.delete_conv)
  moreover have "?d\<lparr> sm_sessions := put_session k us (sm_sessions ?d), sm_dialled := Suc (sm_dialled ?d) \<rparr> =
      store_session k us (sm\<lparr> sm_dialled := Suc (sm_dialled sm) \<rparr>)"
    using Some by (intro SessionManager.equality) (simp_all add: store_after_drop Close_session_def split: option.splits)
  ultimately show ?thesis by simp
qed

lemma CreateSession_cases:
  obtains (failed) e where "CreateSession ne now u name pw r sm = (sm, Err e)"
  | (created) cfg us where "sm_Cfg sm = Some cfg" "NewClient ne (session_config sm cfg name pw r) = Ok ()"
    "us = \<lparr> us_Client = Some (sm_dialled sm), us_UserID = u, us_Username = sc_Username (session_config sm cfg name pw r),
       us_Password = pw, us_CreatedAt = now, us_LastUsedAt = now, us_IsRootUser = r \<rparr>"
    "CreateSession ne now u name pw r sm = (store_session (getSessionKey u r) us (sm\<lparr> sm_dialled := Suc (sm_dialled sm) \<rparr>), Ok us)"
proof (cases "sm_Cfg sm")
  case (Some cfg)
  then show ?thesis
    using that by (cases "NewClient ne (session_config sm cfg name pw r)") (simp_all add: CreateSession_def Let_def)
qed (use that in \<open>simp add: CreateSession_def\<close>)

lemma inv_CreateSession [keeps]:
  assumes "ssh_inv sm"
  shows "ssh_inv (fst (CreateSession ne now u name pw r sm))"
proof (cases rule: CreateSession_cases [of ne now u name pw r sm])
  case (created cfg us)
  then show ?thesis using inv_store [OF assms, of "getSessionKey u r" us] by simp
qed (use assms in simp)

lemma inv_GetSession [keeps]:
  assumes "ssh_inv sm"
  shows "ssh_inv (fst (GetSession now u r sm))"
proof (cases "map_of (sm_sessions sm) (getSessionKey u r)")
  case (Some us)
  let ?sm = "sm\<lparr> sm_sessions := put_session (getSessionKey u r) (UpdateLastUsed now us) (sm_sessions sm) \<rparr>"
  note I = ssh_invD [OF assms]
  have held: "held_by ?sm = held_by sm"
    using Some by (auto simp: held_by_def map_of_put_session UpdateLastUsed_def fun_eq_iff)
  have "map_of (sm_sessions ?sm) k = Some vs \<Longrightarrow> k = getSessionKey (us_UserID vs) (us_IsRootUser vs) \<and> us_Client vs \<noteq> None" for k vs
  proof (cases "k = getSessionKey u r")
    case True
    then show "map_of (sm_sessions ?sm) k = Some vs \<Longrightarrow> ?thesis"
      using I(3) [OF Some] by (auto simp: map_of_put_session UpdateLastUsed_def)
  next
    case False
    then show "map_of (sm_sessions ?sm) k = Some vs \<Longrightarrow> ?thesis" using I(3) [of k vs] by (simp add: map_of_put_session)
  qed
  moreover have "distinct (map fst (sm_sessions ?sm))" using I(2) by (simp add: distinct_put_session)
  ultimately have "ssh_inv ?sm" using assms unfolding ssh_inv_def held by simp
  then show ?thesis using Some by (simp add: GetSession_def Let_def)
qed (use assms in \<open>simp add: GetSession_def Let_def\<close>)

lemma inv_GetOrCreateSession [keeps]:
  assumes "ssh_inv sm"
  shows "ssh_inv (fst (GetOrCreateSession an ne now u name pw r sm))"
proof -
  have "ssh_inv (fst (GetSession now u r sm))" using assms by (rule inv_GetSession)
  then show ?thesis
    by (auto simp: GetOrCreateSession_def split: prod.splits sum.splits intro!: inv_CreateSession inv_DeleteSession)
qed

text \<open>
  The manager as the services use it. AddSession is given a session with a client that its
  caller has just dialled.
\<close>

inductive ssh_step :: "SessionManager \<Rightarrow> SessionManager \<Rightarrow> bool" where
  "ssh_step sm (fst (CreateSession ne now u name pw r sm))"
| "us_UserID us = u \<Longrightarrow> us_Client us = Some (sm_dialled sm) \<Longrightarrow> ssh_step sm (AddSession u us (sm\<lparr> sm_dialled := Suc (sm_dialled sm) \<rparr>))"
| "ssh_step sm (fst (GetSession now u r sm))"
| "ssh_step sm (fst (GetOrCreateSession answers ne now u name pw r sm))"
| "ssh_step sm (fst (GetSessionWithFallback now u r sm))"
| "ssh_step sm (DeleteSession u r sm)"
| "ssh_step sm (CloseAllSessionsForUser u sm)"
| "ssh_step sm (cleanup_tick now sm)"
| "ssh_step sm (SetTimeout t sm)"
| "CloseAll_sessions sm = Ok sm' \<Longrightarrow> ssh_step sm sm'"

inductive ssh_reachable :: "SessionManager \<Rightarrow> bool" where
  ssh_start: "ssh_reachable (NewSessionManager cfg)"
| ssh_next: "ssh_reachable sm \<Longrightarrow> ssh_step sm sm' \<Longrightarrow> ssh_reachable sm'"

lemma ssh_inv_frame:
  "ssh_inv sm \<Longrightarrow> sm_Cfg sm' \<noteq> None \<Longrightarrow> sm_sessions sm' = sm_sessions sm \<Longrightarrow> sm_dialled sm' = sm_dialled sm \<Longrightarrow>
   sm_closed sm' = sm_closed sm \<Longrightarrow> ssh_inv sm'"
  by (simp add: ssh_inv_def held_by_def)

lemma inv_ssh_step:
  assumes "ssh_step sm sm'" "ssh_inv sm"
  shows "ssh_inv sm'"
  using assms
proof (cases rule: ssh_step.cases)
  case (2 us u)
  then show ?thesis using inv_store [OF assms(2), of _ us] by (simp add: AddSession_def)
next
  case (5 now u r)
  then show ?thesis
    using inv_GetSession [OF assms(2), of now u r] inv_GetSession [of "fst (GetSession now u r sm)" now u "\<not> r"]
    by (auto simp: GetSessionWithFallback_def split: prod.splits sum.splits)
next
  case (9 t)
  then show ?thesis using ssh_invD(1) [OF assms(2)] by (auto simp: SetTimeout_def intro!: ssh_inv_frame [OF assms(2)])
next
  case 10
  have "ssh_inv (sm\<lparr> sm_stopped := True \<rparr>)" using ssh_invD(1) [OF assms(2)] by (auto intro!: ssh_inv_frame [OF assms(2)])
  then show ?thesis using 10 by (auto simp: CloseAll_sessions_def intro!: inv_close_where split: if_splits)
qed (auto simp: CloseAllSessionsForUser_def cleanup_tick_def cleanupExpiredSessions_def
    intro!: keeps split: option.splits)

lemma ssh_reachable_inv: "ssh_reachable sm \<Longrightarrow> ssh_inv sm"
  by (induction rule: ssh_reachable.induct) (auto simp: ssh_inv_new intro: inv_ssh_step)

lemma store_session_tab:
  "map_of (sm_sessions (store_session k us sm)) = (map_of (sm_sessions sm))(k \<mapsto> us)"
  by (auto simp: store_session_def Let_def map_of_put_session split: option.splits)

lemma store_session_Cfg:
  "store_session k us (sm\<lparr> sm_Cfg := x, sm_dialled := n \<rparr>) = (store_session k us (sm\<lparr> sm_dialled := n \<rparr>))\<lparr> sm_Cfg := x \<rparr>"
  by (intro SessionManager.equality) (simp_all add: store_session_def Let_def Close_session_def split: option.splits)

section \<open>Properties\<close>

text \<open>
  C27: no SSH client leaks and none is shared. Over any sequence of operations of the manager,
  every client that was dialled is either closed or the client of exactly one session of the
  table, every session is filed under its own user and role, and CloseAll closes every client.
\<close>

theorem ssh_clients_accounted:
  assumes "ssh_reachable sm"
  shows "(\<forall>c < sm_dialled sm. (c \<in> set (sm_closed sm)) \<noteq> (\<exists>!k. held_by sm k c)) \<and>
    (\<forall>k us. map_of (sm_sessions sm) k = Some us \<longrightarrow> k = getSessionKey (us_UserID us) (us_IsRootUser us)) \<and>
    (\<forall>sm'. CloseAll_sessions sm = Ok sm' \<longrightarrow> GetActiveSessionCount sm' = 0 \<and> set (sm_closed sm') = {..<sm_dialled sm})"
proof (intro conjI allI impI)
  have inv: "ssh_inv sm" using assms by (rule ssh_reachable_inv)
  note I = ssh_invD [OF inv]
  fix c assume "c < sm_dialled sm"
  then show "(c \<in> set (sm_closed sm)) \<noteq> (\<exists>!k. held_by sm k c)"
    using I(4) [of _ c] I(5) [of _ c] I(6) [of c] by metis
next
  fix k us assume "map_of (sm_sessions sm) k = Some us"
  then show "k = getSessionKey (us_UserID us) (us_IsRootUser us)"
    using ssh_invD(3) [OF ssh_reachable_inv [OF assms]] by blast
next
  fix sm' assume cl: "CloseAll_sessions sm = Ok sm'"
  then have e: "sm_sessions sm' = []" "sm_dialled sm' = sm_dialled sm"
    by (auto simp: CloseAll_sessions_def close_where_def foldl_Close_simps split: if_splits)
  then show "GetActiveSessionCount sm' = 0" by (simp add: GetActiveSessionCount_def)
  have inv': "ssh_inv sm'" using cl inv_ssh_step [OF ssh_step.intros(10)] ssh_reachable_inv [OF assms] by blast
  show "set (sm_closed sm') = {..<sm_dialled sm}"
    using ssh_invD(6,7) [OF inv'] e by (auto simp: held_by_def)
qed

definition open_net :: net_env where
  "open_net = \<lparr> ne_ReadFile = (\<lambda>_. None), ne_ParseKey = (\<lambda>_ _. False), ne_Dial = (\<lambda>_ _ _. None), ne_Sftp = True \<rparr>"

definition demo_cfg :: Config where
  "demo_cfg = \<lparr> cfg_ServerHost = ''h:22'', cfg_RootUsername = [], cfg_RootPassword = ''s'', cfg_PrivateKeyPath = [],
     cfg_PrivateKeyPassphrase = [], cfg_Timeout = 0, cfg_SessionTimeout = 0 \<rparr>"

definition demo_sessions :: SessionManager where
  "demo_sessions = fst (CreateSession open_net 5 12 ''bob'' ''q'' False
     (fst (CreateSession open_net 4 1 ''ann'' ''p'' False (NewSessionManager demo_cfg))))"

lemma demo_sessions_reachable: "ssh_reachable demo_sessions"
  unfolding demo_sessions_def using ssh_next [OF ssh_next [OF ssh_start ssh_step.intros(1)] ssh_step.intros(1)] .

theorem ssh_clients_accounted_witness:
  "sm_dialled demo_sessions = 2 \<and> (\<exists>!k. held_by demo_sessions k 0) \<and> (\<exists>!k. held_by demo_sessions k 1)"
proof -
  have "sm_dialled demo_sessions = 2" "sm_closed demo_sessions = []" by code_simp+
  then show ?thesis using ssh_clients_accounted [OF demo_sessions_reachable] by auto
qed

text \<open>
  Closing the sessions of a user closes exactly the clients of that user's two sessions and
  removes exactly these sessions; the sessions of all other users stay as they are.
\<close>

lemma logout_closes_exactly_user:
  assumes "ssh_reachable sm"
  shows "(\<forall>v r. map_of (sm_sessions (CloseAllSessionsForUser u sm)) (getSessionKey v r) =
        (if v = u then None else map_of (sm_sessions sm) (getSessionKey v r))) \<and>
     (\<forall>c. c \<in> set (sm_closed (CloseAllSessionsForUser u sm)) \<longleftrightarrow>
        c \<in> set (sm_closed sm) \<or> (\<exists>r. held_by sm (getSessionKey u r) c))"
proof (intro conjI allI)
  have inv: "ssh_inv sm" using assms by (rule ssh_reachable_inv)
  note I = ssh_invD [OF inv]
  fix v r show "map_of (sm_sessions (CloseAllSessionsForUser u sm)) (getSessionKey v r) =
        (if v = u then None else map_of (sm_sessions sm) (getSessionKey v r))"
  proof (cases "map_of (sm_sessions sm) (getSessionKey v r)")
    case (Some us)
    then have "us_UserID us = v" using I(3) [OF Some] by simp
    then show ?thesis using Some by (simp add: CloseAllSessionsForUser_def close_where_tab [OF inv])
  qed (simp add: CloseAllSessionsForUser_def close_where_tab [OF inv])
next
  have inv: "ssh_inv sm" using assms by (rule ssh_reachable_inv)
  fix c
  have "(\<exists>k us. map_of (sm_sessions sm) k = Some us \<and> us_UserID us = u \<and> us_Client us = Some c) \<longleftrightarrow>
      (\<exists>r. held_by sm (getSessionKey u r) c)"
  proof
    assume "\<exists>k us. map_of (sm_sessions sm) k = Some us \<and> us_UserID us = u \<and> us_Client us = Some c"
    then obtain k us where us: "map_of (sm_sessions sm) k = Some us" "us_UserID us = u" "us_Client us = Some c" by blast
    moreover have "k = getSessionKey u (us_IsRootUser us)" using ssh_invD(3) [OF inv us(1)] us(2) by simp
    ultimately show "\<exists>r. held_by sm (getSessionKey u r) c"
      by (intro exI [of _ "us_IsRootUser us"]) (simp add: held_by_def)
  next
    assume "\<exists>r. held_by sm (getSessionKey u r) c"
    then obtain r us where "map_of (sm_sessions sm) (getSessionKey u r) = Some us" "us_Client us = Some c" using held_some by blast
    moreover from this have "us_UserID us = u" using ssh_invD(3) [OF inv] by fastforce
    ultimately show "\<exists>k us. map_of (sm_sessions sm) k = Some us \<and> us_UserID us = u \<and> us_Client us = Some c" by blast
  qed
  then show "c \<in> set (sm_closed (CloseAllSessionsForUser u sm)) \<longleftrightarrow>
        c \<in> set (sm_closed sm) \<or> (\<exists>r. held_by sm (getSessionKey u r) c)"
    by (simp add: CloseAllSessionsForUser_def close_where_closed [OF inv])
qed

text \<open>
  the credentials of the administrator never reach a session of a normal user: creating a
  session without root rights has the same outcome and the same effect whatever the
  administrator's name, password, private key and passphrase in the configuration are.
\<close>

theorem root_credentials_confined:
  assumes "sm_Cfg sm = Some cfg" "cfg_ServerHost cfg' = cfg_ServerHost cfg" "cfg_Timeout cfg' = cfg_Timeout cfg"
  shows "CreateSession ne now u name pw False (sm\<lparr> sm_Cfg := Some cfg' \<rparr>) =
    map_prod (\<lambda>s. s\<lparr> sm_Cfg := Some cfg' \<rparr>) id (CreateSession ne now u name pw False sm)"
proof -
  have sc: "session_config (sm\<lparr> sm_Cfg := Some cfg' \<rparr>) cfg' name pw False = session_config sm cfg name pw False"
    using assms by (simp add: session_config_def GetTimeout_def)
  show ?thesis
    using assms(1) sc by (auto simp: CreateSession_def Let_def store_session_Cfg split: sum.splits)
qed

end
