(* ===== verification/SessionStore.thy ===== *)
theory SessionStore
  imports Prelude "HOL-Library.Multiset" "HOL-Library.AList"
begin

text \<open>
  The key-value store and the metadata of SSH sessions in it: internal/repository/redis_repository.go
  and internal/repository/session_repository.go.

  A store maps keys to values with an optional time at which they expire. The JSON text of a
  record is represented by the record itself, so encoding and decoding do not fail; a value of
  another kind than a command expects is an error, as in Redis. Each command has a flag that makes
  it fail. The members of a set come in an arbitrary order \<open>it\<close>.
\<close>

section \<open>The store\<close>

record SessionInfo =
  si_UserID :: int
  si_Username :: string
  si_IsRoot :: bool
  si_CreatedAt :: int
  si_LastUsedAt :: int

record UserCredentials =
  uc_UserID :: int
  uc_Username :: string
  uc_Password :: string
  uc_ExpiresAt :: int

record sshCredentials =
  sc_creds_Username :: string
  sc_creds_Password :: string

datatype redis_value =
    RText string
  | RSession SessionInfo
  | RUserCreds UserCredentials
  | RSshCreds sshCredentials
  | RSet "string list"
  | RHash "(string \<times> string) list"

type_synonym redis_db = "string \<Rightarrow> (redis_value \<times> int option) option"

definition live :: "int \<Rightarrow> redis_db \<Rightarrow> string \<Rightarrow> redis_value option" where
  "live now db k = (case db k of
     None \<Rightarrow> None
   | Some (v, None) \<Rightarrow> Some v
   | Some (v, Some t) \<Rightarrow> (if now < t then Some v else None))"

text \<open>Set with expiration 0 keeps the value for ever.\<close>

definition redis_Set :: "bool \<Rightarrow> int \<Rightarrow> string \<Rightarrow> redis_value \<Rightarrow> int \<Rightarrow> redis_db \<Rightarrow> redis_db \<times> unit result" where
  "redis_Set err now k v expiration db = (if err then (db, Err RedisError)
     else (db(k := Some (v, if expiration = 0 then None else Some (now + expiration))), Ok ()))"

definition redis_Get :: "bool \<Rightarrow> int \<Rightarrow> string \<Rightarrow> redis_db \<Rightarrow> redis_value result" where
  "redis_Get err now k db = (if err then Err RedisError
     else case live now db k of None \<Rightarrow> Err RedisNil | Some (RSet _) \<Rightarrow> Err RedisError | Some (RHash _) \<Rightarrow> Err RedisError | Some v \<Rightarrow> Ok v)"

definition redis_Del :: "bool \<Rightarrow> string \<Rightarrow> redis_db \<Rightarrow> redis_db \<times> unit result" where
  "redis_Del err k db = (if err then (db, Err RedisError) else (db(k := None), Ok ()))"

definition redis_SMembers :: "bool \<Rightarrow> int \<Rightarrow> string \<Rightarrow> redis_db \<Rightarrow> string list result" where
  "redis_SMembers err now k db = (if err then Err RedisError
     else case live now db k of None \<Rightarrow> Ok [] | Some (RSet ms) \<Rightarrow> Ok ms | Some _ \<Rightarrow> Err RedisError)"

definition redis_SAdd :: "bool \<Rightarrow> int \<Rightarrow> string \<Rightarrow> string \<Rightarrow> redis_db \<Rightarrow> redis_db \<times> unit result" where
  "redis_SAdd err now k m db = (case redis_SMembers err now k db of
     Inl e \<Rightarrow> (db, Err e)
   | Inr ms \<Rightarrow> (db(k := Some (RSet (List.insert m ms), None)), Ok ()))"

definition redis_SRem :: "bool \<Rightarrow> int \<Rightarrow> string \<Rightarrow> string \<Rightarrow> redis_db \<Rightarrow> redis_db \<times> unit result" where
  "redis_SRem err now k m db = (case redis_SMembers err now k db of
     Inl e \<Rightarrow> (db, Err e)
   | Inr ms \<Rightarrow> (let ms' = filter (\<lambda>x. x \<noteq> m) ms
               in (db(k := (if ms' = [] then None else Some (RSet ms', None))), Ok ())))"

definition redis_SIsMember :: "bool \<Rightarrow> int \<Rightarrow> string \<Rightarrow> string \<Rightarrow> redis_db \<Rightarrow> bool result" where
  "redis_SIsMember err now k m db = (case redis_SMembers err now k db of Inl e \<Rightarrow> Err e | Inr ms \<Rightarrow> Ok (m \<in> set ms))"

text \<open>
  Hashes. HSet on an existing hash keeps its expiry; the fields of a Go map come in any order,
  which makes no difference because they are distinct.
\<close>

definition redis_HGetAll :: "bool \<Rightarrow> int \<Rightarrow> string \<Rightarrow> redis_db \<Rightarrow> (string \<times> string) list result" where
  "redis_HGetAll err now k db = (if err then Err RedisError
     else case live now db k of None \<Rightarrow> Ok [] | Some (RHash h) \<Rightarrow> Ok h | Some _ \<Rightarrow> Err RedisError)"

definition key_expiry :: "int \<Rightarrow> string \<Rightarrow> redis_db \<Rightarrow> int option" where
  "key_expiry now k db = (case db k of Some (_, Some t) \<Rightarrow> (if now < t then Some t else None) | _ \<Rightarrow> None)"

definition redis_HSet :: "bool \<Rightarrow> int \<Rightarrow> string \<Rightarrow> (string \<times> string) list \<Rightarrow> redis_db \<Rightarrow> redis_db \<times> unit result" where
  "redis_HSet err now k fvs db = (case redis_HGetAll err now k db of
     Inl e \<Rightarrow> (db, Err e)
   | Inr h \<Rightarrow> (db(k := Some (RHash (fold (\<lambda>(f, v). AList.update f v) fvs h), key_expiry now k db)), Ok ()))"

definition redis_HGet :: "bool \<Rightarrow> int \<Rightarrow> string \<Rightarrow> string \<Rightarrow> redis_db \<Rightarrow> string result" where
  "redis_HGet err now k f db = (case redis_HGetAll err now k db of
     Inl e \<Rightarrow> Err e | Inr h \<Rightarrow> (case map_of h f of None \<Rightarrow> Err RedisNil | Some v \<Rightarrow> Ok v))"

definition redis_HDel :: "bool \<Rightarrow> int \<Rightarrow> string \<Rightarrow> string list \<Rightarrow> redis_db \<Rightarrow> redis_db \<times> unit result" where
  "redis_HDel err now k fs db = (case redis_HGetAll err now k db of
     Inl e \<Rightarrow> (db, Err e)
   | Inr h \<Rightarrow> (let h' = filter (\<lambda>(f, _). f \<notin> set fs) h
              in (db(k := (if h' = [] then None else Some (RHash h', key_expiry now k db))), Ok ())))"

section \<open>Session metadata\<close>

definition sessionKeyPrefix :: string where "sessionKeyPrefix = ''ssh:session:''"

definition sessionListKey :: string where "sessionListKey = ''ssh:session:list''"

definition credsKeyPrefix :: string where "credsKeyPrefix = ''ssh:creds:''"

definition defaultCredsTTL :: int where "defaultCredsTTL = 30 * 60 * 1000000000"

definition meta_key :: "int \<Rightarrow> string" where
  "meta_key userID = sessionKeyPrefix @ Itoa userID"

definition getCredsKey :: "int \<Rightarrow> string" where
  "getCredsKey userID = credsKeyPrefix @ Itoa userID"

text \<open>
  \<open>se_client\<close> tells whether there is a Redis client at all; the other flags make the commands of an
  operation fail, \<open>se_each\<close> the k-th command of a loop.
\<close>

record session_env =
  se_client :: bool
  se_get :: bool
  se_set :: bool
  se_del :: bool
  se_list :: bool
  se_each :: "nat \<Rightarrow> bool"

definition SaveSession :: "session_env \<Rightarrow> int \<Rightarrow> int \<Rightarrow> string \<Rightarrow> bool \<Rightarrow> int \<Rightarrow> redis_db \<Rightarrow> redis_db \<times> unit result" where
  "SaveSession e now userID username isRoot createdAt db =
     (if \<not> se_client e then (db, Ok ())
      else (case redis_Set (se_set e) now (meta_key userID)
          (RSession \<lparr> si_UserID = userID, si_Username = username, si_IsRoot = isRoot, si_CreatedAt = createdAt, si_LastUsedAt = createdAt \<rparr>) 0 db of
        (db1, Inl _) \<Rightarrow> (db1, Err (Errorf ''save session''))
      | (db1, Inr _) \<Rightarrow> (case redis_SAdd (se_list e) now sessionListKey (Itoa userID) db1 of
          (db2, Inl _) \<Rightarrow> (db2, Err (Errorf ''add session to list''))
        | (db2, Inr _) \<Rightarrow> (db2, Ok ()))))"

definition GetSessionInfo :: "session_env \<Rightarrow> int \<Rightarrow> int \<Rightarrow> redis_db \<Rightarrow> SessionInfo result" where
  "GetSessionInfo e now userID db =
     (if \<not> se_client e then Err (Errorf ''redis unavailable'')
      else (case redis_Get (se_get e) now (meta_key userID) db of
        Inl RedisNil \<Rightarrow> Err (Errorf ''no session'')
      | Inl _ \<Rightarrow> Err (Errorf ''get session'')
      | Inr (RSession i) \<Rightarrow> Ok i
      | Inr _ \<Rightarrow> Err (Errorf ''decode session'')))"

definition meta_DeleteSession :: "session_env \<Rightarrow> int \<Rightarrow> int \<Rightarrow> redis_db \<Rightarrow> redis_db \<times> unit result" where
  "meta_DeleteSession e now userID db =
     (if \<not> se_client e then (db, Ok ())
      else (case redis_Del (se_del e) (meta_key userID) db of
        (db1, Inl _) \<Rightarrow> (db1, Err (Errorf ''delete session''))
      | (db1, Inr _) \<Rightarrow> (case redis_SRem (se_list e) now sessionListKey (Itoa userID) db1 of
          (db2, Inl _) \<Rightarrow> (db2, Err (Errorf ''remove session from list''))
        | (db2, Inr _) \<Rightarrow> (db2, Ok ()))))"

text \<open>The loops go on after an error of one command.\<close>

fun del_loop :: "(nat \<Rightarrow> bool) \<Rightarrow> nat \<Rightarrow> string list \<Rightarrow> redis_db \<Rightarrow> redis_db" where
  "del_loop each k [] db = db"
| "del_loop each k (u # us) db = del_loop each (Suc k) us (fst (redis_Del (each k) (sessionKeyPrefix @ u) db))"

definition DeleteAllSessions :: "(string list \<Rightarrow> string list) \<Rightarrow> session_env \<Rightarrow> int \<Rightarrow> redis_db \<Rightarrow> redis_db \<times> unit result" where
  "DeleteAllSessions it e now db =
     (if \<not> se_client e then (db, Ok ())
      else (case redis_SMembers (se_list e) now sessionListKey db of
        Inl _ \<Rightarrow> (db, Err (Errorf ''session list''))
      | Inr userIDs \<Rightarrow> (case redis_Del (se_del e) sessionListKey (del_loop (se_each e) 0 (it userIDs) db) of
          (db2, Inl _) \<Rightarrow> (db2, Err (Errorf ''delete session list''))
        | (db2, Inr _) \<Rightarrow> (db2, Ok ()))))"

fun read_loop :: "(nat \<Rightarrow> bool) \<Rightarrow> int \<Rightarrow> nat \<Rightarrow> string list \<Rightarrow> redis_db \<Rightarrow> SessionInfo list" where
  "read_loop each now k [] db = []"
| "read_loop each now k (u # us) db = (case redis_Get (each k) now (sessionKeyPrefix @ u) db of
     Inr (RSession i) \<Rightarrow> i # read_loop each now (Suc k) us db
   | _ \<Rightarrow> read_loop each now (Suc k) us db)"

definition ListActiveSessions :: "(string list \<Rightarrow> string list) \<Rightarrow> session_env \<Rightarrow> int \<Rightarrow> redis_db \<Rightarrow> SessionInfo list result" where
  "ListActiveSessions it e now db =
     (if \<not> se_client e then Err (Errorf ''redis unavailable'')
      else (case redis_SMembers (se_list e) now sessionListKey db of
        Inl _ \<Rightarrow> Err (Errorf ''session list'')
      | Inr userIDs \<Rightarrow> Ok (read_loop (se_each e) now 0 (it userIDs) db)))"

definition meta_UpdateLastUsed :: "session_env \<Rightarrow> int \<Rightarrow> int \<Rightarrow> int \<Rightarrow> redis_db \<Rightarrow> redis_db \<times> unit result" where
  "meta_UpdateLastUsed e now userID lastUsedAt db =
     (if \<not> se_client e then (db, Ok ())
      else (case redis_Get (se_get e) now (meta_key userID) db of
        Inl _ \<Rightarrow> (db, Err (Errorf ''get session''))
      | Inr (RSession i) \<Rightarrow> (case redis_Set (se_set e) now (meta_key userID) (RSession (i\<lparr> si_LastUsedAt := lastUsedAt \<rparr>)) 0 db of
          (db1, Inl _) \<Rightarrow> (db1, Err (Errorf ''update session''))
        | (db1, Inr _) \<Rightarrow> (db1, Ok ()))
      | Inr _ \<Rightarrow> (db, Err (Errorf ''decode session''))))"

section \<open>Credentials for reconnecting terminals\<close>

definition SaveUserCredentials :: "session_env \<Rightarrow> int \<Rightarrow> int \<Rightarrow> string \<Rightarrow> string \<Rightarrow> int \<Rightarrow> redis_db \<Rightarrow> redis_db \<times> unit result" where
  "SaveUserCredentials e now userID username password expiresAt db =
     (if \<not> se_client e then (db, Ok ())
      else let ttl = (if expiresAt - now \<le> 0 then defaultCredsTTL else expiresAt - now) in
        (case redis_Set (se_set e) now (getCredsKey userID)
            (RUserCreds \<lparr> uc_UserID = userID, uc_Username = username, uc_Password = password, uc_ExpiresAt = expiresAt \<rparr>) ttl db of
          (db1, Inl _) \<Rightarrow> (db1, Err (Errorf ''save credentials''))
        | (db1, Inr _) \<Rightarrow> (db1, Ok ())))"

definition DeleteUserCredentials :: "session_env \<Rightarrow> int \<Rightarrow> redis_db \<Rightarrow> redis_db \<times> unit result" where
  "DeleteUserCredentials e userID db =
     (if \<not> se_client e then (db, Ok ())
      else (case redis_Del (se_del e) (getCredsKey userID) db of
        (db1, Inl _) \<Rightarrow> (db1, Err (Errorf ''delete credentials''))
      | (db1, Inr _) \<Rightarrow> (db1, Ok ())))"

definition GetUserCredentials :: "session_env \<Rightarrow> int \<Rightarrow> int \<Rightarrow> redis_db \<Rightarrow> redis_db \<times> UserCredentials result" where
  "GetUserCredentials e now userID db =
     (if \<not> se_client e then (db, Err (Errorf ''redis unavailable''))
      else (case redis_Get (se_get e) now (getCredsKey userID) db of
        Inl RedisNil \<Rightarrow> (db, Err (Errorf ''credentials missing''))
      | Inl _ \<Rightarrow> (db, Err (Errorf ''get credentials''))
      | Inr (RUserCreds c) \<Rightarrow>
          (if now > uc_ExpiresAt c then (fst (DeleteUserCredentials e userID db), Err (Errorf ''credentials expired''))
           else (db, Ok c))
      | Inr _ \<Rightarrow> (db, Err (Errorf ''decode credentials''))))"

section \<open>Metadata as a map\<close>

text \<open>
  The specification: a finite map from users to session records. The store represents it when
  every record stands under the key of its user without expiry and the list holds exactly the ids
  of the users that have one.
\<close>

definition meta :: "redis_db \<Rightarrow> int \<Rightarrow> SessionInfo option" where
  "meta db u = (case db (meta_key u) of Some (RSession i, None) \<Rightarrow> Some i | _ \<Rightarrow> None)"

definition listed :: "redis_db \<Rightarrow> string list \<Rightarrow> bool" where
  "listed db ms = (db sessionListKey = (if ms = [] then None else Some (RSet ms, None)))"

definition meta_ok :: "redis_db \<Rightarrow> bool" where
  "meta_ok db = ((\<exists>ms. listed db ms \<and> distinct ms \<and> set ms = Itoa ` dom (meta db)) \<and>
     (\<forall>u. db (meta_key u) = None \<or> (\<exists>i. db (meta_key u) = Some (RSession i, None) \<and> si_UserID i = u)))"

lemma Itoa_not_list: "Itoa u \<noteq> ''list''"
proof
  assume "Itoa u = ''list''"
  then have "CHR ''l'' \<in> set (Itoa u)" by simp
  from set_Itoa [OF this] show False by (simp add: is_digit_def)
qed

lemma meta_key_neq [simp]: "meta_key u \<noteq> sessionListKey" "sessionListKey \<noteq> meta_key u" "meta_key u = meta_key v \<longleftrightarrow> u = v"
  using Itoa_not_list [of u] by (auto simp: meta_key_def sessionListKey_def sessionKeyPrefix_def)

lemma members_listed: "listed db ms \<Longrightarrow> redis_SMembers False now sessionListKey db = Ok ms"
  by (auto simp: listed_def redis_SMembers_def live_def)

lemma meta_Some: "meta_ok db \<Longrightarrow> meta db u = Some i \<longleftrightarrow> db (meta_key u) = Some (RSession i, None)"
  by (auto simp: meta_def split: option.splits prod.splits redis_value.splits)

lemma meta_upd:
  "meta (db(meta_key u := Some (RSession i, None))) = (meta db)(u := Some i)"
  "meta (db(meta_key u := None)) = (meta db)(u := None)"
  "meta (db(sessionListKey := x)) = meta db"
  by (auto simp: meta_def fun_eq_iff)

lemma meta_okI:
  "listed db ms \<Longrightarrow> distinct ms \<Longrightarrow> set ms = Itoa ` dom (meta db) \<Longrightarrow>
   (\<And>u. db (meta_key u) = None \<or> (\<exists>i. db (meta_key u) = Some (RSession i, None) \<and> si_UserID i = u)) \<Longrightarrow> meta_ok db"
  by (auto simp: meta_ok_def)

lemma meta_okD:
  "meta_ok db \<Longrightarrow> \<exists>ms. listed db ms \<and> distinct ms \<and> set ms = Itoa ` dom (meta db)"
  "meta_ok db \<Longrightarrow> db (meta_key u) = None \<or> (\<exists>i. db (meta_key u) = Some (RSession i, None) \<and> si_UserID i = u)"
  by (simp_all add: meta_ok_def)

abbreviation redis_up :: session_env where
  "redis_up \<equiv> \<lparr> se_client = True, se_get = False, se_set = False, se_del = False, se_list = False, se_each = (\<lambda>_. False) \<rparr>"

definition new_info :: "int \<Rightarrow> string \<Rightarrow> bool \<Rightarrow> int \<Rightarrow> SessionInfo" where
  "new_info u name root t = \<lparr> si_UserID = u, si_Username = name, si_IsRoot = root, si_CreatedAt = t, si_LastUsedAt = t \<rparr>"

lemma SaveSession_refines:
  assumes "meta_ok db"
  shows "\<exists>db'. SaveSession redis_up now u name root t db = (db', Ok ()) \<and> meta_ok db' \<and> meta db' = (meta db)(u := Some (new_info u name root t))"
proof -
  obtain ms where ms: "listed db ms" "distinct ms" "set ms = Itoa ` dom (meta db)"
    using meta_okD(1) [OF assms] by blast
  note rows = meta_okD(2) [OF assms]
  let ?db1 = "db(meta_key u := Some (RSession (new_info u name root t), None))"
  let ?db2 = "?db1(sessionListKey := Some (RSet (List.insert (Itoa u) ms), None))"
  have "listed ?db1 ms" using ms(1) by (simp add: listed_def)
  then have s: "SaveSession redis_up now u name root t db = (?db2, Ok ())"
    by (simp add: SaveSession_def redis_Set_def redis_SAdd_def members_listed new_info_def)
  have m: "meta ?db2 = (meta db)(u := Some (new_info u name root t))" by (simp only: meta_upd)
  have "meta_ok ?db2"
  proof (rule meta_okI [of _ "List.insert (Itoa u) ms"])
    show "listed ?db2 (List.insert (Itoa u) ms)" by (auto simp: listed_def List.insert_def)
    show "distinct (List.insert (Itoa u) ms)" using ms(2) by simp
    show "set (List.insert (Itoa u) ms) = Itoa ` dom (meta ?db2)" using ms(3) unfolding m by auto
    show "?db2 (meta_key v) = None \<or> (\<exists>i. ?db2 (meta_key v) = Some (RSession i, None) \<and> si_UserID i = v)" for v
      using rows [of v] by (cases "v = u") (simp_all add: new_info_def)
  qed
  then show ?thesis using s m by blast
qed

lemma DeleteSession_refines:
  assumes "meta_ok db"
  shows "\<exists>db'. meta_DeleteSession redis_up now u db = (db', Ok ()) \<and> meta_ok db' \<and> meta db' = (meta db)(u := None)"
proof -
  obtain ms where ms: "listed db ms" "distinct ms" "set ms = Itoa ` dom (meta db)"
    using meta_okD(1) [OF assms] by blast
  note rows = meta_okD(2) [OF assms]
  let ?ms = "filter (\<lambda>x. x \<noteq> Itoa u) ms"
  let ?db1 = "db(meta_key u := None)"
  let ?db2 = "?db1(sessionListKey := (if ?ms = [] then None else Some (RSet ?ms, None)))"
  have "listed ?db1 ms" using ms(1) by (simp add: listed_def)
  then have s: "meta_DeleteSession redis_up now u db = (?db2, Ok ())"
    by (simp add: meta_DeleteSession_def redis_Del_def redis_SRem_def members_listed Let_def)
  have m: "meta ?db2 = (meta db)(u := None)" by (simp only: meta_upd)
  have "meta_ok ?db2"
  proof (rule meta_okI [of _ ?ms])
    show "listed ?db2 ?ms" by (simp add: listed_def)
    show "distinct ?ms" using ms(2) by simp
    show "set ?ms = Itoa ` dom (meta ?db2)" using ms(3) unfolding m by auto
    show "?db2 (meta_key v) = None \<or> (\<exists>i. ?db2 (meta_key v) = Some (RSession i, None) \<and> si_UserID i = v)" for v
      using rows [of v] by (cases "v = u") simp_all
  qed
  then show ?thesis using s m by blast
qed

lemma del_loop_other: "k \<notin> (\<lambda>u. sessionKeyPrefix @ u) ` set us \<Longrightarrow> del_loop each n us db k = db k"
  by (induction us arbitrary: n db) (auto simp: redis_Del_def)

lemma del_loop_gone: "u \<in> set us \<Longrightarrow> del_loop (\<lambda>_. False) n us db (sessionKeyPrefix @ u) = None"
proof (induction us arbitrary: n db)
  case (Cons v us)
  show ?case
  proof (cases "u \<in> set us")
    case False
    then show ?thesis using Cons.prems by (simp add: del_loop_other redis_Del_def image_iff)
  qed (simp add: Cons.IH)
qed simp

lemma DeleteAll_refines:
  assumes "meta_ok db" "\<And>xs. set (it xs) = set xs"
  shows "\<exists>db'. DeleteAllSessions it redis_up now db = (db', Ok ()) \<and> meta_ok db' \<and> meta db' = (\<lambda>_. None)"
proof -
  obtain ms where ms: "listed db ms" "set ms = Itoa ` dom (meta db)"
    using meta_okD(1) [OF assms(1)] by blast
  note rows = meta_okD(2) [OF assms(1)]
  let ?db = "(del_loop (\<lambda>_. False) 0 (it ms) db)(sessionListKey := None)"
  have s: "DeleteAllSessions it redis_up now db = (?db, Ok ())"
    by (simp add: DeleteAllSessions_def members_listed [OF ms(1)] redis_Del_def)
  have "?db (meta_key u) = None" for u
  proof (cases "Itoa u \<in> set ms")
    case True
    then show ?thesis using del_loop_gone [of "Itoa u" "it ms" 0 db] assms(2) by (simp add: meta_key_def)
  next
    case False
    then have "db (meta_key u) = None" using ms(2) rows [of u] by (force simp: meta_def dom_def)
    moreover have "meta_key u \<notin> (\<lambda>v. sessionKeyPrefix @ v) ` set (it ms)"
      using False assms(2) by (auto simp: meta_key_def)
    ultimately show ?thesis using del_loop_other by simp
  qed
  then have "meta ?db = (\<lambda>_. None)" "meta_ok ?db"
    by (auto simp: meta_def fun_eq_iff intro!: meta_okI [of _ "[]"] simp: listed_def)
  then show ?thesis using s by blast
qed

lemma ran_is_image: "(\<lambda>u. the (m u)) ` dom m = ran m"
  by (auto simp: ran_def image_iff) (metis domI option.sel)

lemma read_loop_exact:
  "meta_ok db \<Longrightarrow> set us \<subseteq> Itoa ` dom (meta db) \<Longrightarrow>
   read_loop (\<lambda>_. False) now k us db = map (\<lambda>s. the (meta db (THE u. Itoa u = s))) us"
proof (induction us arbitrary: k)
  case (Cons s us)
  then obtain u i where u: "s = Itoa u" "meta db u = Some i" by auto
  have "(THE v. Itoa v = s) = u" using u(1) by (intro the_equality) auto
  moreover have "redis_Get False now (sessionKeyPrefix @ s) db = Ok (RSession i)"
    using u Cons.prems(1) by (simp add: redis_Get_def live_def meta_Some flip: meta_key_def)
  ultimately show ?case using Cons u by simp
qed simp

lemma List_refines:
  assumes "meta_ok db" "\<And>xs. mset (it xs) = mset xs"
  shows "\<exists>is. ListActiveSessions it redis_up now db = Ok is \<and> distinct (map si_UserID is) \<and> set is = ran (meta db)"
proof -
  obtain ms where ms: "listed db ms" "distinct ms" "set ms = Itoa ` dom (meta db)"
    using meta_okD(1) [OF assms(1)] by blast
  have it: "set (it ms) = set ms" "distinct (it ms)"
    using assms(2) [of ms] ms(2) by (metis set_mset_mset, metis mset_eq_imp_distinct_iff)
  let ?f = "\<lambda>s. the (meta db (THE u. Itoa u = s))"
  have f: "?f (Itoa u) = the (meta db u)" for u by (simp add: the_equality)
  have id: "si_UserID (the (meta db u)) = u" if "u \<in> dom (meta db)" for u
    using that meta_okD(2) [OF assms(1), of u] by (auto simp: meta_def dom_def)
  have "ListActiveSessions it redis_up now db = Ok (map ?f (it ms))"
    using read_loop_exact [OF assms(1), of "it ms" now 0] it(1) ms(3)
    by (simp add: ListActiveSessions_def members_listed [OF ms(1)])
  moreover have "distinct (map si_UserID (map ?f (it ms)))"
    using it ms(3) by (auto simp: distinct_map inj_on_def f id comp_def)
  moreover have "set (map ?f (it ms)) = ran (meta db)"
  proof -
    have "set (map ?f (it ms)) = (\<lambda>u. the (meta db u)) ` dom (meta db)" using it(1) ms(3) by (simp add: image_image f)
    then show ?thesis by (simp add: ran_is_image)
  qed
  ultimately show ?thesis by blast
qed

lemma UpdateLastUsed_refines:
  assumes "meta_ok db"
  shows "\<exists>db' r. meta_UpdateLastUsed redis_up now u t db = (db', r) \<and> meta_ok db' \<and> is_ok r = (u \<in> dom (meta db)) \<and>
    meta db' = (case meta db u of None \<Rightarrow> meta db | Some i \<Rightarrow> (meta db)(u := Some (i\<lparr> si_LastUsedAt := t \<rparr>)))"
proof (cases "meta db u")
  case None
  then have "db (meta_key u) = None" using meta_okD(2) [OF assms, of u] by (auto simp: meta_def)
  then show ?thesis using None assms by (auto simp: meta_UpdateLastUsed_def redis_Get_def live_def)
next
  case (Some i)
  then have i: "db (meta_key u) = Some (RSession i, None)" "si_UserID i = u"
    using meta_Some [OF assms] meta_okD(2) [OF assms, of u] by auto
  obtain ms where ms: "listed db ms" "distinct ms" "set ms = Itoa ` dom (meta db)"
    using meta_okD(1) [OF assms] by blast
  let ?db = "db(meta_key u := Some (RSession (i\<lparr> si_LastUsedAt := t \<rparr>), None))"
  have "meta_ok ?db"
  proof (rule meta_okI [of _ ms])
    show "listed ?db ms" using ms(1) by (simp add: listed_def)
    show "set ms = Itoa ` dom (meta ?db)" using ms(3) Some by (auto simp: meta_upd)
    show "?db (meta_key v) = None \<or> (\<exists>j. ?db (meta_key v) = Some (RSession j, None) \<and> si_UserID j = v)" for v
      using meta_okD(2) [OF assms, of v] i(2) by (cases "v = u") simp_all
  qed (rule ms(2))
  then show ?thesis using Some i
    by (auto simp: meta_UpdateLastUsed_def redis_Get_def live_def redis_Set_def meta_upd)
qed

lemma GetSessionInfo_refines:
  "meta_ok db \<Longrightarrow> GetSessionInfo redis_up now u db = (case meta db u of None \<Rightarrow> Err (Errorf ''no session'') | Some i \<Rightarrow> Ok i)"
  using meta_okD(2) [of db u] by (auto simp: GetSessionInfo_def redis_Get_def live_def meta_def split: option.splits)

text \<open>
  C23: With Redis available, the session metadata is a map from users to records: saving puts the
  record of the user, deleting removes it, deleting all empties the map, reading gives the record
  or reports that there is none, touching changes the time of last use only, and the list of
  active sessions holds each record of the map exactly once. The map holds one record per user, so
  the record of a root session replaces the one of the user's own session.
\<close>

theorem session_metadata_refines_map:
  assumes "meta_ok db" "\<And>xs. mset (it xs) = mset xs"
  shows "(\<exists>db'. SaveSession redis_up now u name root t db = (db', Ok ()) \<and> meta_ok db' \<and> meta db' = (meta db)(u := Some (new_info u name root t))) \<and>
    (\<exists>db'. meta_DeleteSession redis_up now u db = (db', Ok ()) \<and> meta_ok db' \<and> meta db' = (meta db)(u := None)) \<and>
    (\<exists>db'. DeleteAllSessions it redis_up now db = (db', Ok ()) \<and> meta_ok db' \<and> meta db' = (\<lambda>_. None)) \<and>
    (\<exists>db' r. meta_UpdateLastUsed redis_up now u t db = (db', r) \<and> meta_ok db' \<and> is_ok r = (u \<in> dom (meta db)) \<and>
       meta db' = (case meta db u of None \<Rightarrow> meta db | Some i \<Rightarrow> (meta db)(u := Some (i\<lparr> si_LastUsedAt := t \<rparr>)))) \<and>
    GetSessionInfo redis_up now u db = (case meta db u of None \<Rightarrow> Err (Errorf ''no session'') | Some i \<Rightarrow> Ok i) \<and>
    (\<exists>is. ListActiveSessions it redis_up now db = Ok is \<and> distinct (map si_UserID is) \<and> set is = ran (meta db))"
proof -
  have it: "\<And>xs. set (it xs) = set xs" using assms(2) by (metis set_mset_mset)
  show ?thesis
    using SaveSession_refines [OF assms(1)] DeleteSession_refines [OF assms(1)] DeleteAll_refines [of db it now, OF assms(1) it]
      UpdateLastUsed_refines [OF assms(1)] GetSessionInfo_refines [OF assms(1)] List_refines [OF assms]
    by (intro conjI)
qed

lemma session_metadata_refines_map_witness:
  "meta_ok (\<lambda>_. None) \<and> (\<exists>db'. SaveSession redis_up 9 3 ''bob'' False 9 (\<lambda>_. None) = (db', Ok ()) \<and>
     meta db' = [3 \<mapsto> new_info 3 ''bob'' False 9])"
proof -
  have e: "meta (\<lambda>_. None) = Map.empty" by (simp add: meta_def fun_eq_iff)
  then have ok: "meta_ok (\<lambda>_. None)" by (simp add: meta_ok_def listed_def)
  show ?thesis using session_metadata_refines_map [OF ok, of "\<lambda>x. x" 9 3 "''bob''" False 9] ok e by auto
qed

text \<open>
  Credentials saved with an expiry in the past are kept for the default of thirty minutes but can
  never be read: the reader compares the expiry once more and deletes them.
\<close>

theorem expired_credentials_unreadable:
  assumes "expiresAt < now" "SaveUserCredentials redis_up now u name pw expiresAt db = (db', Ok ())" "now \<le> later"
  shows "\<not> is_ok (snd (GetUserCredentials redis_up later u db'))"
  using assms
  by (auto simp: SaveUserCredentials_def redis_Set_def GetUserCredentials_def redis_Get_def live_def Let_def split: if_splits)

end
