(* ===== verification/Accounts.thy ===== *)
theory Accounts
  imports Access Passwords Shell SshSessions SessionStore
begin

text \<open>
  Accounts: internal/service/user_service.go, internal/service/admin_service.go, the session part
  of internal/service/auth_service.go (login, logout, stored credentials, restored SSH sessions,
  mail codes), pkg/captcha and the checks of the registration, login and user controllers.

  The state holds the directory, Redis, the SSH sessions, the commands that were run on the
  machine as root, the avatar files that were removed, and the lines that Register prints to the
  log. Failures of single queries, bcrypt, the captcha store, the mail server, the network and
  the answers of the machine are parameters.
\<close>

section \<open>Requests, environment and state\<close>

record RegisterRequest =
  rg_Username :: string
  rg_Password :: string
  rg_ConfirmPassword :: string
  rg_Email :: string
  rg_EmailCaptcha :: string

record LoginRequest =
  lg_Username :: string
  lg_Password :: string
  lg_CaptchaID :: string
  lg_Captcha :: string

record ChangePasswordRequest =
  cp_OldPassword :: string
  cp_NewPassword :: string
  cp_ConfirmPassword :: string

record ResetPasswordRequest =
  rs_Email :: string
  rs_EmailCaptcha :: string
  rs_NewPassword :: string
  rs_ConfirmPassword :: string

record CreateRequest =
  cu_Username :: string
  cu_Password :: string
  cu_ConfirmPassword :: string
  cu_Email :: string
  cu_RealName :: string
  cu_Phone :: string
  cu_Status :: int
  cu_Roles :: "string list option"

record AdminUpdateUserRequest =
  au_Email :: string
  au_RealName :: string
  au_Phone :: string
  au_Status :: "int option"
  au_Password :: string
  au_ConfirmPassword :: string
  au_Priority :: "int option"
  au_MultiTraining :: "int option"
  au_CrossServer :: "int option"
  au_Roles :: "string list option"

record UpdateProfileRequest =
  up_RealName :: string
  up_Phone :: string
  up_Email :: string

text \<open>The queries and commands that may fail, by name.\<close>

datatype acc_op =
    QUsername | QEmail | QCreate | QRoleFind | QRoleAppend | QRoleDelete | QDelete | QFind | QFindEmail | QUpdate
  | QClear | RGet | RDel | RSet | OMail | OSign | QCount

record acc_env =
  x_w :: collation
  x_fails :: "acc_op \<Rightarrow> bool"
  x_fresh :: "User list \<Rightarrow> int"
  x_aes :: aes_env
  x_hash :: "string \<Rightarrow> string option"
  x_match :: "string \<Rightarrow> string \<Rightarrow> bool"
  x_cfg :: "Config option"
  x_net :: net_env
  x_runs :: "(string \<times> bool) list \<Rightarrow> string \<Rightarrow> bool"
  x_captcha :: "string \<Rightarrow> string \<Rightarrow> bool"

record accounts =
  a_dir :: directory
  a_redis :: redis_db
  a_ssh :: SessionManager
  a_vm :: "(string \<times> bool) list"
  a_removed :: "string list"
  a_log :: "string list"

section \<open>The machine\<close>

text \<open>
  Every operation opens a connection of its own as root. A command is recorded with the fact
  whether it succeeded, which may depend on the commands before it.
\<close>

definition vm_configured :: "acc_env \<Rightarrow> bool" where
  "vm_configured e = (case x_cfg e of Some c \<Rightarrow> cfg_ServerHost c \<noteq> [] \<and> cfg_PrivateKeyPath c \<noteq> [] | None \<Rightarrow> False)"

definition vm_config :: "Config \<Rightarrow> server_config" where
  "vm_config c = \<lparr> sc_Host = cfg_ServerHost c, sc_Username = cfg_RootUsername c, sc_Password = cfg_RootPassword c,
     sc_PrivateKeyPath = cfg_PrivateKeyPath c, sc_PrivateKeyPassphrase = cfg_PrivateKeyPassphrase c,
     sc_Timeout = cfg_Timeout c \<rparr>"

definition vm_connect :: "acc_env \<Rightarrow> unit result" where
  "vm_connect e = (case x_cfg e of
     None \<Rightarrow> Err (Panic ''nil configuration'')
   | Some c \<Rightarrow> (case NewClient (x_net e) (vm_config c) of Inl _ \<Rightarrow> Err (Errorf ''connect to vm'') | Inr _ \<Rightarrow> Ok ()))"

definition vm_run :: "acc_env \<Rightarrow> string \<Rightarrow> accounts \<Rightarrow> accounts \<times> unit result" where
  "vm_run e cmd s = (let ok = x_runs e (a_vm s) cmd
     in (s\<lparr> a_vm := a_vm s @ [(cmd, ok)] \<rparr>, if ok then Ok () else Err SshError))"

definition id_command :: "string \<Rightarrow> string" where
  "id_command username = ''id -u '' @ username"

definition useradd_command :: "string \<Rightarrow> string" where
  "useradd_command username = ''useradd -m -s /bin/bash '' @ username"

definition userdel_command :: "string \<Rightarrow> string" where
  "userdel_command username = ''userdel -r '' @ username"

definition pass_command :: "string \<Rightarrow> string \<Rightarrow> string" where
  "pass_command username password =
     ''echo '' @ [CHR 0x27] @ username @ '':'' @ ReplaceByte CHR 0x27 [CHR 0x27, CHR 0x5C, CHR 0x27, CHR 0x27] password @ [CHR 0x27] @ '' | chpasswd''"

definition createVMUser :: "acc_env \<Rightarrow> string \<Rightarrow> string \<Rightarrow> accounts \<Rightarrow> accounts \<times> unit result" where
  "createVMUser e username password s = (case vm_connect e of
     Inl x \<Rightarrow> (s, Err x)
   | Inr _ \<Rightarrow> (case vm_run e (id_command username) s of
       (s1, Inr _) \<Rightarrow> (s1, Ok ())
     | (s1, Inl _) \<Rightarrow> (case vm_run e (useradd_command username) s1 of
         (s2, Inl _) \<Rightarrow> (s2, Err (Errorf ''useradd''))
       | (s2, Inr _) \<Rightarrow> (case vm_run e (pass_command username password) s2 of
           (s3, Inl _) \<Rightarrow> (s3, Err (Errorf ''chpasswd''))
         | (s3, Inr _) \<Rightarrow> (s3, Ok ())))))"

definition updateVMPassword :: "acc_env \<Rightarrow> string \<Rightarrow> string \<Rightarrow> accounts \<Rightarrow> accounts \<times> unit result" where
  "updateVMPassword e username password s = (case vm_connect e of
     Inl x \<Rightarrow> (s, Err x)
   | Inr _ \<Rightarrow> (case vm_run e (pass_command username password) s of
       (s1, Inl _) \<Rightarrow> (s1, Err (Errorf ''chpasswd''))
     | (s1, Inr _) \<Rightarrow> (s1, Ok ())))"

definition deleteVMUser :: "acc_env \<Rightarrow> string \<Rightarrow> accounts \<Rightarrow> accounts \<times> unit result" where
  "deleteVMUser e username s = (case vm_connect e of
     Inl x \<Rightarrow> (s, Err x)
   | Inr _ \<Rightarrow> (case vm_run e (id_command username) s of
       (s1, Inl x) \<Rightarrow> (s1, Err x)
     | (s1, Inr _) \<Rightarrow> (case vm_run e (userdel_command username) s1 of
         (s2, Inl _) \<Rightarrow> (s2, Err (Errorf ''userdel''))
       | (s2, Inr _) \<Rightarrow> (s2, Ok ()))))"

section \<open>Plumbing\<close>

text \<open>A repository call on the directory, and the continuation of an operation that may fail.\<close>

definition on_dir :: "(directory \<Rightarrow> directory \<times> unit result) \<Rightarrow> accounts \<Rightarrow> accounts \<times> unit result" where
  "on_dir f s = (case f (a_dir s) of (d, r) \<Rightarrow> (s\<lparr> a_dir := d \<rparr>, r))"

definition and_then :: "accounts \<times> 'a result \<Rightarrow> ('a \<Rightarrow> accounts \<Rightarrow> accounts \<times> 'b result) \<Rightarrow> accounts \<times> 'b result" where
  "and_then x k = (case x of (s, Inl err) \<Rightarrow> (s, Err err) | (s, Inr v) \<Rightarrow> k v s)"

definition code_key :: "string \<Rightarrow> string" where
  "code_key email = ''email_code:'' @ email"

text \<open>The stored mail code, with the errors of the two operations that read it.\<close>

definition mail_code :: "acc_env \<Rightarrow> int \<Rightarrow> string \<Rightarrow> accounts \<Rightarrow> string result" where
  "mail_code e now email s = (case redis_Get (x_fails e RGet) now (code_key email) (a_redis s) of
     Inl RedisNil \<Rightarrow> Err (BizError CodeInvalidParam)
   | Inl _ \<Rightarrow> Err (BizError CodeInternalError)
   | Inr (RText c) \<Rightarrow> Ok c
   | Inr _ \<Rightarrow> Err (BizError CodeInternalError))"

definition drop_code :: "acc_env \<Rightarrow> string \<Rightarrow> accounts \<Rightarrow> accounts" where
  "drop_code e email s = s\<lparr> a_redis := fst (redis_Del (x_fails e RDel) (code_key email) (a_redis s)) \<rparr>"

definition hash_password :: "acc_env \<Rightarrow> string \<Rightarrow> string result" where
  "hash_password e pwd = (case x_hash e pwd of None \<Rightarrow> Err (Errorf ''bcrypt'') | Some h \<Rightarrow> Ok h)"

definition blank_user :: User where
  "blank_user = \<lparr> ac_ID = 0, ac_Username = [], ac_Password = [], ac_RealName = [], ac_Phone = [], ac_Avatar = [],
     ac_Email = [], ac_Status = 0, ac_Priority = 0, ac_MultiTraining = 0, ac_CrossServer = 0, ac_CreatedAt = 0, ac_UpdatedAt = 0 \<rparr>"

text \<open>The last part of both ways to create an account: the user on the machine, or roll back.\<close>

definition vm_or_rollback :: "acc_env \<Rightarrow> int \<Rightarrow> string \<Rightarrow> string \<Rightarrow> accounts \<Rightarrow> accounts \<times> unit result" where
  "vm_or_rollback e userID username pwd s =
     (if \<not> vm_configured e then (s, Ok ())
      else (case createVMUser e username pwd s of
        (s1, Inl _) \<Rightarrow> (fst (on_dir (\<lambda>d. user_Delete (x_fails e QDelete) d userID) s1), Err (BizError CodeInternalError))
      | (s1, Inr _) \<Rightarrow> (s1, Ok ())))"

text \<open>The checks that both ways to create an account start with.\<close>

definition name_and_mail_free :: "acc_env \<Rightarrow> string \<Rightarrow> string \<Rightarrow> accounts \<Rightarrow> unit result" where
  "name_and_mail_free e username email s = (case user_ExistsByUsername (x_w e) (x_fails e QUsername) (a_dir s) username of
     Inl x \<Rightarrow> Err x
   | Inr b \<Rightarrow> (if b then Err (BizError CodeUserAlreadyExists)
      else (case user_ExistsByEmail (x_w e) (x_fails e QEmail) (a_dir s) email of
        Inl x \<Rightarrow> Err x
      | Inr c \<Rightarrow> (if c then Err (BizError CodeUserAlreadyExists) else Ok ()))))"

section \<open>Registration\<close>

definition Register :: "acc_env \<Rightarrow> int \<Rightarrow> RegisterRequest \<Rightarrow> accounts \<Rightarrow> accounts \<times> unit result" where
  "Register e now req s =
     (case name_and_mail_free e (rg_Username req) (rg_Email req) s of
        Inl x \<Rightarrow> (s, Err x)
      | Inr _ \<Rightarrow> (case mail_code e now (rg_Email req) s of
        Inl x \<Rightarrow> (s, Err x)
      | Inr cacheCode \<Rightarrow>
        (if rg_EmailCaptcha req \<noteq> cacheCode then (s, Err (BizError CodeInvalidParam))
         else let s1 = drop_code e (rg_Email req) s in
           (case DecryptIfCryptoJS (x_aes e) (rg_Password req) of
              Inl x \<Rightarrow> (s1, Err x)
            | Inr pwd \<Rightarrow> (case ValidatePassword pwd of
              Inl x \<Rightarrow> (s1, Err x)
            | Inr _ \<Rightarrow> (let s2 = s1\<lparr> a_log := a_log s1 @ [pwd] \<rparr> in case hash_password e pwd of
              Inl x \<Rightarrow> (s2, Err x)
            | Inr h \<Rightarrow> (let userID = x_fresh e (d_users (a_dir s2)) in
                and_then (on_dir (\<lambda>d. user_Create (x_w e) (x_fresh e) (x_fails e QCreate) now d
                    (blank_user\<lparr> ac_Username := rg_Username req, ac_Password := h, ac_Email := rg_Email req, ac_Status := 1 \<rparr>)) s2) (\<lambda>_ s3.
                and_then (on_dir (\<lambda>d. AssignRoleByName (x_w e) (x_fails e QRoleFind) (x_fails e QRoleAppend) d userID ''user'') s3) (\<lambda>_ s4.
                vm_or_rollback e userID (rg_Username req) pwd s4)))))))))"

section \<open>Reading accounts\<close>

definition GetUserByID :: "acc_env \<Rightarrow> int \<Rightarrow> accounts \<Rightarrow> (User \<times> Role list) result" where
  "GetUserByID e i s = (case user_FindByID (x_fails e QFind) (a_dir s) i of
     Inl x \<Rightarrow> Err x | Inr None \<Rightarrow> Err (BizError CodeUserNotFound) | Inr (Some u) \<Rightarrow> Ok u)"

definition GetUserByUsername :: "acc_env \<Rightarrow> string \<Rightarrow> accounts \<Rightarrow> (User \<times> Role list) result" where
  "GetUserByUsername e username s = (case user_FindByUsername (x_w e) (x_fails e QFind) (a_dir s) username of
     Inl x \<Rightarrow> Err x | Inr None \<Rightarrow> Err (BizError CodeUserNotFound) | Inr (Some u) \<Rightarrow> Ok u)"

record UserResponse =
  ur_ID :: int
  ur_Username :: string
  ur_RealName :: string
  ur_Phone :: string
  ur_Email :: string
  ur_Avatar :: string
  ur_Status :: int
  ur_Priority :: int
  ur_MultiTraining :: int
  ur_CrossServer :: int
  ur_Roles :: "string list"
  ur_CreatedAt :: int
  ur_UpdatedAt :: int

definition GetUserResponse :: "User \<times> Role list \<Rightarrow> UserResponse" where
  "GetUserResponse x = (case x of (u, roles) \<Rightarrow> \<lparr> ur_ID = ac_ID u, ur_Username = ac_Username u, ur_RealName = ac_RealName u,
     ur_Phone = ac_Phone u, ur_Email = ac_Email u, ur_Avatar = ac_Avatar u, ur_Status = ac_Status u, ur_Priority = ac_Priority u,
     ur_MultiTraining = ac_MultiTraining u, ur_CrossServer = ac_CrossServer u, ur_Roles = map rl_Name roles,
     ur_CreatedAt = ac_CreatedAt u, ur_UpdatedAt = ac_UpdatedAt u \<rparr>)"

text \<open>
  ListUsers: the page, the size and the offset as the service normalises them; a status text that
  is not a number filters for 0. The last component is the number of pages: the quotient of the
  two numbers rounded up (the code divides floating point numbers, which is exact enough for this
  below 2^46 rows).
\<close>

definition page_total :: "int \<Rightarrow> int \<Rightarrow> int" where
  "page_total n sz = - ((- n) div sz)"

definition ListUsers ::
  "(string \<Rightarrow> string \<Rightarrow> bool) \<Rightarrow> acc_env \<Rightarrow> int \<Rightarrow> int \<Rightarrow> string \<Rightarrow> string \<Rightarrow> string \<Rightarrow> accounts \<Rightarrow>
   (UserResponse list \<times> int \<times> int \<times> int \<times> int) result" where
  "ListUsers like e page0 size0 username email status s =
     (let page = (if page0 < 1 then 1 else page0);
          size1 = (if size0 < 1 then 10 else size0);
          sz = (if size1 > 100 then 100 else size1);
          st = (if status \<noteq> [] then Some (case Atoi status of None \<Rightarrow> 0 | Some v \<Rightarrow> v) else None)
      in case user_List like (x_fails e QCount) (x_fails e QFind) (a_dir s) (wrap64 ((page - 1) * sz)) sz username email st of
           Inl x \<Rightarrow> Err x
         | Inr (users, n) \<Rightarrow> Ok (map GetUserResponse users, n, page, sz, page_total n sz))"

section \<open>Changing accounts\<close>

definition UpdateAvatar :: "acc_env \<Rightarrow> int \<Rightarrow> int \<Rightarrow> string \<Rightarrow> accounts \<Rightarrow> accounts \<times> unit result" where
  "UpdateAvatar e now i avatarPath s = (case GetUserByID e i s of
     Inl x \<Rightarrow> (s, Err x)
   | Inr (u, _) \<Rightarrow>
      (let s1 = (if ac_Avatar u \<noteq> [] \<and> ac_Avatar u \<noteq> avatarPath then s\<lparr> a_removed := a_removed s @ [ac_Avatar u] \<rparr> else s)
       in on_dir (\<lambda>d. user_Update (x_w e) (x_fails e QUpdate) now d (u\<lparr> ac_Avatar := avatarPath \<rparr>)) s1))"

text \<open>The machine first, then the table: a failure on the machine ends the operation.\<close>

definition sync_password :: "acc_env \<Rightarrow> User \<Rightarrow> string \<Rightarrow> accounts \<Rightarrow> accounts \<times> unit result" where
  "sync_password e u pwd s =
     (if \<not> vm_configured e then (s, Ok ())
      else (case updateVMPassword e (ac_Username u) pwd s of
        (s1, Inl _) \<Rightarrow> (s1, Err (BizError CodeInternalError))
      | (s1, Inr _) \<Rightarrow> (s1, Ok ())))"

definition ChangePassword :: "acc_env \<Rightarrow> int \<Rightarrow> int \<Rightarrow> ChangePasswordRequest \<Rightarrow> accounts \<Rightarrow> accounts \<times> unit result" where
  "ChangePassword e now i req s = (case GetUserByID e i s of
     Inl x \<Rightarrow> (s, Err x)
   | Inr (u, _) \<Rightarrow> (case DecryptIfCryptoJS (x_aes e) (cp_OldPassword req) of
       Inl x \<Rightarrow> (s, Err x)
     | Inr oldPwd \<Rightarrow>
        (if \<not> x_match e (ac_Password u) oldPwd then (s, Err (BizError CodeInvalidCredentials))
         else (case DecryptIfCryptoJS (x_aes e) (cp_NewPassword req) of
           Inl x \<Rightarrow> (s, Err x)
         | Inr newPwd \<Rightarrow> (case ValidatePassword newPwd of
           Inl x \<Rightarrow> (s, Err x)
         | Inr _ \<Rightarrow> (case hash_password e newPwd of
           Inl x \<Rightarrow> (s, Err x)
         | Inr h \<Rightarrow> and_then (sync_password e u newPwd s) (\<lambda>_ s1.
             on_dir (\<lambda>d. user_Update (x_w e) (x_fails e QUpdate) now d (u\<lparr> ac_Password := h \<rparr>)) s1)))))))"

definition ResetPassword :: "acc_env \<Rightarrow> int \<Rightarrow> ResetPasswordRequest \<Rightarrow> accounts \<Rightarrow> accounts \<times> unit result" where
  "ResetPassword e now req s = (case mail_code e now (rs_Email req) s of
     Inl x \<Rightarrow> (s, Err x)
   | Inr cacheCode \<Rightarrow>
      (if rs_EmailCaptcha req \<noteq> cacheCode then (s, Err (BizError CodeInvalidParam))
       else (case user_FindByEmail (x_w e) (x_fails e QFindEmail) (a_dir s) (rs_Email req) of
         Inl x \<Rightarrow> (s, Err x)
       | Inr None \<Rightarrow> (s, Err (BizError CodeUserNotFound))
       | Inr (Some (u, _)) \<Rightarrow> (case DecryptIfCryptoJS (x_aes e) (rs_NewPassword req) of
         Inl x \<Rightarrow> (s, Err x)
       | Inr newPwd \<Rightarrow> (case ValidatePassword newPwd of
         Inl x \<Rightarrow> (s, Err x)
       | Inr _ \<Rightarrow> (case hash_password e newPwd of
         Inl x \<Rightarrow> (s, Err x)
       | Inr h \<Rightarrow> and_then (sync_password e u newPwd s) (\<lambda>_ s1.
           and_then (on_dir (\<lambda>d. user_Update (x_w e) (x_fails e QUpdate) now d (u\<lparr> ac_Password := h \<rparr>)) s1) (\<lambda>_ s2.
           (drop_code e (rs_Email req) s2, Ok ())))))))))"

text \<open>The check that a mail address belongs to no other account.\<close>

definition mail_of_other :: "acc_env \<Rightarrow> int \<Rightarrow> string \<Rightarrow> accounts \<Rightarrow> unit result" where
  "mail_of_other e i email s = (case user_FindByEmail (x_w e) (x_fails e QFindEmail) (a_dir s) email of
     Inl x \<Rightarrow> Err x
   | Inr None \<Rightarrow> Ok ()
   | Inr (Some (other, _)) \<Rightarrow> (if ac_ID other \<noteq> i then Err (BizError CodeUserAlreadyExists) else Ok ()))"

text \<open>The columns that a profile request sets: those that are not empty in it.\<close>

definition profile_fields :: "UpdateProfileRequest \<Rightarrow> User \<Rightarrow> User" where
  "profile_fields req u =
     (let u1 = (if up_RealName req \<noteq> [] then u\<lparr> ac_RealName := up_RealName req \<rparr> else u);
          u2 = (if up_Phone req \<noteq> [] then u1\<lparr> ac_Phone := up_Phone req \<rparr> else u1)
      in if up_Email req \<noteq> [] then u2\<lparr> ac_Email := up_Email req \<rparr> else u2)"

definition UpdateProfile :: "acc_env \<Rightarrow> int \<Rightarrow> int \<Rightarrow> UpdateProfileRequest \<Rightarrow> accounts \<Rightarrow> accounts \<times> unit result" where
  "UpdateProfile e now i req s = (case GetUserByID e i s of
     Inl x \<Rightarrow> (s, Err x)
   | Inr (u, _) \<Rightarrow> (case (if up_Email req \<noteq> [] then mail_of_other e i (up_Email req) s else Ok ()) of
       Inl x \<Rightarrow> (s, Err x)
     | Inr _ \<Rightarrow> on_dir (\<lambda>d. user_Update (x_w e) (x_fails e QUpdate) now d (profile_fields req u)) s))"

section \<open>Administration\<close>

definition replace_failures :: "acc_env \<Rightarrow> replace_env" where
  "replace_failures e = \<lparr> rr_find = x_fails e QRoleFind, rr_append = x_fails e QRoleAppend, rr_delete = x_fails e QRoleDelete \<rparr>"

definition CreateUser :: "acc_env \<Rightarrow> int \<Rightarrow> CreateRequest \<Rightarrow> accounts \<Rightarrow> accounts \<times> unit result" where
  "CreateUser e now req s =
     (case name_and_mail_free e (cu_Username req) (cu_Email req) s of
        Inl x \<Rightarrow> (s, Err x)
      | Inr _ \<Rightarrow> (case DecryptIfCryptoJS (x_aes e) (cu_Password req) of
        Inl x \<Rightarrow> (s, Err x)
      | Inr pwd \<Rightarrow> (case DecryptIfCryptoJS (x_aes e) (cu_ConfirmPassword req) of
        Inl x \<Rightarrow> (s, Err x)
      | Inr confirmPwd \<Rightarrow>
        (if pwd \<noteq> confirmPwd then (s, Err (BizError CodeInvalidParam))
         else (case ValidatePassword pwd of
           Inl _ \<Rightarrow> (s, Err (BizError CodeInvalidParam))
         | Inr _ \<Rightarrow> (case hash_password e pwd of
           Inl x \<Rightarrow> (s, Err x)
         | Inr h \<Rightarrow> (let userID = x_fresh e (d_users (a_dir s)) in
             and_then (on_dir (\<lambda>d. user_Create (x_w e) (x_fresh e) (x_fails e QCreate) now d
                 (blank_user\<lparr> ac_Username := cu_Username req, ac_Password := h, ac_RealName := cu_RealName req,
                    ac_Phone := cu_Phone req, ac_Email := cu_Email req, ac_Status := cu_Status req \<rparr>)) s) (\<lambda>_ s1.
             and_then (on_dir (\<lambda>d. (case cu_Roles req of
                 Some (r # rs) \<Rightarrow> ReplaceRolesByNames (x_w e) (replace_failures e) d userID (r # rs)
               | _ \<Rightarrow> AssignRoleByName (x_w e) (x_fails e QRoleFind) (x_fails e QRoleAppend) d userID ''user'')) s1) (\<lambda>_ s2.
             vm_or_rollback e userID (cu_Username req) pwd s2)))))))))"

definition DeleteUser :: "acc_env \<Rightarrow> int \<Rightarrow> accounts \<Rightarrow> accounts \<times> unit result" where
  "DeleteUser e i s = (case GetUserByID e i s of
     Inl x \<Rightarrow> (s, Err x)
   | Inr (u, _) \<Rightarrow>
      and_then (if \<not> vm_configured e then (s, Ok ())
                else (case deleteVMUser e (ac_Username u) s of
                  (s1, Inl _) \<Rightarrow> (s1, Err (BizError CodeInternalError))
                | (s1, Inr _) \<Rightarrow> (s1, Ok ()))) (\<lambda>_ s1.
      and_then (on_dir (\<lambda>d. ClearRoles (x_fails e QClear) d i) s1) (\<lambda>_ s2.
      on_dir (\<lambda>d. user_Delete (x_fails e QDelete) d i) s2)))"

text \<open>The part of AdminUpdateUser on a new password: the row gets the hash when all of it succeeds.\<close>

definition admin_password :: "acc_env \<Rightarrow> AdminUpdateUserRequest \<Rightarrow> User \<Rightarrow> accounts \<Rightarrow> accounts \<times> User result" where
  "admin_password e req u s =
     (if au_Password req = [] then (s, Ok u)
      else (case DecryptIfCryptoJS (x_aes e) (au_Password req) of
        Inl x \<Rightarrow> (s, Err x)
      | Inr pwd \<Rightarrow> (case DecryptIfCryptoJS (x_aes e) (au_ConfirmPassword req) of
        Inl x \<Rightarrow> (s, Err x)
      | Inr confirmPwd \<Rightarrow>
         (if pwd \<noteq> confirmPwd then (s, Err (BizError CodeInvalidParam))
          else (case ValidatePassword pwd of
            Inl _ \<Rightarrow> (s, Err (BizError CodeInvalidParam))
          | Inr _ \<Rightarrow> (case hash_password e pwd of
            Inl x \<Rightarrow> (s, Err x)
          | Inr h \<Rightarrow> and_then (sync_password e u pwd s) (\<lambda>_ s1. (s1, Ok (u\<lparr> ac_Password := h \<rparr>)))))))))"

text \<open>The columns that an administrator sets before and after the password.\<close>

definition admin_fields :: "AdminUpdateUserRequest \<Rightarrow> User \<Rightarrow> User" where
  "admin_fields req u =
     (let u1 = (if au_Email req \<noteq> [] then u\<lparr> ac_Email := au_Email req \<rparr> else u);
          u2 = (if au_RealName req \<noteq> [] then u1\<lparr> ac_RealName := au_RealName req \<rparr> else u1);
          u3 = (if au_Phone req \<noteq> [] then u2\<lparr> ac_Phone := au_Phone req \<rparr> else u2)
      in case au_Status req of None \<Rightarrow> u3 | Some v \<Rightarrow> u3\<lparr> ac_Status := v \<rparr>)"

definition admin_limits :: "AdminUpdateUserRequest \<Rightarrow> User \<Rightarrow> User" where
  "admin_limits req u =
     (let u1 = (case au_Priority req of None \<Rightarrow> u | Some v \<Rightarrow> u\<lparr> ac_Priority := v \<rparr>);
          u2 = (case au_MultiTraining req of None \<Rightarrow> u1 | Some v \<Rightarrow> u1\<lparr> ac_MultiTraining := v \<rparr>)
      in case au_CrossServer req of None \<Rightarrow> u2 | Some v \<Rightarrow> u2\<lparr> ac_CrossServer := v \<rparr>)"

definition AdminUpdateUser :: "acc_env \<Rightarrow> int \<Rightarrow> int \<Rightarrow> AdminUpdateUserRequest \<Rightarrow> accounts \<Rightarrow> accounts \<times> unit result" where
  "AdminUpdateUser e now i req s = (case GetUserByID e i s of
     Inl x \<Rightarrow> (s, Err x)
   | Inr (u, _) \<Rightarrow> (case (if au_Email req \<noteq> [] then mail_of_other e i (au_Email req) s else Ok ()) of
       Inl x \<Rightarrow> (s, Err x)
     | Inr _ \<Rightarrow> and_then (admin_password e req (admin_fields req u) s) (\<lambda>u1 s1.
         and_then (case au_Roles req of
             None \<Rightarrow> (s1, Ok ())
           | Some names \<Rightarrow> on_dir (\<lambda>d. ReplaceRolesByNames (x_w e) (replace_failures e) d i names) s1) (\<lambda>_ s2.
         on_dir (\<lambda>d. user_Update (x_w e) (x_fails e QUpdate) now d (admin_limits req u1)) s2))))"

section \<open>Login and logout\<close>

definition captcha_Verify :: "acc_env \<Rightarrow> string \<Rightarrow> string \<Rightarrow> bool" where
  "captcha_Verify e i v = (if i = [] \<or> v = [] then False else x_captcha e i v)"

definition creds_key :: "int \<Rightarrow> string" where
  "creds_key userID = ''ssh_creds:'' @ Itoa userID"

definition day :: int where "day = 24 * hour"

definition saveUserCredentialsToRedis :: "acc_env \<Rightarrow> int \<Rightarrow> int \<Rightarrow> string \<Rightarrow> string \<Rightarrow> accounts \<Rightarrow> accounts \<times> unit result" where
  "saveUserCredentialsToRedis e now userID username password s =
     (case redis_Set (x_fails e RSet) now (creds_key userID)
         (RSshCreds \<lparr> sc_creds_Username = username, sc_creds_Password = password \<rparr>) (7 * day) (a_redis s) of
        (db, Inl _) \<Rightarrow> (s\<lparr> a_redis := db \<rparr>, Err (BizError CodeInternalError))
      | (db, Inr _) \<Rightarrow> (s\<lparr> a_redis := db \<rparr>, Ok ()))"

text \<open>An empty value counts as missing; a missing key is an error of the client as well.\<close>

definition GetUserCredentialsFromRedis :: "acc_env \<Rightarrow> int \<Rightarrow> int \<Rightarrow> accounts \<Rightarrow> sshCredentials result" where
  "GetUserCredentialsFromRedis e now userID s = (case redis_Get (x_fails e RGet) now (creds_key userID) (a_redis s) of
     Inl _ \<Rightarrow> Err (BizError CodeInternalError)
   | Inr (RSshCreds c) \<Rightarrow> Ok c
   | Inr (RText t) \<Rightarrow> Err (BizError (if t = [] then CodeSSHCredentialsNotFound else CodeInternalError))
   | Inr _ \<Rightarrow> Err (BizError CodeInternalError))"

record LoginResponse =
  lr_Token :: string
  lr_User :: UserResponse
  lr_Permissions :: "PermissionResponse list"
  lr_MenusTree :: "MenuTreeNode list"

text \<open>The signing key, the life time of tokens and the signature function of the JWT library.\<close>

record token_env =
  tk_secret :: string
  tk_hours :: int
  tk_sign :: "string \<Rightarrow> CustomClaims \<Rightarrow> string option"
  tk_verify :: "string \<Rightarrow> string \<Rightarrow> jwt_answer"

definition Login ::
  "acc_env \<Rightarrow> token_env \<Rightarrow> go_order \<Rightarrow> (nat \<Rightarrow> bool) \<Rightarrow> int \<Rightarrow> LoginRequest \<Rightarrow> accounts \<Rightarrow> accounts \<times> LoginResponse result" where
  "Login e tk go ferr now req s =
     (if \<not> captcha_Verify e (lg_CaptchaID req) (lg_Captcha req) then (s, Err (BizError CodeInvalidCaptcha))
      else (case user_FindByUsername (x_w e) (x_fails e QFind) (a_dir s) (lg_Username req) of
        Inl _ \<Rightarrow> (s, Err (BizError CodeInternalError))
      | Inr None \<Rightarrow> (s, Err (BizError CodeInvalidCredentials))
      | Inr (Some (u, roles)) \<Rightarrow>
         (if ac_Status u \<noteq> 1 then (s, Err (BizError CodeUserDisabled))
          else (case DecryptIfCryptoJS (x_aes e) (lg_Password req) of
            Inl x \<Rightarrow> (s, Err x)
          | Inr pwd \<Rightarrow>
             (if \<not> x_match e (ac_Password u) pwd then (s, Err (BizError CodeInvalidCredentials))
              else let s1 = fst (saveUserCredentialsToRedis e now (ac_ID u) (lg_Username req) pwd s) in
                (case aggregate (go_perms go) (go_menus go) (x_w e) ferr (a_dir s1) roles of (perms, menus) \<Rightarrow>
                  (case GenerateToken (tk_sign tk) (tk_secret tk) (tk_hours tk) now (ac_ID u) (ac_Username u) (buildRoles roles) of
                     Inl x \<Rightarrow> (s1, Err x)
                   | Inr token \<Rightarrow> (s1, Ok \<lparr> lr_Token = token, lr_User = GetUserResponse (u, roles), lr_Permissions = perms,
                       lr_MenusTree = buildMenuTree (go_slice go) (go_nodes go) (go_nodes' go) menus \<rparr>))))))))"

text \<open>
  Logout deletes the credentials, closes the sessions of the user and deletes their metadata; the
  errors of these steps are logged only. \<open>se\<close> is the environment of the metadata.
\<close>

definition Logout :: "acc_env \<Rightarrow> session_env \<Rightarrow> int \<Rightarrow> int \<Rightarrow> accounts \<Rightarrow> accounts \<times> unit result" where
  "Logout e se now userID s =
     (let s1 = s\<lparr> a_redis := fst (redis_Del (x_fails e RDel) (creds_key userID) (a_redis s)) \<rparr>;
          s2 = s1\<lparr> a_ssh := CloseAllSessionsForUser userID (a_ssh s1) \<rparr>;
          s3 = s2\<lparr> a_redis := fst (meta_DeleteSession se now userID (a_redis s2)) \<rparr>
      in (s3, Ok ()))"

definition EnsureSSHSessionByType ::
  "acc_env \<Rightarrow> session_env \<Rightarrow> (nat \<Rightarrow> bool) \<Rightarrow> int \<Rightarrow> int \<Rightarrow> bool \<Rightarrow> accounts \<Rightarrow> accounts \<times> unit result" where
  "EnsureSSHSessionByType e se answers now userID isRoot s = (case GetUserCredentialsFromRedis e now userID s of
     Inl _ \<Rightarrow> (s, Err (BizError CodeInternalError))
   | Inr creds \<Rightarrow> (case user_FindByID (x_fails e QFind) (a_dir s) userID of
       Inl _ \<Rightarrow> (s, Err (BizError CodeInternalError))
     | Inr None \<Rightarrow> (s, Err (BizError CodeUserNotFound))
     | Inr (Some (u, _)) \<Rightarrow>
         (case GetOrCreateSession answers (x_net e) now userID (sc_creds_Username creds) (sc_creds_Password creds) isRoot (a_ssh s) of
            (sm, Inl _) \<Rightarrow> (s\<lparr> a_ssh := sm \<rparr>, Err (BizError CodeSSHCommandExecutionFailed))
          | (sm, Inr sess) \<Rightarrow> (s\<lparr> a_ssh := sm, a_redis := fst (SaveSession se now (ac_ID u) (us_Username sess) (us_IsRootUser sess) (us_CreatedAt sess) (a_redis s)) \<rparr>, Ok ()))))"

text \<open>
  EnsureSSHSession asks for both kinds of root access; the answer for files overwrites the one for
  terminals, and the error of the first lookup of the user is overwritten too.
\<close>

definition EnsureSSHSession ::
  "acc_env \<Rightarrow> session_env \<Rightarrow> (nat \<Rightarrow> bool) \<Rightarrow> (nat \<Rightarrow> bool) \<Rightarrow> int \<Rightarrow> int \<Rightarrow> accounts \<Rightarrow> accounts \<times> unit result" where
  "EnsureSSHSession e se answers ferr now userID s =
     (case HasSystemAccess (x_w e) (x_fails e QFind) ferr (a_dir s) userID AccessTypeTerminal of
        Inl _ \<Rightarrow> (s, Err (BizError CodeInternalError))
      | Inr _ \<Rightarrow> (case HasSystemAccess (x_w e) (x_fails e QFind) ferr (a_dir s) userID AccessTypeFile of
          Inl _ \<Rightarrow> (s, Err (BizError CodeInternalError))
        | Inr isRoot \<Rightarrow> (case user_FindByID (x_fails e QFind) (a_dir s) userID of
            Inr (Some _) \<Rightarrow> EnsureSSHSessionByType e se answers now userID isRoot s
          | _ \<Rightarrow> (s, Err (BizError CodeUserNotFound)))))"

text \<open>SendEmailCode: \<open>n\<close> is the random number below one million.\<close>

definition pad6 :: "string \<Rightarrow> string" where
  "pad6 t = replicate (6 - length t) (CHR ''0'') @ t"

definition SendEmailCode :: "acc_env \<Rightarrow> int \<Rightarrow> nat \<Rightarrow> string \<Rightarrow> accounts \<Rightarrow> accounts \<times> unit result" where
  "SendEmailCode e now n email s =
     (case redis_Set (x_fails e RSet) now (code_key email) (RText (pad6 (show_nat n))) (5 * 60 * second) (a_redis s) of
        (db, Inl _) \<Rightarrow> (s\<lparr> a_redis := db \<rparr>, Err (BizError CodeInternalError))
      | (db, Inr _) \<Rightarrow> (s\<lparr> a_redis := db \<rparr>, if x_fails e OMail then Err (BizError CodeInternalError) else Ok ()))"

section \<open>The controllers\<close>

text \<open>
  The handlers of the routes: internal/api/v1/auth/controller.go, user/controller.go and
  admin/controller.go after the request has been decoded. An answer is the code of the error
  response, or 0 for success; a handler that answers twice has two entries.
\<close>

definition regexpAlphaNum :: "string \<Rightarrow> bool" where
  "regexpAlphaNum s = (s \<noteq> [] \<and> list_all is_alnum s)"

definition qqEmailRegex :: "string \<Rightarrow> bool" where
  "qqEmailRegex s = (HasSuffix s ''@qq.com'' \<and>
     (let p = take (length s - 7) s in 4 \<le> length p \<and> length p \<le> 16 \<and> is_alnum (hd p) \<and> is_alnum (last p) \<and>
        list_all (\<lambda>c. is_alnum c \<or> c = CHR ''_'' \<or> c = CHR ''.'') p))"

definition error_code :: "error \<Rightarrow> int" where
  "error_code err = (case err of BizError c \<Rightarrow> c | _ \<Rightarrow> CodeInternalError)"

definition answer :: "unit result \<Rightarrow> int list" where
  "answer r = (case r of Inl err \<Rightarrow> [error_code err] | Inr _ \<Rightarrow> [0])"

definition ctrl_Register :: "acc_env \<Rightarrow> int \<Rightarrow> RegisterRequest \<Rightarrow> accounts \<Rightarrow> accounts \<times> int list" where
  "ctrl_Register e now req s =
     (case (DecryptIfCryptoJS (x_aes e) (rg_Password req), DecryptIfCryptoJS (x_aes e) (rg_ConfirmPassword req)) of
        (Inr pw1, Inr pw2) \<Rightarrow>
          (if \<not> is_ok (ValidatePassword pw1) then (s, [CodeBadRequest])
           else if pw1 \<noteq> pw2 then (s, [CodeBadRequest])
           else if \<not> qqEmailRegex (rg_Email req) then (s, [CodeBadRequest])
           else if \<not> regexpAlphaNum (rg_Username req) then (s, [CodeBadRequest])
           else (case Register e now req s of (s1, r) \<Rightarrow> (s1, answer r)))
      | _ \<Rightarrow> (s, [CodeInternalError]))"

definition ctrl_CreateUser :: "acc_env \<Rightarrow> int \<Rightarrow> CreateRequest \<Rightarrow> accounts \<Rightarrow> accounts \<times> int list" where
  "ctrl_CreateUser e now req s =
     (if \<not> qqEmailRegex (cu_Email req) then (s, [CodeBadRequest])
      else if \<not> regexpAlphaNum (cu_Username req) then (s, [CodeBadRequest])
      else (case CreateUser e now req s of (s1, r) \<Rightarrow> (s1, answer r)))"

text \<open>ChangePassword and ResetPassword answer on a mismatch of the two passwords, and go on.\<close>

definition ctrl_ChangePassword :: "acc_env \<Rightarrow> int \<Rightarrow> int \<Rightarrow> ChangePasswordRequest \<Rightarrow> accounts \<Rightarrow> accounts \<times> int list" where
  "ctrl_ChangePassword e now userID req s =
     (if userID = 0 then (s, [CodeUnauthorized])
      else (case (DecryptIfCryptoJS (x_aes e) (cp_NewPassword req), DecryptIfCryptoJS (x_aes e) (cp_ConfirmPassword req)) of
        (Inr n1, Inr n2) \<Rightarrow>
          (if \<not> is_ok (ValidatePassword n1) then (s, [CodeBadRequest])
           else (case ChangePassword e now userID req s of
             (s1, r) \<Rightarrow> (s1, (if n1 \<noteq> n2 then [CodeBadRequest] else []) @ answer r)))
      | _ \<Rightarrow> (s, [CodeInternalError])))"

definition ctrl_ResetPassword :: "acc_env \<Rightarrow> int \<Rightarrow> ResetPasswordRequest \<Rightarrow> accounts \<Rightarrow> accounts \<times> int list" where
  "ctrl_ResetPassword e now req s =
     (case (DecryptIfCryptoJS (x_aes e) (rs_NewPassword req), DecryptIfCryptoJS (x_aes e) (rs_ConfirmPassword req)) of
        (Inr n1, Inr n2) \<Rightarrow>
          (if \<not> is_ok (ValidatePassword n1) then (s, [CodeBadRequest])
           else (case ResetPassword e now req s of
             (s1, r) \<Rightarrow> (s1, (if n1 \<noteq> n2 then [CodeBadRequest] else []) @ answer r)))
      | _ \<Rightarrow> (s, [CodeInternalError]))"

definition ctrl_Login ::
  "acc_env \<Rightarrow> token_env \<Rightarrow> go_order \<Rightarrow> (nat \<Rightarrow> bool) \<Rightarrow> int \<Rightarrow> LoginRequest \<Rightarrow> accounts \<Rightarrow> accounts \<times> (int + LoginResponse)" where
  "ctrl_Login e tk go ferr now req s =
     (if \<not> regexpAlphaNum (lg_Username req) then (s, Inl CodeBadRequest)
      else (case Login e tk go ferr now req s of
        (s1, Inl x) \<Rightarrow> (s1, Inl (error_code x))
      | (s1, Inr r) \<Rightarrow> (s1, Inr r)))"

definition ctrl_UpdateProfile ::
  "acc_env \<Rightarrow> int \<Rightarrow> int \<Rightarrow> UpdateProfileRequest \<Rightarrow> accounts \<Rightarrow> accounts \<times> (int + UserResponse)" where
  "ctrl_UpdateProfile e now userID req s =
     (if userID = 0 then (s, Inl CodeUnauthorized)
      else (case UpdateProfile e now userID req s of
        (s1, Inl x) \<Rightarrow> (s1, Inl (error_code x))
      | (s1, Inr _) \<Rightarrow> (case GetUserByID e userID s1 of
          Inl x \<Rightarrow> (s1, Inl (error_code x))
        | Inr u \<Rightarrow> (s1, Inr (GetUserResponse u)))))"

section \<open>Commands on the machine\<close>

lemma alnum_plain: "is_alnum c \<Longrightarrow> plain_char c"
  by (simp add: plain_char_def)

lemma alnum_name: "regexpAlphaNum u \<Longrightarrow> u \<noteq> [] \<and> list_all plain_char u"
  by (auto simp: regexpAlphaNum_def list_all_iff alnum_plain)

lemma no_bar_pipe:
  "list_all (\<lambda>c. c \<noteq> CHR ''|'' \<and> c \<noteq> CHR 0x27 \<and> c \<noteq> CHR 0x5C) u \<Longrightarrow> pipe_from False acc (u @ rest) = pipe_from False (acc @ u) rest"
  by (induction u arbitrary: acc) auto

lemma plain_no_bar: "list_all plain_char u \<Longrightarrow> list_all (\<lambda>c. c \<noteq> CHR ''|'' \<and> c \<noteq> CHR 0x27 \<and> c \<noteq> CHR 0x5C) u"
  by (auto simp: list_all_iff dest: plain_char_not_special)

lemma simple_command:
  assumes "list_all plain_char u" "u \<noteq> []" "list_all (\<lambda>c. c \<noteq> CHR ''|'' \<and> c \<noteq> CHR 0x27 \<and> c \<noteq> CHR 0x5C) pre"
    and "\<And>rest. sh_from False None (pre @ rest) = map_option (\<lambda>x. ws @ x) (sh_from False None rest)"
  shows "sh_pipeline (pre @ u) = Some [ws @ [u]]"
proof -
  have "pipe_from False [] (pre @ u) = [pre @ u]"
    using no_bar_pipe [OF assms(3), of "[]" u] no_bar_pipe [OF plain_no_bar [OF assms(1)], of pre "[]"] by simp
  moreover have "sh_words (pre @ u) = Some (ws @ [u])"
    using assms(4) [of u] sh_from_plain_word [OF assms(1,2), of "[]"] by (simp add: sh_words_def)
  ultimately show ?thesis by (simp add: sh_pipeline_def)
qed

lemma append_fun: "(@) [] = (\<lambda>x. x)" "(@) (a # xs) = (\<lambda>x. a # (xs @ x))"
  by auto

lemma vm_commands_read:
  assumes "regexpAlphaNum u"
  shows "sh_pipeline (id_command u) = Some [[''id'', ''-u'', u]]"
    "sh_pipeline (useradd_command u) = Some [[''useradd'', ''-m'', ''-s'', ''/bin/bash'', u]]"
    "sh_pipeline (userdel_command u) = Some [[''userdel'', ''-r'', u]]"
proof -
  note n = alnum_name [OF assms]
  show "sh_pipeline (id_command u) = Some [[''id'', ''-u'', u]]"
    unfolding id_command_def using n by (subst simple_command [where ws = "[''id'', ''-u'']"]) (auto simp: Let_def plain_char_def is_alnum_def option.map_comp comp_def append_fun)
  show "sh_pipeline (useradd_command u) = Some [[''useradd'', ''-m'', ''-s'', ''/bin/bash'', u]]"
    unfolding useradd_command_def using n
    by (subst simple_command [where ws = "[''useradd'', ''-m'', ''-s'', ''/bin/bash'']"]) (auto simp: Let_def plain_char_def is_alnum_def option.map_comp comp_def append_fun)
  show "sh_pipeline (userdel_command u) = Some [[''userdel'', ''-r'', u]]"
    unfolding userdel_command_def using n by (subst simple_command [where ws = "[''userdel'', ''-r'']"]) (auto simp: Let_def plain_char_def is_alnum_def option.map_comp comp_def append_fun)
qed

lemma ReplaceByte_free: "c \<notin> set s \<Longrightarrow> ReplaceByte c r s = s"
  by (induction s) (auto simp: ReplaceByte_def)

lemma ReplaceByte_append: "ReplaceByte c r (s @ t) = ReplaceByte c r s @ ReplaceByte c r t"
  by (simp add: ReplaceByte_def)

lemma pass_command_quoted:
  assumes "list_all plain_char u"
  shows "pass_command u p = ''echo '' @ shell_quote (u @ '':'' @ p) @ '' | chpasswd''"
proof -
  have "CHR 0x27 \<notin> set u" using assms plain_char_not_special unfolding list_all_iff by blast
  note u = ReplaceByte_free [OF this]
  have "ReplaceByte CHR 0x27 r '':'' = '':''" for r by (simp add: ReplaceByte_def)
  then show ?thesis by (simp only: pass_command_def shell_quote_def ReplaceByte_append u append_assoc)
qed

lemma pass_command_read:
  assumes "regexpAlphaNum u"
  shows "sh_pipeline (pass_command u p) = Some [[''echo'', u @ '':'' @ p], [''chpasswd'']]"
proof -
  let ?q = "shell_quote (u @ '':'' @ p)"
  have "pipe_from False [] (pass_command u p) = [''echo '' @ ?q @ '' '', '' chpasswd'']"
    using pipe_from_quote [of "''echo ''" "u @ '':'' @ p" "'' | chpasswd''"] alnum_name [OF assms]
    by (simp add: pass_command_quoted)
  moreover have "sh_words (''echo '' @ ?q @ '' '') = Some [''echo'', u @ '':'' @ p]"
    using sh_from_quote [of "u @ '':'' @ p" "'' ''"] by (simp add: sh_words_def Let_def plain_char_def is_alnum_def)
  moreover have "sh_words '' chpasswd'' = Some [''chpasswd'']" by (simp add: sh_words_def Let_def plain_char_def is_alnum_def)
  ultimately show ?thesis by (simp add: sh_pipeline_def)
qed

end
