(* ===== verification/AccountSafety.thy ===== *)
theory AccountSafety
  imports Accounts
begin

text \<open>
  What the account operations guarantee: which commands reach the machine, when passwords change,
  and what registration, login and logout achieve together.
\<close>

section \<open>Frames\<close>

lemma on_dir_frame:
  "on_dir f s = (s', r) \<Longrightarrow> a_vm s' = a_vm s \<and> a_redis s' = a_redis s \<and> a_ssh s' = a_ssh s \<and> a_log s' = a_log s \<and>
     a_dir s' = fst (f (a_dir s)) \<and> r = snd (f (a_dir s))"
  by (auto simp: on_dir_def split: prod.splits)

lemma on_dir_result: "on_dir f s = (s', r) \<Longrightarrow> f (a_dir s) = (a_dir s', r)"
  by (auto simp: on_dir_def split: prod.splits)

lemma on_dir_sel [simp]:
  "a_vm (fst (on_dir f s)) = a_vm s" "a_redis (fst (on_dir f s)) = a_redis s" "a_dir (fst (on_dir f s)) = fst (f (a_dir s))"
  "snd (on_dir f s) = snd (f (a_dir s))"
  by (simp_all add: on_dir_def split: prod.split)

lemma drop_code_frame [simp]:
  "a_vm (drop_code e m s) = a_vm s" "a_dir (drop_code e m s) = a_dir s" "a_log (drop_code e m s) = a_log s" "a_ssh (drop_code e m s) = a_ssh s"
  by (simp_all add: drop_code_def)

text \<open>The commands that the operations on the machine run, and nothing else changes.\<close>

definition vm_extends :: "string set \<Rightarrow> accounts \<Rightarrow> accounts \<Rightarrow> bool" where
  "vm_extends C s s' = (\<exists>cs. s' = s\<lparr> a_vm := a_vm s @ cs \<rparr> \<and> fst ` set cs \<subseteq> C)"

lemma vm_extends_refl [simp]: "vm_extends C s s"
  unfolding vm_extends_def by (rule exI [of _ "[]"]) simp

lemma vm_run_extends: "vm_run e c s = (s', r) \<Longrightarrow> vm_extends {c} s s'"
  by (auto simp: vm_run_def vm_extends_def Let_def)

lemma vm_extends_trans:
  assumes "vm_extends C s s1" "vm_extends D s1 s2"
  shows "vm_extends (C \<union> D) s s2"
proof -
  obtain cs ds where "s1 = s\<lparr> a_vm := a_vm s @ cs \<rparr>" "fst ` set cs \<subseteq> C"
    "s2 = s1\<lparr> a_vm := a_vm s1 @ ds \<rparr>" "fst ` set ds \<subseteq> D"
    using assms by (auto simp: vm_extends_def)
  then have "s2 = s\<lparr> a_vm := a_vm s @ cs @ ds \<rparr>" "fst ` set (cs @ ds) \<subseteq> C \<union> D" by auto
  then show ?thesis unfolding vm_extends_def by blast
qed

lemma vm_extends_mono: "vm_extends C s s' \<Longrightarrow> C \<subseteq> D \<Longrightarrow> vm_extends D s s'"
  by (auto simp: vm_extends_def)

lemma createVMUser_extends:
  assumes "createVMUser e u p s = (s', r)"
  shows "vm_extends {id_command u, useradd_command u, pass_command u p} s s'"
proof -
  obtain s1 r1 where 1: "vm_run e (id_command u) s = (s1, r1)" by force
  obtain s2 r2 where 2: "vm_run e (useradd_command u) s1 = (s2, r2)" by force
  obtain s3 r3 where 3: "vm_run e (pass_command u p) s2 = (s3, r3)" by force
  have "s' \<in> {s, s1, s2, s3}"
    using assms 1 2 3 by (auto simp: createVMUser_def split: sum.splits)
  moreover have e1: "vm_extends {id_command u} s s1" using vm_run_extends [OF 1] .
  moreover have e2: "vm_extends ({id_command u} \<union> {useradd_command u}) s s2"
    using vm_extends_trans [OF e1 vm_run_extends [OF 2]] .
  moreover have "vm_extends ({id_command u} \<union> {useradd_command u} \<union> {pass_command u p}) s s3"
    using vm_extends_trans [OF e2 vm_run_extends [OF 3]] .
  ultimately show ?thesis by (auto elim!: vm_extends_mono)
qed

lemma updateVMPassword_extends: "updateVMPassword e u p s = (s', r) \<Longrightarrow> vm_extends {pass_command u p} s s'"
  by (auto simp: updateVMPassword_def dest: vm_run_extends split: sum.splits prod.splits)

lemma updateVMPassword_Ok:
  "updateVMPassword e u p s = (s', Ok ()) \<Longrightarrow> s' = s\<lparr> a_vm := a_vm s @ [(pass_command u p, True)] \<rparr>"
  by (auto simp: updateVMPassword_def vm_run_def Let_def split: sum.splits prod.splits if_splits)

lemma sync_password_extends: "sync_password e u p s = (s', r) \<Longrightarrow> vm_extends {pass_command (ac_Username u) p} s s'"
  by (auto simp: sync_password_def dest: updateVMPassword_extends split: sum.splits prod.splits if_splits)

lemma sync_password_Ok:
  "sync_password e u p s = (s', Ok ()) \<Longrightarrow>
   s' = (if vm_configured e then s\<lparr> a_vm := a_vm s @ [(pass_command (ac_Username u) p, True)] \<rparr> else s)"
  by (auto simp: sync_password_def dest: updateVMPassword_Ok split: sum.splits prod.splits if_splits)

section \<open>Creating accounts\<close>

text \<open>The commands that an account with this name and password causes.\<close>

definition account_commands :: "string \<Rightarrow> string \<Rightarrow> string set" where
  "account_commands u p = {id_command u, useradd_command u, pass_command u p}"

lemma vm_or_rollback_vm:
  assumes "vm_or_rollback e i u p s = (s', r)"
  shows "\<exists>cs. a_vm s' = a_vm s @ cs \<and> fst ` set cs \<subseteq> account_commands u p"
proof (cases "vm_configured e")
  case True
  obtain s1 r1 where 1: "createVMUser e u p s = (s1, r1)" by force
  have "a_vm s' = a_vm s1"
    using assms True 1 by (auto simp: vm_or_rollback_def split: sum.splits)
  then show ?thesis using createVMUser_extends [OF 1] by (auto simp: vm_extends_def account_commands_def)
qed (use assms in \<open>auto simp: vm_or_rollback_def\<close>)

lemma and_then_assoc: "and_then (and_then x f) g = and_then x (\<lambda>v s. and_then (f v s) g)"
  by (auto simp: and_then_def split: prod.split sum.split)

lemma and_then_cases:
  assumes "and_then x k = (s', r)"
  obtains err where "x = (s', Inl err)" "r = Err err" | v s1 where "x = (s1, Inr v)" "k v s1 = (s', r)"
  using assms by (auto simp: and_then_def split: prod.splits sum.splits)

lemma create_steps_vm:
  assumes "and_then (on_dir f s) (\<lambda>_ s1. and_then (on_dir g s1) (\<lambda>_ s2. vm_or_rollback e i u p s2)) = (s', r)"
  shows "\<exists>cs. a_vm s' = a_vm s @ cs \<and> fst ` set cs \<subseteq> account_commands u p"
  using assms
proof (cases rule: and_then_cases)
  case (1 err)
  then show ?thesis using on_dir_frame [of f s s'] by auto
next
  case (2 v s1)
  from 2(2) show ?thesis
  proof (cases rule: and_then_cases)
    case (1 err)
    then show ?thesis using on_dir_frame [OF 2(1)] on_dir_frame [of g s1 s'] by auto
  next
    case (2 v2 s2)
    then show ?thesis using on_dir_frame [OF \<open>on_dir f s = (s1, Inr v)\<close>] on_dir_frame [OF 2(1)] vm_or_rollback_vm [OF 2(2)] by auto
  qed
qed

lemma Register_vm:
  assumes "Register e now req s = (s', r)"
  shows "\<exists>pwd cs. a_vm s' = a_vm s @ cs \<and> fst ` set cs \<subseteq> account_commands (rg_Username req) pwd \<and>
    (cs \<noteq> [] \<longrightarrow> DecryptIfCryptoJS (x_aes e) (rg_Password req) = Ok pwd \<and> ValidatePassword pwd = Ok ())"
  using assms unfolding Register_def Let_def
  by (auto split: sum.splits if_splits dest!: create_steps_vm) blast+

lemma CreateUser_vm:
  assumes "CreateUser e now req s = (s', r)"
  shows "\<exists>pwd cs. a_vm s' = a_vm s @ cs \<and> fst ` set cs \<subseteq> account_commands (cu_Username req) pwd \<and>
    (cs \<noteq> [] \<longrightarrow> DecryptIfCryptoJS (x_aes e) (cu_Password req) = Ok pwd \<and> ValidatePassword pwd = Ok ())"
  using assms unfolding CreateUser_def Let_def
  by (auto split: sum.splits if_splits dest!: create_steps_vm)

definition commands_read_as_meant :: "acc_env \<Rightarrow> string \<Rightarrow> string \<Rightarrow> accounts \<Rightarrow> accounts \<Rightarrow> bool" where
  "commands_read_as_meant e u pw s s' =
     (\<exists>pwd cs. a_vm s' = a_vm s @ cs \<and>
        (cs \<noteq> [] \<longrightarrow> DecryptIfCryptoJS (x_aes e) pw = Ok pwd \<and> ValidatePassword pwd = Ok ()) \<and>
        (\<forall>c \<in> fst ` set cs. sh_pipeline c \<in> {Some [[''id'', ''-u'', u]],
            Some [[''useradd'', ''-m'', ''-s'', ''/bin/bash'', u]], Some [[''echo'', u @ '':'' @ pwd], [''chpasswd'']]}))"

lemma account_commands_read:
  "regexpAlphaNum u \<Longrightarrow> c \<in> account_commands u p \<Longrightarrow> sh_pipeline c \<in> {Some [[''id'', ''-u'', u]],
     Some [[''useradd'', ''-m'', ''-s'', ''/bin/bash'', u]], Some [[''echo'', u @ '':'' @ p], [''chpasswd'']]}"
  by (auto simp: account_commands_def vm_commands_read pass_command_read)

lemma commands_read_as_meantI:
  assumes "regexpAlphaNum u"
    and "\<exists>pwd cs. a_vm s' = a_vm s @ cs \<and> fst ` set cs \<subseteq> account_commands u pwd \<and>
      (cs \<noteq> [] \<longrightarrow> DecryptIfCryptoJS (x_aes e) pw = Ok pwd \<and> ValidatePassword pwd = Ok ())"
  shows "commands_read_as_meant e u pw s s'"
proof -
  obtain pwd cs where "a_vm s' = a_vm s @ cs" "fst ` set cs \<subseteq> account_commands u pwd"
    "cs \<noteq> [] \<longrightarrow> DecryptIfCryptoJS (x_aes e) pw = Ok pwd \<and> ValidatePassword pwd = Ok ()"
    using assms(2) by blast
  then show ?thesis using account_commands_read [OF assms(1)]
    unfolding commands_read_as_meant_def by (intro exI [of _ pwd] exI [of _ cs]) blast
qed

lemma commands_none: "commands_read_as_meant e u pw s s"
  unfolding commands_read_as_meant_def by (intro exI [of _ "[]"]) simp


text \<open>
  One character slips through: the validation of passwords refuses blanks but not line breaks, and
  chpasswd reads one entry per line. A password with a line break sets the password of a second
  user, root for example.
\<close>

definition two_line_password :: string where
  "two_line_password = ''abcd'' @ [CHR 0x0A] @ ''root:pwned1''"

theorem line_break_sets_second_password:
  assumes "regexpAlphaNum u"
  shows "ValidatePassword two_line_password = Ok () \<and>
    (\<exists>t. sh_pipeline (pass_command u two_line_password) = Some [[''echo'', t], [''chpasswd'']] \<and>
       Split CHR 0x0A t = [u @ '':abcd'', ''root:pwned1''])"
proof -
  have v: "ValidatePassword two_line_password = Ok ()" by code_simp
  have "CHR 0x0A \<notin> set (u @ '':abcd'')" using alnum_name [OF assms] by (auto simp: list_all_iff dest: plain_char_not_special)
  then have "Split CHR 0x0A ((u @ '':abcd'') @ CHR 0x0A # ''root:pwned1'') = [u @ '':abcd'', ''root:pwned1'']"
    using Split_append_sep [of "CHR 0x0A" "u @ '':abcd''" "''root:pwned1''"] by simp
  then show ?thesis using v pass_command_read [OF assms, of two_line_password]
    by (simp add: two_line_password_def)
qed

section \<open>Changing passwords\<close>

lemma GetUserByID_Ok:
  "GetUserByID e i s = Ok (u, rs) \<Longrightarrow> first_row ac_ID (\<lambda>x. ac_ID x = i) (d_users (a_dir s)) = Some u \<and> ac_ID u = i \<and> rs = roles_of (a_dir s) i"
  using first_row_SomeD [of ac_ID "\<lambda>x. ac_ID x = i" "d_users (a_dir s)" u]
  by (auto simp: GetUserByID_def user_FindByID_def user_first_def split: sum.splits option.splits if_splits)

lemma user_Update_cases:
  "user_Update w err now d u = (d', r) \<Longrightarrow>
   (r = Ok () \<and> d' = d\<lparr> d_users := update_row ac_ID (ac_ID u) (set_user (now, u)) (d_users d) \<rparr>) \<or> (d' = d \<and> \<not> is_ok r)"
  by (auto simp: user_Update_def write_users_def split: if_splits)

text \<open>The last two steps of every change of a password: the machine, then the table.\<close>

lemma set_password_cases:
  assumes "and_then (sync_password e u p s) (\<lambda>_ s1. on_dir (\<lambda>d. user_Update w err now d (u\<lparr> ac_Password := h \<rparr>)) s1) = (s', r)"
  shows "(r = Ok () \<and> a_dir s' = (a_dir s)\<lparr> d_users := update_row ac_ID (ac_ID u) (set_user (now, u\<lparr> ac_Password := h \<rparr>)) (d_users (a_dir s)) \<rparr> \<and>
      a_vm s' = (if vm_configured e then a_vm s @ [(pass_command (ac_Username u) p, True)] else a_vm s) \<and> a_redis s' = a_redis s) \<or>
    (\<not> is_ok r \<and> a_dir s' = a_dir s \<and> a_redis s' = a_redis s)"
  using assms
proof (cases rule: and_then_cases)
  case (1 x)
  then show ?thesis using sync_password_extends [OF 1(1)] by (auto simp: vm_extends_def)
next
  case (2 v s1)
  have s1: "s1 = (if vm_configured e then s\<lparr> a_vm := a_vm s @ [(pass_command (ac_Username u) p, True)] \<rparr> else s)"
    using sync_password_Ok 2(1) by simp
  then have "a_dir s1 = a_dir s" "a_redis s1 = a_redis s" by auto
  then show ?thesis using on_dir_frame [OF 2(2)] s1
      user_Update_cases [of w err now "a_dir s" "u\<lparr> ac_Password := h \<rparr>", OF prod.collapse [symmetric]]
    by auto
qed

text \<open>
  A user changes the own password only by giving the old one, and then machine and table change
  together: after success the row of the user has the hash of the new password and nothing else
  in the directory changed but that row, and the last command on the machine set the new
  password. After any error the directory is as before.
\<close>

theorem change_password_needs_old:
  assumes "ChangePassword e now i req s = (s', r)"
  shows "(r = Ok () \<longrightarrow> (\<exists>u old new h. first_row ac_ID (\<lambda>x. ac_ID x = i) (d_users (a_dir s)) = Some u \<and>
        DecryptIfCryptoJS (x_aes e) (cp_OldPassword req) = Ok old \<and> x_match e (ac_Password u) old \<and>
        DecryptIfCryptoJS (x_aes e) (cp_NewPassword req) = Ok new \<and> ValidatePassword new = Ok () \<and> x_hash e new = Some h \<and>
        a_dir s' = (a_dir s)\<lparr> d_users := update_row ac_ID i (set_user (now, u\<lparr> ac_Password := h \<rparr>)) (d_users (a_dir s)) \<rparr> \<and>
        (vm_configured e \<longrightarrow> a_vm s' = a_vm s @ [(pass_command (ac_Username u) new, True)]))) \<and>
    (r \<noteq> Ok () \<longrightarrow> a_dir s' = a_dir s)"
proof (cases "GetUserByID e i s")
  case (Inr x)
  then obtain u rs where u: "GetUserByID e i s = Ok (u, rs)" by (cases x) auto
  note f = GetUserByID_Ok [OF u]
  show ?thesis
  proof (cases "\<exists>old new h. DecryptIfCryptoJS (x_aes e) (cp_OldPassword req) = Ok old \<and> x_match e (ac_Password u) old \<and>
      DecryptIfCryptoJS (x_aes e) (cp_NewPassword req) = Ok new \<and> ValidatePassword new = Ok () \<and> x_hash e new = Some h")
    case True
    then obtain old new h where k: "DecryptIfCryptoJS (x_aes e) (cp_OldPassword req) = Ok old" "x_match e (ac_Password u) old"
      "DecryptIfCryptoJS (x_aes e) (cp_NewPassword req) = Ok new" "ValidatePassword new = Ok ()" "x_hash e new = Some h" by blast
    then have "and_then (sync_password e u new s) (\<lambda>_ s1. on_dir (\<lambda>d. user_Update (x_w e) (x_fails e QUpdate) now d (u\<lparr> ac_Password := h \<rparr>)) s1) = (s', r)"
      using assms u by (simp add: ChangePassword_def hash_password_def)
    from set_password_cases [OF this] show ?thesis using f k by (auto simp: is_ok_iff)
  next
    case False
    then have "s' = s \<and> r \<noteq> Ok ()" using assms u
      by (auto simp: ChangePassword_def hash_password_def split: sum.splits if_splits option.splits)
    then show ?thesis by simp
  qed
qed (use assms in \<open>auto simp: ChangePassword_def\<close>)

text \<open>
  C25: A forgotten password is reset only with the code that was mailed: unless the store holds a
  live code for the address and the request repeats it, nothing at all changes. After success the
  account of that address, and no other row, has the hash of the new password, the machine got the
  same password, and the code cannot be used again.
\<close>

theorem reset_needs_mailed_code:
  assumes "ResetPassword e now req s = (s', r)"
  shows "(redis_Get (x_fails e RGet) now (code_key (rs_Email req)) (a_redis s) \<noteq> Ok (RText (rs_EmailCaptcha req)) \<longrightarrow> s' = s \<and> r \<noteq> Ok ()) \<and>
    (r = Ok () \<longrightarrow> (\<exists>u new h. first_row ac_ID (\<lambda>x. x_w e (ac_Email x) = x_w e (rs_Email req)) (d_users (a_dir s)) = Some u \<and>
        DecryptIfCryptoJS (x_aes e) (rs_NewPassword req) = Ok new \<and> ValidatePassword new = Ok () \<and> x_hash e new = Some h \<and>
        a_dir s' = (a_dir s)\<lparr> d_users := update_row ac_ID (ac_ID u) (set_user (now, u\<lparr> ac_Password := h \<rparr>)) (d_users (a_dir s)) \<rparr> \<and>
        (vm_configured e \<longrightarrow> a_vm s' = a_vm s @ [(pass_command (ac_Username u) new, True)]) \<and>
        (\<not> x_fails e RDel \<longrightarrow> a_redis s' (code_key (rs_Email req)) = None))) \<and>
    (r \<noteq> Ok () \<longrightarrow> a_dir s' = a_dir s)"
proof (cases "\<exists>u rs new h. redis_Get (x_fails e RGet) now (code_key (rs_Email req)) (a_redis s) = Ok (RText (rs_EmailCaptcha req)) \<and>
    user_FindByEmail (x_w e) (x_fails e QFindEmail) (a_dir s) (rs_Email req) = Ok (Some (u, rs)) \<and>
    DecryptIfCryptoJS (x_aes e) (rs_NewPassword req) = Ok new \<and> ValidatePassword new = Ok () \<and> x_hash e new = Some h")
  case True
  then obtain u rs new h where k: "redis_Get (x_fails e RGet) now (code_key (rs_Email req)) (a_redis s) = Ok (RText (rs_EmailCaptcha req))"
    "user_FindByEmail (x_w e) (x_fails e QFindEmail) (a_dir s) (rs_Email req) = Ok (Some (u, rs))"
    "DecryptIfCryptoJS (x_aes e) (rs_NewPassword req) = Ok new" "ValidatePassword new = Ok ()" "x_hash e new = Some h" by blast
  have u: "first_row ac_ID (\<lambda>x. x_w e (ac_Email x) = x_w e (rs_Email req)) (d_users (a_dir s)) = Some u"
    using k(2) by (auto simp: user_FindByEmail_def user_first_def split: if_splits)
  let ?step = "and_then (sync_password e u new s) (\<lambda>_ s1. on_dir (\<lambda>d. user_Update (x_w e) (x_fails e QUpdate) now d (u\<lparr> ac_Password := h \<rparr>)) s1)"
  obtain s1 r1 where 1: "?step = (s1, r1)" by force
  have "ResetPassword e now req s = and_then ?step (\<lambda>_ s2. (drop_code e (rs_Email req) s2, Ok ()))"
    using k by (simp add: ResetPassword_def mail_code_def hash_password_def and_then_assoc)
  then have "(s', r) = (if is_ok r1 then (drop_code e (rs_Email req) s1, Ok ()) else (s1, r1))"
    using assms 1 by (cases r1) (simp_all add: and_then_def)
  then show ?thesis using set_password_cases [OF 1] k u
    by (auto simp: is_ok_iff drop_code_def redis_Del_def split: if_splits)
next
  case False
  then have "s' = s \<and> r \<noteq> Ok ()" using assms
    by (auto simp: ResetPassword_def mail_code_def hash_password_def split: sum.splits if_splits option.splits error.splits redis_value.splits)
  then show ?thesis by simp
qed

section \<open>From registration to login\<close>

lemma name_and_mail_free_Ok:
  "name_and_mail_free e u m s = Ok () \<Longrightarrow> (\<forall>x \<in> set (d_users (a_dir s)). x_w e (ac_Username x) \<noteq> x_w e u) \<and>
     (\<forall>x \<in> set (d_users (a_dir s)). x_w e (ac_Email x) \<noteq> x_w e m)"
  using count_rows_pos [of "\<lambda>x. x_w e (ac_Username x) = x_w e u" "d_users (a_dir s)"]
    count_rows_pos [of "\<lambda>x. x_w e (ac_Email x) = x_w e m" "d_users (a_dir s)"]
  by (auto simp: name_and_mail_free_def user_ExistsByUsername_def user_ExistsByEmail_def split: sum.splits if_splits)

lemma vm_or_rollback_Ok: "vm_or_rollback e i u p s = (s', Ok ()) \<Longrightarrow> a_dir s' = a_dir s \<and> a_redis s' = a_redis s"
  by (auto simp: vm_or_rollback_def vm_extends_def dest!: createVMUser_extends split: if_splits prod.splits sum.splits)

lemma AssignRole_Ok:
  "AssignRoleByName w ferr aerr d u name = (d', Ok ()) \<Longrightarrow>
   \<exists>r. first_row rl_ID (\<lambda>r. w (rl_Slug r) = w name) (d_roles d) = Some r \<and>
       d' = d\<lparr> d_role_users := List.insert (rl_ID r, u) (d_role_users d) \<rparr>"
  by (auto simp: AssignRoleByName_def split: if_splits option.splits)

lemma user_Create_Ok:
  "user_Create w fresh err now d u = (d', Ok ()) \<Longrightarrow>
   d' = d\<lparr> d_users := d_users d @ [with_user_id (fresh (d_users d)) ((column_defaults u)\<lparr> ac_CreatedAt := now, ac_UpdatedAt := now \<rparr>)] \<rparr>"
  by (auto simp: user_Create_def write_users_def split: if_splits)

definition registered :: "acc_env \<Rightarrow> int \<Rightarrow> RegisterRequest \<Rightarrow> string \<Rightarrow> directory \<Rightarrow> User" where
  "registered e now req h d = with_user_id (x_fresh e (d_users d)) (blank_user\<lparr> ac_Username := rg_Username req, ac_Password := h,
     ac_Email := rg_Email req, ac_Status := 1, ac_Priority := 1, ac_CreatedAt := now, ac_UpdatedAt := now \<rparr>)"

lemma Register_Ok:
  assumes "Register e now req s = (s', Ok ())"
  shows "\<exists>pwd h r. DecryptIfCryptoJS (x_aes e) (rg_Password req) = Ok pwd \<and> ValidatePassword pwd = Ok () \<and> x_hash e pwd = Some h \<and>
    name_and_mail_free e (rg_Username req) (rg_Email req) s = Ok () \<and>
    first_row rl_ID (\<lambda>r. x_w e (rl_Slug r) = x_w e ''user'') (d_roles (a_dir s)) = Some r \<and>
    a_dir s' = (a_dir s)\<lparr> d_users := d_users (a_dir s) @ [registered e now req h (a_dir s)],
      d_role_users := List.insert (rl_ID r, x_fresh e (d_users (a_dir s))) (d_role_users (a_dir s)) \<rparr>"
proof -
  let ?d = "a_dir s" let ?i = "x_fresh e (d_users (a_dir s))"
  let ?s1 = "\<lambda>pwd. (drop_code e (rg_Email req) s)\<lparr> a_log := a_log s @ [pwd] \<rparr>"
  obtain pwd h where p: "DecryptIfCryptoJS (x_aes e) (rg_Password req) = Ok pwd" "ValidatePassword pwd = Ok ()" "x_hash e pwd = Some h"
    "name_and_mail_free e (rg_Username req) (rg_Email req) s = Ok ()"
    and steps: "and_then (on_dir (\<lambda>d. user_Create (x_w e) (x_fresh e) (x_fails e QCreate) now d
        (blank_user\<lparr> ac_Username := rg_Username req, ac_Password := h, ac_Email := rg_Email req, ac_Status := 1 \<rparr>)) (?s1 pwd)) (\<lambda>_ s3.
      and_then (on_dir (\<lambda>d. AssignRoleByName (x_w e) (x_fails e QRoleFind) (x_fails e QRoleAppend) d ?i ''user'') s3) (\<lambda>_ s4.
      vm_or_rollback e ?i (rg_Username req) pwd s4)) = (s', Ok ())"
    using assms by (auto simp: Register_def hash_password_def Let_def split: sum.splits if_splits option.splits)
  from steps obtain s3 s4 where
    3: "on_dir (\<lambda>d. user_Create (x_w e) (x_fresh e) (x_fails e QCreate) now d
        (blank_user\<lparr> ac_Username := rg_Username req, ac_Password := h, ac_Email := rg_Email req, ac_Status := 1 \<rparr>)) (?s1 pwd) = (s3, Ok ())"
    and 4: "on_dir (\<lambda>d. AssignRoleByName (x_w e) (x_fails e QRoleFind) (x_fails e QRoleAppend) d ?i ''user'') s3 = (s4, Ok ())"
    and 5: "vm_or_rollback e ?i (rg_Username req) pwd s4 = (s', Ok ())"
    by (auto elim!: and_then_cases)
  have d1: "a_dir (?s1 pwd) = ?d" by (simp add: drop_code_def)
  have d3: "a_dir s3 = ?d\<lparr> d_users := d_users ?d @ [registered e now req h ?d] \<rparr>"
    using user_Create_Ok [OF on_dir_result [OF 3]] d1
    by (simp add: registered_def column_defaults_def blank_user_def with_user_id_def)
  obtain r where "first_row rl_ID (\<lambda>r. x_w e (rl_Slug r) = x_w e ''user'') (d_roles ?d) = Some r"
    "a_dir s4 = (a_dir s3)\<lparr> d_role_users := List.insert (rl_ID r, ?i) (d_role_users (a_dir s3)) \<rparr>"
    using AssignRole_Ok [OF on_dir_result [OF 4]] d3 by auto
  then show ?thesis using p d3 vm_or_rollback_Ok [OF 5] by auto
qed

lemma first_row_snoc: "(\<forall>x \<in> set t. \<not> P x) \<Longrightarrow> P u \<Longrightarrow> first_row rid P (t @ [u]) = Some u"
  using first_row_ex [of u "t @ [u]" P rid] first_row_SomeD [of rid P "t @ [u]"] by fastforce

lemma filter_by_id: "distinct (map rid t) \<Longrightarrow> r \<in> set t \<Longrightarrow> filter (\<lambda>x. rid x = rid r) t = [r]"
proof (induction t)
  case (Cons a t)
  show ?case
  proof (cases "r = a")
    case True
    then have "filter (\<lambda>x. rid x = rid r) t = []" using Cons.prems by (auto simp: filter_empty_conv image_iff)
    then show ?thesis using True by simp
  next
    case False
    then have "rid a \<noteq> rid r" using Cons.prems by (auto simp: image_iff)
    then show ?thesis using Cons False by simp
  qed
qed simp

text \<open>
  C14: Whoever registers can log in. When registration succeeded and no query fails, a login with
  the same name and password (and a solved captcha) succeeds; the account is active, has exactly
  the default role, the token names it, and the credentials that the login stores are the ones
  that the terminal will read.
\<close>

theorem register_then_login:
  assumes ok: "directory_ok (x_w e) (a_dir s)" and up: "\<And>q. \<not> x_fails e q"
    and fresh: "x_fresh e (d_users (a_dir s)) \<notin> snd ` set (d_role_users (a_dir s))"
    and bcrypt: "\<And>p h. x_hash e p = Some h \<Longrightarrow> x_match e h p"
    and sign: "\<And>c. tk_sign tk (tk_secret tk) c \<noteq> None"
    and reg: "Register e now req s = (s', Ok ())"
    and login: "lg_Username lreq = rg_Username req" "lg_Password lreq = rg_Password req" "captcha_Verify e (lg_CaptchaID lreq) (lg_Captcha lreq)"
  shows "\<exists>s'' resp r pwd. Login e tk go ferr now' lreq s' = (s'', Ok resp) \<and>
    ur_Username (lr_User resp) = rg_Username req \<and> ur_Status (lr_User resp) = 1 \<and>
    r \<in> set (d_roles (a_dir s)) \<and> x_w e (rl_Slug r) = x_w e ''user'' \<and> ur_Roles (lr_User resp) = [rl_Name r] \<and>
    tk_sign tk (tk_secret tk) (new_claims (tk_hours tk) now' (ur_ID (lr_User resp)) (rg_Username req) (buildRoles [r])) = Some (lr_Token resp) \<and>
    DecryptIfCryptoJS (x_aes e) (rg_Password req) = Ok pwd \<and>
    GetUserCredentialsFromRedis e now' (ur_ID (lr_User resp)) s'' = Ok \<lparr> sc_creds_Username = rg_Username req, sc_creds_Password = pwd \<rparr>"
proof -
  let ?i = "x_fresh e (d_users (a_dir s))"
  obtain pwd h r where p: "DecryptIfCryptoJS (x_aes e) (rg_Password req) = Ok pwd" "x_hash e pwd = Some h"
    "name_and_mail_free e (rg_Username req) (rg_Email req) s = Ok ()"
    "first_row rl_ID (\<lambda>r. x_w e (rl_Slug r) = x_w e ''user'') (d_roles (a_dir s)) = Some r"
    and d': "a_dir s' = (a_dir s)\<lparr> d_users := d_users (a_dir s) @ [registered e now req h (a_dir s)],
      d_role_users := List.insert (rl_ID r, ?i) (d_role_users (a_dir s)) \<rparr>"
    using Register_Ok [OF reg] by blast
  let ?u = "registered e now req h (a_dir s)"
  have u: "ac_ID ?u = ?i" "ac_Username ?u = rg_Username req" "ac_Password ?u = h" "ac_Status ?u = 1"
    by (simp_all add: registered_def with_user_id_def)
  have r: "r \<in> set (d_roles (a_dir s))" "x_w e (rl_Slug r) = x_w e ''user''" using first_row_SomeD [OF p(4)] by auto
  have roles: "roles_of (a_dir s') ?i = [r]"
  proof -
    have "roles_of (a_dir s') ?i = filter (\<lambda>x. rl_ID x = rl_ID r) (d_roles (a_dir s))"
      unfolding d' roles_of_def using fresh by (auto intro!: filter_cong simp: image_iff)
    then show ?thesis using filter_by_id [of rl_ID "d_roles (a_dir s)" r] r(1) ok by (simp add: directory_ok_def)
  qed
  have find: "user_FindByUsername (x_w e) False (a_dir s') (rg_Username req) = Ok (Some (?u, [r]))"
    using name_and_mail_free_Ok [OF p(3)] u roles unfolding user_FindByUsername_def user_first_def
    by (simp add: d' first_row_snoc)
  obtain t where t: "tk_sign tk (tk_secret tk) (new_claims (tk_hours tk) now' ?i (rg_Username req) (buildRoles [r])) = Some t"
    using sign by blast
  let ?s2 = "fst (saveUserCredentialsToRedis e now' ?i (rg_Username req) pwd s')"
  obtain ps ms where ag: "aggregate (go_perms go) (go_menus go) (x_w e) ferr (a_dir ?s2) [r] = (ps, ms)" by force
  have "Login e tk go ferr now' lreq s' = (?s2, Ok \<lparr> lr_Token = t, lr_User = GetUserResponse (?u, [r]), lr_Permissions = ps,
      lr_MenusTree = buildMenuTree (go_slice go) (go_nodes go) (go_nodes' go) ms \<rparr>)"
    using login p(1) up find u bcrypt [OF p(2)] t ag by (simp add: Login_def GenerateToken_def Let_def)
  moreover have "GetUserCredentialsFromRedis e now' ?i ?s2 = Ok \<lparr> sc_creds_Username = rg_Username req, sc_creds_Password = pwd \<rparr>"
    using up by (simp add: saveUserCredentialsToRedis_def redis_Set_def GetUserCredentialsFromRedis_def redis_Get_def live_def day_def hour_def)
  ultimately show ?thesis using u r t p(1) by (auto simp: GetUserResponse_def)
qed


section \<open>Logout\<close>

lemma creds_key_fresh [simp]:
  "creds_key u \<noteq> meta_key v" "meta_key v \<noteq> creds_key u" "creds_key u \<noteq> sessionListKey" "sessionListKey \<noteq> creds_key u" "creds_key u = creds_key v \<longleftrightarrow> u = v"
  by (auto simp: creds_key_def meta_key_def sessionListKey_def sessionKeyPrefix_def)

lemma meta_ok_creds: "meta_ok (db(creds_key u := x)) = meta_ok db" "meta (db(creds_key u := x)) = meta db"
  by (simp_all add: meta_ok_def meta_def [abs_def] listed_def)

lemma meta_Delete_frame:
  "meta_DeleteSession se now u db = (db', r) \<Longrightarrow> db' (creds_key v) = db (creds_key v)"
  by (auto simp: meta_DeleteSession_def redis_Del_def redis_SRem_def Let_def split: if_splits prod.splits sum.splits)

text \<open>
  C15: Logging out ends every access of the user to the machine, and of nobody else. The stored
  credentials, both SSH sessions and the metadata of the user are gone, with the clients of the
  two sessions closed; no session of the user can be opened again before a new login, because
  there are no credentials for it. Credentials, sessions and metadata of all other users stay.
\<close>

theorem logout_ends_access:
  assumes ssh: "ssh_reachable (a_ssh s)" and meta: "meta_ok (a_redis s)" and up: "\<not> x_fails e RDel"
    and out: "Logout e redis_up now u s = (s', r)"
  shows "r = Ok () \<and> (\<forall>root. \<not> HasSession u root (a_ssh s')) \<and>
    (\<forall>root c. held_by (a_ssh s) (getSessionKey u root) c \<longrightarrow> c \<in> set (sm_closed (a_ssh s'))) \<and>
    meta_ok (a_redis s') \<and> SessionStore.meta (a_redis s') = (SessionStore.meta (a_redis s))(u := None) \<and>
    (\<forall>now' se answers root. \<exists>x. EnsureSSHSessionByType e se answers now' u root s' = (s', Err x)) \<and>
    (\<forall>v. v \<noteq> u \<longrightarrow> (\<forall>now'. GetUserCredentialsFromRedis e now' v s' = GetUserCredentialsFromRedis e now' v s) \<and>
       (\<forall>root. map_of (sm_sessions (a_ssh s')) (getSessionKey v root) = map_of (sm_sessions (a_ssh s)) (getSessionKey v root)))"
proof -
  let ?db = "(a_redis s)(creds_key u := None)"
  obtain db' where db': "meta_DeleteSession redis_up now u ?db = (db', Ok ())" "meta_ok db'" "SessionStore.meta db' = (SessionStore.meta (a_redis s))(u := None)"
    using DeleteSession_refines [of ?db now u] meta by (auto simp: meta_ok_creds)
  have s': "s' = s\<lparr> a_ssh := CloseAllSessionsForUser u (a_ssh s), a_redis := db' \<rparr>" "r = Ok ()"
    using out up db'(1) by (auto simp: Logout_def redis_Del_def Let_def)
  have keys: "db' (creds_key v) = (if v = u then None else a_redis s (creds_key v))" for v
    using meta_Delete_frame [OF db'(1), of v] by simp
  have "EnsureSSHSessionByType e se answers now' u root s' = (s', Err (BizError CodeInternalError))" for now' se answers root
    using keys [of u] by (simp add: EnsureSSHSessionByType_def GetUserCredentialsFromRedis_def redis_Get_def live_def s'(1))
  moreover have "GetUserCredentialsFromRedis e now' v s' = GetUserCredentialsFromRedis e now' v s" if "v \<noteq> u" for v now'
    using keys [of v] that by (simp add: GetUserCredentialsFromRedis_def redis_Get_def live_def s'(1))
  ultimately show ?thesis using logout_closes_exactly_user [OF ssh, of u] s' db' by (auto simp: HasSession_def)
qed


section \<open>Witnesses\<close>

text \<open>
  A machine that knows no user yet and accepts every other command, a directory with one account,
  and a mail code for the address of a second one.
\<close>

definition demo_vm :: Config where
  "demo_vm = demo_cfg\<lparr> cfg_RootUsername := ''root'', cfg_PrivateKeyPath := ''/key'' \<rparr>"

definition demo_acc :: acc_env where
  "demo_acc = \<lparr> x_w = (\<lambda>s. s), x_fails = (\<lambda>_. False), x_fresh = (\<lambda>t. 1 + foldr max (map ac_ID t) 0),
     x_aes = \<lparr> ae_config = None, ae_AES_SECRET = [], ae_VITE_AES_KEY = [], ae_md5 = (\<lambda>s. s), ae_decrypt = (\<lambda>k b. b) \<rparr>,
     x_hash = (\<lambda>p. Some (''h:'' @ p)), x_match = (\<lambda>h p. h = ''h:'' @ p), x_cfg = Some demo_vm,
     x_net = open_net\<lparr> ne_ReadFile := (\<lambda>_. Some ''k''), ne_ParseKey := (\<lambda>_ _. True) \<rparr>,
     x_runs = (\<lambda>_ c. \<not> HasPrefix c ''id ''), x_captcha = (\<lambda>i v. i = v) \<rparr>"

definition demo_bob :: User where
  "demo_bob = blank_user\<lparr> ac_ID := 5, ac_Username := ''bob'', ac_Password := ''h:s3cret'', ac_Email := ''bob12@qq.com'', ac_Status := 1 \<rparr>"

definition demo_state :: accounts where
  "demo_state = \<lparr> a_dir = demo_directory\<lparr> d_users := [demo_bob], d_role_users := [(2, 5)] \<rparr>,
     a_redis = (\<lambda>k. if k = ''email_code:ann12@qq.com'' \<or> k = ''email_code:bob12@qq.com'' then Some (RText ''012345'', Some 99) else None),
     a_ssh = demo_sessions, a_vm = [], a_removed = [], a_log = [] \<rparr>"

definition demo_reset :: ResetPasswordRequest where
  "demo_reset = \<lparr> rs_Email = ''bob12@qq.com'', rs_EmailCaptcha = ''012345'', rs_NewPassword = ''n3wpass'', rs_ConfirmPassword = ''n3wpass'' \<rparr>"

lemma reset_needs_mailed_code_witness:
  "snd (ResetPassword demo_acc 7 demo_reset demo_state) = Ok () \<and>
   a_redis (fst (ResetPassword demo_acc 7 demo_reset demo_state)) (code_key ''bob12@qq.com'') = None \<and>
   fst (ResetPassword demo_acc 7 (demo_reset\<lparr> rs_EmailCaptcha := ''000000'' \<rparr>) demo_state) = demo_state"
proof -
  obtain s' r where 1: "ResetPassword demo_acc 7 demo_reset demo_state = (s', r)" by force
  have "snd (ResetPassword demo_acc 7 demo_reset demo_state) = Ok ()" by code_simp
  then have r: "r = Ok ()" using 1 by simp
  let ?bad = "demo_reset\<lparr> rs_EmailCaptcha := ''000000'' \<rparr>"
  obtain s2 r2 where 2: "ResetPassword demo_acc 7 ?bad demo_state = (s2, r2)" by force
  have "redis_Get (x_fails demo_acc RGet) 7 (code_key (rs_Email ?bad)) (a_redis demo_state) = Ok (RText ''012345'')" by code_simp
  then have "s2 = demo_state" using reset_needs_mailed_code [OF 2] by simp
  moreover have "\<not> x_fails demo_acc RDel" "rs_Email demo_reset = ''bob12@qq.com''" by code_simp+
  ultimately show ?thesis using reset_needs_mailed_code [OF 1] r 1 2 by auto
qed

definition demo_register :: RegisterRequest where
  "demo_register = \<lparr> rg_Username = ''ann'', rg_Password = ''s3cret'', rg_ConfirmPassword = ''s3cret'', rg_Email = ''ann12@qq.com'', rg_EmailCaptcha = ''012345'' \<rparr>"

definition demo_login :: LoginRequest where
  "demo_login = \<lparr> lg_Username = ''ann'', lg_Password = ''s3cret'', lg_CaptchaID = ''c'', lg_Captcha = ''c'' \<rparr>"

definition demo_tokens :: token_env where
  "demo_tokens = \<lparr> tk_secret = ''k'', tk_hours = 24, tk_sign = (\<lambda>_ c. Some (cl_Username c)), tk_verify = (\<lambda>_ _. JwtError) \<rparr>"


lemma register_then_login_witness:
  "\<exists>s' s'' resp. Register demo_acc 7 demo_register demo_state = (s', Ok ()) \<and>
     Login demo_acc demo_tokens go_plain (\<lambda>_. False) 8 demo_login s' = (s'', Ok resp) \<and> ur_Username (lr_User resp) = ''ann''"
proof -
  obtain s' r where 1: "Register demo_acc 7 demo_register demo_state = (s', r)" by force
  have "snd (Register demo_acc 7 demo_register demo_state) = Ok ()" by code_simp
  then have reg: "Register demo_acc 7 demo_register demo_state = (s', Ok ())" using 1 by simp
  have "directory_ok (x_w demo_acc) (a_dir demo_state)" by code_simp
  moreover have "x_fresh demo_acc (d_users (a_dir demo_state)) \<notin> snd ` set (d_role_users (a_dir demo_state))" by code_simp
  moreover have "\<not> x_fails demo_acc q" "x_hash demo_acc p = Some h \<Longrightarrow> x_match demo_acc h p" for q p h
    by (simp_all add: demo_acc_def)
  moreover have "tk_sign demo_tokens (tk_secret demo_tokens) c \<noteq> None" for c by (simp add: demo_tokens_def)
  moreover have "lg_Username demo_login = rg_Username demo_register" "lg_Password demo_login = rg_Password demo_register"
    "captcha_Verify demo_acc (lg_CaptchaID demo_login) (lg_Captcha demo_login)" "rg_Username demo_register = ''ann''" by code_simp+
  ultimately show ?thesis
    using register_then_login [of demo_acc demo_state demo_tokens 7 demo_register s' demo_login go_plain "\<lambda>_. False" 8] reg by auto
qed

lemma logout_ends_access_witness:
  "HasSession 12 False (a_ssh demo_state) \<and> \<not> HasSession 12 False (a_ssh (fst (Logout demo_acc redis_up 7 12 demo_state)))"
proof -
  obtain s' r where 1: "Logout demo_acc redis_up 7 12 demo_state = (s', r)" by force
  have ssh: "ssh_reachable (a_ssh demo_state)" by (simp add: demo_state_def demo_sessions_reachable)
  have none: "a_redis demo_state (meta_key u) = None" "a_redis demo_state sessionListKey = None" for u
    by (simp_all add: demo_state_def meta_key_def sessionListKey_def sessionKeyPrefix_def)
  then have "SessionStore.meta (a_redis demo_state) = Map.empty" by (simp add: meta_def fun_eq_iff)
  then have "meta_ok (a_redis demo_state)" using none by (simp add: meta_ok_def listed_def)
  moreover have "\<not> x_fails demo_acc RDel" "HasSession 12 False (a_ssh demo_state)" by code_simp+
  ultimately show ?thesis using logout_ends_access [OF ssh _ _ 1] 1 by simp
qed

end
