(* ===== verification/Exec.thy ===== *)
theory Exec
  imports AccountSafety
begin

text \<open>
  Remote execution: internal/service/exec_service.go on the SSH sessions of the users, and the
  commands of pkg/server/client.go it uses.

  The machine is a parameter: how a command ends, how a job is started, and the processes below a
  shell. The session manager exists in every wiring of the program, so the test for nil is left out.
\<close>

section \<open>Commands\<close>

text \<open>
  What session.Run can do: the channel cannot be opened, the command succeeds, it ends with a
  status, or the connection breaks; the output is what was received until then.
\<close>

datatype run_outcome = NoChannel | RunOk string | RunExit string int | RunBroken string

definition ExecuteCommandWithStatus :: "run_outcome \<Rightarrow> string \<times> int \<times> unit result" where
  "ExecuteCommandWithStatus r = (case r of
     NoChannel \<Rightarrow> ([], - 1, Err SshError)
   | RunOk out \<Rightarrow> (out, 0, Ok ())
   | RunExit out n \<Rightarrow> (out, n, Err SshError)
   | RunBroken out \<Rightarrow> (out, - 1, Err SshError))"

definition ExecuteCommand :: "run_outcome \<Rightarrow> string \<times> unit result" where
  "ExecuteCommand r = (case ExecuteCommandWithStatus r of
     (out, _, Inl _) \<Rightarrow> (out, Err (BizError CodeSSHCommandExecutionFailed))
   | (out, _, Inr _) \<Rightarrow> (out, Ok ()))"

text \<open>Starting a job, up to the reading of the process id from its output.\<close>

datatype launch = LaunchNoSession | LaunchNoPipe | LaunchStartFailed | LaunchScanFailed | LaunchTimeout | LaunchPid int

text \<open>
  The environment of one operation: the accounts, the clock, the commands per client and attempt,
  the launches, and the outcome of the script that looks for the process of a job.
\<close>

record exec_calls =
  xc_acc :: acc_env
  xc_se :: session_env
  xc_answers :: "nat \<Rightarrow> bool"
  xc_now :: int
  xc_run :: "nat \<Rightarrow> nat \<Rightarrow> string \<Rightarrow> run_outcome"
  xc_launch :: "nat \<Rightarrow> string \<Rightarrow> launch"
  xc_worker :: "nat \<Rightarrow> int \<Rightarrow> run_outcome"

section \<open>The client of a user\<close>

definition client_of :: "UserSession result \<Rightarrow> nat option" where
  "client_of r = (case r of Inl _ \<Rightarrow> None | Inr us \<Rightarrow> us_Client us)"

definition getSSHClient :: "exec_calls \<Rightarrow> int \<Rightarrow> bool \<Rightarrow> accounts \<Rightarrow> accounts \<times> nat result" where
  "getSSHClient e userID isRoot s =
     (let (sm, r) = GetSession (xc_now e) userID isRoot (a_ssh s); s1 = s\<lparr> a_ssh := sm \<rparr> in
      case client_of r of
        Some c \<Rightarrow> (s1, Ok c)
      | None \<Rightarrow> (case EnsureSSHSessionByType (xc_acc e) (xc_se e) (xc_answers e) (xc_now e) userID isRoot s1 of
          (s2, Inl _) \<Rightarrow> (s2, Err (Errorf ''restore session''))
        | (s2, Inr _) \<Rightarrow>
            (let (sm', r') = GetSession (xc_now e) userID isRoot (a_ssh s2)
             in (s2\<lparr> a_ssh := sm' \<rparr>, case client_of r' of Some c \<Rightarrow> Ok c | None \<Rightarrow> Err (Errorf ''no client'')))))"

section \<open>Environments of conda\<close>

definition conda_command :: string where
  "conda_command = ''source ~/.bashrc 2>/dev/null; conda env list || /opt/conda/bin/conda env list || ~/miniconda3/bin/conda env list || ~/anaconda3/bin/conda env list''"

definition conda_line :: "string \<Rightarrow> string option" where
  "conda_line l = (let line = TrimSpace l in
     if line = [] \<or> HasPrefix line ''#'' then None
     else case Fields line of [] \<Rightarrow> None | p # _ \<Rightarrow> Some p)"

definition ListCondaEnvs :: "exec_calls \<Rightarrow> (nat \<Rightarrow> bool) \<Rightarrow> int \<Rightarrow> accounts \<Rightarrow> accounts \<times> string list result" where
  "ListCondaEnvs e ferr userID s =
     (let isRoot = (case HasSystemAccess (x_w (xc_acc e)) (x_fails (xc_acc e) QFind) ferr (a_dir s) userID AccessTypeFile of
                      Inl _ \<Rightarrow> False | Inr b \<Rightarrow> b)
      in case getSSHClient e userID isRoot s of
        (s1, Inl x) \<Rightarrow> (s1, Err x)
      | (s1, Inr c) \<Rightarrow> (s1, case ExecuteCommand (xc_run e c 0 conda_command) of
          (_, Inl _) \<Rightarrow> Err (Errorf ''conda'')
        | (out, Inr _) \<Rightarrow> (let envs = List.map_filter conda_line (Split CHR 0x0A out)
            in if envs = [] then Err (Errorf ''conda'') else Ok envs)))"

section \<open>Looking for the process of a job\<close>

text \<open>
  The shell function find_worker of the script: \<open>children\<close> is the output of pgrep -P, \<open>python\<close> the
  test of the command name. It may not end on a graph with a cycle.
\<close>

partial_function (option) find_worker :: "(int \<Rightarrow> int list) \<Rightarrow> (int \<Rightarrow> bool) \<Rightarrow> int \<Rightarrow> int option" where
  "find_worker children python pid =
     (if children pid = [] then Some pid
      else case find python (children pid) of
        Some child \<Rightarrow> find_worker children python child
      | None \<Rightarrow> find_worker children python (last (children pid)))"

declare find_worker.simps [code]

definition findWorkerPID :: "exec_calls \<Rightarrow> int \<Rightarrow> int \<Rightarrow> bool \<Rightarrow> accounts \<Rightarrow> accounts \<times> int \<times> unit result" where
  "findWorkerPID e userID parentPID isRoot s = (case getSSHClient e userID isRoot s of
     (s1, Inl x) \<Rightarrow> (s1, parentPID, Err x)
   | (s1, Inr c) \<Rightarrow> (case ExecuteCommandWithStatus (xc_worker e c parentPID) of
       (_, exitCode, Inl x) \<Rightarrow> (if exitCode \<noteq> 0 then (s1, parentPID, Ok ()) else (s1, parentPID, Err x))
     | (out, _, Inr _) \<Rightarrow>
         (let childPIDStr = TrimSpace out in
          if childPIDStr = [] then (s1, parentPID, Ok ())
          else case Atoi childPIDStr of None \<Rightarrow> (s1, parentPID, Ok ()) | Some childPID \<Rightarrow> (s1, childPID, Ok ()))))"

section \<open>Starting a job\<close>

text \<open>The environment variables of a job, in the order in which the map is ranged over.\<close>

type_synonym env_vars = "(string \<times> string) list"

definition env_prefix :: "env_vars \<Rightarrow> string" where
  "env_prefix vars = concat (map (\<lambda>(k, v). ''export '' @ k @ ''='' @ v @ '' && '') vars)"

definition logDir :: string where "logDir = ''$HOME/cloudque_logs''"

definition job_file :: "string \<Rightarrow> string \<Rightarrow> string" where
  "job_file jobID ext = logDir @ ''/job_'' @ jobID @ ext"

definition run_command :: "string \<Rightarrow> string \<Rightarrow> string" where
  "run_command condaEnv cmdStr = (if condaEnv \<noteq> [] then ''conda run --no-capture-output -n '' @ condaEnv @ '' '' @ cmdStr else cmdStr)"

definition job_id :: "env_vars \<Rightarrow> string" where
  "job_id vars = (case map_of vars ''JOB_ID'' of Some j \<Rightarrow> j | None \<Rightarrow> [])"

text \<open>The text between the single quotes, which the login shell executes.\<close>

definition login_script :: "string \<Rightarrow> string \<Rightarrow> env_vars \<Rightarrow> string" where
  "login_script condaEnv cmdStr vars =
     ''echo $$ ; '' @ env_prefix vars @ '' exec nohup bash -c '' @ [CHR 0x22] @ run_command condaEnv cmdStr @ ''; echo '' @
     [CHR 0x5C] @ ''$? > '' @ job_file (job_id vars) ''.exitcode'' @ [CHR 0x22] @ '' > '' @ job_file (job_id vars) ''.log'' @ '' 2>&1''"

definition full_command :: "string \<Rightarrow> string \<Rightarrow> env_vars \<Rightarrow> string" where
  "full_command condaEnv cmdStr vars =
     ''mkdir -p '' @ logDir @ '' && bash -l -c '' @ [CHR 0x27] @ login_script condaEnv cmdStr vars @ [CHR 0x27]"

text \<open>The second environment is the one half a second later, when the process is looked for.\<close>

definition ExecuteCommandRemote ::
  "exec_calls \<Rightarrow> exec_calls \<Rightarrow> int \<Rightarrow> string \<Rightarrow> string \<Rightarrow> env_vars \<Rightarrow> bool \<Rightarrow> accounts \<Rightarrow> accounts \<times> int result" where
  "ExecuteCommandRemote e e' userID condaEnv cmdStr vars isRoot s = (case getSSHClient e userID isRoot s of
     (s1, Inl x) \<Rightarrow> (s1, Err x)
   | (s1, Inr c) \<Rightarrow> (case xc_launch e c (full_command condaEnv cmdStr vars) of
       LaunchNoSession \<Rightarrow> (s1, Err (Errorf ''session''))
     | LaunchNoPipe \<Rightarrow> (s1, Err (Errorf ''StdoutPipe''))
     | LaunchStartFailed \<Rightarrow> (s1, Err (Errorf ''start''))
     | LaunchScanFailed \<Rightarrow> (s1, Err (Errorf ''read pid''))
     | LaunchTimeout \<Rightarrow> (s1, Err (Errorf ''pid timeout''))
     | LaunchPid pid \<Rightarrow> (case findWorkerPID e' userID pid isRoot s1 of
         (s2, _, Inl _) \<Rightarrow> (s2, Ok pid)
       | (s2, workerPID, Inr _) \<Rightarrow> (s2, Ok workerPID))))"

section \<open>Files and exit codes\<close>

definition FileExistsRemote :: "exec_calls \<Rightarrow> int \<Rightarrow> string \<Rightarrow> bool \<Rightarrow> accounts \<Rightarrow> accounts \<times> bool result" where
  "FileExistsRemote e userID filePath isRoot s = (case getSSHClient e userID isRoot s of
     (s1, Inl x) \<Rightarrow> (s1, Err x)
   | (s1, Inr c) \<Rightarrow> (s1, case ExecuteCommandWithStatus (xc_run e c 0 (''test -f '' @ filePath)) of
       (_, exitCode, Inl x) \<Rightarrow> (if exitCode = 1 then Ok False else Err x)
     | (_, _, Inr _) \<Rightarrow> Ok True))"

text \<open>The loop of the attempts: \<open>n\<close> attempts are left, \<open>i\<close> were made; the last answer is carried on.\<close>

fun read_attempts :: "(nat \<Rightarrow> run_outcome) \<Rightarrow> nat \<Rightarrow> nat \<Rightarrow> string \<times> unit result \<Rightarrow> string \<times> unit result" where
  "read_attempts run 0 i prev = prev"
| "read_attempts run (Suc n) i prev = (case ExecuteCommand (run i) of
     (out, Inr _) \<Rightarrow> (out, Ok ())
   | (out, Inl x) \<Rightarrow> read_attempts run n (Suc i) (out, Err x))"

definition GetJobExitCode :: "exec_calls \<Rightarrow> int \<Rightarrow> int \<Rightarrow> bool \<Rightarrow> accounts \<Rightarrow> accounts \<times> int \<times> unit result" where
  "GetJobExitCode e userID jobID isRoot s = (case getSSHClient e userID isRoot s of
     (s1, Inl x) \<Rightarrow> (s1, - 1, Err x)
   | (s1, Inr c) \<Rightarrow>
      (let cmd = ''cat '' @ job_file (Itoa jobID) ''.exitcode'' in
       case read_attempts (\<lambda>i. xc_run e c i cmd) 5 0 ([], Ok ()) of
         (_, Inl _) \<Rightarrow> (s1, - 1, Err (Errorf ''read exit code''))
       | (out, Inr _) \<Rightarrow> (case Atoi (TrimSpace out) of
           None \<Rightarrow> (s1, - 1, Err (Errorf ''parse exit code''))
         | Some code \<Rightarrow> (s1, code, Ok ()))))"


section \<open>Properties of the client\<close>

lemma GetSession_simps:
  "map_of (sm_sessions sm) (getSessionKey u r) = None \<Longrightarrow> GetSession now u r sm = (sm, Err (Errorf ''no session''))"
  "map_of (sm_sessions sm) (getSessionKey u r) = Some us \<Longrightarrow> GetSession now u r sm =
     (sm\<lparr> sm_sessions := put_session (getSessionKey u r) (UpdateLastUsed now us) (sm_sessions sm) \<rparr>, Ok (UpdateLastUsed now us))"
  by (simp_all add: GetSession_def Let_def)

lemma us_Client_UpdateLastUsed [simp]: "us_Client (UpdateLastUsed now us) = us_Client us"
  by (simp add: UpdateLastUsed_def)

lemma GetSession_held: "client_of (snd (GetSession now u r sm)) = Some c \<Longrightarrow> held_by (fst (GetSession now u r sm)) (getSessionKey u r) c"
  by (cases "map_of (sm_sessions sm) (getSessionKey u r)") (auto simp: GetSession_simps client_of_def held_by_def map_of_put_session)

text \<open>Only the session of the user with the asked rights may change.\<close>

definition other_sessions :: "string \<Rightarrow> SessionManager \<Rightarrow> string \<Rightarrow> UserSession option" where
  "other_sessions key sm = (map_of (sm_sessions sm))(key := None)"

lemma other_put [simp]:
  "other_sessions k (sm\<lparr> sm_sessions := put_session k us (sm_sessions sm) \<rparr>) = other_sessions k sm"
  by (simp add: other_sessions_def map_of_put_session)

lemma other_GetSession [simp]: "other_sessions (getSessionKey u r) (fst (GetSession now u r sm)) = other_sessions (getSessionKey u r) sm"
  by (cases "map_of (sm_sessions sm) (getSessionKey u r)") (simp_all add: GetSession_simps)

lemma other_CreateSession [simp]: "other_sessions (getSessionKey u r) (fst (CreateSession ne now u name pw r sm)) = other_sessions (getSessionKey u r) sm"
  by (cases rule: CreateSession_cases [of ne now u name pw r sm]) (simp_all add: other_sessions_def store_session_tab)

lemma other_DeleteSession [simp]: "other_sessions (getSessionKey u r) (DeleteSession u r sm) = other_sessions (getSessionKey u r) sm"
  by (auto simp: other_sessions_def DeleteSession_def Let_def AList.delete_conv Close_session_def split: option.splits)

lemma other_GetOrCreateSession [simp]:
  "other_sessions (getSessionKey u r) (fst (GetOrCreateSession an ne now u name pw r sm)) = other_sessions (getSessionKey u r) sm"
proof -
  obtain sm1 x where g: "GetSession now u r sm = (sm1, x)" by fastforce
  then have "other_sessions (getSessionKey u r) sm1 = other_sessions (getSessionKey u r) sm" using other_GetSession [of u r now sm] by simp
  then show ?thesis by (auto simp: GetOrCreateSession_def g split: sum.splits)
qed

lemma Ensure_ssh:
  "a_ssh (fst (EnsureSSHSessionByType e se an now u r s)) = a_ssh s \<or>
   (\<exists>name pw. a_ssh (fst (EnsureSSHSessionByType e se an now u r s)) = fst (GetOrCreateSession an (x_net e) now u name pw r (a_ssh s)))"
proof (cases "GetUserCredentialsFromRedis e now u s")
  case (Inr creds)
  then show ?thesis
  proof (cases "user_FindByID (x_fails e QFind) (a_dir s) u")
    case (Inr f)
    obtain sm x where g: "GetOrCreateSession an (x_net e) now u (sc_creds_Username creds) (sc_creds_Password creds) r (a_ssh s) = (sm, x)"
      by fastforce
    have "a_ssh (fst (EnsureSSHSessionByType e se an now u r s)) = (if f = None then a_ssh s else sm)"
      using \<open>GetUserCredentialsFromRedis e now u s = Ok creds\<close> Inr g
      by (auto simp: EnsureSSHSessionByType_def split: option.splits sum.splits)
    moreover have "sm = fst (GetOrCreateSession an (x_net e) now u (sc_creds_Username creds) (sc_creds_Password creds) r (a_ssh s))" using g by simp
    ultimately show ?thesis by auto
  qed (use Inr in \<open>simp add: EnsureSSHSessionByType_def\<close>)
qed (simp add: EnsureSSHSessionByType_def)

lemma Ensure_keeps:
  "ssh_inv (a_ssh s) \<Longrightarrow> ssh_inv (a_ssh (fst (EnsureSSHSessionByType e se an now u r s)))"
  "other_sessions (getSessionKey u r) (a_ssh (fst (EnsureSSHSessionByType e se an now u r s))) = other_sessions (getSessionKey u r) (a_ssh s)"
  using Ensure_ssh [of e se an now u r s] by (auto simp: inv_GetOrCreateSession)

lemma getSSHClient_cases:
  obtains (present) c where "client_of (snd (GetSession (xc_now e) u r (a_ssh s))) = Some c"
    "getSSHClient e u r s = (s\<lparr> a_ssh := fst (GetSession (xc_now e) u r (a_ssh s)) \<rparr>, Ok c)"
  | (failed) s2 x where "client_of (snd (GetSession (xc_now e) u r (a_ssh s))) = None"
    "EnsureSSHSessionByType (xc_acc e) (xc_se e) (xc_answers e) (xc_now e) u r (s\<lparr> a_ssh := fst (GetSession (xc_now e) u r (a_ssh s)) \<rparr>) = (s2, Err x)"
    "getSSHClient e u r s = (s2, Err (Errorf ''restore session''))"
  | (restored) s2 where "client_of (snd (GetSession (xc_now e) u r (a_ssh s))) = None"
    "EnsureSSHSessionByType (xc_acc e) (xc_se e) (xc_answers e) (xc_now e) u r (s\<lparr> a_ssh := fst (GetSession (xc_now e) u r (a_ssh s)) \<rparr>) = (s2, Ok ())"
    "getSSHClient e u r s = (s2\<lparr> a_ssh := fst (GetSession (xc_now e) u r (a_ssh s2)) \<rparr>,
       case client_of (snd (GetSession (xc_now e) u r (a_ssh s2))) of Some c \<Rightarrow> Ok c | None \<Rightarrow> Err (Errorf ''no client''))"
proof (cases "client_of (snd (GetSession (xc_now e) u r (a_ssh s)))")
  case None
  obtain s2 y where en: "EnsureSSHSessionByType (xc_acc e) (xc_se e) (xc_answers e) (xc_now e) u r (s\<lparr> a_ssh := fst (GetSession (xc_now e) u r (a_ssh s)) \<rparr>) = (s2, y)"
    by fastforce
  then show ?thesis using failed [of s2] restored [of s2] None by (cases y) (simp_all add: getSSHClient_def split_beta)
qed (use present in \<open>simp add: getSSHClient_def split_beta\<close>)

text \<open>The credentials of a user are stored, the user exists and the machine accepts the login.\<close>

definition can_restore :: "exec_calls \<Rightarrow> int \<Rightarrow> bool \<Rightarrow> accounts \<Rightarrow> bool" where
  "can_restore e u r s \<longleftrightarrow> (\<exists>creds user roles. GetUserCredentialsFromRedis (xc_acc e) (xc_now e) u s = Ok creds \<and>
     user_FindByID (x_fails (xc_acc e) QFind) (a_dir s) u = Ok (Some (user, roles)) \<and>
     (\<forall>cfg. sm_Cfg (a_ssh s) = Some cfg \<longrightarrow>
        NewClient (x_net (xc_acc e)) (session_config (a_ssh s) cfg (sc_creds_Username creds) (sc_creds_Password creds) r) = Ok ()))"

lemma restore_works:
  assumes "ssh_inv (a_ssh s)" "map_of (sm_sessions (a_ssh s)) (getSessionKey u r) = None" "can_restore e u r s"
  shows "\<exists>s2 us. EnsureSSHSessionByType (xc_acc e) (xc_se e) (xc_answers e) (xc_now e) u r s = (s2, Ok ()) \<and>
     map_of (sm_sessions (a_ssh s2)) (getSessionKey u r) = Some us \<and> us_Client us \<noteq> None"
proof -
  obtain creds user roles cfg where c: "GetUserCredentialsFromRedis (xc_acc e) (xc_now e) u s = Ok creds"
    "user_FindByID (x_fails (xc_acc e) QFind) (a_dir s) u = Ok (Some (user, roles))" "sm_Cfg (a_ssh s) = Some cfg"
    "NewClient (x_net (xc_acc e)) (session_config (a_ssh s) cfg (sc_creds_Username creds) (sc_creds_Password creds) r) = Ok ()"
    using assms(3) ssh_invD(1) [OF assms(1)] by (auto simp: can_restore_def)
  then show ?thesis
    by (auto simp: EnsureSSHSessionByType_def GetOrCreateSession_def GetSession_simps(1) [OF assms(2)] CreateSession_def Let_def store_session_tab)
qed

text \<open>
  C18: Every remote operation works on a living client of its user. Whatever fails on the way,
  a client that getSSHClient returns is the one that the session manager holds for exactly this
  user with exactly the asked rights, and it has not been closed; no session of anybody else
  changes, and the clients stay accounted for. When the credentials are stored and the machine
  accepts them, there always is such a client, a lost session is restored.
\<close>

theorem ssh_client_restored:
  assumes inv: "ssh_inv (a_ssh s)" and get: "getSSHClient e u r s = (s', res)"
  shows "(\<forall>c. res = Ok c \<longrightarrow> held_by (a_ssh s') (getSessionKey u r) c \<and> c \<notin> set (sm_closed (a_ssh s'))) \<and>
    other_sessions (getSessionKey u r) (a_ssh s') = other_sessions (getSessionKey u r) (a_ssh s) \<and> ssh_inv (a_ssh s') \<and>
    (can_restore e u r s \<longrightarrow> (\<exists>c. res = Ok c))"
proof -
  let ?s1 = "s\<lparr> a_ssh := fst (GetSession (xc_now e) u r (a_ssh s)) \<rparr>"
  have inv1: "ssh_inv (a_ssh ?s1)" using inv by (simp add: inv_GetSession)
  have frame: "other_sessions (getSessionKey u r) (a_ssh s') = other_sessions (getSessionKey u r) (a_ssh s)" and inv': "ssh_inv (a_ssh s')"
    using get Ensure_keeps(1) [OF inv1, of "xc_acc e" "xc_se e" "xc_answers e" "xc_now e" u r]
      Ensure_keeps(2) [of u r "xc_acc e" "xc_se e" "xc_answers e" "xc_now e" ?s1] inv1
    by (cases rule: getSSHClient_cases [of e u r s]; auto simp: inv_GetSession)+
  have held: "held_by (a_ssh s') (getSessionKey u r) c" if "res = Ok c" for c
    using get that by (cases rule: getSSHClient_cases [of e u r s]) (auto intro!: GetSession_held split: option.splits)
  have "\<exists>c. res = Ok c" if can: "can_restore e u r s"
  proof (cases "map_of (sm_sessions (a_ssh s)) (getSessionKey u r)")
    case None
    then have s1: "?s1 = s" by (simp add: GetSession_simps)
    obtain s2 us where s2: "EnsureSSHSessionByType (xc_acc e) (xc_se e) (xc_answers e) (xc_now e) u r s = (s2, Ok ())"
      "map_of (sm_sessions (a_ssh s2)) (getSessionKey u r) = Some us" "us_Client us \<noteq> None"
      using restore_works [OF inv None can] by blast
    then show ?thesis using get None s1
      by (cases rule: getSSHClient_cases [of e u r s]) (auto simp: GetSession_simps client_of_def)
  next
    case (Some us)
    then show ?thesis using get ssh_invD(3) [OF inv Some]
      by (cases rule: getSSHClient_cases [of e u r s]) (auto simp: GetSession_simps client_of_def)
  qed
  then show ?thesis using frame inv' held ssh_invD(4) [OF inv'] by blast
qed

definition demo_exec_calls :: exec_calls where
  "demo_exec_calls = \<lparr> xc_acc = demo_acc, xc_se = redis_up, xc_answers = (\<lambda>_. True), xc_now = 9,
     xc_run = (\<lambda>_ i _. if i < 2 then RunExit [] 1 else RunOk (''137'' @ [CHR 0x0A])), xc_launch = (\<lambda>_ _. LaunchPid 70),
     xc_worker = (\<lambda>_ pid. RunOk (Itoa 72 @ [CHR 0x0A])) \<rparr>"

text \<open>The user 5 has stored credentials and no session.\<close>

definition demo_lost :: accounts where
  "demo_lost = demo_state\<lparr> a_redis := [creds_key 5 \<mapsto> (RSshCreds \<lparr> sc_creds_Username = ''bob'', sc_creds_Password = ''q'' \<rparr>, None)] \<rparr>"

lemma demo_lost_inv: "ssh_inv (a_ssh demo_lost)"
  by (simp add: demo_lost_def demo_state_def ssh_reachable_inv [OF demo_sessions_reachable])

lemma demo_can_restore: "can_restore demo_exec_calls 5 False demo_lost"
proof -
  have 1: "GetUserCredentialsFromRedis demo_acc 9 5 demo_lost = Ok \<lparr> sc_creds_Username = ''bob'', sc_creds_Password = ''q'' \<rparr>" by code_simp
  have "is_ok (user_FindByID (x_fails demo_acc QFind) (a_dir demo_lost) 5)"
    "user_FindByID (x_fails demo_acc QFind) (a_dir demo_lost) 5 \<noteq> Ok None" by code_simp+
  then obtain u rs where 2: "user_FindByID (x_fails demo_acc QFind) (a_dir demo_lost) 5 = Ok (Some (u, rs))"
    by (metis is_ok_iff not_None_eq surj_pair)
  have 3: "NewClient (x_net demo_acc) (session_config (a_ssh demo_lost) (the (sm_Cfg (a_ssh demo_lost))) ''bob'' ''q'' False) = Ok ()" by code_simp
  have "xc_acc demo_exec_calls = demo_acc" "xc_now demo_exec_calls = 9" by (simp_all add: demo_exec_calls_def)
  then show ?thesis unfolding can_restore_def using 1 2 3 by auto
qed

theorem ssh_client_restored_witness:
  "\<exists>c. snd (getSSHClient demo_exec_calls 5 False demo_lost) = Ok c \<and>
     held_by (a_ssh (fst (getSSHClient demo_exec_calls 5 False demo_lost))) (getSessionKey 5 False) c"
  using ssh_client_restored [OF demo_lost_inv, of demo_exec_calls 5 False
      "fst (getSSHClient demo_exec_calls 5 False demo_lost)" "snd (getSSHClient demo_exec_calls 5 False demo_lost)"] demo_can_restore
  by auto

text \<open>
  A session whose connection is dead is handed out as it is: getSSHClient restores a session that
  is missing, it does not ask whether the connection of an existing one still answers.
\<close>

lemma dead_session_handed_out:
  "snd (getSSHClient (demo_exec_calls\<lparr> xc_answers := (\<lambda>_. False) \<rparr>) 12 False demo_state) = Ok 1 \<and>
   \<not> isSessionValid (\<lambda>_. False) (the (map_of (sm_sessions (a_ssh demo_state)) (getSessionKey 12 False)))"
proof -
  have "snd (getSSHClient (demo_exec_calls\<lparr> xc_answers := (\<lambda>_. False) \<rparr>) 12 False demo_state) = Ok 1"
    "\<not> isSessionValid (\<lambda>_. False) (the (map_of (sm_sessions (a_ssh demo_state)) (getSessionKey 12 False)))" by code_simp+
  then show ?thesis by blast
qed

section \<open>The process of a job is found\<close>

lemma find_worker_leaf:
  assumes "wf {(c, p). c \<in> set (children p)}"
  shows "\<exists>w. find_worker children python pid = Some w \<and> (pid, w) \<in> {(p, c). c \<in> set (children p)}\<^sup>* \<and> children w = []"
  using assms
proof (induction pid rule: wf_induct_rule)
  case (less pid)
  show ?case
  proof (cases "children pid = []")
    case False
    define next_pid where "next_pid = (case find python (children pid) of Some c \<Rightarrow> c | None \<Rightarrow> last (children pid))"
    have mem: "next_pid \<in> set (children pid)" using False
      by (auto simp: next_pid_def find_Some_iff split: option.split)
    have step: "find_worker children python pid = find_worker children python next_pid"
      using False by (subst find_worker.simps) (simp add: next_pid_def split: option.split)
    obtain w where "find_worker children python next_pid = Some w" "(next_pid, w) \<in> {(p, c). c \<in> set (children p)}\<^sup>*" "children w = []"
      using less.IH [of next_pid] mem by auto
    moreover have "(pid, next_pid) \<in> {(p, c). c \<in> set (children p)}" using mem by simp
    ultimately show ?thesis using step by (intro exI [of _ w]) (auto intro: converse_rtrancl_into_rtrancl)
  qed (subst find_worker.simps, simp)
qed

lemma descendant_in_int:
  assumes "(pid, w) \<in> {(p, c). c \<in> set (children p)}\<^sup>*" "in_int pid" "\<forall>p. \<forall>c \<in> set (children p). in_int c"
  shows "in_int w"
  using assms(1) by (cases rule: rtranclE) (use assms(2,3) in auto)

lemma TrimSpace_line: "TrimSpace (Itoa w @ [CHR 0x0A]) = Itoa w"
  using Itoa_ends(1) [of w "[CHR 0x0A]"] Itoa_ends(2) [of "[]" w] by (intro TrimSpace_newline_end) simp_all

text \<open>
  C19: The process id of a job is that of the process that does its work. When the machine starts
  the command and executes the search script on a finite tree of processes, ExecuteCommandRemote
  returns, and the process id it returns belongs to a descendant of the started shell (or is the
  shell) that has no children of its own.
\<close>

theorem job_process_is_leaf:
  assumes tree: "wf {(c, p). c \<in> set (children p)}" and pids: "in_int pid" "\<forall>p. \<forall>c \<in> set (children p). in_int c"
    and start: "getSSHClient e u r s = (s1, Ok c)" "xc_launch e c (full_command conda cmd vars) = LaunchPid pid"
    and search: "getSSHClient e' u r s1 = (s2, Ok c')"
      "\<forall>w. find_worker children python pid = Some w \<longrightarrow> xc_worker e' c' pid = RunOk (Itoa w @ [CHR 0x0A])"
  shows "\<exists>w. ExecuteCommandRemote e e' u conda cmd vars r s = (s2, Ok w) \<and> (pid, w) \<in> {(p, c). c \<in> set (children p)}\<^sup>* \<and> children w = []"
proof -
  obtain w where w: "find_worker children python pid = Some w" "(pid, w) \<in> {(p, c). c \<in> set (children p)}\<^sup>*" "children w = []"
    using find_worker_leaf [OF tree] by blast
  have "in_int w" using descendant_in_int [OF w(2) pids] .
  then have "findWorkerPID e' u pid r s1 = (s2, w, Ok ())"
    using search w(1) by (simp add: findWorkerPID_def ExecuteCommandWithStatus_def TrimSpace_line Atoi_Itoa)
  then show ?thesis using start w by (auto simp: ExecuteCommandRemote_def)
qed

definition demo_children :: "int \<Rightarrow> int list" where
  "demo_children p = (if p = 70 then [71, 72] else if p = 71 then [73] else [])"

theorem job_process_is_leaf_witness:
  "snd (ExecuteCommandRemote demo_exec_calls demo_exec_calls 5 [] ''python3 -u a.py'' [(''JOB_ID'', ''5'')] False demo_lost) = Ok 72"
proof -
  have "{(c, p). c \<in> set (demo_children p)} \<subseteq> measure (\<lambda>p. nat (100 - p))" by (auto simp: demo_children_def split: if_splits)
  then have tree: "wf {(c, p). c \<in> set (demo_children p)}" by (rule wf_subset [OF wf_measure])
  have pids: "in_int 70" "\<forall>p. \<forall>c \<in> set (demo_children p). in_int c" by (auto simp: in_int_def int_min_def int_max_def demo_children_def)
  have "snd (getSSHClient demo_exec_calls 5 False demo_lost) = Ok 2"
    "snd (getSSHClient demo_exec_calls 5 False (fst (getSSHClient demo_exec_calls 5 False demo_lost))) = Ok 2" by code_simp+
  then obtain s1 s2 where g: "getSSHClient demo_exec_calls 5 False demo_lost = (s1, Ok 2)" "getSSHClient demo_exec_calls 5 False s1 = (s2, Ok 2)"
    by (metis prod.collapse fst_conv)
  have f: "find_worker demo_children (\<lambda>p. p = 72) 70 = Some 72" by (simp add: find_worker.simps demo_children_def)
  have "\<exists>w. ExecuteCommandRemote demo_exec_calls demo_exec_calls 5 [] ''python3 -u a.py'' [(''JOB_ID'', ''5'')] False demo_lost = (s2, Ok w)"
    using job_process_is_leaf [OF tree pids g(1) _ g(2), where python = "\<lambda>p. p = 72"] f by (simp add: demo_exec_calls_def) blast
  moreover have "snd (findWorkerPID demo_exec_calls 5 70 False s1) = (72, Ok ())"
    using g(2) Atoi_Itoa [of 72] by (simp add: findWorkerPID_def demo_exec_calls_def ExecuteCommandWithStatus_def TrimSpace_line in_int_def int_min_def int_max_def)
  ultimately show ?thesis using g(1) by (auto simp: ExecuteCommandRemote_def demo_exec_calls_def split: prod.splits)
qed

section \<open>Exit codes\<close>

text \<open>The first answer of a command among the first \<open>n\<close> attempts.\<close>

lemma read_attempts_Ok:
  "read_attempts run n i prev = (out, Ok ()) \<longleftrightarrow>
     (\<exists>j < n. run (i + j) = RunOk out \<and> (\<forall>k < j. \<nexists>out'. run (i + k) = RunOk out')) \<or>
     (prev = (out, Ok ()) \<and> (\<forall>k < n. \<nexists>out'. run (i + k) = RunOk out') \<and> n = 0)"
proof (induction n arbitrary: i prev)
  case (Suc n)
  show ?case
  proof (cases "\<exists>o'. run i = RunOk o'")
    case True
    then obtain o' where o': "run i = RunOk o'" by blast
    then have "read_attempts run (Suc n) i prev = (o', Ok ())" by (simp add: ExecuteCommand_def ExecuteCommandWithStatus_def)
    moreover have "(\<exists>j < Suc n. run (i + j) = RunOk out \<and> (\<forall>k < j. \<nexists>out'. run (i + k) = RunOk out')) \<longleftrightarrow> o' = out"
    proof
      assume "\<exists>j < Suc n. run (i + j) = RunOk out \<and> (\<forall>k < j. \<nexists>out'. run (i + k) = RunOk out')"
      then obtain j where j: "run (i + j) = RunOk out" "\<forall>k < j. \<nexists>out'. run (i + k) = RunOk out'" by blast
      then have "j = 0" using o' by (metis add_0_right gr0I)
      then show "o' = out" using j o' by simp
    next
      assume "o' = out"
      then show "\<exists>j < Suc n. run (i + j) = RunOk out \<and> (\<forall>k < j. \<nexists>out'. run (i + k) = RunOk out')" using o' by (intro exI [of _ 0]) simp
    qed
    ultimately show ?thesis by simp
  next
    case False
    then obtain o' x where "read_attempts run (Suc n) i prev = read_attempts run n (Suc i) (o', Err x)"
      by (cases "run i") (auto simp: ExecuteCommand_def ExecuteCommandWithStatus_def)
    moreover have "(\<exists>j < Suc n. run (i + j) = RunOk out \<and> (\<forall>k < j. \<nexists>out'. run (i + k) = RunOk out')) \<longleftrightarrow>
        (\<exists>j < n. run (Suc i + j) = RunOk out \<and> (\<forall>k < j. \<nexists>out'. run (Suc i + k) = RunOk out'))"
      using False by (auto simp: Ex_less_Suc2 All_less_Suc2)
    ultimately show ?thesis using Suc.IH [of "Suc i" "(o', Err x)"] by simp
  qed
qed simp

text \<open>
  The exit code of a job is read exactly. GetJobExitCode returns a code if and only if one of
  its five attempts succeeds and the first that does gives a text that is this number; in every
  other case it returns an error, and never a code from a failed attempt.
\<close>

theorem exit_code_exact:
  assumes "getSSHClient e u r s = (s1, Ok c)"
  shows "GetJobExitCode e u jobID r s = (s1, code, Ok ()) \<longleftrightarrow>
    (\<exists>i < 5. \<exists>out. xc_run e c i (''cat $HOME/cloudque_logs/job_'' @ Itoa jobID @ ''.exitcode'') = RunOk out \<and> Atoi (TrimSpace out) = Some code \<and>
      (\<forall>k < i. \<nexists>out'. xc_run e c k (''cat $HOME/cloudque_logs/job_'' @ Itoa jobID @ ''.exitcode'') = RunOk out'))"
proof -
  let ?run = "\<lambda>i. xc_run e c i (''cat $HOME/cloudque_logs/job_'' @ Itoa jobID @ ''.exitcode'')"
  have "GetJobExitCode e u jobID r s = (s1, code, Ok ()) \<longleftrightarrow>
      (\<exists>out. read_attempts ?run 5 0 ([], Ok ()) = (out, Ok ()) \<and> Atoi (TrimSpace out) = Some code)"
    using assms by (auto simp: GetJobExitCode_def job_file_def logDir_def Let_def split: prod.splits sum.splits option.splits)
  then show ?thesis unfolding read_attempts_Ok [of ?run 5 0] by auto
qed

section \<open>The command of a job\<close>

lemma sh_from_unquoted: "CHR 0x27 \<notin> set t \<Longrightarrow> sh_from True (Some x) (t @ CHR 0x27 # rest) = sh_from False (Some (x @ t)) rest"
  by (induction t arbitrary: x) (auto simp: Let_def)

lemma quote_free_parts:
  assumes "CHR 0x27 \<notin> set conda" "CHR 0x27 \<notin> set cmd" "\<forall>(k, v) \<in> set vars. CHR 0x27 \<notin> set k \<and> CHR 0x27 \<notin> set v"
  shows "CHR 0x27 \<notin> set (login_script conda cmd vars)"
proof -
  have "CHR 0x27 \<notin> set (job_id vars)" 
  proof (cases "map_of vars ''JOB_ID''")
    case (Some j)
    then show ?thesis using assms(3) map_of_SomeD [OF Some] by (auto simp: job_id_def)
  qed (simp add: job_id_def)
  moreover have "CHR 0x27 \<notin> set (env_prefix vars)" using assms(3) by (auto simp: env_prefix_def)
  ultimately show ?thesis using assms(1,2) by (auto simp: login_script_def run_command_def job_file_def logDir_def)
qed

text \<open>
  Without single quotes in the command, the shell reads the second part of the command of a job as
  the login shell with the script as one argument. With one, it does not: nothing is escaped.
\<close>

lemma full_command_words:
  assumes "CHR 0x27 \<notin> set conda" "CHR 0x27 \<notin> set cmd" "\<forall>(k, v) \<in> set vars. CHR 0x27 \<notin> set k \<and> CHR 0x27 \<notin> set v"
  shows "\<exists>rest. full_command conda cmd vars = ''mkdir -p $HOME/cloudque_logs && '' @ rest \<and>
    sh_words rest = Some [''bash'', ''-l'', ''-c'', login_script conda cmd vars]"
proof -
  let ?rest = "''bash -l -c '' @ [CHR 0x27] @ login_script conda cmd vars @ [CHR 0x27]"
  have "sh_words ?rest = Some [''bash'', ''-l'', ''-c'', login_script conda cmd vars]"
    using sh_from_unquoted [OF quote_free_parts [OF assms], of "[]" "[]"]
    by (simp add: sh_words_def Let_def plain_char_def is_alnum_def)
  then show ?thesis by (intro exI [of _ ?rest]) (simp add: full_command_def logDir_def)
qed

lemma quote_splits_command:
  "sh_words (''bash -l -c '' @ [CHR 0x27] @ login_script [] (''python3 -u a'' @ [CHR 0x27] @ '' b'' @ [CHR 0x27]) [] @ [CHR 0x27]) \<noteq>
   Some [''bash'', ''-l'', ''-c'', login_script [] (''python3 -u a'' @ [CHR 0x27] @ '' b'' @ [CHR 0x27]) []]"
  by code_simp

end
