(* ===== verification/GoTime.thy ===== *)
theory GoTime
  imports Float64
begin

text \<open>
  The parts of fmt, strconv and time that the status pages use: the verb %.1f and its like for
  numbers that are not negative, strconv.ParseBool, and time.ParseDuration, with the printing of
  running times that is its inverse.
\<close>

section \<open>Numbers with decimals\<close>

text \<open>
  The verb %.nf of a float64 that is not negative rounds the exact value of the number to n
  decimals, ties to even.
\<close>

definition pad_zeros :: "nat \<Rightarrow> string \<Rightarrow> string" where
  "pad_zeros n t = replicate (n - length t) (CHR ''0'') @ t"

definition fmt_fixed :: "nat \<Rightarrow> rat \<Rightarrow> string" where
  "fmt_fixed n x = (let k = nat (rne (x * 10 ^ n)) in
     show_nat (k div 10 ^ n) @ (if n = 0 then [] else CHR ''.'' # pad_zeros n (show_nat (k mod 10 ^ n))))"

definition ParseBool :: "string \<Rightarrow> bool option" where
  "ParseBool s = (if s \<in> {''1'', ''t'', ''T'', ''true'', ''TRUE'', ''True''} then Some True
     else if s \<in> {''0'', ''f'', ''F'', ''false'', ''FALSE'', ''False''} then Some False else None)"

definition FormatBool :: "bool \<Rightarrow> string" where
  "FormatBool b = (if b then ''true'' else ''false'')"

lemma ParseBool_FormatBool [golib]: "ParseBool (FormatBool b) = Some b"
  by (simp add: ParseBool_def FormatBool_def)

section \<open>Durations\<close>

text \<open>
  time.ParseDuration: a sign and then numbers with units; numbers may have decimals. The bounds
  are those of the 64 bit arithmetic of the library: leadingInt fails above 2^63, digits of a
  fraction beyond that are ignored, and the product of a fraction and its unit is a float64.
\<close>

definition two63 :: int where "two63 = 9223372036854775808"

fun leadingInt :: "int \<Rightarrow> string \<Rightarrow> (int \<times> string) option" where
  "leadingInt x [] = Some (x, [])"
| "leadingInt x (c # s) = (if \<not> is_digit c then Some (x, c # s)
     else if x > two63 div 10 then None
     else let y = x * 10 + int (digit_val c) in if y > two63 then None else leadingInt y s)"

fun leadingFraction :: "bool \<Rightarrow> int \<Rightarrow> rat \<Rightarrow> string \<Rightarrow> int \<times> rat \<times> string" where
  "leadingFraction over x scale [] = (x, scale, [])"
| "leadingFraction over x scale (c # s) = (if \<not> is_digit c then (x, scale, c # s)
     else if over then leadingFraction True x scale s
     else if x > (two63 - 1) div 10 then leadingFraction True x scale s
     else let y = x * 10 + int (digit_val c) in
       if y > two63 then leadingFraction True x scale s
       else leadingFraction False y (f64 (scale * 10)) s)"

definition unit_len :: "string \<Rightarrow> nat" where
  "unit_len s = length (takeWhile (\<lambda>c. c \<noteq> CHR ''.'' \<and> \<not> is_digit c) s)"

definition unitMap :: "string \<Rightarrow> int option" where
  "unitMap u = map_of [(''ns'', 1), (''us'', 1000), ([CHR 0xC2, CHR 0xB5, CHR ''s''], 1000), ([CHR 0xCE, CHR 0xBC, CHR ''s''], 1000),
     (''ms'', 1000000), (''s'', 1000000000), (''m'', 60000000000), (''h'', 3600000000000)] u"

text \<open>A number: the digits before and after the point, the scale of the latter, and the rest.\<close>

definition duration_number :: "string \<Rightarrow> (int \<times> int \<times> rat \<times> string) option" where
  "duration_number s =
     (if s = [] \<or> hd s \<noteq> CHR ''.'' \<and> \<not> is_digit (hd s) then None
      else case leadingInt 0 s of
        None \<Rightarrow> None
      | Some (v, s1) \<Rightarrow>
         (if s1 \<noteq> [] \<and> hd s1 = CHR ''.'' then
            (case leadingFraction False 0 1 (tl s1) of (f, scale, s2) \<Rightarrow>
               if length s1 = length s \<and> length s2 = length (tl s1) then None else Some (v, f, scale, s2))
          else if length s1 = length s then None
          else Some (v, 0, 1, s1)))"

text \<open>A number with its unit: the value in nanoseconds and the rest.\<close>

definition duration_part :: "string \<Rightarrow> (int \<times> string) option" where
  "duration_part s = (case duration_number s of
     None \<Rightarrow> None
   | Some (v, f, scale, s2) \<Rightarrow>
      (if unit_len s2 = 0 then None
       else case unitMap (take (unit_len s2) s2) of
         None \<Rightarrow> None
       | Some u \<Rightarrow>
          (if v > two63 div u then None
           else let w = v * u + (if f > 0 then \<lfloor>f64 (f64 (of_int f) * f64 (f64 (of_int u) / scale))\<rfloor> else 0)
                in if w > two63 then None else Some (w, drop (unit_len s2) s2))))"

lemma leadingInt_shorter: "leadingInt x s = Some (v, t) \<Longrightarrow> length t \<le> length s"
  by (induction x s rule: leadingInt.induct) (auto simp: Let_def split: if_splits)

lemma leadingFraction_shorter: "leadingFraction ov x sc s = (v, sc', t) \<Longrightarrow> length t \<le> length s"
  by (induction ov x sc s rule: leadingFraction.induct) (auto simp: Let_def split: if_splits)

lemma duration_number_shorter: "duration_number s = Some (v, f, sc, t) \<Longrightarrow> length t \<le> length s"
  using leadingInt_shorter [of 0 s] leadingFraction_shorter [of False 0 1]
  by (fastforce simp: duration_number_def split: if_splits option.splits prod.splits)

lemma unit_len_le: "unit_len s \<le> length s"
  by (simp add: unit_len_def length_takeWhile_le)

lemma duration_part_shorter:
  assumes "duration_part s = Some (v, t)"
  shows "length t < length s"
proof -
  obtain v0 f sc s2 where n: "duration_number s = Some (v0, f, sc, s2)" "unit_len s2 \<noteq> 0" "t = drop (unit_len s2) s2"
    using assms by (auto simp: duration_part_def Let_def split: if_splits option.splits prod.splits)
  then show ?thesis using duration_number_shorter [OF n(1)] unit_len_le [of s2] by simp
qed

function duration_parts :: "int \<Rightarrow> string \<Rightarrow> int option" where
  "duration_parts d s = (if s = [] then Some d
     else case duration_part s of
       None \<Rightarrow> None
     | Some (v, t) \<Rightarrow> (if d + v > two63 then None else duration_parts (d + v) t))"
  by pat_completeness auto
termination
  by (relation "measure (length \<circ> snd)") (auto dest: duration_part_shorter)

declare duration_parts.simps [simp del]

definition ParseDuration :: "string \<Rightarrow> int option" where
  "ParseDuration s0 =
     (let neg = (s0 \<noteq> [] \<and> hd s0 = CHR ''-'');
          s = (if s0 \<noteq> [] \<and> (hd s0 = CHR ''-'' \<or> hd s0 = CHR ''+'') then tl s0 else s0)
      in if s = ''0'' then Some 0
         else if s = [] then None
         else case duration_parts 0 s of
           None \<Rightarrow> None
         | Some d \<Rightarrow> (if neg then Some (wrap64 (- d)) else if d > two63 - 1 then None else Some d))"

section \<open>Running times\<close>

text \<open>The printing of a running time in whole seconds, as the process list shows it.\<close>

definition formatDuration_secs :: "int \<Rightarrow> string" where
  "formatDuration_secs seconds =
     (let hours = go_div seconds 3600; minutes = go_div (go_mod seconds 3600) 60; secs = go_mod seconds 60
      in (if hours > 0 then Itoa hours @ ''h'' else []) @
         (if minutes > 0 \<or> hours > 0 then Itoa minutes @ ''m'' else []) @ Itoa secs @ ''s'')"

text \<open>formatDuration of the repository takes a duration; int(d.Seconds()) is the number of seconds.\<close>

definition whole_seconds :: "int \<Rightarrow> int" where
  "whole_seconds d = float_to_int (Seconds d)"

definition formatDuration :: "int \<Rightarrow> string" where
  "formatDuration d = formatDuration_secs (whole_seconds d)"

lemma foldl_digits_ge: "n \<le> foldl (\<lambda>n c. 10 * n + digit_val c) n ds"
proof (induction ds arbitrary: n)
  case (Cons d ds)
  have "n \<le> 10 * n + digit_val d" by simp
  then show ?case unfolding foldl_Cons using Cons.IH [of "10 * n + digit_val d"] by (rule le_trans)
qed simp

lemma leadingInt_digits:
  assumes "list_all is_digit ds" "int (foldl (\<lambda>n c. 10 * n + digit_val c) n ds) \<le> two63 div 10" "\<not> is_digit c"
  shows "leadingInt (int n) (ds @ c # s) = Some (int (foldl (\<lambda>n c. 10 * n + digit_val c) n ds), c # s)"
  using assms
proof (induction ds arbitrary: n)
  case (Cons d ds)
  let ?m = "10 * n + digit_val d"
  have m: "int ?m \<le> two63 div 10" using Cons.prems(2) foldl_digits_ge [of ?m ds] by simp
  then have "int n \<le> two63 div 10" "\<not> two63 < int ?m" by (simp_all add: two63_def)
  then have "leadingInt (int n) ((d # ds) @ c # s) = leadingInt (int ?m) (ds @ c # s)"
    using Cons.prems(1) by (simp add: Let_def algebra_simps)
  then show ?case using Cons.IH [of ?m] Cons.prems by simp
qed simp

lemma leadingInt_show:
  "int k \<le> two63 div 10 \<Longrightarrow> \<not> is_digit c \<Longrightarrow> leadingInt 0 (show_nat k @ c # s) = Some (int k, c # s)"
  using leadingInt_digits [OF show_nat_digits, of 0 k c s] read_show_nat [of k] by (simp add: read_nat_def)

lemma hd_show_digit: "is_digit (hd (show_nat k))"
  using show_nat_digits [of k] by (cases "show_nat k") auto

lemma duration_part_show:
  assumes "unitMap [c] = Some u" "\<not> is_digit c" "c \<noteq> CHR ''.''" "s = [] \<or> is_digit (hd s)" "0 < u"
    and "int k \<le> two63 div 10" "int k * u \<le> two63"
  shows "duration_part (show_nat k @ c # s) = Some (int k * u, s)"
proof -
  have "unit_len (c # s) = 1" using assms(2-4) by (cases s) (auto simp: unit_len_def)
  moreover have "duration_number (show_nat k @ c # s) = Some (int k, 0, 1, c # s)"
    using leadingInt_show [OF assms(6,2), of s] hd_show_digit [of k] assms(3) by (auto simp: duration_number_def)
  moreover have "int k \<le> two63 div u" using zdiv_mono1 [OF assms(7,5)] assms(5) by simp
  ultimately show ?thesis using assms(1,7) by (simp add: duration_part_def)
qed

lemma Itoa_nonneg: "0 \<le> i \<Longrightarrow> Itoa i = show_nat (nat i)"
  by (simp add: Itoa_def)

lemma unitMap_hms: "unitMap ''h'' = Some 3600000000000" "unitMap ''m'' = Some 60000000000" "unitMap ''s'' = Some 1000000000"
  by (simp_all add: unitMap_def)

lemma hms_not_digit [simp]: "\<not> is_digit CHR ''h''" "\<not> is_digit CHR ''m''" "\<not> is_digit CHR ''s''"
  by (simp_all add: is_digit_def)

lemma f64_zero [simp]: "f64 0 = 0"
  by (simp add: f64_def)

lemma duration_parts_step:
  assumes "unitMap [c] = Some u" "\<not> is_digit c" "c \<noteq> CHR ''.''" "s = [] \<or> is_digit (hd s)" "0 < u"
    and "0 \<le> i" "i \<le> two63 div 10" "0 \<le> d" "d + i * u \<le> two63"
  shows "duration_parts d (Itoa i @ c # s) = duration_parts (d + i * u) s"
proof -
  have "duration_part (Itoa i @ c # s) = Some (i * u, s)"
    using duration_part_show [OF assms(1-5), of "nat i"] assms(6-9) by (simp add: Itoa_nonneg)
  then show ?thesis using assms(9) by (simp add: duration_parts.simps [of d "Itoa i @ c # s"])
qed

lemma duration_parts_Nil: "duration_parts d [] = Some d"
  by (simp add: duration_parts.simps)

lemma hd_Itoa_digit: "0 \<le> i \<Longrightarrow> is_digit (hd (Itoa i @ s))"
  using hd_show_digit [of "nat i"] by (simp add: Itoa_nonneg hd_append)

lemma duration_parts_hms:
  assumes "0 \<le> h" "0 \<le> m" "0 \<le> s" "h * 3600000000000 + m * 60000000000 + s * 1000000000 \<le> two63 - 1"
  shows "0 \<le> d \<Longrightarrow> d + s * 1000000000 \<le> two63 \<Longrightarrow> duration_parts d (Itoa s @ ''s'') = Some (d + s * 1000000000)"
    "0 \<le> d \<Longrightarrow> d + m * 60000000000 + s * 1000000000 \<le> two63 \<Longrightarrow>
     duration_parts d (Itoa m @ ''m'' @ Itoa s @ ''s'') = Some (d + m * 60000000000 + s * 1000000000)"
    "duration_parts 0 (Itoa h @ ''h'' @ Itoa m @ ''m'' @ Itoa s @ ''s'') = Some (h * 3600000000000 + m * 60000000000 + s * 1000000000)"
proof -
  have le: "h \<le> two63 div 10" "m \<le> two63 div 10" "s \<le> two63 div 10" using assms unfolding two63_def by linarith+
  have secs: "duration_parts d (Itoa s @ ''s'') = Some (d + s * 1000000000)" if "0 \<le> d" "d + s * 1000000000 \<le> two63" for d
    using duration_parts_step [OF unitMap_hms(3) hms_not_digit(3) _ _ _ assms(3) le(3) that(1), of "[]"] that(2)
    by (simp add: duration_parts_Nil)
  then show "0 \<le> d \<Longrightarrow> d + s * 1000000000 \<le> two63 \<Longrightarrow> duration_parts d (Itoa s @ ''s'') = Some (d + s * 1000000000)" .
  have mins: "duration_parts d (Itoa m @ ''m'' @ Itoa s @ ''s'') = Some (d + m * 60000000000 + s * 1000000000)"
    if d: "0 \<le> d" "d + m * 60000000000 + s * 1000000000 \<le> two63" for d
  proof -
    have b: "d + m * 60000000000 \<le> two63" "0 \<le> d + m * 60000000000" using d assms(2,3) by linarith+
    have "duration_parts d (Itoa m @ CHR ''m'' # Itoa s @ ''s'') = duration_parts (d + m * 60000000000) (Itoa s @ ''s'')"
      using duration_parts_step [OF unitMap_hms(2) hms_not_digit(2) _ _ _ assms(2) le(2) d(1) b(1), of "Itoa s @ ''s''"]
        hd_Itoa_digit [OF assms(3), of "''s''"] by simp
    then show ?thesis using secs [OF b(2) d(2)] by simp
  qed
  then show "0 \<le> d \<Longrightarrow> d + m * 60000000000 + s * 1000000000 \<le> two63 \<Longrightarrow>
     duration_parts d (Itoa m @ ''m'' @ Itoa s @ ''s'') = Some (d + m * 60000000000 + s * 1000000000)" .
  have b: "0 + h * 3600000000000 \<le> two63" "0 \<le> 0 + h * 3600000000000" "h * 3600000000000 + m * 60000000000 + s * 1000000000 \<le> two63"
    using assms by linarith+
  have "duration_parts 0 (Itoa h @ CHR ''h'' # Itoa m @ ''m'' @ Itoa s @ ''s'') = duration_parts (h * 3600000000000) (Itoa m @ ''m'' @ Itoa s @ ''s'')"
    using duration_parts_step [OF unitMap_hms(1) hms_not_digit(1) _ _ _ assms(1) le(1) _ b(1), of "Itoa m @ ''m'' @ Itoa s @ ''s''"]
      hd_Itoa_digit [OF assms(2), of "''m'' @ Itoa s @ ''s''"] by simp
  then show "duration_parts 0 (Itoa h @ ''h'' @ Itoa m @ ''m'' @ Itoa s @ ''s'') = Some (h * 3600000000000 + m * 60000000000 + s * 1000000000)"
    using mins [of "h * 3600000000000"] b by simp
qed

text \<open>Reading a printed running time gives the running time in whole seconds.\<close>

lemma parse_format_secs:
  assumes "0 \<le> n" "n * 1000000000 \<le> int_max"
  shows "ParseDuration (formatDuration_secs n) = Some (n * 1000000000)"
proof -
  obtain h m s where hms: "h = n div 3600" "m = n mod 3600 div 60" "s = n mod 60" by blast
  have n: "n = 3600 * h + 60 * m + s"
  proof -
    have "n mod 3600 mod 60 = n mod 60" by (rule mod_mod_cancel) simp
    then show ?thesis unfolding hms using div_mult_mod_eq [of n 3600] div_mult_mod_eq [of "n mod 3600" 60] by linarith
  qed
  have ge: "0 \<le> h" "0 \<le> m" "0 \<le> s" using assms(1) unfolding hms by (simp_all add: pos_imp_zdiv_nonneg_iff)
  have f: "formatDuration_secs n = (if h > 0 then Itoa h @ ''h'' else []) @ (if m > 0 \<or> h > 0 then Itoa m @ ''m'' else []) @ Itoa s @ ''s''"
  proof -
    have "go_div n 3600 = h" "go_mod n 3600 = n mod 3600" "go_mod n 60 = s" "go_div (n mod 3600) 60 = m"
      using assms(1) by (simp_all add: go_div_nonneg go_mod_def hms minus_div_mult_eq_mod)
    then show ?thesis by (simp add: formatDuration_secs_def Let_def)
  qed
  have total: "h * 3600000000000 + m * 60000000000 + s * 1000000000 = n * 1000000000" unfolding n by (simp add: algebra_simps)
  have bound: "n * 1000000000 \<le> two63 - 1" using assms(2) unfolding two63_def int_max_def by linarith
  note parts = duration_parts_hms [OF ge bound [folded total]]
  have "duration_parts 0 (formatDuration_secs n) = Some (n * 1000000000)"
  proof (cases "h > 0")
    case True
    then show ?thesis using parts(3) total by (simp add: f)
  next
    case False
    then have "h = 0" using ge by linarith
    then show ?thesis using parts(1,2) [of 0] total bound by (cases "m > 0") (use ge in \<open>simp_all add: f\<close>)
  qed
  moreover have "is_digit (hd (formatDuration_secs n))" unfolding f using hd_Itoa_digit [OF ge(1), of "[]"] hd_Itoa_digit [OF ge(2), of "[]"] hd_Itoa_digit [OF ge(3), of "[]"] by simp
  moreover have "formatDuration_secs n \<noteq> []" "formatDuration_secs n \<noteq> ''0''" unfolding f by auto
  ultimately show ?thesis using bound by (auto simp: ParseDuration_def Let_def is_digit_def)
qed

lemma whole_seconds_exact:
  assumes "0 \<le> n" "n \<le> 2 ^ 53"
  shows "whole_seconds (n * 1000000000) = n"
proof -
  have "Seconds (n * 1000000000) = of_int n"
    using assms by (simp add: Seconds_def go_div_nonneg go_mod_def f64_int fadd_def fdiv_def)
  then show ?thesis using assms(1) by (simp add: whole_seconds_def float_to_int_def)
qed

end
