(* ===== verification/DiskUsage.thy ===== *)
theory DiskUsage
  imports FileService Exec GoTime
begin

text \<open>
  Disk usage: the functions of internal/service/files_service.go that run du, df and stat on the
  machine, their cache in Redis, the report on all users, and the daily job of
  internal/service/disk_usage_scheduler.go.

  The commands are answered by the environment. A cached usage is kept as a value with its expiry
  (the code stores JSON). Sizes are 64 bit integers, percentages float64 numbers.
\<close>

section \<open>State\<close>

record DiskUsageData =
  dd_DirectorySize :: int
  dd_DiskUsage :: rat

record disk_service =
  dk_fs :: fileService
  dk_usage :: "string \<Rightarrow> (DiskUsageData \<times> int) option"
  dk_ssh :: SessionManager

text \<open>
  The environment of a request: the sessions of the calls in their order, the text of the error of
  a failed command, the answer of StatVFS as blocks and block size, and the failures of the cache.
\<close>

record disk_env =
  de_conn :: "nat \<Rightarrow> conn_env"
  de_remote :: remote_env
  de_now :: int
  de_errText :: "nat \<Rightarrow> string"
  de_statvfs :: "string \<Rightarrow> (int \<times> int) option"
  de_get :: bool
  de_set :: bool

definition exec_cmd :: "disk_env \<Rightarrow> nat \<Rightarrow> int \<Rightarrow> string \<Rightarrow> bool \<Rightarrow> disk_service \<Rightarrow> disk_service \<times> string result" where
  "exec_cmd e k userID cmd isRoot s =
     (case executeSSHCommand (de_conn e k) (de_remote e) (de_now e) userID cmd isRoot (dk_fs s) of (f, r) \<Rightarrow> (s\<lparr> dk_fs := f \<rparr>, r))"

section \<open>The cache\<close>

definition disk_key :: "int \<Rightarrow> string \<Rightarrow> string" where
  "disk_key userID p = ''disk:usage:'' @ Itoa userID @ '':'' @ p"

definition cache_ttl :: int where "cache_ttl = 25 * 3600 * 1000000000"

definition SetDiskUsageCache :: "bool \<Rightarrow> int \<Rightarrow> int \<Rightarrow> string \<Rightarrow> DiskUsageData \<Rightarrow> disk_service \<Rightarrow> disk_service \<times> unit result" where
  "SetDiskUsageCache err now userID p d s = (if err then (s, Err RedisError)
     else (s\<lparr> dk_usage := (dk_usage s)(disk_key userID p \<mapsto> (d, now + cache_ttl)) \<rparr>, Ok ()))"

definition GetDiskUsageCache :: "bool \<Rightarrow> int \<Rightarrow> int \<Rightarrow> string \<Rightarrow> disk_service \<Rightarrow> DiskUsageData result" where
  "GetDiskUsageCache err now userID p s = (if err then Err RedisError
     else case dk_usage s (disk_key userID p) of
       None \<Rightarrow> Err RedisNil
     | Some (d, t) \<Rightarrow> (if now < t then Ok d else Err RedisNil))"

section \<open>Reading the reports\<close>

definition last_line :: "string \<Rightarrow> string" where
  "last_line t = (case find (\<lambda>l. l \<noteq> []) (map TrimSpace (rev (Split CHR 0x0A t))) of Some l \<Rightarrow> l | None \<Rightarrow> [])"

definition first_field :: "string \<Rightarrow> string \<Rightarrow> string" where
  "first_field other l = (case Fields l of [] \<Rightarrow> other | f # _ \<Rightarrow> f)"

definition size_text :: "string \<Rightarrow> string" where
  "size_text t = first_field t (last_line t)"

text \<open>The lines of df -kP: the last one that is not empty and not the header.\<close>

definition df_line :: "string \<Rightarrow> string" where
  "df_line out = (case find (\<lambda>l. l \<noteq> [] \<and> \<not> Contains_str l ''Filesystem'' \<and> \<not> Contains_str l ''1024-blocks'')
        (map TrimSpace (rev (Split CHR 0x0A (TrimSpace out)))) of Some l \<Rightarrow> l | None \<Rightarrow> [])"

definition capIndex :: "string list \<Rightarrow> nat option" where
  "capIndex fs = find (\<lambda>i. HasSuffix (fs ! i) ''%'') (rev [0..<length fs])"

definition df_fields :: "string list \<Rightarrow> int option" where
  "df_fields fs =
     (let first = (case capIndex fs of None \<Rightarrow> None | Some i \<Rightarrow> (if i \<ge> 3 then Atoi (fs ! (i - 3)) else None))
      in case first of
           Some t \<Rightarrow> Some (wrap64 (t * 1024))
         | None \<Rightarrow> (if length fs \<ge> 5 then map_option (\<lambda>t. wrap64 (t * 1024)) (Atoi (fs ! (length fs - 5))) else None))"

definition df_total :: "string \<Rightarrow> int" where
  "df_total out = (let l = df_line out in if l = [] then 0 else case df_fields (Fields l) of Some t \<Rightarrow> t | None \<Rightarrow> 0)"

definition stat_fields :: "string list \<Rightarrow> int" where
  "stat_fields parts = (if length parts \<ge> 2 then
     (case Atoi (parts ! 0) of None \<Rightarrow> 0 | Some b \<Rightarrow> (case Atoi (parts ! 1) of None \<Rightarrow> 0 | Some z \<Rightarrow> wrap64 (b * z))) else 0)"

definition stat_total :: "string \<Rightarrow> int" where
  "stat_total out = (if TrimSpace out = [] then 0 else stat_fields (Fields (last (Split CHR 0x0A (TrimSpace out)))))"

definition fmul :: "rat \<Rightarrow> rat \<Rightarrow> rat" where "fmul x y = f64 (x * y)"

definition usage_percent :: "int \<Rightarrow> int \<Rightarrow> rat" where
  "usage_percent sz tot = (if tot > 0 then fmul (fdiv (f64 (of_int sz)) (f64 (of_int tot))) 100 else 0)"

section \<open>Commands\<close>

definition awk_first :: string where
  "awk_first = ''awk '' @ [CHR 0x27] @ ''{print $1}'' @ [CHR 0x27]"

definition stat_command :: "string \<Rightarrow> string" where
  "stat_command q = ''stat -f -c '' @ [CHR 0x22] @ ''%b %S'' @ [CHR 0x22] @ '' '' @ q @ '' || stat -f '' @ [CHR 0x22] @ ''%b %S'' @ [CHR 0x22] @ '' '' @ q"

text \<open>The size of a directory as GetDiskUsage asks for it.\<close>

definition du_size :: "disk_env \<Rightarrow> int \<Rightarrow> bool \<Rightarrow> string \<Rightarrow> disk_service \<Rightarrow> disk_service \<times> int result" where
  "du_size e userID isRoot q s = (case exec_cmd e 1 userID (''du -sb '' @ q @ '' 2>/dev/null | '' @ awk_first) isRoot s of
     (s1, Inl _) \<Rightarrow>
       (if Contains_str (de_errText e 1) ''Permission denied'' then (s1, Err (BizError CodeForbidden))
        else case exec_cmd e 2 userID (''du -sk '' @ q @ '' 2>/dev/null | '' @ awk_first) isRoot s1 of
          (s2, Inl _) \<Rightarrow> (s2, Err (BizError CodeSSHCommandExecutionFailed))
        | (s2, Inr out) \<Rightarrow> (if TrimSpace out = [] then (s2, Err (BizError CodeSSHCommandExecutionFailed))
            else (s2, Ok (case Atoi (size_text (TrimSpace out)) of None \<Rightarrow> 0 | Some kb \<Rightarrow> wrap64 (kb * 1024)))))
   | (s1, Inr out) \<Rightarrow>
       (case (if TrimSpace out \<noteq> [] then (s1, TrimSpace out)
              else case exec_cmd e 2 userID (''du -sb '' @ q @ '' 2>/dev/null'') isRoot s1 of
                (s2, Inl _) \<Rightarrow> (s2, []) | (s2, Inr direct) \<Rightarrow> (s2, TrimSpace direct)) of
          (s2, t) \<Rightarrow> (if t = [] then (s2, Ok 0)
             else (s2, case Atoi (size_text t) of None \<Rightarrow> Err (BizError CodeInternalError) | Some v \<Rightarrow> Ok v))))"

text \<open>The size of the file system: StatVFS, then df, then stat, until one gives a number.\<close>

definition disk_total :: "disk_env \<Rightarrow> int \<Rightarrow> bool \<Rightarrow> string \<Rightarrow> string \<Rightarrow> disk_service \<Rightarrow> disk_service \<times> int" where
  "disk_total e userID isRoot resolved q s =
     (let (f, r) = getSftpClient (de_conn e 3) (de_now e) userID isRoot (dk_fs s);
          s1 = s\<lparr> dk_fs := f \<rparr>;
          t1 = (case r of Inl _ \<Rightarrow> 0
                | Inr _ \<Rightarrow> (case de_statvfs e resolved of None \<Rightarrow> 0 | Some (blocks, bsize) \<Rightarrow> wrap64 (wrap64 blocks * wrap64 bsize)))
      in if t1 \<noteq> 0 then (s1, t1)
         else case exec_cmd e 4 userID (''df -kP '' @ q) isRoot s1 of
           (s2, r2) \<Rightarrow>
             (let t2 = (case r2 of Inl _ \<Rightarrow> 0 | Inr out \<Rightarrow> df_total out)
              in if t2 \<noteq> 0 then (s2, t2)
                 else case exec_cmd e 5 userID (stat_command q) isRoot s2 of
                   (s3, Inl _) \<Rightarrow> (s3, 0) | (s3, Inr out) \<Rightarrow> (s3, stat_total out)))"

definition GetDiskUsage :: "disk_env \<Rightarrow> int \<Rightarrow> string \<Rightarrow> bool \<Rightarrow> disk_service \<Rightarrow> disk_service \<times> DiskUsageData result" where
  "GetDiskUsage e userID p isRootMode s = (case GetDiskUsageCache (de_get e) (de_now e) userID p s of
     Inr d \<Rightarrow> (s, Ok d)
   | Inl _ \<Rightarrow> (case resolvePath (de_conn e 0) (de_remote e) (de_now e) userID p isRootMode (dk_fs s) of
       (f, Inl x) \<Rightarrow> (s\<lparr> dk_fs := f \<rparr>, Err x)
     | (f, Inr resolved) \<Rightarrow> (case du_size e userID isRootMode (shell_quote resolved) (s\<lparr> dk_fs := f \<rparr>) of
         (s1, Inl x) \<Rightarrow> (s1, Err x)
       | (s1, Inr sz) \<Rightarrow> (case disk_total e userID isRootMode resolved (shell_quote resolved) s1 of
           (s2, tot) \<Rightarrow>
             (let d = \<lparr> dd_DirectorySize = sz, dd_DiskUsage = usage_percent sz tot \<rparr>
              in (fst (SetDiskUsageCache (de_set e) (de_now e) userID p d s2), Ok d))))))"

section \<open>Sizes for display\<close>

fun scale_loop :: "rat \<Rightarrow> string list \<Rightarrow> rat \<times> string" where
  "scale_loop x [] = (x, [])"
| "scale_loop x [u] = (x, u)"
| "scale_loop x (u # v # us) = (if x \<ge> 1024 then scale_loop (fdiv x 1024) (v # us) else (x, u))"

definition formatFileSize :: "int \<Rightarrow> string" where
  "formatFileSize n = (if n = 0 then ''0 B''
     else case scale_loop (f64 (of_int n)) [''B'', ''KB'', ''MB'', ''GB'', ''TB'', ''PB'', ''EB''] of (x, u) \<Rightarrow> fmt_fixed 2 x @ '' '' @ u)"

definition CalculateSize :: "disk_env \<Rightarrow> int \<Rightarrow> string \<Rightarrow> bool \<Rightarrow> disk_service \<Rightarrow> disk_service \<times> (int \<times> string \<times> rat) result" where
  "CalculateSize e userID p isRootMode s =
     (case resolvePath (de_conn e 0) (de_remote e) (de_now e) userID p isRootMode (dk_fs s) of
        (f, Inl x) \<Rightarrow> (s\<lparr> dk_fs := f \<rparr>, Err x)
      | (f, Inr resolved) \<Rightarrow>
         (let q = shell_quote resolved; s0 = s\<lparr> dk_fs := f \<rparr>;
              sized = (case exec_cmd e 1 userID (''du -sb '' @ q @ '' | '' @ awk_first) isRootMode s0 of
                (s1, Inl _) \<Rightarrow>
                  (if Contains_str (de_errText e 1) ''Permission denied'' then (s1, Err (BizError CodeForbidden))
                   else case exec_cmd e 2 userID (''du -sk '' @ q @ '' | '' @ awk_first) isRootMode s1 of
                     (s2, Inl _) \<Rightarrow> (s2, Err (BizError CodeSSHCommandExecutionFailed))
                   | (s2, Inr out) \<Rightarrow> (s2, case Atoi (TrimSpace out) of None \<Rightarrow> Err (BizError CodeInternalError) | Some kb \<Rightarrow> Ok (wrap64 (kb * 1024))))
              | (s1, Inr out) \<Rightarrow>
                  (case (if TrimSpace out \<noteq> [] then (s1, TrimSpace out)
                         else case exec_cmd e 2 userID (''du -sb '' @ q) isRootMode s1 of
                           (s2, Inl _) \<Rightarrow> (s2, []) | (s2, Inr direct) \<Rightarrow> (s2, TrimSpace direct)) of
                     (s2, t) \<Rightarrow> (s2, if t = [] then Ok 0
                        else case Atoi (first_field t t) of None \<Rightarrow> Err (BizError CodeInternalError) | Some v \<Rightarrow> Ok v)))
          in case sized of
               (s3, Inl x) \<Rightarrow> (s3, Err x)
             | (s3, Inr sz) \<Rightarrow> (case disk_total e userID isRootMode resolved q s3 of
                 (s4, tot) \<Rightarrow> (s4, Ok (sz, formatFileSize sz, usage_percent sz tot)))))"

section \<open>The report on all users\<close>

text \<open>
  The environment of one computation with the session of root: probes of the session manager, the
  network, and the commands per client.
\<close>

record root_env =
  rt_answers :: "nat \<Rightarrow> bool"
  rt_net :: net_env
  rt_now :: int
  rt_run :: "nat \<Rightarrow> string \<Rightarrow> run_outcome"

definition health_command :: string where
  "health_command = ''echo '' @ [CHR 0x27] @ ''health_check'' @ [CHR 0x27]"

definition healthy :: "run_outcome \<Rightarrow> bool" where
  "healthy r = (case ExecuteCommand r of (out, Inr _) \<Rightarrow> TrimSpace out = ''health_check'' | _ \<Rightarrow> False)"

definition root_session :: "root_env \<Rightarrow> SessionManager \<Rightarrow> SessionManager \<times> nat result" where
  "root_session e sm =
     (let create = (\<lambda>sm. case GetOrCreateSession (rt_answers e) (rt_net e) (rt_now e) 0 (GetRootUsername sm) (GetRootPassword sm) True sm of
                (sm', Inl _) \<Rightarrow> (sm', Err (BizError CodeInternalError))
              | (sm', Inr us) \<Rightarrow> (sm', case us_Client us of None \<Rightarrow> Err (BizError CodeInternalError) | Some c \<Rightarrow> Ok c))
      in case GetSession (rt_now e) 0 True sm of
           (sm1, Inl _) \<Rightarrow> create sm1
         | (sm1, Inr us) \<Rightarrow> (case us_Client us of
             None \<Rightarrow> (sm1, Err (BizError CodeInternalError))
           | Some c \<Rightarrow> (if healthy (rt_run e c health_command) then (sm1, Ok c) else create (DeleteSession 0 True sm1))))"

definition check_command :: "string \<Rightarrow> string" where
  "check_command q = ''test -d '' @ q @ '' && echo '' @ [CHR 0x27] @ ''exists'' @ [CHR 0x27] @ '' || echo '' @ [CHR 0x27] @ ''not_exists'' @ [CHR 0x27]"

text \<open>The output of a command, unless it failed with a status other than 0.\<close>

definition unfailed :: "run_outcome \<Rightarrow> string option" where
  "unfailed r = (case ExecuteCommandWithStatus r of (out, code, Inl _) \<Rightarrow> (if code = 0 then Some out else None) | (out, _, Inr _) \<Rightarrow> Some out)"

definition root_size :: "run_outcome \<Rightarrow> int" where
  "root_size r = (let t = TrimSpace (fst (ExecuteCommandWithStatus r))
     in if t = [] then 0 else case Atoi (first_field t t) of None \<Rightarrow> 0 | Some v \<Rightarrow> v)"

definition root_total :: "run_outcome \<Rightarrow> run_outcome \<Rightarrow> int" where
  "root_total df st =
     (let t1 = (case unfailed df of None \<Rightarrow> 0 | Some out \<Rightarrow> (let fs = Fields (TrimSpace out) in
             if length fs \<ge> 4 then (case Atoi (fs ! 1) of None \<Rightarrow> 0 | Some t \<Rightarrow> (if t > 0 then t else 0)) else 0))
      in if t1 \<noteq> 0 then t1 else case unfailed st of None \<Rightarrow> 0 | Some out \<Rightarrow> stat_fields (Fields (TrimSpace out)))"

definition calculateDiskUsageWithRoot :: "root_env \<Rightarrow> string \<Rightarrow> disk_service \<Rightarrow> disk_service \<times> DiskUsageData result" where
  "calculateDiskUsageWithRoot e homeDir s = (case root_session e (dk_ssh s) of
     (sm, Inl x) \<Rightarrow> (s\<lparr> dk_ssh := sm \<rparr>, Err x)
   | (sm, Inr c) \<Rightarrow>
      (let q = shell_quote homeDir; run = rt_run e c
       in (s\<lparr> dk_ssh := sm \<rparr>, case ExecuteCommandWithStatus (run (check_command q)) of
            (_, _, Inl _) \<Rightarrow> Err (BizError CodeSSHCommandExecutionFailed)
          | (out, _, Inr _) \<Rightarrow> (if TrimSpace out \<noteq> ''exists'' then Err (BizError CodeFileNotFound)
              else (let sz = root_size (run (''du -sb '' @ q @ '' | '' @ awk_first));
                        tot = root_total (run (''df -B1 '' @ q @ '' | tail -n 1'')) (run (stat_command q))
                    in Ok \<lparr> dd_DirectorySize = sz, dd_DiskUsage = usage_percent sz tot \<rparr>)))))"

definition base_dir :: "string \<Rightarrow> string" where
  "base_dir basePath = (if basePath = [] then ''/home'' else basePath)"

text \<open>The users with their homes, in the order of the list; those without a name are skipped.\<close>

definition user_homes :: "string \<Rightarrow> User list \<Rightarrow> (User \<times> string) list" where
  "user_homes basePath us = map (\<lambda>u. (u, path_Join [base_dir basePath, ac_Username u])) (filter (\<lambda>u. ac_Username u \<noteq> []) us)"

fun calculate_loop :: "(nat \<Rightarrow> root_env) \<Rightarrow> (nat \<Rightarrow> bool) \<Rightarrow> nat \<Rightarrow> (User \<times> string) list \<Rightarrow> disk_service \<Rightarrow> disk_service" where
  "calculate_loop re err k [] s = s"
| "calculate_loop re err k ((u, home) # us) s = calculate_loop re err (Suc k) us
     (case calculateDiskUsageWithRoot (re k) home s of
        (s1, Inl _) \<Rightarrow> s1
      | (s1, Inr d) \<Rightarrow> fst (SetDiskUsageCache (err k) (rt_now (re k)) (ac_ID u) home d s1))"

definition CalculateAllUsersDiskUsage ::
  "(nat \<Rightarrow> root_env) \<Rightarrow> (nat \<Rightarrow> bool) \<Rightarrow> bool \<Rightarrow> bool \<Rightarrow> string \<Rightarrow> directory \<Rightarrow> disk_service \<Rightarrow> disk_service \<times> unit result" where
  "CalculateAllUsersDiskUsage re err cerr ferr basePath d s = (case user_List (\<lambda>_ _. True) cerr ferr d 0 0 [] [] None of
     Inl _ \<Rightarrow> (s, Err (BizError CodeInternalError))
   | Inr (us, _) \<Rightarrow> (calculate_loop re err 0 (user_homes basePath (map fst us)) s, Ok ()))"

record UserDiskUsageData =
  ud_UserID :: int
  ud_Username :: string
  ud_DirectorySize :: int
  ud_DiskUsage :: rat
  ud_HomeDirectory :: string

definition usage_row :: "User \<Rightarrow> string \<Rightarrow> DiskUsageData \<Rightarrow> UserDiskUsageData" where
  "usage_row u home d = \<lparr> ud_UserID = ac_ID u, ud_Username = ac_Username u, ud_DirectorySize = dd_DirectorySize d,
     ud_DiskUsage = dd_DiskUsage d, ud_HomeDirectory = home \<rparr>"

text \<open>The usage of one user: from the cache, or computed and cached, or zeros.\<close>

definition user_usage :: "root_env \<Rightarrow> bool \<Rightarrow> bool \<Rightarrow> User \<Rightarrow> string \<Rightarrow> disk_service \<Rightarrow> disk_service \<times> DiskUsageData" where
  "user_usage e gerr serr u home s = (case GetDiskUsageCache gerr (rt_now e) (ac_ID u) home s of
     Inr d \<Rightarrow> (s, d)
   | Inl _ \<Rightarrow> (case calculateDiskUsageWithRoot e home s of
       (s1, Inl _) \<Rightarrow> (s1, \<lparr> dd_DirectorySize = 0, dd_DiskUsage = 0 \<rparr>)
     | (s1, Inr d) \<Rightarrow> (fst (SetDiskUsageCache serr (rt_now e) (ac_ID u) home d s1), d)))"

fun all_loop :: "(nat \<Rightarrow> root_env) \<Rightarrow> (nat \<Rightarrow> bool) \<Rightarrow> (nat \<Rightarrow> bool) \<Rightarrow> nat \<Rightarrow> (User \<times> string) list \<Rightarrow> disk_service \<Rightarrow> disk_service \<times> UserDiskUsageData list" where
  "all_loop re gerr serr k [] s = (s, [])"
| "all_loop re gerr serr k ((u, home) # us) s =
     (let (s1, d) = user_usage (re k) (gerr k) (serr k) u home s; (s2, rows) = all_loop re gerr serr (Suc k) us s1
      in (s2, usage_row u home d # rows))"

definition GetAllUsersDiskUsage ::
  "(nat \<Rightarrow> root_env) \<Rightarrow> (nat \<Rightarrow> bool) \<Rightarrow> (nat \<Rightarrow> bool) \<Rightarrow> bool \<Rightarrow> bool \<Rightarrow> string \<Rightarrow> directory \<Rightarrow> disk_service \<Rightarrow>
   disk_service \<times> UserDiskUsageData list result" where
  "GetAllUsersDiskUsage re gerr serr cerr ferr basePath d s = (case user_List (\<lambda>_ _. True) cerr ferr d 0 0 [] [] None of
     Inl _ \<Rightarrow> (s, Err (BizError CodeInternalError))
   | Inr (us, _) \<Rightarrow> (case all_loop re gerr serr 0 (user_homes basePath (map fst us)) s of (s1, rows) \<Rightarrow> (s1, Ok rows)))"

section \<open>The daily job\<close>

text \<open>
  \<open>ds_tasks\<close> counts the goroutines that are inside the computation, which the lock taskMu guards;
  \<open>ds_timer\<close> is the time at which the timer fires. Times are local, in nanoseconds.
\<close>

record DiskUsageScheduler =
  ds_isRunning :: bool
  ds_cancelled :: bool
  ds_loops :: nat
  ds_timer :: "int option"
  ds_locked :: bool
  ds_tasks :: nat

definition NewDiskUsageScheduler :: DiskUsageScheduler where
  "NewDiskUsageScheduler = \<lparr> ds_isRunning = False, ds_cancelled = False, ds_loops = 0, ds_timer = None, ds_locked = False, ds_tasks = 0 \<rparr>"

definition day_ns :: int where "day_ns = 86400000000000"

definition scheduleNext :: "int \<Rightarrow> int" where
  "scheduleNext now =
     (let today = (now div day_ns) * day_ns + 3 * 3600000000000
      in (if now > today then today + day_ns else today) - now)"

text \<open>Start, up to the creation of the timer in run; the first task is started by a goroutine of its own.\<close>

definition Start_disk :: "int \<Rightarrow> DiskUsageScheduler \<Rightarrow> DiskUsageScheduler" where
  "Start_disk now d = (if ds_isRunning d then d
     else d\<lparr> ds_isRunning := True, ds_loops := Suc (ds_loops d), ds_timer := Some (now + scheduleNext now) \<rparr>)"

text \<open>executeTask: TryLock either takes the lock and begins the computation, or returns at once.\<close>

definition executeTask_begin :: "DiskUsageScheduler \<Rightarrow> DiskUsageScheduler" where
  "executeTask_begin d = (if ds_locked d then d else d\<lparr> ds_locked := True, ds_tasks := Suc (ds_tasks d) \<rparr>)"

definition executeTask_end :: "DiskUsageScheduler \<Rightarrow> DiskUsageScheduler" where
  "executeTask_end d = (if ds_tasks d = 0 then d else d\<lparr> ds_locked := False, ds_tasks := ds_tasks d - 1 \<rparr>)"

definition timer_reset :: "int \<Rightarrow> DiskUsageScheduler \<Rightarrow> DiskUsageScheduler" where
  "timer_reset now d = d\<lparr> ds_timer := Some (now + day_ns) \<rparr>"

definition Stop_disk :: "DiskUsageScheduler \<Rightarrow> DiskUsageScheduler" where
  "Stop_disk d = (if \<not> ds_isRunning d then d else d\<lparr> ds_isRunning := False, ds_cancelled := True, ds_loops := 0, ds_timer := None \<rparr>)"


section \<open>Words of a report\<close>

definition visible :: "char \<Rightarrow> bool" where
  "visible c \<longleftrightarrow> 33 \<le> (of_char c :: nat) \<and> (of_char c :: nat) \<le> 126"

definition word :: "string \<Rightarrow> bool" where
  "word w \<longleftrightarrow> w \<noteq> [] \<and> list_all visible w"

lemma space_seqs_invisible: "list_all (\<lambda>p. p \<noteq> [] \<and> \<not> visible (hd p)) space_seqs" "list_all (\<lambda>p. p \<noteq> [] \<and> \<not> visible (hd p)) (map rev space_seqs)"
  by code_simp+

lemma match_any_visible: "visible c \<Longrightarrow> match_any space_seqs (c # s) = 0" "visible c \<Longrightarrow> match_any (map rev space_seqs) (c # s) = 0"
  using space_seqs_invisible by (auto intro!: match_any_hd simp: list_all_iff)

lemma fields_word: "list_all visible w \<Longrightarrow> fields_from cur (w @ s) = fields_from (rev w @ cur) s"
  by (induction w arbitrary: cur) (simp_all add: fields_from.simps [of _ "_ # _"] match_any_visible)

lemma fields_blank: "fields_from cur (CHR '' '' # s) = (if cur = [] then [] else [rev cur]) @ fields_from [] s"
  by (subst fields_from.simps) (simp add: match_any_blank)

lemma Fields_Join: "ws \<noteq> [] \<Longrightarrow> list_all word ws \<Longrightarrow> Fields (Join '' '' ws) = ws"
proof (induction ws)
  case (Cons w ws)
  have w: "list_all visible w" "w \<noteq> []" using Cons.prems by (auto simp: word_def)
  show ?case
  proof (cases "ws = []")
    case True
    then show ?thesis using fields_word [OF w(1), of "[]" "[]"] w(2) by (simp add: Fields_def fields_from.simps [of _ "[]"])
  next
    case False
    then have "Join '' '' (w # ws) = w @ CHR '' '' # Join '' '' ws" by (simp add: Join_Cons)
    then show ?thesis using Cons.IH Cons.prems False w(2) by (simp add: Fields_def fields_word [OF w(1)] fields_blank)
  qed
qed simp

lemma trimmed_ends: "visible c \<Longrightarrow> visible d \<Longrightarrow> trimmed (c # s @ [d])" "visible c \<Longrightarrow> trimmed [c]"
  by (simp_all add: trimmed_def match_any_visible)

lemma TrimSpace_visible_newline:
  assumes "visible c" "visible d" "t = c # s" "t = u @ [d]"
  shows "TrimSpace (t @ [CHR 0x0A]) = t" "TrimSpace t = t"
proof -
  have 1: "match_any space_seqs (t @ [CHR 0x0A]) = 0" "match_any space_seqs t = 0" using assms(1,3) by (simp_all add: match_any_visible)
  have "rev t = d # rev u" using assms(4) by simp
  then have 2: "match_any (map rev space_seqs) (rev t) = 0" using assms(2) by (simp add: match_any_visible)
  show "TrimSpace (t @ [CHR 0x0A]) = t" using 1 2 by (intro TrimSpace_newline_end)
  show "TrimSpace t = t" using 1 2 by (intro TrimSpace_trimmed) (simp add: trimmed_def)
qed

lemma word_ends:
  assumes "word w"
  obtains c s d u where "visible c" "visible d" "w = c # s" "w = u @ [d]"
proof -
  have "visible (hd w)" "visible (last w)" "w \<noteq> []" using assms by (auto simp: word_def list_all_iff)
  then show thesis using that [of "hd w" "last w" "tl w" "butlast w"] by simp
qed

lemma TrimSpace_word: "word w \<Longrightarrow> TrimSpace w = w" "word w \<Longrightarrow> TrimSpace (w @ [CHR 0x0A]) = w"
  by (metis word_ends TrimSpace_visible_newline)+

lemma word_Itoa [simp]: "word (Itoa n)"
proof -
  have "visible c" if "c \<in> set (Itoa n)" for c using set_Itoa [OF that] by (auto simp: visible_def is_digit_def)
  then show ?thesis by (simp add: word_def list_all_iff)
qed

lemma word_no_newline: "word w \<Longrightarrow> CHR 0x0A \<notin> set w"
  by (auto simp: word_def list_all_iff visible_def)

lemma size_text_word: "word w \<Longrightarrow> size_text w = w"
  using Fields_Join [of "[w]"] by (simp add: size_text_def last_line_def first_field_def word_no_newline Split_free TrimSpace_word) (simp add: word_def)

lemma first_field_word: "word w \<Longrightarrow> first_field w w = w"
  using Fields_Join [of "[w]"] by (simp add: first_field_def)

section \<open>The report of df\<close>

definition df_row :: "string \<Rightarrow> int \<Rightarrow> int \<Rightarrow> int \<Rightarrow> string \<Rightarrow> string \<Rightarrow> string" where
  "df_row dev t u a pct mount = Join '' '' [dev, Itoa t, Itoa u, Itoa a, pct @ ''%'', mount]"

definition df_report :: "string \<Rightarrow> string" where
  "df_report row = ''Filesystem     1024-blocks    Used Available Capacity Mounted on'' @ [CHR 0x0A] @ row @ [CHR 0x0A]"

lemma df_total_report:
  assumes "word dev" "word pct" "word mount" "\<not> HasSuffix mount ''%''" "in_int t" "in_int (t * 1024)"
    and "\<not> Contains_str (df_row dev t u a pct mount) ''Filesystem''" "\<not> Contains_str (df_row dev t u a pct mount) ''1024-blocks''"
  shows "df_total (df_report (df_row dev t u a pct mount)) = t * 1024"
proof -
  let ?fs = "[dev, Itoa t, Itoa u, Itoa a, pct @ ''%'', mount]"
  let ?row = "df_row dev t u a pct mount"
  let ?head = "''Filesystem     1024-blocks    Used Available Capacity Mounted on''"
  have words: "list_all word ?fs" using assms(1-3) word_Itoa by (auto simp: word_def visible_def)
  then have F: "Fields ?row = ?fs" unfolding df_row_def by (intro Fields_Join) simp_all
  obtain c s where dev: "visible c" "dev = c # s" using assms(1) by (metis word_ends)
  obtain d v where mount: "visible d" "mount = v @ [d]" using assms(3) by (metis word_ends)
  have ends: "\<exists>r. ?row = c # r" "\<exists>v'. ?row = v' @ [d]" using dev mount by (simp_all add: df_row_def)
  have trim: "TrimSpace ?row = ?row" using ends TrimSpace_visible_newline(2) [OF dev(1) mount(1)] by blast
  have "\<exists>r. ?head @ [CHR 0x0A] @ ?row = CHR ''F'' # r" "\<exists>v'. ?head @ [CHR 0x0A] @ ?row = v' @ [d]" using ends(2) by auto
  moreover have "visible CHR ''F''" by (simp add: visible_def)
  ultimately have "TrimSpace ((?head @ [CHR 0x0A] @ ?row) @ [CHR 0x0A]) = ?head @ [CHR 0x0A] @ ?row"
    using TrimSpace_visible_newline(1) [OF _ mount(1)] by blast
  moreover have "CHR 0x0A \<notin> set ?row" using words word_no_newline assms(2) by (auto simp: df_row_def)
  moreover have "CHR 0x0A \<notin> set ?head" by simp
  ultimately have "Split CHR 0x0A (TrimSpace (df_report ?row)) = [?head, ?row]"
    using Split_append_sep [of "CHR 0x0A" ?head ?row] by (simp add: df_report_def Split_free)
  moreover have "?row \<noteq> []" using ends(1) by auto
  ultimately have line: "df_line (df_report ?row) = ?row" using trim assms(7,8) by (simp add: df_line_def)
  have "capIndex ?fs = Some 4" using assms(4) by (simp add: capIndex_def upt_rec HasSuffix_def)
  then have "df_fields ?fs = Some (t * 1024)" using assms(5,6) by (simp add: df_fields_def Atoi_Itoa wrap64_id)
  then show ?thesis using line F \<open>?row \<noteq> []\<close> by (simp add: df_total_def)
qed

section \<open>Usage is measured and cached\<close>

definition conn_ok :: "conn_env \<Rightarrow> bool" where
  "conn_ok ce \<longleftrightarrow> ce_manager ce \<and> ce_ping ce \<and> (case ce_first ce of None \<Rightarrow> False | Some z \<Rightarrow> fz_Client z \<and> fz_Sftp z)"

lemma conn_ok_session: "conn_ok ce \<Longrightarrow> \<exists>f z. getOrReconnectSession ce now u r fs = (f, Ok z)"
  by (auto simp: conn_ok_def getOrReconnectSession_def Let_def split: option.splits)

lemma exec_cmd_ok:
  assumes "conn_ok (de_conn e k)" "re_exec (de_remote e) cmd = Some out"
  shows "\<exists>f. exec_cmd e k u cmd r s = (s\<lparr> dk_fs := f \<rparr>, Ok out)"
  using conn_ok_session [OF assms(1), of "de_now e" u r "dk_fs s"] assms(2)
  by (auto simp: exec_cmd_def executeSSHCommand_def getSSHClient_file_def Let_def)

lemma sftp_ok: "conn_ok ce \<Longrightarrow> \<exists>f. getSftpClient ce now u r fs = (f, Ok ())"
  using conn_ok_session [of ce now u r fs] by (auto simp: getSftpClient_def)

lemma usage_percent_bounds:
  assumes "0 \<le> sz"
  shows "0 \<le> usage_percent sz tot" "sz \<le> tot \<Longrightarrow> usage_percent sz tot \<le> 100"
proof -
  let ?a = "f64 (of_int sz)" and ?b = "f64 (of_int tot)"
  have "0 \<le> ?a" using assms by (simp add: f64_nonneg)
  moreover have "0 \<le> ?b" if "0 < tot" using that by (simp add: f64_nonneg)
  ultimately show "0 \<le> usage_percent sz tot" by (auto simp: usage_percent_def fmul_def fdiv_def intro!: f64_nonneg)
  assume "sz \<le> tot"
  then have "?a \<le> ?b" by (intro f64_mono) simp
  then have "?a / ?b \<le> 1" if "0 < tot" using \<open>0 \<le> ?a\<close> that by (cases "?b = 0") (auto simp: divide_le_eq)
  then have "fdiv ?a ?b \<le> f64 1" if "0 < tot" unfolding fdiv_def using that by (intro f64_mono) simp
  moreover have "f64 1 = 1" "f64 100 = 100" using f64_int [of 1] f64_int [of 100] by simp_all
  ultimately have "fmul (fdiv ?a ?b) 100 \<le> 100" if "0 < tot" using f64_mono [of "fdiv ?a ?b * 100" 100] that by (simp add: fmul_def)
  then show "usage_percent sz tot \<le> 100" by (simp add: usage_percent_def)
qed

lemma disk_total_df:
  assumes "\<forall>k. conn_ok (de_conn e k)" "de_statvfs e resolved = None" "re_exec (de_remote e) (''df -kP '' @ q) = Some out" "df_total out \<noteq> 0"
  shows "\<exists>f. disk_total e u r resolved q s = (s\<lparr> dk_fs := f \<rparr>, df_total out)"
proof -
  obtain f where f: "getSftpClient (de_conn e 3) (de_now e) u r (dk_fs s) = (f, Ok ())" using sftp_ok assms(1) by blast
  obtain f' where "exec_cmd e 4 u (''df -kP '' @ q) r (s\<lparr> dk_fs := f \<rparr>) = (s\<lparr> dk_fs := f, dk_fs := f' \<rparr>, Ok out)"
    using exec_cmd_ok assms(1,3) by blast
  then show ?thesis using f assms(2,4) by (auto simp: disk_total_def)
qed

lemma cache_roundtrip:
  "\<not> err \<Longrightarrow> \<not> err' \<Longrightarrow> now' < now + cache_ttl \<Longrightarrow> GetDiskUsageCache err' now' u p (fst (SetDiskUsageCache err now u p d s)) = Ok d"
  by (simp add: GetDiskUsageCache_def SetDiskUsageCache_def)

text \<open>
  The disk usage that is shown is the one that the machine reports. When du prints n and df
  the row of a file system with t blocks of 1024 bytes, GetDiskUsage returns the size n and the
  percentage of n in t * 1024, a number between 0 and 100 when n is not larger; CalculateSize
  returns the same two numbers; and for 25 hours GetDiskUsage answers from its cache with the same
  value.
\<close>

theorem disk_usage_measured:
  assumes conn: "\<forall>k. conn_ok (de_conn e k)"
    and path: "snd (resolvePath (de_conn e 0) (de_remote e) (de_now e) u p r (dk_fs s)) = Ok resolved"
    and du: "re_exec (de_remote e) (''du -sb '' @ shell_quote resolved @ '' 2>/dev/null | '' @ awk_first) = Some (Itoa n @ [CHR 0x0A])"
      "re_exec (de_remote e) (''du -sb '' @ shell_quote resolved @ '' | '' @ awk_first) = Some (Itoa n @ [CHR 0x0A])" "0 \<le> n" "in_int n"
    and df: "de_statvfs e resolved = None" "re_exec (de_remote e) (''df -kP '' @ shell_quote resolved) = Some (df_report (df_row dev t x a pct mount))"
      "0 < t" "in_int (t * 1024)" "word dev" "word pct" "word mount" "\<not> HasSuffix mount ''%''"
      "\<not> Contains_str (df_row dev t x a pct mount) ''Filesystem''" "\<not> Contains_str (df_row dev t x a pct mount) ''1024-blocks''"
    and cold: "GetDiskUsageCache (de_get e) (de_now e) u p s = Err y" "\<not> de_set e"
  shows "\<exists>s' d. GetDiskUsage e u p r s = (s', Ok d) \<and> dd_DirectorySize d = n \<and> dd_DiskUsage d = usage_percent n (t * 1024) \<and>
    0 \<le> dd_DiskUsage d \<and> (n \<le> t * 1024 \<longrightarrow> dd_DiskUsage d \<le> 100) \<and>
    snd (CalculateSize e u p r s) = Ok (n, formatFileSize n, dd_DiskUsage d) \<and>
    (\<forall>e' r'. \<not> de_get e' \<and> de_now e' < de_now e + cache_ttl \<longrightarrow> GetDiskUsage e' u p r' s' = (s', Ok d))"
proof -
  let ?q = "shell_quote resolved" and ?d = "\<lparr> dd_DirectorySize = n, dd_DiskUsage = usage_percent n (t * 1024) \<rparr>"
  obtain f where f: "resolvePath (de_conn e 0) (de_remote e) (de_now e) u p r (dk_fs s) = (f, Ok resolved)"
    using path by (metis prod.collapse)
  have "in_int t" using df(3,4) by (simp add: in_int_def int_min_def int_max_def)
  then have tot: "df_total (df_report (df_row dev t x a pct mount)) = t * 1024" using df by (intro df_total_report)
  have read: "TrimSpace (Itoa n @ [CHR 0x0A]) = Itoa n" "Atoi (Itoa n) = Some n" "size_text (Itoa n) = Itoa n" "first_field (Itoa n) (Itoa n) = Itoa n"
    using du(4) by (simp_all add: TrimSpace_word Atoi_Itoa size_text_word first_field_word)
  obtain f1 where g1: "exec_cmd e 1 u (''du -sb '' @ ?q @ '' 2>/dev/null | '' @ awk_first) r (s\<lparr> dk_fs := f \<rparr>) = (s\<lparr> dk_fs := f, dk_fs := f1 \<rparr>, Ok (Itoa n @ [CHR 0x0A]))"
    using exec_cmd_ok conn du(1) by blast
  obtain f2 where g2: "exec_cmd e 1 u (''du -sb '' @ ?q @ '' | '' @ awk_first) r (s\<lparr> dk_fs := f \<rparr>) = (s\<lparr> dk_fs := f, dk_fs := f2 \<rparr>, Ok (Itoa n @ [CHR 0x0A]))"
    using exec_cmd_ok conn du(2) by blast
  have total: "\<exists>f'. disk_total e u r resolved ?q s0 = (s0\<lparr> dk_fs := f' \<rparr>, t * 1024)" for s0
    using disk_total_df [OF conn df(1,2)] df(3) tot by simp
  obtain f3 where t1: "disk_total e u r resolved ?q (s\<lparr> dk_fs := f, dk_fs := f1 \<rparr>) = (s\<lparr> dk_fs := f, dk_fs := f1, dk_fs := f3 \<rparr>, t * 1024)" using total by blast
  obtain f4 where t2: "disk_total e u r resolved ?q (s\<lparr> dk_fs := f, dk_fs := f2 \<rparr>) = (s\<lparr> dk_fs := f, dk_fs := f2, dk_fs := f4 \<rparr>, t * 1024)" using total by blast
  have du1: "du_size e u r ?q (s\<lparr> dk_fs := f \<rparr>) = (s\<lparr> dk_fs := f, dk_fs := f1 \<rparr>, Ok n)" unfolding du_size_def g1 by (simp add: read)
  let ?s' = "fst (SetDiskUsageCache (de_set e) (de_now e) u p ?d (s\<lparr> dk_fs := f, dk_fs := f1, dk_fs := f3 \<rparr>))"
  have "GetDiskUsage e u p r s = (?s', Ok ?d)" using cold f du1 t1 by (simp add: GetDiskUsage_def Let_def)
  moreover have "snd (CalculateSize e u p r s) = Ok (n, formatFileSize n, dd_DiskUsage ?d)"
    using f g2 t2 by (simp add: CalculateSize_def Let_def read)
  moreover have "GetDiskUsage e' u p r' ?s' = (?s', Ok ?d)" if "\<not> de_get e'" "de_now e' < de_now e + cache_ttl" for e' r'
    using cache_roundtrip [OF cold(2) that] by (simp add: GetDiskUsage_def)
  ultimately show ?thesis using usage_percent_bounds [OF du(3), of "t * 1024"] by (intro exI [of _ ?s'] exI [of _ ?d]) auto
qed

text \<open>
  The key of the cache has no mode and the path as it was sent: the usage of a path that an
  administrator asked for is shown for the same text in the home directory of the user, and the
  reverse.
\<close>

lemma cache_ignores_mode:
  "GetDiskUsageCache False (de_now e) u p s = Ok d \<Longrightarrow> \<not> de_get e \<Longrightarrow> snd (GetDiskUsage e u p True s) = Ok d \<and> snd (GetDiskUsage e u p False s) = Ok d"
  by (simp add: GetDiskUsage_def)

section \<open>The report lists every user\<close>

lemma calculate_keeps_cache [simp]: "dk_usage (fst (calculateDiskUsageWithRoot e home s)) = dk_usage s"
  by (auto simp: calculateDiskUsageWithRoot_def Let_def split: prod.splits sum.splits)

lemma disk_key_inject [simp]: "disk_key u p = disk_key v q \<longleftrightarrow> u = v \<and> p = q"
  by (simp add: disk_key_def colon_key_inject)

lemma SetDiskUsageCache_usage:
  "dk_usage (fst (SetDiskUsageCache err now u p d s)) = (if err then dk_usage s else (dk_usage s)(disk_key u p \<mapsto> (d, now + cache_ttl)))"
  by (simp add: SetDiskUsageCache_def)

text \<open>The results of the computations of the daily job, one per user.\<close>

fun calc_results :: "(nat \<Rightarrow> root_env) \<Rightarrow> (nat \<Rightarrow> bool) \<Rightarrow> nat \<Rightarrow> (User \<times> string) list \<Rightarrow> disk_service \<Rightarrow> DiskUsageData result list" where
  "calc_results re err k [] s = []"
| "calc_results re err k ((u, home) # us) s =
     (case calculateDiskUsageWithRoot (re k) home s of
        (s1, Inl x) \<Rightarrow> Err x # calc_results re err (Suc k) us s1
      | (s1, Inr d) \<Rightarrow> Ok d # calc_results re err (Suc k) us (fst (SetDiskUsageCache (err k) (rt_now (re k)) (ac_ID u) home d s1)))"

lemma length_calc_results [simp]: "length (calc_results re err k us s) = length us"
  by (induction re err k us s rule: calc_results.induct) (auto split: prod.splits sum.splits)

lemma calculate_loop_frame:
  "key \<notin> (\<lambda>(u, home). disk_key (ac_ID u) home) ` set us \<Longrightarrow> dk_usage (calculate_loop re err k us s) key = dk_usage s key"
proof (induction re err k us s rule: calculate_loop.induct)
  case (2 re err k u home us s)
  obtain s1 r where c: "calculateDiskUsageWithRoot (re k) home s = (s1, r)" by fastforce
  then have "dk_usage s1 = dk_usage s" using calculate_keeps_cache [of "re k" home s] by simp
  then show ?case using 2 c by (auto simp: SetDiskUsageCache_usage split: sum.splits)
qed simp

lemma calculate_loop_cached:
  assumes "distinct (map (ac_ID \<circ> fst) us)" "\<And>k. \<not> err k" "i < length us" "calc_results re err k us s ! i = Ok d" "us ! i = (u, home)"
  shows "dk_usage (calculate_loop re err k us s) (disk_key (ac_ID u) home) = Some (d, rt_now (re (k + i)) + cache_ttl)"
  using assms
proof (induction re err k us s arbitrary: i rule: calculate_loop.induct)
  case (2 re err k v hv us s)
  obtain s1 r where c: "calculateDiskUsageWithRoot (re k) hv s = (s1, r)" by fastforce
  show ?case
  proof (cases i)
    case 0
    have fresh: "disk_key (ac_ID u) home \<notin> (\<lambda>(u, home). disk_key (ac_ID u) home) ` set us"
      using 2(2,6) 0 by (auto simp: image_iff)
    have "r = Ok d" using 2(5) 0 c by (cases r) simp_all
    then show ?thesis using 2(3) 2(6) 0 c calculate_loop_frame [OF fresh] by (simp add: SetDiskUsageCache_usage)
  next
    case (Suc j)
    show ?thesis using 2(1) [of j] 2(2-6) Suc c by (cases r) simp_all
  qed
qed simp

lemma all_loop_cached:
  assumes "\<forall>i < length us. GetDiskUsageCache (gerr (k + i)) (rt_now (re (k + i))) (ac_ID (fst (us ! i))) (snd (us ! i)) s = Ok (ds ! i)" "length ds = length us"
  shows "all_loop re gerr serr k us s = (s, map2 (\<lambda>(u, home) d. usage_row u home d) us ds)"
  using assms
proof (induction us arbitrary: k ds)
  case (Cons x us)
  obtain u home where x: "x = (u, home)" by fastforce
  obtain d ds' where ds: "ds = d # ds'" using Cons.prems(2) by (cases ds) auto
  have "GetDiskUsageCache (gerr k) (rt_now (re k)) (ac_ID u) home s = Ok d" using spec [OF Cons.prems(1), of 0] x ds by simp
  moreover have "\<forall>i < length us. GetDiskUsageCache (gerr (Suc k + i)) (rt_now (re (Suc k + i))) (ac_ID (fst (us ! i))) (snd (us ! i)) s = Ok (ds' ! i)"
    using Cons.prems(1) ds by (metis (no_types, lifting) Suc_less_eq add_Suc_right add_Suc_shift length_Cons nth_Cons_Suc)
  ultimately show ?case using Cons.IH [of "Suc k" ds'] Cons.prems(2) x ds by (simp add: user_usage_def)
qed simp

lemma all_loop_rows: "map (\<lambda>r. (ud_UserID r, ud_Username r, ud_HomeDirectory r)) (snd (all_loop re gerr serr k us s)) = map (\<lambda>(u, home). (ac_ID u, ac_Username u, home)) us"
  by (induction us arbitrary: k s) (auto simp: usage_row_def Let_def split_beta)

text \<open>
  The report on disk usage lists every user with a name exactly once, in the order of the
  list of users, whatever fails; and after a run of the daily job in which the computation of every
  user succeeded, reports in the next 25 hours show exactly the computed numbers and run no
  command on the machine.
\<close>

theorem disk_report_complete:
  assumes users: "user_List (\<lambda>_ _. True) False False d 0 0 [] [] None = Ok (us, n)"
    and homes: "hs = user_homes basePath (map fst us)" and ids: "distinct (map ac_ID (d_users d))"
    and results: "calc_results re err 0 hs s = map Inr ds" and ok: "\<And>k. \<not> err k"
    and fresh: "\<And>i j. rt_now (re' j) < rt_now (re i) + cache_ttl"
  shows "(\<exists>s2 rows. GetAllUsersDiskUsage re2 gerr2 serr2 False False basePath d s0 = (s2, Ok rows) \<and>
       map (\<lambda>r. (ud_UserID r, ud_Username r, ud_HomeDirectory r)) rows = map (\<lambda>(u, home). (ac_ID u, ac_Username u, home)) hs) \<and>
    (\<exists>s1. CalculateAllUsersDiskUsage re err False False basePath d s = (s1, Ok ()) \<and>
       GetAllUsersDiskUsage re' (\<lambda>_. False) serr False False basePath d s1 = (s1, Ok (map2 (\<lambda>(u, home) d. usage_row u home d) hs ds)))"
proof -
  let ?s1 = "calculate_loop re err 0 hs s"
  have len: "length ds = length hs" using arg_cong [OF results, of length] by simp
  have "map (ac_ID \<circ> fst) hs = map ac_ID (filter (\<lambda>u. ac_Username u \<noteq> []) (map fst us))" by (simp add: homes user_homes_def)
  moreover have "distinct (map ac_ID (map fst us))"
    using users ids by (auto simp: user_List_def Let_def comp_def distinct_map inj_on_def split: if_splits)
  ultimately have dist: "distinct (map (ac_ID \<circ> fst) hs)" by (metis distinct_map_filter)
  have "GetDiskUsageCache False (rt_now (re' (0 + i))) (ac_ID (fst (hs ! i))) (snd (hs ! i)) ?s1 = Ok (ds ! i)" if "i < length hs" for i
  proof -
    obtain u home where h: "hs ! i = (u, home)" by fastforce
    have "calc_results re err 0 hs s ! i = Ok (ds ! i)" using results that len by simp
    then have "dk_usage ?s1 (disk_key (ac_ID u) home) = Some (ds ! i, rt_now (re (0 + i)) + cache_ttl)"
      using calculate_loop_cached [where re = re and err = err and k = 0 and s = s and d = "ds ! i", OF dist ok that _ h] by blast
    then show ?thesis using fresh h by (simp add: GetDiskUsageCache_def)
  qed
  then have "all_loop re' (\<lambda>_. False) serr 0 hs ?s1 = (?s1, map2 (\<lambda>(u, home) d. usage_row u home d) hs ds)"
    using len by (intro all_loop_cached) auto
  then have "GetAllUsersDiskUsage re' (\<lambda>_. False) serr False False basePath d ?s1 = (?s1, Ok (map2 (\<lambda>(u, home) d. usage_row u home d) hs ds))"
    using users homes by (simp add: GetAllUsersDiskUsage_def)
  moreover have "CalculateAllUsersDiskUsage re err False False basePath d s = (?s1, Ok ())" using users homes by (simp add: CalculateAllUsersDiskUsage_def)
  moreover have "\<exists>s2 rows. GetAllUsersDiskUsage re2 gerr2 serr2 False False basePath d s0 = (s2, Ok rows) \<and>
       map (\<lambda>r. (ud_UserID r, ud_Username r, ud_HomeDirectory r)) rows = map (\<lambda>(u, home). (ac_ID u, ac_Username u, home)) hs"
    using users homes all_loop_rows [of re2 gerr2 serr2 0 hs s0] by (auto simp: GetAllUsersDiskUsage_def split: prod.splits)
  ultimately show ?thesis by blast
qed

section \<open>The daily job runs once at a time\<close>

lemma scheduleNext_3am:
  "0 \<le> scheduleNext now" "scheduleNext now \<le> day_ns" "(now + scheduleNext now) mod day_ns = 3 * 3600000000000"
proof -
  define m where "m = now mod day_ns"
  have m: "now = now div day_ns * day_ns + m" "0 \<le> m" "m < day_ns" by (simp_all add: m_def day_ns_def)
  have s: "scheduleNext now = (if m > 3 * 3600000000000 then 3 * 3600000000000 + day_ns - m else 3 * 3600000000000 - m)"
    unfolding scheduleNext_def Let_def using m(1) by auto
  show "0 \<le> scheduleNext now" "scheduleNext now \<le> day_ns" using s m by (auto simp: day_ns_def)
  have "now + scheduleNext now = 3 * 3600000000000 + (now div day_ns + (if m > 3 * 3600000000000 then 1 else 0)) * day_ns"
    using m(1) s by (auto simp: algebra_simps)
  then show "(now + scheduleNext now) mod day_ns = 3 * 3600000000000" by (simp add: day_ns_def)
qed

text \<open>
  The interleavings of the scheduler: Start and Stop are called at any time, the goroutine of the
  first task and the loop try to begin a task, a task ends, the loop resets its timer. Stop is the
  step at which its waiting is over: the loop and the tasks have ended.
\<close>

inductive disk_step :: "DiskUsageScheduler \<Rightarrow> DiskUsageScheduler \<Rightarrow> bool" where
  step_start: "disk_step d (Start_disk now d)"
| step_begin: "disk_step d (executeTask_begin d)"
| step_end: "0 < ds_tasks d \<Longrightarrow> disk_step d (executeTask_end d)"
| step_reset: "0 < ds_loops d \<Longrightarrow> disk_step d (timer_reset now d)"
| step_stop: "ds_tasks d = 0 \<Longrightarrow> disk_step d (Stop_disk d)"

inductive_cases disk_stepE: "disk_step d d'"

definition disk_inv :: "DiskUsageScheduler \<Rightarrow> bool" where
  "disk_inv d \<longleftrightarrow> ds_tasks d = (if ds_locked d then 1 else 0) \<and> (ds_isRunning d \<longleftrightarrow> ds_loops d = 1) \<and> ds_loops d \<le> 1 \<and>
     (ds_isRunning d \<longleftrightarrow> ds_timer d \<noteq> None)"

lemma disk_step_inv: "disk_step d d' \<Longrightarrow> disk_inv d \<Longrightarrow> disk_inv d'"
  by (induction rule: disk_step.induct)
    (auto simp: disk_inv_def Start_disk_def executeTask_begin_def executeTask_end_def timer_reset_def Stop_disk_def split: if_splits)

text \<open>
  The computation of the disk usage never runs twice at the same time: over all interleavings
  of starts, stops, timer ticks and tasks there is at most one loop and at most one task, and
  the first tick after a start is at the next three o'clock, at most a day later.
\<close>

theorem daily_job_exclusive:
  assumes "disk_step\<^sup>*\<^sup>* NewDiskUsageScheduler d"
  shows "ds_tasks d \<le> 1 \<and> ds_loops d \<le> 1 \<and> (ds_tasks d = 1 \<longrightarrow> executeTask_begin d = d) \<and>
    (\<not> ds_isRunning d \<longrightarrow> (\<exists>t. ds_timer (Start_disk now d) = Some t \<and> now \<le> t \<and> t \<le> now + day_ns \<and> t mod day_ns = 3 * 3600000000000))"
proof -
  have "disk_inv NewDiskUsageScheduler" by (simp add: disk_inv_def NewDiskUsageScheduler_def)
  with assms have "disk_inv d" by (induction rule: rtranclp_induct) (auto intro: disk_step_inv)
  then show ?thesis using scheduleNext_3am [of now] by (auto simp: disk_inv_def executeTask_begin_def Start_disk_def split: if_splits)
qed

text \<open>
  The comment says every day at three. The timer is reset to 24 hours after the task has ended, so
  each run is later than the one before by the duration of the task.
\<close>

lemma timer_drifts:
  assumes "fired mod day_ns = 3 * 3600000000000" "0 \<le> dur" "dur < 21 * 3600000000000"
  shows "\<exists>t. ds_timer (timer_reset (fired + dur) d) = Some t \<and> t mod day_ns = 3 * 3600000000000 + dur"
proof -
  have "(fired + dur + day_ns) mod day_ns = (3 * 3600000000000 + dur) mod day_ns" using assms(1) by (metis mod_add_left_eq mod_add_self2)
  also have "\<dots> = 3 * 3600000000000 + dur" using assms(2,3) by (intro mod_pos_pos_trivial) (simp_all add: day_ns_def)
  finally show ?thesis by (simp add: timer_reset_def)
qed

end
