(* ===== verification/Uploads.thy ===== *)
theory Uploads
  imports DiskUsage Access
begin

text \<open>
  Uploads, downloads and the list of home directories: the rest of
  internal/service/files_service.go.

  An upload has two parts: the request stores the body in a temporary file and returns, a
  goroutine copies the file to the machine and reports its progress in Redis. The remote files
  are a map from paths to contents. The calls that the copying library makes of ProgressReader, their
  times and faults, and every other answer of the machine come from an environment record. The
  clock readings within one call of Read after the data arrived are taken as one instant. A
  conversion of a float64 that is out of range gives the smallest int64, as on amd64.
\<close>

section \<open>Progress\<close>

record UploadProgressData =
  upd_Filename :: string
  upd_Status :: string
  upd_Progress :: rat
  upd_Uploaded :: int
  upd_Total :: int
  upd_Speed :: string
  upd_Remaining :: string
  upd_Error :: string

definition formatUploadSpeed :: "rat \<Rightarrow> string" where
  "formatUploadSpeed bytesPerSec =
     (if bytesPerSec < 1024 then fmt_fixed 1 bytesPerSec @ '' B/s''
      else if bytesPerSec < 1024 * 1024 then fmt_fixed 1 (fdiv bytesPerSec 1024) @ '' KB/s''
      else fmt_fixed 1 (fdiv (fdiv bytesPerSec 1024) 1024) @ '' MB/s'')"

definition to_int64 :: "rat \<Rightarrow> int" where
  "to_int64 x = (if in_int (float_to_int x) then float_to_int x else int_min)"

text \<open>Duration.Round(time.Second), in seconds; a result out of range becomes the largest duration.\<close>

definition round_secs :: "int \<Rightarrow> int" where
  "round_secs d = (if d < 0 then - min 9223372036 ((- d + 500000000) div 1000000000) else min 9223372036 ((d + 500000000) div 1000000000))"

text \<open>The remaining time; with no byte transferred the quotient is infinite.\<close>

definition remaining_text :: "int \<Rightarrow> rat \<Rightarrow> string" where
  "remaining_text remBytes bytesPerSec =
     (let remSeconds = (if bytesPerSec = 0 then int_min else to_int64 (fdiv (f64 (of_int remBytes)) bytesPerSec))
      in formatUploadDuration (round_secs (wrap64 (remSeconds * 1000000000))))"

record ProgressReader =
  pg_Reader :: string
  pg_Total :: int
  pg_Uploaded :: int
  pg_lastReport :: int
  pg_startTime :: "int option"

datatype copy_fault = NoFault | ReadFault | WriteFault

text \<open>
  One call of Read with a buffer of n bytes, entered at t0, with data at t1. The answer is the
  reader, the bytes, whether the end was reached, and the progress that is reported.
\<close>

definition Read_progress ::
  "int \<Rightarrow> int \<Rightarrow> nat \<Rightarrow> bool \<Rightarrow> ProgressReader \<Rightarrow> ProgressReader \<times> string \<times> bool \<times> (int \<times> string \<times> string) option" where
  "Read_progress t0 t1 n err r =
     (let start = (case pg_startTime r of None \<Rightarrow> t0 | Some t \<Rightarrow> t);
          lastReport = (case pg_startTime r of None \<Rightarrow> t0 | Some _ \<Rightarrow> pg_lastReport r);
          bytes = (if err then [] else take n (pg_Reader r));
          eof = (\<not> err \<and> pg_Reader r = []);
          uploaded = pg_Uploaded r + int (length bytes);
          r1 = r\<lparr> pg_startTime := Some start, pg_lastReport := lastReport, pg_Uploaded := uploaded, pg_Reader := (if err then pg_Reader r else drop n (pg_Reader r)) \<rparr>
      in if time_sub t1 lastReport > 1000000000 \<or> (eof \<and> bytes \<noteq> [])
         then (let duration = Seconds (time_sub t1 start);
                   bytesPerSec = fdiv (f64 (of_int uploaded)) duration;
                   speedStr = (if duration > 0 then formatUploadSpeed bytesPerSec else []);
                   remainingStr = (if duration > 0 \<and> pg_Total r > uploaded then remaining_text (pg_Total r - uploaded) bytesPerSec else [])
               in (r1\<lparr> pg_lastReport := t1 \<rparr>, bytes, eof, Some (uploaded, speedStr, remainingStr)))
         else (r1, bytes, eof, None))"

text \<open>
  The copy to the remote file: it ends at the end of the temporary file, at a fault, or, when
  the library makes no further call, because the connection broke. The result holds the bytes written,
  the reports with their times and the success.
\<close>

fun copy_loop ::
  "(int \<times> int \<times> nat \<times> copy_fault) list \<Rightarrow> ProgressReader \<Rightarrow> string \<Rightarrow> (int \<times> int \<times> string \<times> string) list \<Rightarrow>
     ProgressReader \<times> string \<times> (int \<times> int \<times> string \<times> string) list \<times> bool" where
  "copy_loop [] r written reps = (r, written, reps, False)"
| "copy_loop ((t0, t1, n, f) # calls) r written reps =
     (case Read_progress t0 t1 n (f = ReadFault) r of (r1, bytes, eof, rep) \<Rightarrow>
        (let reps1 = reps @ (case rep of None \<Rightarrow> [] | Some p \<Rightarrow> [(t1, p)]) in
         if f = ReadFault \<or> f = WriteFault then (r1, written, reps1, False)
         else if eof then (r1, written, reps1, True)
         else copy_loop calls r1 (written @ bytes) reps1))"

section \<open>Uploading\<close>

record upload_env =
  ue_conn :: "nat \<Rightarrow> conn_env"
  ue_re :: remote_env
  ue_now :: int
  ue_set :: "nat \<Rightarrow> bool"
  ue_mkdir :: "string \<Rightarrow> bool"
  ue_create :: "string \<Rightarrow> bool"
  ue_open :: bool
  ue_calls :: "(int \<times> int \<times> nat \<times> copy_fault) list"
  ue_partial :: string
  ue_remove :: bool
  ue_unlink :: bool

record upload_task =
  ut_userID :: int
  ut_tempFilePath :: string
  ut_originalFilename :: string
  ut_targetPath :: string
  ut_isRootMode :: bool
  ut_totalSize :: int

record uploads =
  up_files :: fileService
  up_progress :: "string \<Rightarrow> (UploadProgressData \<times> int) option"
  up_remote :: "string \<Rightarrow> string option"
  up_temp :: "string \<Rightarrow> string option"
  up_tasks :: "upload_task list"

definition hour_ns :: int where "hour_ns = 3600000000000"

definition progress_data :: "upload_task \<Rightarrow> string \<Rightarrow> int \<Rightarrow> string \<Rightarrow> string \<Rightarrow> string \<Rightarrow> UploadProgressData" where
  "progress_data t status uploaded speed remaining errMsg = \<lparr> upd_Filename = ut_originalFilename t, upd_Status = status,
     upd_Progress = usage_percent uploaded (ut_totalSize t), upd_Uploaded = uploaded, upd_Total = ut_totalSize t,
     upd_Speed = speed, upd_Remaining = remaining, upd_Error = errMsg \<rparr>"

text \<open>\<open>k\<close> counts the reports of one upload, for the failures of Redis, which are ignored.\<close>

definition reportProgress ::
  "upload_env \<Rightarrow> nat \<Rightarrow> int \<Rightarrow> string \<Rightarrow> UploadProgressData \<Rightarrow> uploads \<Rightarrow> uploads" where
  "reportProgress e k now key d s =
     (if ue_set e k then s else s\<lparr> up_progress := (up_progress s)(key := Some (d, now + hour_ns)) \<rparr>)"

fun report_all :: "upload_env \<Rightarrow> nat \<Rightarrow> string \<Rightarrow> upload_task \<Rightarrow> (int \<times> int \<times> string \<times> string) list \<Rightarrow> uploads \<Rightarrow> uploads" where
  "report_all e k key t [] s = s"
| "report_all e k key t ((now, uploaded, speed, remaining) # rs) s =
     report_all e (Suc k) key t rs (reportProgress e k now key (progress_data t ''uploading'' uploaded speed remaining []) s)"

text \<open>Steps 6 to 9: the stream to the created file, and what follows its end.\<close>

definition upload_stream :: "upload_env \<Rightarrow> string \<Rightarrow> upload_task \<Rightarrow> string \<Rightarrow> string \<Rightarrow> string \<Rightarrow> uploads \<Rightarrow> uploads" where
  "upload_stream e key t resolved dstPath content s =
     (case copy_loop (ue_calls e) \<lparr> pg_Reader = content, pg_Total = ut_totalSize t, pg_Uploaded = 0, pg_lastReport = 0, pg_startTime = None \<rparr> [] [] of
        (r, written, reps, ok) \<Rightarrow>
          (let s1 = report_all e 0 key t reps s in
           if \<not> ok then reportProgress e (length reps) (ue_now e) key (progress_data t ''failed'' (pg_Uploaded r) [] [] ''upload'')
             (s1\<lparr> up_remote := (up_remote s1)(dstPath := (if ue_remove e then None else Some (ue_partial e))) \<rparr>)
           else (let s2 = reportProgress e (length reps) (ue_now e) key (progress_data t ''completed'' (ut_totalSize t) [] [] [])
                   (s1\<lparr> up_remote := (up_remote s1)(dstPath := Some written) \<rparr>)
                 in s2\<lparr> up_files := invalidateFileListCache (ue_re e) (ut_userID t) (ut_isRootMode t) resolved (up_files s2) \<rparr>)))"

definition upload_steps :: "upload_env \<Rightarrow> upload_task \<Rightarrow> uploads \<Rightarrow> uploads" where
  "upload_steps e t s =
     (case getUploadProgressKey (ue_conn e 0) (ue_re e) (ue_now e) (ut_userID t) (ut_originalFilename t) (ut_targetPath t) (ut_isRootMode t) (up_files s) of
        (f0, key) \<Rightarrow>
          (let fail = (\<lambda>f msg remote. reportProgress e 0 (ue_now e) key (progress_data t ''failed'' 0 [] [] msg) (s\<lparr> up_files := f, up_remote := remote \<rparr>))
           in case getSftpClient (ue_conn e 1) (ue_now e) (ut_userID t) (ut_isRootMode t) f0 of
                (f1, Inl _) \<Rightarrow> fail f1 ''client'' (up_remote s)
              | (f1, Inr _) \<Rightarrow>
                  (case resolvePath (ue_conn e 2) (ue_re e) (ue_now e) (ut_userID t) (ut_targetPath t) (ut_isRootMode t) f1 of
                     (f2, Inl _) \<Rightarrow> fail f2 ''path'' (up_remote s)
                   | (f2, Inr resolved) \<Rightarrow>
                       (let dstPath = path_Join [resolved, ut_originalFilename t] in
                        if \<not> ue_mkdir e resolved then fail f2 ''mkdir'' (up_remote s)
                        else if \<not> ue_create e dstPath then fail f2 ''create'' (up_remote s)
                        else case (if ue_open e then up_temp s (ut_tempFilePath t) else None) of
                            None \<Rightarrow> fail f2 ''open'' ((up_remote s)(dstPath := Some []))
                          | Some content \<Rightarrow> upload_stream e key t resolved dstPath content
                              (s\<lparr> up_files := f2, up_remote := (up_remote s)(dstPath := Some []) \<rparr>)))))"

definition asyncUploadToSFTP :: "upload_env \<Rightarrow> upload_task \<Rightarrow> uploads \<Rightarrow> uploads" where
  "asyncUploadToSFTP e t s = (let s1 = upload_steps e t s in
     if ue_unlink e then s1\<lparr> up_temp := (up_temp s1)(ut_tempFilePath t := None) \<rparr> else s1)"

text \<open>
  The request: \<open>mkdir\<close> and \<open>temp\<close> are the answers of MkdirAll and CreateTemp, \<open>copied\<close> tells
  whether the body could be stored. The goroutine is a task that runs later.
\<close>

definition UploadFile ::
  "bool \<Rightarrow> string option \<Rightarrow> bool \<Rightarrow> int \<Rightarrow> string \<Rightarrow> string \<Rightarrow> int \<Rightarrow> string \<Rightarrow> bool \<Rightarrow> uploads \<Rightarrow> uploads \<times> string result" where
  "UploadFile mkdir temp copied userID content filename sz targetPath isRootMode s =
     (if \<not> mkdir then (s, Err (BizError CodeInternalError))
      else case temp of
        None \<Rightarrow> (s, Err (BizError CodeInternalError))
      | Some name \<Rightarrow>
          (if \<not> copied then (s\<lparr> up_temp := (up_temp s)(name := None) \<rparr>, Err (BizError CodeInternalError))
           else (s\<lparr> up_temp := (up_temp s)(name := Some content),
                   up_tasks := up_tasks s @ [\<lparr> ut_userID = userID, ut_tempFilePath = name, ut_originalFilename = filename,
                     ut_targetPath = targetPath, ut_isRootMode = isRootMode, ut_totalSize = sz \<rparr>] \<rparr>, Ok filename)))"

section \<open>Reading the progress\<close>

definition GetUploadProgress ::
  "collation \<Rightarrow> bool \<Rightarrow> (nat \<Rightarrow> bool) \<Rightarrow> directory \<Rightarrow> conn_env \<Rightarrow> remote_env \<Rightarrow> bool \<Rightarrow> int \<Rightarrow> int \<Rightarrow> string \<Rightarrow> string \<Rightarrow> uploads \<Rightarrow>
     uploads \<times> UploadProgressData result" where
  "GetUploadProgress w uerr ferr d ce re gerr now userID filename0 targetPath0 s =
     (let filename = TrimSpace filename0; targetPath = TrimSpace targetPath0 in
      case HasSystemAccess w uerr ferr d userID AccessTypeFile of
        Inl err \<Rightarrow> (s, Err err)
      | Inr isRootMode \<Rightarrow>
          (case getUploadProgressKey ce re now userID filename targetPath isRootMode (up_files s) of
             (f, key) \<Rightarrow> (s\<lparr> up_files := f \<rparr>,
               Ok (case (if gerr then None else up_progress s key) of
                 None \<Rightarrow> \<lparr> upd_Filename = filename, upd_Status = ''unknown'', upd_Progress = 0, upd_Uploaded = 0, upd_Total = 0,
                    upd_Speed = [], upd_Remaining = [], upd_Error = [] \<rparr>
               | Some (p, t) \<Rightarrow> (if now < t then p
                    else \<lparr> upd_Filename = filename, upd_Status = ''unknown'', upd_Progress = 0, upd_Uploaded = 0, upd_Total = 0,
                      upd_Speed = [], upd_Remaining = [], upd_Error = [] \<rparr>)))))"

section \<open>Downloading\<close>

text \<open>The answers of Open, with the content of the file, and of Stat, with size and time.\<close>

definition DownloadFile ::
  "conn_env \<Rightarrow> conn_env \<Rightarrow> remote_env \<Rightarrow> (string \<Rightarrow> string option) \<Rightarrow> (int \<times> int) option \<Rightarrow> int \<Rightarrow> int \<Rightarrow> string \<Rightarrow> bool \<Rightarrow> fileService \<Rightarrow>
     fileService \<times> (string \<times> string \<times> int \<times> int) result" where
  "DownloadFile ce1 ce2 re opens stat now userID p isRootMode s =
     (case getSftpClient ce1 now userID isRootMode s of
        (s1, Inl err) \<Rightarrow> (s1, Err err)
      | (s1, Inr _) \<Rightarrow>
          (case resolvePath ce2 re now userID p isRootMode s1 of
             (s2, Inl err) \<Rightarrow> (s2, Err err)
           | (s2, Inr resolved) \<Rightarrow>
               (case opens resolved of
                  None \<Rightarrow> (s2, Err (BizError CodeInternalError))
                | Some content \<Rightarrow>
                    (case stat of
                       None \<Rightarrow> (s2, Err (BizError CodeInternalError))
                     | Some (sz, mtime) \<Rightarrow> (s2, Ok (content, path_Base resolved, sz, mtime))))))"

section \<open>The list of home directories\<close>

definition owner_text :: "(nat \<times> string) list \<Rightarrow> file_entry \<Rightarrow> string" where
  "owner_text uids en = (case en_Uid en of
     None \<Rightarrow> ''unknown''
   | Some uid \<Rightarrow> (case uid_lookup uids uid of Some name \<Rightarrow> name | None \<Rightarrow> ''no data, please refresh''))"

definition home_entries :: "(nat \<times> string) list \<Rightarrow> string \<Rightarrow> string \<Rightarrow> file_entry list \<Rightarrow> DirectoryItem list" where
  "home_entries uids keyword rp es = sort_key di_Name (map (\<lambda>en. \<lparr> di_Name = en_Name en, di_UpdatedAt = en_ModTime en,
     di_Path = path_Join [rp, en_Name en], di_Username = owner_text uids en \<rparr>)
     (filter (\<lambda>en. en_IsDir en \<and> (keyword = [] \<or> Contains_str (en_Name en) keyword)) es))"

definition home_path :: "string \<Rightarrow> string \<Rightarrow> string result" where
  "home_path basePath p = (if p = [] \<or> p = ''.'' \<or> p = ''/'' then Ok basePath
     else let cleanPath = path_Clean (path_Join [basePath, p]) in
       if \<not> HasPrefix cleanPath basePath then Err (BizError CodeForbidden) else Ok cleanPath)"

text \<open>The slice of a page; bounds that Go refuses panic.\<close>

definition home_slice :: "int \<Rightarrow> int \<Rightarrow> 'a list \<Rightarrow> 'a list result" where
  "home_slice page pageSize dirs =
     (let n = int (length dirs);
          start = wrap64 (wrap64 (page - 1) * pageSize);
          end' = (if wrap64 (start + pageSize) > n then n else wrap64 (start + pageSize))
      in if start < n
         then (if start < 0 \<or> end' < start then Err (Panic ''slice bounds'') else Ok (take (nat (end' - start)) (drop (nat start) dirs)))
         else Ok [])"

definition GetHomeDirectoriesList ::
  "conn_env \<Rightarrow> conn_env \<Rightarrow> remote_env \<Rightarrow> int \<Rightarrow> int \<Rightarrow> FileListRequest \<Rightarrow> bool \<Rightarrow> fileService \<Rightarrow> fileService \<times> FilesListData result" where
  "GetHomeDirectoriesList ce1 ce2 re now userID req isRootMode s =
     (case getSftpClient ce1 now userID True s of
        (s1, Inl err) \<Rightarrow> (s1, Err err)
      | (s1, Inr _) \<Rightarrow>
          (let page = (if fr_Page req \<le> 0 then 1 else fr_Page req);
               pageSize = (if fr_PageSize req \<le> 0 then 100 else fr_PageSize req)
           in case home_path (base_dir (re_basePath re)) (fr_Path req) of
                Inl err \<Rightarrow> (s1, Err err)
              | Inr realPath \<Rightarrow>
                  (case re_readdir re realPath of
                     None \<Rightarrow> (s1, Err (BizError CodeInternalError))
                   | Some es \<Rightarrow>
                       (case executeSSHCommand ce2 re now userID ''getent passwd || cat /etc/passwd'' isRootMode s1 of
                          (s2, r) \<Rightarrow>
                            (let uids = (case r of Inl _ \<Rightarrow> [] | Inr out \<Rightarrow> parse_passwd (Split CHR 0x0A out));
                                 dirs = home_entries uids (fr_Keyword req) realPath es;
                                 n = int (length dirs)
                             in (s2, case home_slice page pageSize dirs of
                                  Inl err \<Rightarrow> Err err
                                | Inr ds \<Rightarrow> Ok \<lparr> fd_Breadcrumb = buildBreadcrumb realPath, fd_Path = realPath, fd_FileList = [],
                                    fd_DirectoryList = ds, fd_Total = n, fd_Pages = page_count n pageSize,
                                    fd_Page = page, fd_PageSize = pageSize \<rparr>))))))"

section \<open>The copy\<close>

lemma Read_progress_spec:
  assumes "Read_progress t0 t1 n err r = (r1, bytes, eof, rep)"
  shows "bytes @ pg_Reader r1 = pg_Reader r" "pg_Uploaded r1 = pg_Uploaded r + int (length bytes)" "pg_Total r1 = pg_Total r"
    "eof \<longleftrightarrow> \<not> err \<and> pg_Reader r = []" "\<not> err \<Longrightarrow> bytes = take n (pg_Reader r)"
    "rep = Some (u, sp, re) \<Longrightarrow> u = pg_Uploaded r1"
  using assms by (auto simp: Read_progress_def Let_def split: if_splits option.splits)

lemma copy_loop_complete:
  "copy_loop calls r written reps = (r', written', reps', True) \<Longrightarrow> written' = written @ pg_Reader r \<and> pg_Uploaded r' = pg_Uploaded r + int (length (pg_Reader r))"
proof (induction calls arbitrary: r written reps)
  case (Cons c calls)
  obtain t0 t1 n f where c: "c = (t0, t1, n, f)" by (metis prod.exhaust)
  obtain r1 bytes eof rep where rd: "Read_progress t0 t1 n (f = ReadFault) r = (r1, bytes, eof, rep)" by (metis prod.exhaust)
  note sp = Read_progress_spec [OF rd]
  show ?case
  proof (cases eof)
    case True
    then show ?thesis using Cons.prems rd sp by (auto simp: c Let_def split: if_splits)
  next
    case False
    then have "copy_loop calls r1 (written @ bytes) (reps @ (case rep of None \<Rightarrow> [] | Some p \<Rightarrow> [(t1, p)])) = (r', written', reps', True)"
      using Cons.prems rd by (auto simp: c Let_def split: if_splits)
    from Cons.IH [OF this]
    have "written' = (written @ bytes) @ pg_Reader r1 \<and> pg_Uploaded r' = pg_Uploaded r1 + int (length (pg_Reader r1))" .
    then show ?thesis using sp(1,2) by (metis append.assoc length_append of_nat_add add.assoc)
  qed
qed simp

lemma copy_loop_ends:
  assumes "list_all (\<lambda>(_, _, n, f). 0 < n \<and> f = NoFault) calls" "length (pg_Reader r) < length calls"
  shows "\<exists>r' written' reps'. copy_loop calls r written reps = (r', written', reps', True)"
  using assms
proof (induction calls arbitrary: r written reps)
  case (Cons c calls)
  obtain t0 t1 n f where c: "c = (t0, t1, n, f)" by (metis prod.exhaust)
  obtain r1 bytes eof rep where rd: "Read_progress t0 t1 n (f = ReadFault) r = (r1, bytes, eof, rep)" by (metis prod.exhaust)
  note sp = Read_progress_spec [OF rd]
  have f: "f = NoFault" "0 < n" using Cons.prems(1) by (auto simp: c)
  show ?case
  proof (cases eof)
    case False
    then have "bytes \<noteq> []" using sp(4,5) f by auto
    moreover have "length (pg_Reader r) = length bytes + length (pg_Reader r1)" using sp(1) by (metis length_append)
    ultimately have "length (pg_Reader r1) < length calls" using Cons.prems(2) by (cases bytes) auto
    then show ?thesis using Cons.IH Cons.prems(1) False f rd by (auto simp: c Let_def)
  qed (use f rd in \<open>auto simp: c\<close>)
qed simp

lemma copy_loop_reports:
  assumes "copy_loop calls r written reps = (r', written', reps', ok)"
  shows "\<exists>new. reps' = reps @ new \<and> sorted (map (\<lambda>x. fst (snd x)) new) \<and> pg_Uploaded r \<le> pg_Uploaded r' \<and>
    pg_Uploaded r' \<le> pg_Uploaded r + int (length (pg_Reader r)) \<and> (\<forall>x \<in> set new. pg_Uploaded r \<le> fst (snd x) \<and> fst (snd x) \<le> pg_Uploaded r')"
  using assms
proof (induction calls arbitrary: r written reps)
  case (Cons c calls)
  obtain t0 t1 n f where c: "c = (t0, t1, n, f)" by (metis prod.exhaust)
  obtain r1 bytes eof rep where rd: "Read_progress t0 t1 n (f = ReadFault) r = (r1, bytes, eof, rep)" by (metis prod.exhaust)
  note sp = Read_progress_spec [OF rd]
  let ?one = "case rep of None \<Rightarrow> [] | Some p \<Rightarrow> [(t1, p)]"
  have one: "sorted (map (\<lambda>x. fst (snd x)) ?one)" "\<forall>x \<in> set ?one. fst (snd x) = pg_Uploaded r1"
    using sp(6) by (auto split: option.splits)
  have len: "int (length (pg_Reader r)) = int (length bytes) + int (length (pg_Reader r1))" using sp(1) by (metis length_append of_nat_add)
  show ?case
  proof (cases "f = ReadFault \<or> f = WriteFault \<or> eof")
    case True
    then have "r' = r1" "reps' = reps @ ?one" using Cons.prems rd by (auto simp: c Let_def split: if_splits)
    then show ?thesis using one len sp(2) by (intro exI [of _ ?one]) (auto split: option.splits)
  next
    case False
    then have "copy_loop calls r1 (written @ bytes) (reps @ ?one) = (r', written', reps', ok)"
      using Cons.prems rd by (auto simp: c Let_def split: if_splits)
    from Cons.IH [OF this] obtain new where
      new: "reps' = (reps @ ?one) @ new" "sorted (map (\<lambda>x. fst (snd x)) new)" "pg_Uploaded r1 \<le> pg_Uploaded r'"
        "pg_Uploaded r' \<le> pg_Uploaded r1 + int (length (pg_Reader r1))" "\<forall>x \<in> set new. pg_Uploaded r1 \<le> fst (snd x) \<and> fst (snd x) \<le> pg_Uploaded r'"
      by blast
    have "sorted (map (\<lambda>x. fst (snd x)) (?one @ new))" using one new(2,5) by (cases rep) auto
    moreover have "\<forall>x \<in> set (?one @ new). pg_Uploaded r \<le> fst (snd x) \<and> fst (snd x) \<le> pg_Uploaded r'"
      using one(2) new(3,5) sp(2) by (cases rep) fastforce+
    ultimately show ?thesis using new(1,3,4) len sp(2) by (intro exI [of _ "?one @ new"]) simp
  qed
qed simp

section \<open>What is shown during an upload\<close>

lemma usage_percent_mono:
  assumes "u \<le> v"
  shows "usage_percent u tot \<le> usage_percent v tot"
proof -
  have "f64 (of_int u) / f64 (of_int tot) \<le> f64 (of_int v) / f64 (of_int tot)" if "0 < tot"
    using that assms by (intro divide_right_mono f64_mono f64_nonneg) simp_all
  then show ?thesis by (auto simp: usage_percent_def fmul_def fdiv_def intro!: f64_mono mult_right_mono)
qed

definition new_reader :: "string \<Rightarrow> int \<Rightarrow> ProgressReader" where
  "new_reader content tot = \<lparr> pg_Reader = content, pg_Total = tot, pg_Uploaded = 0, pg_lastReport = 0, pg_startTime = None \<rparr>"

lemma new_reader_sel [simp]: "pg_Reader (new_reader content tot) = content" "pg_Uploaded (new_reader content tot) = 0"
  by (simp_all add: new_reader_def)

text \<open>
  C36: The progress of an upload never runs backwards and never leaves its range. Whatever the
  network does, the reports of one upload of a file of the announced size show a number of
  transferred bytes that does not decrease and is at most the size, and a percentage between 0
  and 100 that does not decrease either.
\<close>

theorem upload_progress_bounds:
  assumes copy: "copy_loop calls (new_reader content (ut_totalSize t)) [] [] = (r, written, reps, ok)"
    and size: "ut_totalSize t = int (length content)"
    and shown: "ps = map (\<lambda>(now, u, sp, re). progress_data t ''uploading'' u sp re []) reps"
  shows "sorted (map upd_Uploaded ps) \<and> sorted (map upd_Progress ps) \<and>
    (\<forall>p \<in> set ps. 0 \<le> upd_Uploaded p \<and> upd_Uploaded p \<le> upd_Total p \<and> 0 \<le> upd_Progress p \<and> upd_Progress p \<le> 100)"
proof -
  obtain new where new: "reps = [] @ new" "sorted (map (\<lambda>x. fst (snd x)) new)" "pg_Uploaded r \<le> 0 + int (length content)"
    "\<forall>x \<in> set new. 0 \<le> fst (snd x) \<and> fst (snd x) \<le> pg_Uploaded r"
    using copy_loop_reports [OF copy] by auto
  have up: "map upd_Uploaded ps = map (\<lambda>x. fst (snd x)) reps" "map upd_Progress ps = map (\<lambda>u. usage_percent u (ut_totalSize t)) (map (\<lambda>x. fst (snd x)) reps)"
    unfolding shown by (auto simp: progress_data_def split: prod.splits)
  have "sorted (map (\<lambda>u. usage_percent u (ut_totalSize t)) (map (\<lambda>x. fst (snd x)) reps))"
    using new(1,2) by (simp add: sorted_map_mono usage_percent_mono sorted_wrt_map) (auto simp: sorted_wrt_iff_nth_less usage_percent_mono)
  moreover have "0 \<le> upd_Uploaded p \<and> upd_Uploaded p \<le> upd_Total p \<and> 0 \<le> upd_Progress p \<and> upd_Progress p \<le> 100" if p: "p \<in> set ps" for p
  proof -
    obtain x where x: "x \<in> set reps" "upd_Uploaded p = fst (snd x)" "upd_Total p = ut_totalSize t" "upd_Progress p = usage_percent (fst (snd x)) (ut_totalSize t)"
      using p unfolding shown by (auto simp: progress_data_def split: prod.splits)
    then have "0 \<le> fst (snd x)" "fst (snd x) \<le> ut_totalSize t" using new size by fastforce+
    then show ?thesis using x usage_percent_bounds by simp
  qed
  ultimately show ?thesis using new(1,2) up by simp
qed

definition demo_task :: upload_task where
  "demo_task = \<lparr> ut_userID = 4, ut_tempFilePath = ''uploads/temp/1'', ut_originalFilename = ''a.txt'', ut_targetPath = ''data'',
     ut_isRootMode = False, ut_totalSize = 3 \<rparr>"

definition demo_calls :: "(int \<times> int \<times> nat \<times> copy_fault) list" where
  "demo_calls = [(0, 2000000000, 2, NoFault), (2000000000, 4000000000, 2, NoFault), (4000000000, 4000000001, 2, NoFault), (0, 0, 1, NoFault)]"

theorem upload_progress_bounds_witness:
  "case copy_loop demo_calls (new_reader ''abc'' 3) [] [] of (r, written, reps, ok) \<Rightarrow>
     sorted (map upd_Uploaded (map (\<lambda>(now, u, sp, re). progress_data demo_task ''uploading'' u sp re []) reps)) \<and>
     map (\<lambda>x. fst (snd x)) reps = [2, 3] \<and> written = ''abc'' \<and> ok"
proof -
  obtain r written reps ok where 1: "copy_loop demo_calls (new_reader ''abc'' 3) [] [] = (r, written, reps, ok)" by (metis prod.exhaust)
  have "case copy_loop demo_calls (new_reader ''abc'' 3) [] [] of (r, written, reps, ok) \<Rightarrow> map (\<lambda>x. fst (snd x)) reps = [2, 3] \<and> written = ''abc'' \<and> ok"
    by code_simp
  moreover have "ut_totalSize demo_task = 3" by (simp add: demo_task_def)
  ultimately show ?thesis using upload_progress_bounds [of demo_calls "''abc''" demo_task r written reps ok, OF _ _ refl] 1 by simp
qed

section \<open>The outcome of an upload\<close>

lemma report_all_frame:
  "up_files (report_all e k key t reps s) = up_files s" "up_remote (report_all e k key t reps s) = up_remote s"
  "up_temp (report_all e k key t reps s) = up_temp s" "up_tasks (report_all e k key t reps s) = up_tasks s"
  "x \<noteq> key \<Longrightarrow> up_progress (report_all e k key t reps s) x = up_progress s x"
  by (induction e k key t reps s rule: report_all.induct) (simp_all add: reportProgress_def)

lemma reportProgress_simps [simp]:
  "up_files (reportProgress e k now key d s) = up_files s" "up_remote (reportProgress e k now key d s) = up_remote s"
  "up_temp (reportProgress e k now key d s) = up_temp s" "up_tasks (reportProgress e k now key d s) = up_tasks s"
  "\<not> ue_set e k \<Longrightarrow> up_progress (reportProgress e k now key d s) = (up_progress s)(key := Some (d, now + hour_ns))"
  by (simp_all add: reportProgress_def)

text \<open>The file that a task writes, when its path can be resolved, and the key of its progress.\<close>

definition upload_key :: "upload_env \<Rightarrow> upload_task \<Rightarrow> uploads \<Rightarrow> string" where
  "upload_key e t s = snd (getUploadProgressKey (ue_conn e 0) (ue_re e) (ue_now e) (ut_userID t) (ut_originalFilename t) (ut_targetPath t) (ut_isRootMode t) (up_files s))"

definition upload_dir :: "upload_env \<Rightarrow> upload_task \<Rightarrow> string \<Rightarrow> bool" where
  "upload_dir e t resolved = (\<exists>f f'. resolvePath (ue_conn e 2) (ue_re e) (ue_now e) (ut_userID t) (ut_targetPath t) (ut_isRootMode t) f = (f', Ok resolved))"

text \<open>What a finished upload left: the whole file, or an error and nothing new but an empty or broken file.\<close>

definition delivered_file :: "upload_task \<Rightarrow> string \<Rightarrow> string \<Rightarrow> uploads \<Rightarrow> uploads \<Rightarrow> UploadProgressData \<Rightarrow> bool" where
  "delivered_file t resolved content s s' p = (upd_Status p = ''completed'' \<and> upd_Error p = [] \<and> upd_Uploaded p = ut_totalSize t \<and>
     up_remote s' = (up_remote s)(path_Join [resolved, ut_originalFilename t] := Some content))"

definition failed_upload :: "upload_env \<Rightarrow> upload_task \<Rightarrow> uploads \<Rightarrow> uploads \<Rightarrow> UploadProgressData \<Rightarrow> bool" where
  "failed_upload e t s s' p = (upd_Status p = ''failed'' \<and> upd_Error p \<noteq> [] \<and>
     (up_remote s' = up_remote s \<or> (\<exists>resolved. upload_dir e t resolved \<and>
        up_remote s' = (up_remote s)(path_Join [resolved, ut_originalFilename t] :=
          (if \<not> ue_open e \<or> up_temp s (ut_tempFilePath t) = None then Some [] else if ue_remove e then None else Some (ue_partial e))))))"

lemma upload_stream_outcome:
  assumes "\<And>k. \<not> ue_set e k" "upload_stream e key t resolved dst content s = s'"
  shows "\<exists>p. up_progress s' key = Some (p, ue_now e + hour_ns) \<and> up_temp s' = up_temp s \<and> (\<forall>x. x \<noteq> key \<longrightarrow> up_progress s' x = up_progress s x) \<and>
    (upd_Status p = ''completed'' \<and> upd_Error p = [] \<and> upd_Uploaded p = ut_totalSize t \<and> up_remote s' = (up_remote s)(dst := Some content) \<and>
       up_files s' = invalidateFileListCache (ue_re e) (ut_userID t) (ut_isRootMode t) resolved (up_files s) \<or>
     upd_Status p = ''failed'' \<and> upd_Error p \<noteq> [] \<and> up_remote s' = (up_remote s)(dst := (if ue_remove e then None else Some (ue_partial e))))"
proof -
  obtain r written reps ok where c: "copy_loop (ue_calls e) (new_reader content (ut_totalSize t)) [] [] = (r, written, reps, ok)" by (metis prod.exhaust)
  have w: "ok \<Longrightarrow> written = content" using copy_loop_complete [of "ue_calls e" "new_reader content (ut_totalSize t)" "[]" "[]"] c by auto
  show ?thesis
    using assms(2) w unfolding upload_stream_def new_reader_def [symmetric] c
    by (cases ok) (auto simp: Let_def report_all_frame assms(1) progress_data_def)
qed

lemma upload_steps_outcome:
  assumes "\<And>k. \<not> ue_set e k" "up_temp s (ut_tempFilePath t) = Some content" "upload_steps e t s = s'"
  shows "\<exists>p. up_progress s' (upload_key e t s) = Some (p, ue_now e + hour_ns) \<and> up_temp s' = up_temp s \<and>
    (\<forall>x. x \<noteq> upload_key e t s \<longrightarrow> up_progress s' x = up_progress s x) \<and>
    ((\<exists>resolved. upload_dir e t resolved \<and> delivered_file t resolved content s s' p) \<or> failed_upload e t s s' p)"
proof -
  obtain f0 where k: "getUploadProgressKey (ue_conn e 0) (ue_re e) (ue_now e) (ut_userID t) (ut_originalFilename t) (ut_targetPath t) (ut_isRootMode t) (up_files s)
      = (f0, upload_key e t s)" unfolding upload_key_def by (metis prod.collapse)
  obtain f1 r1 where g: "getSftpClient (ue_conn e 1) (ue_now e) (ut_userID t) (ut_isRootMode t) f0 = (f1, r1)" by fastforce
  obtain f2 r2 where q: "resolvePath (ue_conn e 2) (ue_re e) (ue_now e) (ut_userID t) (ut_targetPath t) (ut_isRootMode t) f1 = (f2, r2)" by fastforce
  note step = assms(3) [unfolded upload_steps_def Let_def k prod.case g q, symmetric]
  show ?thesis
  proof (cases "is_ok r1 \<and> is_ok r2")
    case False
    then show ?thesis using step assms(1) by (cases r1; cases r2) (auto simp: Let_def failed_upload_def progress_data_def)
  next
    case True
    then obtain resolved where r: "is_ok r1" "r2 = Ok resolved" by (auto simp: is_ok_iff)
    then have dir: "upload_dir e t resolved" using q by (auto simp: upload_dir_def)
    let ?s = "s\<lparr> up_files := f2, up_remote := (up_remote s)(path_Join [resolved, ut_originalFilename t] := Some []) \<rparr>"
    show ?thesis
    proof (cases "ue_mkdir e resolved \<and> ue_create e (path_Join [resolved, ut_originalFilename t]) \<and> ue_open e")
      case True
      then have "upload_stream e (upload_key e t s) t resolved (path_Join [resolved, ut_originalFilename t]) content ?s = s'"
        using step r assms(2) by (auto simp: is_ok_iff Let_def)
      from upload_stream_outcome [OF assms(1) this] show ?thesis
        using dir True assms(2) by (auto simp: delivered_file_def failed_upload_def)
    next
      case False
      then show ?thesis using step r assms(1,2) dir by (auto simp: is_ok_iff Let_def failed_upload_def progress_data_def)
    qed
  qed
qed

text \<open>A machine that answers and a transfer in which each call of Read delivers something, until the end.\<close>

definition good_upload :: "upload_env \<Rightarrow> upload_task \<Rightarrow> string \<Rightarrow> bool" where
  "good_upload e t content \<longleftrightarrow> (\<forall>k. conn_ok (ue_conn e k)) \<and> (\<forall>f. is_ok (snd (resolvePath (ue_conn e 2) (ue_re e) (ue_now e) (ut_userID t) (ut_targetPath t) (ut_isRootMode t) f))) \<and>
     (\<forall>p. ue_mkdir e p) \<and> (\<forall>p. ue_create e p) \<and> ue_open e \<and>
     list_all (\<lambda>(_, _, n, f). 0 < n \<and> f = NoFault) (ue_calls e) \<and> length content < length (ue_calls e)"

lemma good_upload_completes:
  assumes sets: "\<And>k. \<not> ue_set e k" and temp: "up_temp s (ut_tempFilePath t) = Some content" and good: "good_upload e t content"
    and run: "up_progress (upload_steps e t s) (upload_key e t s) = Some (p, x)"
  shows "upd_Status p = ''completed''"
proof -
  obtain f0 where k: "getUploadProgressKey (ue_conn e 0) (ue_re e) (ue_now e) (ut_userID t) (ut_originalFilename t) (ut_targetPath t) (ut_isRootMode t) (up_files s)
      = (f0, upload_key e t s)" unfolding upload_key_def by (metis prod.collapse)
  obtain f1 where g: "getSftpClient (ue_conn e 1) (ue_now e) (ut_userID t) (ut_isRootMode t) f0 = (f1, Ok ())"
    using good sftp_ok unfolding good_upload_def by blast
  obtain f2 resolved where q: "resolvePath (ue_conn e 2) (ue_re e) (ue_now e) (ut_userID t) (ut_targetPath t) (ut_isRootMode t) f1 = (f2, Ok resolved)"
    using good unfolding good_upload_def is_ok_iff by (metis prod.collapse)
  obtain r written reps where c: "copy_loop (ue_calls e) (new_reader content (ut_totalSize t)) [] [] = (r, written, reps, True)"
    using copy_loop_ends [of "ue_calls e" "new_reader content (ut_totalSize t)" "[]" "[]"] good unfolding good_upload_def new_reader_sel by blast
  have "ue_mkdir e resolved" "ue_create e (path_Join [resolved, ut_originalFilename t])" "ue_open e" using good by (simp_all add: good_upload_def)
  then show ?thesis
    using run temp sets unfolding upload_steps_def Let_def k prod.case g q sum.case upload_stream_def new_reader_def [symmetric]
    by (auto simp: c progress_data_def)
qed


definition demo_upload_env :: "copy_fault \<Rightarrow> upload_env" where
  "demo_upload_env f = \<lparr> ue_conn = (\<lambda>_. bob_env), ue_re = demo_remote, ue_now = 9, ue_set = (\<lambda>_. False), ue_mkdir = (\<lambda>_. True),
     ue_create = (\<lambda>_. True), ue_open = True, ue_calls = [(0, 1, 2, f), (1, 2, 2, NoFault), (2, 3, 2, NoFault), (3, 4, 2, NoFault)], ue_partial = ''a'', ue_remove = True, ue_unlink = True \<rparr>"

definition demo_uploads :: "string \<Rightarrow> uploads" where
  "demo_uploads content = \<lparr> up_files = no_files, up_progress = (\<lambda>_. None), up_remote = [''/home/bob/data/a.txt'' \<mapsto> ''old''],
     up_temp = [''uploads/temp/1'' \<mapsto> content], up_tasks = [] \<rparr>"

lemma demo_good: "good_upload (demo_upload_env NoFault) demo_task ''abc''"
proof -
  have "conn_ok bob_env" by code_simp
  moreover have "is_ok (snd (resolvePath bob_env demo_remote 9 4 ''data'' False f))" for f
  proof -
    obtain f' z where s: "getOrReconnectSession bob_env 9 4 False f = (f', Ok z)" using conn_ok_session \<open>conn_ok bob_env\<close> by blast
    then have z: "fz_Username z = ''bob''" using getOrReconnect_session [OF s] bob_facts(1) unfolding session_of_def by blast
    have "is_ok (user_path (home_dir demo_remote ''bob'') (TrimSpace ''data''))" by code_simp
    moreover have "re_stat demo_remote h = Exists" for h by (simp add: demo_remote_def)
    ultimately show ?thesis using s z by (simp add: resolvePath_def Let_def ensure_home_def)
  qed
  moreover have "list_all (\<lambda>(_, _, n, f). 0 < n \<and> f = NoFault) (ue_calls (demo_upload_env NoFault))" "length ''abc'' < length (ue_calls (demo_upload_env NoFault))"
    by code_simp+
  ultimately show ?thesis by (simp add: good_upload_def demo_upload_env_def demo_task_def)
qed


section \<open>Where uploads and lists go wrong\<close>

text \<open>
  The target is truncated before the transfer and removed when the transfer fails: replacing a
  file over a connection that breaks destroys the old file.
\<close>

lemma failed_upload_destroys_file:
  "up_remote (demo_uploads ''abc'') ''/home/bob/data/a.txt'' = Some ''old'' \<and>
   up_remote (asyncUploadToSFTP (demo_upload_env ReadFault) demo_task (demo_uploads ''abc'')) ''/home/bob/data/a.txt'' = None"
  by code_simp

text \<open>A completed upload of an empty file is shown with 0 percent.\<close>

lemma empty_upload_shows_zero:
  "map_option (\<lambda>(p, _). (upd_Status p, upd_Progress p))
     (up_progress (asyncUploadToSFTP (demo_upload_env NoFault) (demo_task\<lparr> ut_totalSize := 0 \<rparr>) (demo_uploads [])) ''upload:progress:4:a.txt:/home/bob/data'')
   = Some (''completed'', 0)"
  by code_simp

text \<open>
  The progress is stored under the name of the file and asked for under the trimmed name: the
  progress of a file whose name begins or ends with a blank is never found.
\<close>

lemma blank_name_progress_lost:
  "case GetUploadProgress (\<lambda>s. s) False (\<lambda>_. False) access_demo bob_env demo_remote False 10 4 '' a.txt'' ''data''
     (asyncUploadToSFTP (demo_upload_env NoFault) (demo_task\<lparr> ut_originalFilename := '' a.txt'' \<rparr>) (demo_uploads ''abc'')) of
   (_, Inr p) \<Rightarrow> upd_Status p = ''unknown'' | _ \<Rightarrow> False"
  by code_simp

text \<open>The prefix test of the list of home directories admits directories beside the base path.\<close>

lemma home_list_admits_sibling: "home_path ''/home'' ''../home2/secret'' = Ok ''/home2/secret''"
  by code_simp

text \<open>A page number whose offset exceeds 64 bits makes the slice expression panic.\<close>

lemma home_list_panics: "home_slice 4611686018427387905 2 [7 :: int] = Err (Panic ''slice bounds'')"
  by code_simp

end
