(* ===== verification/FileHandlers.thy ===== *)
theory FileHandlers
  imports Uploads
begin

text \<open>
  The handlers of files: internal/api/v1/files/controller.go on top of the file service.

  A handler gets the id of the user from the token, the decoded request, and the answers of
  the stores and of the machine. Decoding is a parameter: a record of what each way of binding gives. The
  answer of a handler is its data or the code of an error response.
\<close>

section \<open>Requests\<close>

text \<open>Errors other than business errors are answered with the code of an internal error.\<close>

definition biz_answer :: "'a result \<Rightarrow> 'a result" where
  "biz_answer r = (case r of Inl (BizError c) \<Rightarrow> Err (BizError c) | Inl _ \<Rightarrow> Err (BizError CodeInternalError) | Inr x \<Rightarrow> Ok x)"

text \<open>The value of strconv.Atoi when its error is ignored: 0 for a wrong syntax, a limit out of range.\<close>

definition atoi_value :: "string \<Rightarrow> int" where
  "atoi_value t = (case Atoi t of Some v \<Rightarrow> v
     | None \<Rightarrow> (case t of [] \<Rightarrow> 0
         | c # cs \<Rightarrow> if read_digits (if c = CHR ''-'' \<or> c = CHR ''+'' then cs else t) = None then 0
                    else if c = CHR ''-'' then int_min else int_max))"

record list_query =
  ls_query :: "FileListRequest option"
  ls_path :: string
  ls_pageSize :: string
  ls_json :: "FileListRequest \<Rightarrow> FileListRequest"

definition list_request :: "list_query \<Rightarrow> FileListRequest option" where
  "list_request q = (case ls_query q of
     None \<Rightarrow> None
   | Some req \<Rightarrow>
       (let r1 = (if ls_path q \<noteq> [] then req\<lparr> fr_Path := path_Clean (ls_path q) \<rparr> else req);
            r2 = (if fr_PageSize r1 = 0 \<and> ls_pageSize q \<noteq> [] \<and> atoi_value (ls_pageSize q) > 0
                  then r1\<lparr> fr_PageSize := atoi_value (ls_pageSize q) \<rparr> else r1)
        in Some (if fr_Path r2 = [] \<and> fr_Page r2 = 0 \<and> fr_PageSize r2 = 0 then ls_json q r2 else r2)))"

text \<open>A request for a path: from the query, else from the body. None is a failed binding.\<close>

record path_query =
  ph_query :: "string option"
  ph_json :: "string option"

definition path_request :: "path_query \<Rightarrow> string option" where
  "path_request q = (case (case ph_query q of Some p \<Rightarrow> Some p | None \<Rightarrow> ph_json q) of
     None \<Rightarrow> None
   | Some p \<Rightarrow> Some (if p = [] then (case ph_json q of Some b \<Rightarrow> b | None \<Rightarrow> []) else p))"

section \<open>Handlers\<close>

record file_env =
  fe_w :: collation
  fe_uerr :: bool
  fe_ferr :: "nat \<Rightarrow> bool"
  fe_dir :: directory
  fe_conn :: "nat \<Rightarrow> conn_env"
  fe_re :: remote_env
  fe_now :: int

definition file_access :: "file_env \<Rightarrow> int \<Rightarrow> bool result" where
  "file_access fe userID = HasSystemAccess (fe_w fe) (fe_uerr fe) (fe_ferr fe) (fe_dir fe) userID AccessTypeFile"

text \<open>The common part: the mode of the user, the call of the service, its answer.\<close>

definition in_file_mode :: "file_env \<Rightarrow> int \<Rightarrow> (bool \<Rightarrow> 's \<Rightarrow> 's \<times> 'a result) \<Rightarrow> 's \<Rightarrow> 's \<times> 'a result" where
  "in_file_mode fe userID call s = (case file_access fe userID of
     Inl err \<Rightarrow> (s, biz_answer (Err err))
   | Inr isRootMode \<Rightarrow> (case call isRootMode s of (s1, r) \<Rightarrow> (s1, biz_answer r)))"

definition ctrl_GetFileList :: "file_env \<Rightarrow> int \<Rightarrow> list_query \<Rightarrow> fileService \<Rightarrow> fileService \<times> FilesListData result" where
  "ctrl_GetFileList fe userID q s =
     (if userID = 0 then (s, Err (BizError CodeUnauthorized))
      else case list_request q of
        None \<Rightarrow> (s, Err (BizError CodeBadRequest))
      | Some req \<Rightarrow> in_file_mode fe userID (\<lambda>root. GetFileList (fe_conn fe 0) (fe_conn fe 1) (fe_conn fe 2) (fe_re fe) (fe_now fe) userID req root) s)"

definition ctrl_GetDiskUsage :: "file_env \<Rightarrow> disk_env \<Rightarrow> int \<Rightarrow> path_query \<Rightarrow> disk_service \<Rightarrow> disk_service \<times> DiskUsageData result" where
  "ctrl_GetDiskUsage fe e userID q s =
     (if userID = 0 then (s, Err (BizError CodeUnauthorized))
      else case path_request q of
        None \<Rightarrow> (s, Err (BizError CodeBadRequest))
      | Some p \<Rightarrow> (if p = [] then (s, Err (BizError CodeBadRequest))
          else in_file_mode fe userID (\<lambda>root. GetDiskUsage e userID p root) s))"

definition ctrl_ListHomeDirectories :: "file_env \<Rightarrow> int \<Rightarrow> list_query \<Rightarrow> fileService \<Rightarrow> fileService \<times> FilesListData result" where
  "ctrl_ListHomeDirectories fe userID q s =
     (if userID = 0 then (s, Err (BizError CodeUnauthorized))
      else case list_request q of
        None \<Rightarrow> (s, Err (BizError CodeBadRequest))
      | Some req \<Rightarrow> (case GetHomeDirectoriesList (fe_conn fe 0) (fe_conn fe 1) (fe_re fe) (fe_now fe) userID req True s of
          (s1, r) \<Rightarrow> (s1, biz_answer r)))"

definition ctrl_CalculateSize :: "file_env \<Rightarrow> disk_env \<Rightarrow> int \<Rightarrow> path_query \<Rightarrow> disk_service \<Rightarrow> disk_service \<times> (int \<times> string \<times> rat) result" where
  "ctrl_CalculateSize fe e userID q s =
     (case path_request q of
        None \<Rightarrow> (s, Err (BizError CodeBadRequest))
      | Some p \<Rightarrow> in_file_mode fe userID (\<lambda>root. CalculateSize e userID p root) s)"

definition ctrl_DeleteFile :: "file_env \<Rightarrow> int \<Rightarrow> string option \<Rightarrow> fileService \<Rightarrow> fileService \<times> unit result" where
  "ctrl_DeleteFile fe userID path s =
     (case path of
        None \<Rightarrow> (s, Err (BizError CodeBadRequest))
      | Some p \<Rightarrow> in_file_mode fe userID (\<lambda>root. DeleteFile (fe_conn fe 0) (fe_conn fe 1) (fe_conn fe 2) (fe_re fe) (fe_now fe) userID p root) s)"

text \<open>
  The form of an upload: the name that the browser sent, the content and the target. The
  multipart library keeps only the last component of the name. \<open>opened\<close> tells whether the part could
  be opened; the size in its header is that of the content.
\<close>

record upload_form =
  uf_name :: string
  uf_content :: string
  uf_TargetPath :: string

definition ctrl_UploadFile ::
  "file_env \<Rightarrow> bool \<Rightarrow> bool \<Rightarrow> string option \<Rightarrow> bool \<Rightarrow> int \<Rightarrow> upload_form option \<Rightarrow> uploads \<Rightarrow> uploads \<times> string result" where
  "ctrl_UploadFile fe opened mkdir temp copied userID form s =
     (case form of
        None \<Rightarrow> (s, Err (BizError CodeBadRequest))
      | Some f \<Rightarrow>
          (if \<not> opened then (s, Err (BizError CodeBadRequest))
           else in_file_mode fe userID (\<lambda>root. UploadFile mkdir temp copied userID (uf_content f) (path_Base (uf_name f)) (int (length (uf_content f))) (uf_TargetPath f) root) s))"

definition ctrl_GetUploadProgress ::
  "file_env \<Rightarrow> bool \<Rightarrow> int \<Rightarrow> (string \<times> string) option \<Rightarrow> uploads \<Rightarrow> uploads \<times> UploadProgressData result" where
  "ctrl_GetUploadProgress fe gerr userID q s =
     (case q of
        None \<Rightarrow> (s, Err (BizError CodeBadRequest))
      | Some (filename, targetPath) \<Rightarrow>
          (case GetUploadProgress (fe_w fe) (fe_uerr fe) (fe_ferr fe) (fe_dir fe) (fe_conn fe 0) (fe_re fe) gerr (fe_now fe) userID filename targetPath s of
             (s1, r) \<Rightarrow> (s1, biz_answer r)))"

text \<open>url.QueryEscape, and the download with its headers and body.\<close>

definition unreserved :: "char \<Rightarrow> bool" where
  "unreserved c = (is_digit c \<or> c \<in> set ''abcdefghijklmnopqrstuvwxyzABCDEFGHIJKLMNOPQRSTUVWXYZ-_.~'')"

definition hex_digit :: "nat \<Rightarrow> char" where
  "hex_digit n = ''0123456789ABCDEF'' ! (n mod 16)"

definition QueryEscape :: "string \<Rightarrow> string" where
  "QueryEscape t = concat (map (\<lambda>c. if unreserved c then [c] else if c = CHR '' '' then ''+''
     else [CHR ''%'', hex_digit (of_char c div 16), hex_digit (of_char c)]) t)"

record download =
  dn_Disposition :: string
  dn_Length :: string
  dn_body :: string

definition send_download :: "(string \<Rightarrow> string) \<Rightarrow> string \<times> string \<times> int \<times> int \<Rightarrow> download" where
  "send_download sent = (\<lambda>(content, filename, fileSize, _). \<lparr> dn_Disposition = ''attachment; filename='' @ QueryEscape filename,
     dn_Length = Itoa fileSize, dn_body = sent content \<rparr>)"

definition ctrl_DownloadFile ::
  "file_env \<Rightarrow> (string \<Rightarrow> string option) \<Rightarrow> (int \<times> int) option \<Rightarrow> (string \<Rightarrow> string) \<Rightarrow> int \<Rightarrow> path_query \<Rightarrow> fileService \<Rightarrow> fileService \<times> download result" where
  "ctrl_DownloadFile fe opens stat sent userID q s =
     (case path_request q of
        None \<Rightarrow> (s, Err (BizError CodeBadRequest))
      | Some p \<Rightarrow>
          (if p = [] \<and> ph_json q = None then (s, Err (BizError CodeBadRequest))
           else in_file_mode fe userID (\<lambda>root s. map_prod id (map_sum id (send_download sent))
                (DownloadFile (fe_conn fe 0) (fe_conn fe 1) (fe_re fe) opens stat (fe_now fe) userID p root s)) s))"

definition ctrl_UnzipFile :: "file_env \<Rightarrow> int \<Rightarrow> (string \<times> string) option \<Rightarrow> fileService \<Rightarrow> fileService \<times> unit result" where
  "ctrl_UnzipFile fe userID req s =
     (case req of
        None \<Rightarrow> (s, Err (BizError CodeBadRequest))
      | Some (p, targetPath) \<Rightarrow> in_file_mode fe userID (\<lambda>root. UnzipFile (fe_conn fe 0) (fe_conn fe 1) (fe_conn fe 2) (fe_conn fe 3) (fe_re fe) (fe_now fe) userID p targetPath root) s)"

definition ctrl_GetAllUsersDiskUsage ::
  "(nat \<Rightarrow> root_env) \<Rightarrow> (nat \<Rightarrow> bool) \<Rightarrow> (nat \<Rightarrow> bool) \<Rightarrow> bool \<Rightarrow> bool \<Rightarrow> string \<Rightarrow> directory \<Rightarrow> disk_service \<Rightarrow> disk_service \<times> UserDiskUsageData list result" where
  "ctrl_GetAllUsersDiskUsage re gerr serr cerr ferr basePath d s =
     (case GetAllUsersDiskUsage re gerr serr cerr ferr basePath d s of (s1, r) \<Rightarrow> (s1, biz_answer r))"

section \<open>Handlers of normal users stay at home\<close>

lemma in_file_mode_cases:
  assumes "in_file_mode fe u call s = (s', r)" "file_access fe u \<noteq> Ok True"
  shows "s' = s \<and> \<not> is_ok r \<or> (\<exists>r0. call False s = (s', r0) \<and> r = biz_answer r0)"
  using assms by (cases "file_access fe u") (auto simp: in_file_mode_def biz_answer_def split: error.splits prod.splits)

lemma biz_answer_Ok [simp]: "biz_answer r = Ok x \<longleftrightarrow> r = Ok x"
  by (auto simp: biz_answer_def split: sum.splits error.splits)

lemma in_file_mode_Ok:
  "in_file_mode fe u call s = (s', Ok x) \<Longrightarrow> file_access fe u \<noteq> Ok True \<Longrightarrow> call False s = (s', Ok x)"
  using in_file_mode_cases [of fe u call s s' "Ok x"] by (auto dest: sym)

lemma map_Ok: "map_prod id (map_sum id f) y = (s, Ok x) \<longleftrightarrow> (\<exists>v. y = (s, Ok v) \<and> x = f v)"
  by (cases y; cases "snd y") auto

lemma path_Base_free: "path_Base p = ''/'' \<or> (path_Base p \<noteq> [] \<and> CHR ''/'' \<notin> set (path_Base p))"
  by (auto simp: path_Base_def Let_def dest: set_takeWhileD)

lemma Join_Base:
  assumes "list_all proper_part qs" "path_Base n \<noteq> ''..''"
  shows "\<exists>ts. path_Join [abs_path qs, path_Base n] = abs_path (qs @ ts) \<and> list_all proper_part (qs @ ts)"
proof -
  let ?b = "path_Base n"
  have b: "?b = ''/'' \<or> (?b \<noteq> [] \<and> CHR ''/'' \<notin> set ?b)" by (rule path_Base_free)
  then have "Split CHR ''/'' ?b = (if ?b = ''/'' then [[], []] else [?b])" by (auto simp: Split_free)
  moreover have "clean_parts True (qs @ [[], []]) = qs" "clean_parts True (qs @ [''.'']) = qs"
    using clean_parts_id [OF assms(1)] by (simp_all add: clean_parts_def clean_step_def)
  moreover have "clean_parts True (qs @ [?b]) = qs @ [?b]" if "proper_part ?b"
    using that assms(1) by (intro clean_parts_id) simp
  ultimately have "\<exists>ts. clean_parts True (qs @ Split CHR ''/'' ?b) = qs @ ts"
    using b assms(2) by (cases "?b = ''/'' \<or> ?b = ''.''") (auto simp: proper_part_def)
  then show ?thesis using Join_abs [OF assms(1), of ?b] b by auto
qed

lemma admitted_below: "admitted hs qs \<Longrightarrow> hs \<noteq> [] \<Longrightarrow> admitted hs (qs @ ts)"
  by (cases hs rule: rev_cases) (auto simp: admitted_def nth_append)

lemma upload_stream_remote: "\<exists>c. up_remote (upload_stream e key t resolved dst content s) = (up_remote s)(dst := c)"
  unfolding upload_stream_def Let_def
  by (cases "copy_loop (ue_calls e) \<lparr> pg_Reader = content, pg_Total = ut_totalSize t, pg_Uploaded = 0, pg_lastReport = 0, pg_startTime = None \<rparr> [] []")
    (auto simp: report_all_frame)

lemma upload_remote:
  "up_remote (asyncUploadToSFTP e t s) = up_remote s \<or>
   (\<exists>resolved c. upload_dir e t resolved \<and> up_remote (asyncUploadToSFTP e t s) = (up_remote s)(path_Join [resolved, ut_originalFilename t] := c))"
proof -
  obtain f0 key where k: "getUploadProgressKey (ue_conn e 0) (ue_re e) (ue_now e) (ut_userID t) (ut_originalFilename t) (ut_targetPath t) (ut_isRootMode t) (up_files s)
      = (f0, key)" by fastforce
  obtain f1 r1 where g: "getSftpClient (ue_conn e 1) (ue_now e) (ut_userID t) (ut_isRootMode t) f0 = (f1, r1)" by fastforce
  obtain f2 r2 where q: "resolvePath (ue_conn e 2) (ue_re e) (ue_now e) (ut_userID t) (ut_targetPath t) (ut_isRootMode t) f1 = (f2, r2)" by fastforce
  have stream: "\<exists>c. up_remote (upload_stream e key t x dst y (s\<lparr> up_files := f2, up_remote := (up_remote s)(dst \<mapsto> []) \<rparr>)) = (up_remote s)(dst := c)" for x dst y
    using upload_stream_remote [of e key t x dst y "s\<lparr> up_files := f2, up_remote := (up_remote s)(dst \<mapsto> []) \<rparr>"] by simp
  have "up_remote (upload_steps e t s) = up_remote s \<or> (\<exists>resolved c. r2 = Ok resolved \<and> up_remote (upload_steps e t s) = (up_remote s)(path_Join [resolved, ut_originalFilename t] := c))"
    unfolding upload_steps_def Let_def k prod.case g q by (auto split: sum.splits option.splits if_splits; use stream in blast)
  moreover have "upload_dir e t resolved" if "r2 = Ok resolved" for resolved using q that by (auto simp: upload_dir_def)
  ultimately show ?thesis by (auto simp: asyncUploadToSFTP_def Let_def)
qed

text \<open>
  C34: The handlers keep a user who may not act as root at home. When the check of the access does not
  answer that the user may, for whatever reason, then deleting runs no command but the removal of
  one admitted path, a download sends the content of an admitted file, and an upload changes
  nothing at once while its task, whenever it runs with the sessions of this user, changes at most
  one file, with an admitted path. Admitted are the home directory, what is below it, and, by the
  prefix test of the service, neighbours whose name begins with the name of the user.
\<close>

theorem file_handlers_confined:
  assumes access: "file_access fe u \<noteq> Ok True" and sess: "\<And>k. session_of (fe_conn fe k) name" "name \<noteq> []"
    and base: "re_basePath (fe_re fe) = [] \<or> path_IsAbs (re_basePath (fe_re fe))" "home_parts (fe_re fe) name \<noteq> []"
  defines "at_home qs \<equiv> list_all proper_part qs \<and> admitted (home_parts (fe_re fe) name) qs"
  shows "(\<forall>p s s' r. ctrl_DeleteFile fe u p s = (s', r) \<longrightarrow>
      fs_commands s' = fs_commands s \<or> (\<exists>qs. at_home qs \<and> fs_commands s' = fs_commands s @ [rm_command (abs_path qs)])) \<and>
    (\<forall>opens stat sent q s s' d. ctrl_DownloadFile fe opens stat sent u q s = (s', Ok d) \<longrightarrow>
      (\<exists>qs content. at_home qs \<and> opens (abs_path qs) = Some content \<and> dn_body d = sent content)) \<and>
    (\<forall>opened mkdir temp copied f s s' r. ctrl_UploadFile fe opened mkdir temp copied u (Some f) s = (s', r) \<and> path_Base (uf_name f) \<noteq> ''..'' \<longrightarrow>
      up_remote s' = up_remote s \<and> (\<forall>t \<in> set (up_tasks s') - set (up_tasks s). \<forall>e s2. (\<forall>k. session_of (ue_conn e k) name) \<and> ue_re e = fe_re fe \<longrightarrow>
        up_remote (asyncUploadToSFTP e t s2) = up_remote s2 \<or> (\<exists>qs c. at_home qs \<and> up_remote (asyncUploadToSFTP e t s2) = (up_remote s2)(abs_path qs := c))))"
proof (intro conjI allI impI ballI)
  fix p s s' r assume "ctrl_DeleteFile fe u p s = (s', r)"
  then have "s' = s \<or> (\<exists>p' r0. DeleteFile (fe_conn fe 0) (fe_conn fe 1) (fe_conn fe 2) (fe_re fe) (fe_now fe) u p' False s = (s', r0))"
    using in_file_mode_cases [OF _ access] by (fastforce simp: ctrl_DeleteFile_def split: option.splits)
  then show "fs_commands s' = fs_commands s \<or> (\<exists>qs. at_home qs \<and> fs_commands s' = fs_commands s @ [rm_command (abs_path qs)])"
    using DeleteFile_commands resolvePath_admitted [OF _ sess(1,2) base] unfolding at_home_def by metis
next
  fix opens stat sent q s s' d assume "ctrl_DownloadFile fe opens stat sent u q s = (s', Ok d)"
  then obtain p where "in_file_mode fe u (\<lambda>root s. map_prod id (map_sum id (send_download sent))
      (DownloadFile (fe_conn fe 0) (fe_conn fe 1) (fe_re fe) opens stat (fe_now fe) u p root s)) s = (s', Ok d)"
    by (auto simp: ctrl_DownloadFile_def split: option.splits if_splits)
  then obtain x where "DownloadFile (fe_conn fe 0) (fe_conn fe 1) (fe_re fe) opens stat (fe_now fe) u p False s = (s', Ok x)" "d = send_download sent x"
    using in_file_mode_Ok [OF _ access] by (metis (no_types, lifting) map_Ok)
  then obtain content s1 s2 q' where "resolvePath (fe_conn fe 1) (fe_re fe) (fe_now fe) u p False s1 = (s2, Ok q')" "opens q' = Some content" "dn_body d = sent content"
    by (auto simp: DownloadFile_def send_download_def split: prod.splits sum.splits option.splits)
  then show "\<exists>qs content. at_home qs \<and> opens (abs_path qs) = Some content \<and> dn_body d = sent content"
    using resolvePath_admitted [OF _ sess(1,2) base] unfolding at_home_def by metis
next
  fix opened mkdir temp copied f s s' r
  assume up: "ctrl_UploadFile fe opened mkdir temp copied u (Some f) s = (s', r) \<and> path_Base (uf_name f) \<noteq> ''..''"
  then have "s' = s \<or> (\<exists>r0. UploadFile mkdir temp copied u (uf_content f) (path_Base (uf_name f)) (int (length (uf_content f))) (uf_TargetPath f) False s = (s', r0))"
    using in_file_mode_cases [OF _ access] by (fastforce simp: ctrl_UploadFile_def split: if_splits)
  then have s': "up_remote s' = up_remote s" "\<forall>t \<in> set (up_tasks s') - set (up_tasks s). ut_originalFilename t = path_Base (uf_name f) \<and> \<not> ut_isRootMode t"
    by (auto simp: UploadFile_def split: if_splits option.splits)
  then show "up_remote s' = up_remote s" by simp
  fix t s2 and e :: upload_env assume t: "t \<in> set (up_tasks s') - set (up_tasks s)" "(\<forall>k. session_of (ue_conn e k) name) \<and> ue_re e = fe_re fe"
  have "\<exists>qs. at_home qs \<and> path_Join [resolved, ut_originalFilename t] = abs_path qs" if dir: "upload_dir e t resolved" for resolved
  proof -
    obtain qs where qs: "resolved = abs_path qs" "list_all proper_part qs" "admitted (home_parts (fe_re fe) name) qs"
      using dir t s'(2) resolvePath_admitted [of "ue_conn e 2" "fe_re fe"] sess(2) base unfolding upload_dir_def by metis
    obtain ts where "path_Join [abs_path qs, path_Base (uf_name f)] = abs_path (qs @ ts)" "list_all proper_part (qs @ ts)"
      using Join_Base [OF qs(2)] up by blast
    then show ?thesis using qs(1,3) s'(2) t(1) admitted_below [OF _ base(2)] unfolding at_home_def by metis
  qed
  then show "up_remote (asyncUploadToSFTP e t s2) = up_remote s2 \<or> (\<exists>qs c. at_home qs \<and> up_remote (asyncUploadToSFTP e t s2) = (up_remote s2)(abs_path qs := c))"
    using upload_remote [of e t s2] by metis
qed

definition demo_file_env :: file_env where
  "demo_file_env = \<lparr> fe_w = (\<lambda>s. s), fe_uerr = False, fe_ferr = (\<lambda>_. False), fe_dir = access_demo, fe_conn = (\<lambda>_. bob_env), fe_re = demo_remote, fe_now = 9 \<rparr>"

theorem file_handlers_confined_witness:
  "\<exists>qs content. admitted [''home'', ''bob''] qs \<and> [''/home/bob/a'' \<mapsto> ''x''] (abs_path qs) = Some content \<and> content = ''x''"
proof -
  have "file_access demo_file_env 5 = Ok False" by code_simp
  then have 1: "file_access demo_file_env 5 \<noteq> Ok True" by simp
  have 2: "\<And>k. session_of (fe_conn demo_file_env k) ''bob''" "fe_re demo_file_env = demo_remote" using bob_facts(1) by (simp_all add: demo_file_env_def)
  obtain s' d where d: "ctrl_DownloadFile demo_file_env [''/home/bob/a'' \<mapsto> ''x''] (Some (1, 2)) (\<lambda>c. c) 5 \<lparr> ph_query = Some ''a'', ph_json = None \<rparr> no_files = (s', Ok d)"
    "dn_body d = ''x''"
  proof -
    have "case ctrl_DownloadFile demo_file_env [''/home/bob/a'' \<mapsto> ''x''] (Some (1, 2)) (\<lambda>c. c) 5 \<lparr> ph_query = Some ''a'', ph_json = None \<rparr> no_files of
        (_, Inr d) \<Rightarrow> dn_body d = ''x'' | _ \<Rightarrow> False" by code_simp
    then show ?thesis using that by (auto split: prod.splits sum.splits)
  qed
  have "re_basePath (fe_re demo_file_env) = [] \<or> path_IsAbs (re_basePath (fe_re demo_file_env))" "home_parts (fe_re demo_file_env) ''bob'' \<noteq> []"
    using bob_facts(2,3) 2(2) by simp_all
  from file_handlers_confined [where name = "''bob''", OF 1 2(1) _ this, THEN conjunct2, THEN conjunct1, rule_format, OF _ d(1)]
  obtain qs where "admitted [''home'', ''bob''] qs" "[''/home/bob/a'' \<mapsto> ''x''] (abs_path qs) = Some (dn_body d)"
    unfolding 2(2) bob_facts(3) by auto
  then show ?thesis unfolding d(2) by blast
qed

text \<open>The name in the header of a download cannot break out of it: only letters, digits and a few marks remain.\<close>

lemma QueryEscape_safe: "c \<in> set (QueryEscape t) \<Longrightarrow> unreserved c \<or> c = CHR ''+'' \<or> c = CHR ''%''"
proof -
  have "list_all unreserved ''0123456789ABCDEF''" by code_simp
  then have "unreserved (''0123456789ABCDEF'' ! k)" if "k < 16" for k using that unfolding list_all_length by simp
  then have "unreserved (hex_digit n)" for n by (simp add: hex_digit_def)
  then show "c \<in> set (QueryEscape t) \<Longrightarrow> unreserved c \<or> c = CHR ''+'' \<or> c = CHR ''%''"
    by (auto simp: QueryEscape_def split: if_splits)
qed

end
