(* ===== verification/MachineAccounts.thy ===== *)
theory MachineAccounts
  imports AccountSafety
begin

text \<open>
  Accounts and users of the machine. The specification is the set of users that exist on the
  machine, computed from the history of commands; the step relation runs every operation of the
  account, role, menu and permission services in any order, with failures of the machine, of Redis
  and of most queries at any point. The invariant: the tables stay consistent, and every account
  has its user on the machine.
\<close>

section \<open>The users of the machine\<close>

text \<open>
  A user exists when the last successful command about it added it, or when it was there from the
  beginning and no command removed it.
\<close>

definition effect :: "string \<Rightarrow> string \<times> bool \<Rightarrow> bool \<Rightarrow> bool" where
  "effect u x b = (if \<not> snd x then b else if fst x = useradd_command u then True
     else if fst x = userdel_command u then False else b)"

definition machine_user :: "(string \<Rightarrow> bool) \<Rightarrow> (string \<times> bool) list \<Rightarrow> string \<Rightarrow> bool" where
  "machine_user base h u = fold (effect u) h (base u)"

lemma machine_user_append [simp]:
  "machine_user base (h @ x # t) u = fold (effect u) t (effect u x (machine_user base h u))"
  by (simp add: machine_user_def)

lemma effect_failed [simp]: "effect u (c, False) b = b"
  by (simp add: effect_def)

lemma effect_commands [simp]:
  "effect u (id_command v, ok) b = b" "effect u (pass_command v p, ok) b = b"
  "effect u (useradd_command v, True) b = (u = v \<or> b)" "effect u (userdel_command v, True) b = (u \<noteq> v \<and> b)"
  by (auto simp: effect_def id_command_def pass_command_def useradd_command_def userdel_command_def)

text \<open>
  What an environment has to provide: ids that are not in use, a machine on which the query of a
  user succeeds only when the user exists, and no failure of the queries on the join table and of
  the deletion of a user.
\<close>

definition sound_env :: "collation \<Rightarrow> (string \<Rightarrow> bool) \<Rightarrow> acc_env \<Rightarrow> bool" where
  "sound_env w base e = (x_w e = w \<and> unused_id ac_ID (x_fresh e) \<and> vm_configured e \<and>
     (\<forall>h u. x_runs e h (id_command u) \<longrightarrow> machine_user base h u) \<and>
     \<not> x_fails e QRoleFind \<and> \<not> x_fails e QRoleAppend \<and> \<not> x_fails e QRoleDelete \<and> \<not> x_fails e QDelete \<and> \<not> x_fails e QClear)"

definition default_role :: "collation \<Rightarrow> directory \<Rightarrow> bool" where
  "default_role w d = (first_row rl_ID (\<lambda>r. w (rl_Slug r) = w ''user'') (d_roles d) \<noteq> None)"

definition accounts_ok :: "collation \<Rightarrow> (string \<Rightarrow> bool) \<Rightarrow> accounts \<Rightarrow> bool" where
  "accounts_ok w base s = (directory_ok w (a_dir s) \<and>
     (\<forall>u \<in> set (d_users (a_dir s)). machine_user base (a_vm s) (ac_Username u)))"

lemma createVMUser_machine:
  assumes "sound_env w base e" "createVMUser e u p s = (s', r)"
  shows "a_dir s' = a_dir s \<and> (\<forall>v. machine_user base (a_vm s) v \<longrightarrow> machine_user base (a_vm s') v) \<and>
    (r = Ok () \<longrightarrow> machine_user base (a_vm s') u)"
  using assms
  by (cases "vm_connect e") (auto simp: createVMUser_def vm_run_def Let_def sound_env_def split: if_splits)

lemma deleteVMUser_machine:
  assumes "deleteVMUser e u s = (s', r)"
  shows "a_dir s' = a_dir s \<and> (\<forall>v. machine_user base (a_vm s) v \<longrightarrow> v \<noteq> u \<or> r \<noteq> Ok () \<longrightarrow> machine_user base (a_vm s') v)"
  using assms
  by (cases "vm_connect e") (auto simp: deleteVMUser_def vm_run_def Let_def split: if_splits)

lemma sync_password_machine:
  assumes "sync_password e u p s = (s', r)"
  shows "a_dir s' = a_dir s \<and> machine_user base (a_vm s') = machine_user base (a_vm s)"
  using assms
  by (cases "vm_connect e") (auto simp: sync_password_def updateVMPassword_def vm_run_def Let_def fun_eq_iff split: if_splits)

section \<open>Every operation keeps the invariant\<close>

text \<open>Operations that change at most other columns of the rows.\<close>

lemma same_names_ok:
  assumes "accounts_ok w base s" "directory_ok w (a_dir s')" "machine_user base (a_vm s') = machine_user base (a_vm s)"
    "ac_Username ` set (d_users (a_dir s')) \<subseteq> ac_Username ` set (d_users (a_dir s))"
  shows "accounts_ok w base s'"
  using assms by (fastforce simp: accounts_ok_def)

lemma user_Update_names:
  assumes "directory_ok w d" "u0 \<in> set (d_users d)" "ac_ID u = ac_ID u0" "ac_Username u = ac_Username u0"
  shows "ac_Username ` set (d_users (fst (user_Update w err now d u))) \<subseteq> ac_Username ` set (d_users d)"
proof -
  have "ac_Username (set_user (now, u) x) = ac_Username u0" for x using assms(4) by (simp add: set_user_def)
  then have "ac_Username ` set (update_row ac_ID (ac_ID u) (set_user (now, u)) (d_users d)) \<subseteq> ac_Username ` set (d_users d)"
    using assms(2) by (auto simp: update_row_def)
  then show ?thesis by (auto simp: user_Update_def write_users_def)
qed

lemma on_dir_ok:
  assumes "accounts_ok w base s" "on_dir f s = (s', r)" "directory_ok w (fst (f (a_dir s)))"
    "ac_Username ` set (d_users (fst (f (a_dir s)))) \<subseteq> ac_Username ` set (d_users (a_dir s))"
  shows "accounts_ok w base s'"
  using assms on_dir_frame [OF assms(2)] by (auto intro!: same_names_ok [OF assms(1)])

lemma update_ok:
  assumes "accounts_ok w base s" "on_dir (\<lambda>d. user_Update w err now d u) s = (s', r)"
    and "u0 \<in> set (d_users (a_dir s))" "ac_ID u = ac_ID u0" "ac_Username u = ac_Username u0"
  shows "accounts_ok w base s'"
  using assms(1) user_Update_names [OF _ assms(3-5)] updates_keep(4)
  by (intro on_dir_ok [OF assms(1,2)]) (auto simp: accounts_ok_def)


text \<open>The three steps that create an account: the row, the roles, the user of the machine or back.\<close>

lemma user_Create_cases:
  "user_Create w fresh err now d u = (d', r) \<Longrightarrow> (r = Ok () \<and> d_users d' = d_users d @ [with_user_id (fresh (d_users d)) ((column_defaults u)\<lparr> ac_CreatedAt := now, ac_UpdatedAt := now \<rparr>)]) \<or>
     (r \<noteq> Ok () \<and> d' = d)"
  by (auto simp: user_Create_def write_users_def split: if_splits)

lemma new_row_name [simp]:
  "ac_Username (with_user_id i ((column_defaults u)\<lparr> ac_CreatedAt := t, ac_UpdatedAt := t \<rparr>)) = ac_Username u"
  "ac_ID (with_user_id i ((column_defaults u)\<lparr> ac_CreatedAt := t, ac_UpdatedAt := t \<rparr>)) = i"
  by (simp_all add: with_user_id_def column_defaults_def)

lemma vm_or_rollback_ok:
  assumes env: "sound_env w base e" and d: "directory_ok w (a_dir s)"
    and users: "d_users (a_dir s) = us @ [u]" "ac_ID u = i" "ac_Username u = name" "i \<notin> ac_ID ` set us"
    and old: "\<forall>x \<in> set us. machine_user base (a_vm s) (ac_Username x)"
    and run: "vm_or_rollback e i name p s = (s', r)"
  shows "accounts_ok w base s'"
proof -
  have conf: "vm_configured e" "\<not> x_fails e QDelete" using env by (simp_all add: sound_env_def)
  obtain s1 r1 where 1: "createVMUser e name p s = (s1, r1)" by force
  note m = createVMUser_machine [OF env 1]
  show ?thesis
  proof (cases "r1 = Ok ()")
    case True
    then have "s' = s1" using run conf 1 by (simp add: vm_or_rollback_def)
    then show ?thesis using m True d users old by (auto simp: accounts_ok_def)
  next
    case False
    then have s': "s' = fst (on_dir (\<lambda>d. user_Delete False d i) s1)" using run conf 1 by (cases r1) (auto simp: vm_or_rollback_def)
    have "filter (\<lambda>x. ac_ID x \<noteq> i) us = us" using users(4) by (auto intro!: filter_True)
    then have "d_users (a_dir s') = us" using s' m users by (simp add: user_Delete_def)
    moreover have "directory_ok w (a_dir s')" using s' m d deletes_keep(7) by simp
    ultimately show ?thesis using s' m old by (auto simp: accounts_ok_def)
  qed
qed

lemma create_steps_ok:
  assumes env: "sound_env w base e" and ok: "accounts_ok w base s"
    and g: "\<And>d. directory_ok w d \<Longrightarrow> directory_ok w (fst (g d))" "\<And>d. d_users (fst (g d)) = d_users d"
      "\<And>d. d_roles d = d_roles (a_dir s) \<Longrightarrow> snd (g d) = Ok ()"
    and run: "and_then (on_dir (\<lambda>d. user_Create w (x_fresh e) err now d u) s) (\<lambda>_ s1.
      and_then (on_dir g s1) (\<lambda>_ s2. vm_or_rollback e (x_fresh e (d_users (a_dir s))) (ac_Username u) p s2)) = (s', r)"
  shows "accounts_ok w base s'"
proof -
  let ?i = "x_fresh e (d_users (a_dir s))"
  have i: "unused_id ac_ID (x_fresh e)" using env by (simp add: sound_env_def)
  have d: "directory_ok w (a_dir s)" using ok by (simp add: accounts_ok_def)
  obtain s1 r1 where 1: "on_dir (\<lambda>d. user_Create w (x_fresh e) err now d u) s = (s1, r1)" by force
  have d1: "directory_ok w (a_dir s1)" using on_dir_result [OF 1] user_Create_keeps [OF d i] by (metis fst_conv)
  have vm1: "a_vm s1 = a_vm s" using on_dir_frame [OF 1] by simp
  show ?thesis
  proof (cases "r1 = Ok ()")
    case False
    then have "s' = s1" "a_dir s1 = a_dir s" using run 1 user_Create_cases [OF on_dir_result [OF 1]] by (auto simp: and_then_def split: sum.splits)
    then show ?thesis using ok vm1 by (simp add: accounts_ok_def)
  next
    case True
    have roles: "d_roles (a_dir s1) = d_roles (a_dir s)"
      using on_dir_result [OF 1] True user_Create_Ok by fastforce
    obtain s2 r2 where 2: "on_dir g s1 = (s2, r2)" by force
    have f2: "a_vm s2 = a_vm s" "a_dir s2 = fst (g (a_dir s1))" "r2 = Ok ()"
      using on_dir_frame [OF 2] vm1 g(3) [OF roles] by auto
    have run2: "vm_or_rollback e ?i (ac_Username u) p s2 = (s', r)"
      using run 1 2 True f2(3) by (simp add: and_then_def)
    have "d_users (a_dir s2) = d_users (a_dir s) @ [with_user_id ?i ((column_defaults u)\<lparr> ac_CreatedAt := now, ac_UpdatedAt := now \<rparr>)]"
      using user_Create_cases [OF on_dir_result [OF 1]] True f2(2) g(2) by simp
    from vm_or_rollback_ok [OF env _ this _ _ _ _ run2] show ?thesis
      using f2 g(1) [OF d1] ok i by (simp add: accounts_ok_def unused_id_def)
  qed
qed

lemma drop_code_ok [simp]: "accounts_ok w base (drop_code e m s) = accounts_ok w base s"
  "accounts_ok w base (s\<lparr> a_log := l \<rparr>) = accounts_ok w base s" "accounts_ok w base (s\<lparr> a_redis := db \<rparr>) = accounts_ok w base s"
  "accounts_ok w base (s\<lparr> a_ssh := sm \<rparr>) = accounts_ok w base s" "accounts_ok w base (s\<lparr> a_removed := rs \<rparr>) = accounts_ok w base s"
  by (simp_all add: accounts_ok_def drop_code_def)

lemma AssignRole_default:
  "default_role w d0 \<Longrightarrow> d_roles d = d_roles d0 \<Longrightarrow> snd (AssignRoleByName w False False d i ''user'') = Ok ()"
  by (auto simp: AssignRoleByName_def default_role_def)

lemma role_ops_users [simp]:
  "d_users (fst (AssignRoleByName w ferr aerr d i name)) = d_users d" "d_users (fst (ClearRoles err d i)) = d_users d"
  "d_users (fst (ReplaceRolesByNames w re d i names)) = d_users d"
  by (auto simp: AssignRoleByName_def ClearRoles_def ReplaceRolesByNames_def Let_def split: option.split)

lemma Register_cases:
  assumes "Register e now req s = (s', r)"
  shows "s' = s \<or> s' = drop_code e (rg_Email req) s \<or> (\<exists>pwd. s' = (drop_code e (rg_Email req) s)\<lparr> a_log := a_log s @ [pwd] \<rparr>) \<or>
    (\<exists>pwd h s2. s2 = (drop_code e (rg_Email req) s)\<lparr> a_log := a_log s @ [pwd] \<rparr> \<and>
      and_then (on_dir (\<lambda>d. user_Create (x_w e) (x_fresh e) (x_fails e QCreate) now d
        (blank_user\<lparr> ac_Username := rg_Username req, ac_Password := h, ac_Email := rg_Email req, ac_Status := 1 \<rparr>)) s2) (\<lambda>_ s3.
      and_then (on_dir (\<lambda>d. AssignRoleByName (x_w e) (x_fails e QRoleFind) (x_fails e QRoleAppend) d (x_fresh e (d_users (a_dir s))) ''user'') s3) (\<lambda>_ s4.
      vm_or_rollback e (x_fresh e (d_users (a_dir s))) (rg_Username req) pwd s4)) = (s', r))"
  using assms unfolding Register_def Let_def by (auto split: sum.splits if_splits)

lemma Register_ok:
  assumes env: "sound_env w base e" and ok: "accounts_ok w base s" and role: "default_role w (a_dir s)"
    and run: "Register e now req s = (s', r)"
  shows "accounts_ok w base s'"
proof -
  have f: "x_w e = w" "\<not> x_fails e QRoleFind" "\<not> x_fails e QRoleAppend" using env by (simp_all add: sound_env_def)
  from Register_cases [OF run] consider "accounts_ok w base s'" |
    pwd h s2 where "s2 = (drop_code e (rg_Email req) s)\<lparr> a_log := a_log s @ [pwd] \<rparr>"
      "and_then (on_dir (\<lambda>d. user_Create (x_w e) (x_fresh e) (x_fails e QCreate) now d
        (blank_user\<lparr> ac_Username := rg_Username req, ac_Password := h, ac_Email := rg_Email req, ac_Status := 1 \<rparr>)) s2) (\<lambda>_ s3.
      and_then (on_dir (\<lambda>d. AssignRoleByName (x_w e) (x_fails e QRoleFind) (x_fails e QRoleAppend) d (x_fresh e (d_users (a_dir s))) ''user'') s3) (\<lambda>_ s4.
      vm_or_rollback e (x_fresh e (d_users (a_dir s))) (rg_Username req) pwd s4)) = (s', r)"
    using ok by fastforce
  then show ?thesis
  proof cases
    case 2
    then have s2: "accounts_ok w base s2" "a_dir s2 = a_dir s" using ok by simp_all
    show ?thesis
      using 2(2) AssignRole_default [OF role] roles_links_keep(1)
      by (intro create_steps_ok [OF env s2(1), where g = "\<lambda>d. AssignRoleByName w False False d (x_fresh e (d_users (a_dir s))) ''user''"
            and u = "blank_user\<lparr> ac_Username := rg_Username req, ac_Password := h, ac_Email := rg_Email req, ac_Status := 1 \<rparr>"])
        (auto simp: s2(2) f)
  qed
qed


lemma Replace_total: "snd (ReplaceRolesByNames w \<lparr> rr_find = False, rr_append = False, rr_delete = False \<rparr> d i names) = Ok ()"
  by (simp add: ReplaceRolesByNames_def ClearRoles_def Let_def)

lemma CreateUser_cases:
  assumes "CreateUser e now req s = (s', r)"
  shows "s' = s \<or> (\<exists>pwd h. and_then (on_dir (\<lambda>d. user_Create (x_w e) (x_fresh e) (x_fails e QCreate) now d
        (blank_user\<lparr> ac_Username := cu_Username req, ac_Password := h, ac_RealName := cu_RealName req,
           ac_Phone := cu_Phone req, ac_Email := cu_Email req, ac_Status := cu_Status req \<rparr>)) s) (\<lambda>_ s1.
      and_then (on_dir (\<lambda>d. (case cu_Roles req of
          Some (r # rs) \<Rightarrow> ReplaceRolesByNames (x_w e) (replace_failures e) d (x_fresh e (d_users (a_dir s))) (r # rs)
        | _ \<Rightarrow> AssignRoleByName (x_w e) (x_fails e QRoleFind) (x_fails e QRoleAppend) d (x_fresh e (d_users (a_dir s))) ''user'')) s1) (\<lambda>_ s2.
      vm_or_rollback e (x_fresh e (d_users (a_dir s))) (cu_Username req) pwd s2)) = (s', r))"
  using assms unfolding CreateUser_def Let_def by (auto split: sum.splits if_splits)

lemma CreateUser_ok:
  assumes env: "sound_env w base e" and ok: "accounts_ok w base s" and role: "default_role w (a_dir s)"
    and run: "CreateUser e now req s = (s', r)"
  shows "accounts_ok w base s'"
proof -
  have f: "x_w e = w" "\<not> x_fails e QRoleFind" "\<not> x_fails e QRoleAppend"
    "replace_failures e = \<lparr> rr_find = False, rr_append = False, rr_delete = False \<rparr>"
    using env by (simp_all add: sound_env_def replace_failures_def)
  let ?u = "\<lambda>h. blank_user\<lparr> ac_Username := cu_Username req, ac_Password := h, ac_RealName := cu_RealName req,
     ac_Phone := cu_Phone req, ac_Email := cu_Email req, ac_Status := cu_Status req \<rparr>"
  let ?g = "\<lambda>d. (case cu_Roles req of
       Some (r # rs) \<Rightarrow> ReplaceRolesByNames (x_w e) (replace_failures e) d (x_fresh e (d_users (a_dir s))) (r # rs)
     | _ \<Rightarrow> AssignRoleByName (x_w e) (x_fails e QRoleFind) (x_fails e QRoleAppend) d (x_fresh e (d_users (a_dir s))) ''user'')"
  have g: "directory_ok w d \<Longrightarrow> directory_ok w (fst (?g d))" "d_users (fst (?g d)) = d_users d"
    "d_roles d = d_roles (a_dir s) \<Longrightarrow> snd (?g d) = Ok ()" for d
    using roles_links_keep [of w d] AssignRole_default [OF role] by (auto simp: f Replace_total split: option.split list.split)
  from CreateUser_cases [OF run] consider "s' = s" | pwd h where
    "and_then (on_dir (\<lambda>d. user_Create (x_w e) (x_fresh e) (x_fails e QCreate) now d (?u h)) s) (\<lambda>_ s1.
        and_then (on_dir ?g s1) (\<lambda>_ s2. vm_or_rollback e (x_fresh e (d_users (a_dir s))) (cu_Username req) pwd s2)) = (s', r)"
    by blast
  then show ?thesis
  proof cases
    case 2
    then show ?thesis using create_steps_ok [OF env ok g, of "x_fails e QCreate" now "?u h" pwd] by (simp add: f(1))
  qed (simp add: ok)
qed

lemma GetUserByID_member: "GetUserByID e i s = Ok (u, rs) \<Longrightarrow> u \<in> set (d_users (a_dir s)) \<and> ac_ID u = i"
  using GetUserByID_Ok first_row_SomeD(1) by metis

lemma DeleteUser_ok:
  assumes env: "sound_env w base e" and ok: "accounts_ok w base s" and run: "DeleteUser e i s = (s', r)"
  shows "accounts_ok w base s'"
proof (cases "GetUserByID e i s")
  case (Inr x)
  then obtain u rs where u: "GetUserByID e i s = Ok (u, rs)" by (cases x) auto
  have f: "vm_configured e" "\<not> x_fails e QClear" "\<not> x_fails e QDelete" using env by (simp_all add: sound_env_def)
  have d: "directory_ok w (a_dir s)" using ok by (simp add: accounts_ok_def)
  obtain s1 r1 where 1: "deleteVMUser e (ac_Username u) s = (s1, r1)" by force
  note m = deleteVMUser_machine [OF 1, of base]
  show ?thesis
  proof (cases "r1 = Ok ()")
    case False
    then have "s' = s1" using run u 1 f by (cases r1) (auto simp: DeleteUser_def and_then_def)
    then show ?thesis using m False ok by (auto simp: accounts_ok_def)
  next
    case True
    let ?d2 = "fst (user_Delete False (fst (ClearRoles False (a_dir s) i)) i)"
    have s': "a_vm s' = a_vm s1" "a_dir s' = ?d2"
      using run u 1 True f m by (auto simp: DeleteUser_def and_then_def on_dir_def ClearRoles_def user_Delete_def)
    have "ac_Username x \<noteq> ac_Username u" if "x \<in> set (d_users (a_dir s))" "ac_ID x \<noteq> i" for x
    proof -
      have "index_ok w ac_Username (d_users (a_dir s))" using d by (simp add: directory_ok_def)
      then show ?thesis using GetUserByID_member [OF u] that
        by (auto simp: index_ok_def distinct_map inj_on_def)
    qed
    then have "\<forall>x \<in> set (d_users ?d2). machine_user base (a_vm s1) (ac_Username x)"
      using ok m by (auto simp: accounts_ok_def user_Delete_def ClearRoles_def)
    then show ?thesis using s' deletes_keep(7) [OF roles_links_keep(2) [OF d]] by (auto simp: accounts_ok_def)
  qed
qed (use run ok in \<open>simp add: DeleteUser_def\<close>)


text \<open>Changes of passwords and of the profile.\<close>

lemma set_password_ok:
  assumes ok: "accounts_ok w base s" and u: "u \<in> set (d_users (a_dir s))"
    and run: "and_then (sync_password e u p s) (\<lambda>_ s1. on_dir (\<lambda>d. user_Update w err now d (u\<lparr> ac_Password := h \<rparr>)) s1) = (s', r)"
  shows "accounts_ok w base s'"
  using run
proof (cases rule: and_then_cases)
  case (1 x)
  then show ?thesis using sync_password_machine [OF 1(1), of base] ok by (auto simp: accounts_ok_def)
next
  case (2 v s1)
  have "a_dir s1 = a_dir s" "accounts_ok w base s1"
    using sync_password_machine [OF 2(1), of base] ok by (auto simp: accounts_ok_def)
  then show ?thesis using update_ok [OF _ 2(2), of base u] u by simp
qed

lemma ChangePassword_ok:
  assumes env: "sound_env w base e" and ok: "accounts_ok w base s" and run: "ChangePassword e now i req s = (s', r)"
  shows "accounts_ok w base s'"
proof (cases "s' = s")
  case False
  then obtain u rs new h where "GetUserByID e i s = Ok (u, rs)"
    "and_then (sync_password e u new s) (\<lambda>_ s1. on_dir (\<lambda>d. user_Update w (x_fails e QUpdate) now d (u\<lparr> ac_Password := h \<rparr>)) s1) = (s', r)"
    using run env by (auto simp: ChangePassword_def sound_env_def split: sum.splits if_splits)
  then show ?thesis using set_password_ok [OF ok] GetUserByID_member by blast
qed (simp add: ok)

lemma ResetPassword_ok:
  assumes env: "sound_env w base e" and ok: "accounts_ok w base s" and run: "ResetPassword e now req s = (s', r)"
  shows "accounts_ok w base s'"
proof (cases "s' = s")
  case False
  then obtain u rs new h where u: "user_FindByEmail w (x_fails e QFindEmail) (a_dir s) (rs_Email req) = Ok (Some (u, rs))"
    and k: "and_then (sync_password e u new s) (\<lambda>_ s1.
       and_then (on_dir (\<lambda>d. user_Update w (x_fails e QUpdate) now d (u\<lparr> ac_Password := h \<rparr>)) s1) (\<lambda>_ s2.
       (drop_code e (rs_Email req) s2, Ok ()))) = (s', r)"
    using run env by (auto simp: ResetPassword_def sound_env_def split: sum.splits if_splits option.splits)
  have mem: "u \<in> set (d_users (a_dir s))"
    using u by (auto simp: user_FindByEmail_def user_first_def dest: first_row_SomeD split: if_splits)
  from k [folded and_then_assoc] show ?thesis
  proof (cases rule: and_then_cases)
    case (1 x)
    then show ?thesis using set_password_ok [OF ok mem 1(1)] by simp
  next
    case (2 v s1)
    then show ?thesis using set_password_ok [OF ok mem 2(1)] by auto
  qed
qed (simp add: ok)

lemma fields_key [simp]:
  "ac_ID (profile_fields req u) = ac_ID u" "ac_Username (profile_fields req u) = ac_Username u"
  "ac_ID (admin_fields areq u) = ac_ID u" "ac_Username (admin_fields areq u) = ac_Username u"
  "ac_ID (admin_limits areq u) = ac_ID u" "ac_Username (admin_limits areq u) = ac_Username u"
  by (simp_all add: profile_fields_def admin_fields_def admin_limits_def Let_def split: option.split)

lemma UpdateProfile_ok:
  assumes env: "sound_env w base e" and ok: "accounts_ok w base s" and run: "UpdateProfile e now i req s = (s', r)"
  shows "accounts_ok w base s'"
proof (cases "s' = s")
  case False
  then obtain u rs where "GetUserByID e i s = Ok (u, rs)"
    "on_dir (\<lambda>d. user_Update w (x_fails e QUpdate) now d (profile_fields req u)) s = (s', r)"
    using run env by (auto simp: UpdateProfile_def sound_env_def split: sum.splits)
  then show ?thesis using update_ok [OF ok] GetUserByID_member fields_key(1,2) by metis
qed (simp add: ok)

lemma UpdateAvatar_ok:
  assumes env: "sound_env w base e" and ok: "accounts_ok w base s" and run: "UpdateAvatar e now i path s = (s', r)"
  shows "accounts_ok w base s'"
proof (cases "GetUserByID e i s")
  case (Inr x)
  then obtain u rs where u: "GetUserByID e i s = Ok (u, rs)" by (cases x) auto
  let ?s1 = "if ac_Avatar u \<noteq> [] \<and> ac_Avatar u \<noteq> path then s\<lparr> a_removed := a_removed s @ [ac_Avatar u] \<rparr> else s"
  have k: "on_dir (\<lambda>d. user_Update w (x_fails e QUpdate) now d (u\<lparr> ac_Avatar := path \<rparr>)) ?s1 = (s', r)"
    using run env u by (simp add: UpdateAvatar_def sound_env_def)
  have "accounts_ok w base ?s1" "a_dir ?s1 = a_dir s" using ok by simp_all
  then show ?thesis using update_ok [OF _ k, of base u] GetUserByID_member [OF u] by simp
qed (use run ok in \<open>simp add: UpdateAvatar_def\<close>)

lemma admin_password_ok:
  assumes ok: "accounts_ok w base s" and run: "admin_password e req u s = (s', r)"
  shows "accounts_ok w base s' \<and> a_dir s' = a_dir s \<and> (\<forall>v. r = Ok v \<longrightarrow> ac_ID v = ac_ID u \<and> ac_Username v = ac_Username u)"
proof (cases "s' = s \<and> (\<forall>v. r = Ok v \<longrightarrow> v = u)")
  case False
  then obtain pwd h where "and_then (sync_password e u pwd s) (\<lambda>_ s1. (s1, Ok (u\<lparr> ac_Password := h \<rparr>))) = (s', r)"
    using run by (auto simp: admin_password_def split: sum.splits if_splits)
  then show ?thesis
  proof (cases rule: and_then_cases)
    case (1 x)
    then show ?thesis using sync_password_machine [OF 1(1), of base] ok by (auto simp: accounts_ok_def)
  next
    case (2 v s1)
    then show ?thesis using sync_password_machine [OF 2(1), of base] ok by (auto simp: accounts_ok_def)
  qed
qed (use ok in auto)

lemma AdminUpdateUser_ok:
  assumes env: "sound_env w base e" and ok: "accounts_ok w base s" and run: "AdminUpdateUser e now i req s = (s', r)"
  shows "accounts_ok w base s'"
proof (cases "s' = s")
  case False
  let ?roles = "\<lambda>s1. case au_Roles req of None \<Rightarrow> (s1, Ok ())
     | Some names \<Rightarrow> on_dir (\<lambda>d. ReplaceRolesByNames (x_w e) (replace_failures e) d i names) s1"
  from False run obtain u rs where u: "GetUserByID e i s = Ok (u, rs)"
    and k: "and_then (admin_password e req (admin_fields req u) s) (\<lambda>u1 s1. and_then (?roles s1) (\<lambda>_ s2.
         on_dir (\<lambda>d. user_Update (x_w e) (x_fails e QUpdate) now d (admin_limits req u1)) s2)) = (s', r)"
    unfolding AdminUpdateUser_def by (auto split: sum.splits)
  have w: "x_w e = w" using env by (simp add: sound_env_def)
  have roles: "accounts_ok w base s2 \<and> d_users (a_dir s2) = d_users (a_dir s1)" if "accounts_ok w base s1" "?roles s1 = (s2, r2)" for s1 s2 r2
  proof (cases "au_Roles req")
    case (Some names)
    then have "on_dir (\<lambda>d. ReplaceRolesByNames w (replace_failures e) d i names) s1 = (s2, r2)" using that w by simp
    from on_dir_ok [OF that(1) this] on_dir_frame [OF this] show ?thesis
      using that(1) roles_links_keep(3) by (simp add: accounts_ok_def)
  qed (use that in simp)
  from k show ?thesis
  proof (cases rule: and_then_cases)
    case (1 x)
    then show ?thesis using admin_password_ok [OF ok 1(1)] by simp
  next
    case (2 u1 s1)
    note p = admin_password_ok [OF ok 2(1)]
    from 2(2) show ?thesis
    proof (cases rule: and_then_cases)
      case (1 x)
      then show ?thesis using roles p by blast
    next
      case (2 v s2)
      have s2: "accounts_ok w base s2" "u \<in> set (d_users (a_dir s2))" using roles [OF _ 2(1)] p GetUserByID_member [OF u] by simp_all
      have "ac_ID (admin_limits req u1) = ac_ID u" "ac_Username (admin_limits req u1) = ac_Username u" using p by simp_all
      then show ?thesis using update_ok [OF s2(1) 2(2) [unfolded w] s2(2)] by blast
    qed
  qed
qed (simp add: ok)


section \<open>Sequences of operations\<close>

text \<open>The services for roles, menus and permissions, with any failures of queries.\<close>

inductive dir_step :: "collation \<Rightarrow> directory \<Rightarrow> directory \<Rightarrow> bool" for w where
  "unused_id rl_ID fr \<Longrightarrow> dir_step w d (fst (roleService_Create w fr e now d r))"
| "dir_step w d (fst (roleService_Update w e now d ur))"
| "dir_step w d (fst (roleService_Delete ferr derr d i))"
| "dir_step w d (fst (roleService_BatchDelete ferrs derr d ids))"
| "dir_step w d (fst (roleService_UpdateRolePermission pe d i ms ps))"
| "unused_id mn_ID fm \<Longrightarrow> dir_step w d (fst (menuService_Create w fm e now d m))"
| "dir_step w d (fst (menuService_Update w e now d um))"
| "dir_step w d (fst (menuService_Delete ferr derr d i))"
| "dir_step w d (fst (menuService_BatchDelete ferrs derr d ids))"
| "unused_id pm_ID fp \<Longrightarrow> dir_step w d (fst (apiService_Create w fp e now d a))"
| "dir_step w d (fst (apiService_Update w e now d ua))"
| "dir_step w d (fst (apiService_Delete ferr derr d i))"
| "dir_step w d (fst (apiService_BatchDelete ferrs derr d ids))"

definition kept :: "collation \<Rightarrow> directory \<Rightarrow> directory \<times> unit result \<Rightarrow> bool" where
  "kept w d x = (directory_ok w (fst x) \<and> d_users (fst x) = d_users d)"

lemma kept_plumbing [simp]:
  "kept w d (create_answer x) = kept w d x" "kept w d (update_answer x) = kept w d x"
  by (simp_all add: kept_def create_answer_def update_answer_def split: sum.split)

lemma kept_same: "directory_ok w d \<Longrightarrow> kept w d (d, r)"
  by (simp add: kept_def)

lemma kept_check_free: "directory_ok w d \<Longrightarrow> kept w d (k ()) \<Longrightarrow> kept w d (check_free b k d)"
  by (auto simp: check_free_def kept_def split: sum.split)

lemma kept_writes:
  assumes "directory_ok w d"
  shows "unused_id rl_ID fr \<Longrightarrow> kept w d (role_Create w fr err d r)" "unused_id mn_ID fm \<Longrightarrow> kept w d (menu_Create w fm err d m)"
    "unused_id pm_ID fp \<Longrightarrow> kept w d (api_Create w fp err d p)" "kept w d (role_Update w err d i ru)" "kept w d (menu_Update w err d i mu)"
    "kept w d (api_Update w err d i pu)" "kept w d (role_Delete err d i)" "kept w d (role_BatchDelete err d ids)"
    "kept w d (menu_Delete err d i)" "kept w d (menu_BatchDelete err d ids)" "kept w d (api_Delete err d i)"
    "kept w d (api_BatchDelete err d ids)" "kept w d (role_UpdateRolePermission pe d i ms ps)"
  using role_Create_keeps [OF assms] menu_Create_keeps [OF assms] api_Create_keeps [OF assms] updates_keep [OF assms]
    deletes_keep [OF assms] role_UpdateRolePermission_keeps [OF assms]
  by (simp_all add: kept_def role_Create_def menu_Create_def api_Create_def role_Update_def menu_Update_def api_Update_def
      role_Delete_def role_BatchDelete_def menu_Delete_def menu_BatchDelete_def api_Delete_def api_BatchDelete_def
      role_UpdateRolePermission_def write_defs split: sum.split)

lemma kept_branches:
  "kept w d a \<Longrightarrow> kept w d b \<Longrightarrow> kept w d (if c then a else b)"
  "(\<And>x. kept w d (f x)) \<Longrightarrow> (\<And>y. kept w d (g y)) \<Longrightarrow> kept w d (case z of Inl x \<Rightarrow> f x | Inr y \<Rightarrow> g y)"
  "kept w d a \<Longrightarrow> (\<And>x. kept w d (h x)) \<Longrightarrow> kept w d (case v of None \<Rightarrow> a | Some x \<Rightarrow> h x)"
  "(\<And>x. kept w d (k x)) \<Longrightarrow> kept w d (let x = a0 in k x)"
  by (auto split: sum.split option.split)

lemmas kept_rules = kept_same kept_check_free kept_branches

lemma services_kept:
  assumes d: "directory_ok w d"
  shows "unused_id rl_ID fr \<Longrightarrow> kept w d (roleService_Create w fr e now d r)" "kept w d (roleService_Update w e now d ur)"
    "unused_id mn_ID fm \<Longrightarrow> kept w d (menuService_Create w fm e now d m)" "kept w d (menuService_Update w e now d um)"
    "unused_id pm_ID fp \<Longrightarrow> kept w d (apiService_Create w fp e now d a)" "kept w d (apiService_Update w e now d ua)"
  unfolding roleService_Create_def roleService_Update_def menuService_Create_def menuService_Update_def
      apiService_Create_def apiService_Update_def
  by (intro kept_rules d; simp add: kept_writes d)+

lemma services_delete_kept:
  assumes d: "directory_ok w d"
  shows "kept w d (roleService_Delete ferr derr d i)" "kept w d (roleService_BatchDelete ferrs derr d ids)"
    "kept w d (menuService_Delete ferr derr d i)" "kept w d (menuService_BatchDelete ferrs derr d ids)"
    "kept w d (apiService_Delete ferr derr d i)" "kept w d (apiService_BatchDelete ferrs derr d ids)"
    "kept w d (roleService_UpdateRolePermission pe d i ms ps)"
  unfolding roleService_Delete_def roleService_BatchDelete_def menuService_Delete_def menuService_BatchDelete_def
      apiService_Delete_def apiService_BatchDelete_def roleService_UpdateRolePermission_def
  by (intro kept_rules kept_writes d)+

lemma dir_step_kept:
  assumes "dir_step w d d'" "directory_ok w d"
  shows "directory_ok w d' \<and> d_users d' = d_users d"
  using assms(1) services_kept [OF assms(2)] services_delete_kept [OF assms(2)]
  by cases (simp_all add: kept_def)


text \<open>
  One operation of any service. The two operations that create accounts need the default role;
  everything else may happen in any state, and each operation has an environment of its own.
\<close>

inductive acc_step :: "collation \<Rightarrow> (string \<Rightarrow> bool) \<Rightarrow> accounts \<Rightarrow> accounts \<Rightarrow> bool" for w base where
  step_Register: "sound_env w base e \<Longrightarrow> default_role w (a_dir s) \<Longrightarrow> acc_step w base s (fst (ctrl_Register e now req s))"
| step_CreateUser: "sound_env w base e \<Longrightarrow> default_role w (a_dir s) \<Longrightarrow> acc_step w base s (fst (ctrl_CreateUser e now creq s))"
| step_DeleteUser: "sound_env w base e \<Longrightarrow> acc_step w base s (fst (DeleteUser e i s))"
| step_Change: "sound_env w base e \<Longrightarrow> acc_step w base s (fst (ctrl_ChangePassword e now i cpreq s))"
| step_Reset: "sound_env w base e \<Longrightarrow> acc_step w base s (fst (ctrl_ResetPassword e now rreq s))"
| step_Profile: "sound_env w base e \<Longrightarrow> acc_step w base s (fst (ctrl_UpdateProfile e now i preq s))"
| step_Avatar: "sound_env w base e \<Longrightarrow> acc_step w base s (fst (UpdateAvatar e now i path s))"
| step_Admin: "sound_env w base e \<Longrightarrow> acc_step w base s (fst (AdminUpdateUser e now i areq s))"
| step_Login: "acc_step w base s (fst (ctrl_Login e tk go ferr now lreq s))"
| step_Logout: "acc_step w base s (fst (Logout e se now i s))"
| step_Ensure: "acc_step w base s (fst (EnsureSSHSession e se answers ferr now i s))"
| step_Mail: "acc_step w base s (fst (SendEmailCode e now n m s))"
| step_Dir: "dir_step w (a_dir s) d \<Longrightarrow> acc_step w base s (s\<lparr> a_dir := d \<rparr>)"

text \<open>The operations on sessions and codes touch neither the directory nor the machine.\<close>

lemma session_ops_frame:
  "a_dir (fst (ctrl_Login e tk go ferr now lreq s)) = a_dir s \<and> a_vm (fst (ctrl_Login e tk go ferr now lreq s)) = a_vm s"
  "a_dir (fst (Logout e se now i s)) = a_dir s \<and> a_vm (fst (Logout e se now i s)) = a_vm s"
  "a_dir (fst (EnsureSSHSession e se answers ferr now i s)) = a_dir s \<and> a_vm (fst (EnsureSSHSession e se answers ferr now i s)) = a_vm s"
  "a_dir (fst (SendEmailCode e now n m s)) = a_dir s \<and> a_vm (fst (SendEmailCode e now n m s)) = a_vm s"
  by (auto simp: ctrl_Login_def Login_def saveUserCredentialsToRedis_def Logout_def EnsureSSHSession_def EnsureSSHSessionByType_def
      SendEmailCode_def Let_def split: sum.splits prod.splits option.splits if_splits)

lemma frame_ok: "accounts_ok w base s \<Longrightarrow> a_dir s' = a_dir s \<and> a_vm s' = a_vm s \<Longrightarrow> accounts_ok w base s'"
  by (simp add: accounts_ok_def)

lemma controllers_ok:
  assumes env: "sound_env w base e" and ok: "accounts_ok w base s"
  shows "default_role w (a_dir s) \<Longrightarrow> accounts_ok w base (fst (ctrl_Register e now req s))"
    "default_role w (a_dir s) \<Longrightarrow> accounts_ok w base (fst (ctrl_CreateUser e now creq s))"
    "accounts_ok w base (fst (ctrl_ChangePassword e now i cpreq s))" "accounts_ok w base (fst (ctrl_ResetPassword e now rreq s))"
    "accounts_ok w base (fst (ctrl_UpdateProfile e now i preq s))"
  using ok Register_ok [OF env ok] CreateUser_ok [OF env ok] ChangePassword_ok [OF env ok] ResetPassword_ok [OF env ok] UpdateProfile_ok [OF env ok]
  by (auto simp: ctrl_Register_def ctrl_CreateUser_def ctrl_ChangePassword_def ctrl_ResetPassword_def ctrl_UpdateProfile_def
      split: sum.splits prod.splits)

lemma services_ok:
  assumes env: "sound_env w base e" and ok: "accounts_ok w base s"
  shows "accounts_ok w base (fst (DeleteUser e i s))" "accounts_ok w base (fst (UpdateAvatar e now i path s))"
    "accounts_ok w base (fst (AdminUpdateUser e now i areq s))"
  using DeleteUser_ok [OF env ok prod.collapse [symmetric]] UpdateAvatar_ok [OF env ok prod.collapse [symmetric]]
    AdminUpdateUser_ok [OF env ok prod.collapse [symmetric]] by blast+

lemma acc_step_ok:
  assumes "acc_step w base s s'" and ok: "accounts_ok w base s"
  shows "accounts_ok w base s'"
  using assms(1)
proof cases
  case (step_Dir d)
  then show ?thesis using dir_step_kept ok by (auto simp: accounts_ok_def)
qed (simp_all add: controllers_ok [OF _ ok] services_ok [OF _ ok] frame_ok [OF ok session_ops_frame(1)]
    frame_ok [OF ok session_ops_frame(2)] frame_ok [OF ok session_ops_frame(3)] frame_ok [OF ok session_ops_frame(4)])


lemma demo_acc_sound: "sound_env (\<lambda>s. s) (\<lambda>u. u = ''bob'') demo_acc"
proof -
  have "vm_configured demo_acc" by code_simp
  moreover have "x_fresh demo_acc t \<notin> ac_ID ` set t" for t
  proof -
    have "ac_ID u \<le> foldr max (map ac_ID t) 0" if "u \<in> set t" for u using that by (induction t) auto
    then show ?thesis by (fastforce simp: demo_acc_def)
  qed
  ultimately show ?thesis by (simp add: sound_env_def unused_id_def demo_acc_def id_command_def HasPrefix_def)
qed



section \<open>What the operations do not guarantee\<close>

text \<open>
  Without the default role a registration fails but leaves its account behind, with no role and
  no user on the machine; the name and the mail address are taken from then on.
\<close>

theorem failed_registration_leaves_account:
  assumes "s = demo_state\<lparr> a_dir := (a_dir demo_state)\<lparr> d_roles := [] \<rparr> \<rparr>"
  shows "snd (Register demo_acc 7 demo_register s) = Err RecordNotFound \<and>
    map ac_Username (d_users (a_dir (fst (Register demo_acc 7 demo_register s)))) = [''bob'', ''ann''] \<and>
    a_vm (fst (Register demo_acc 7 demo_register s)) = []"
  unfolding assms by code_simp

text \<open>An account that an administrator creates as disabled is enabled: the column default replaces the zero.\<close>

theorem disabled_account_is_enabled:
  assumes "cu_Status req = 0" "CreateUser e now req s = (s', Ok ())"
  shows "\<exists>u \<in> set (d_users (a_dir s')). ac_Username u = cu_Username req \<and> ac_Status u = 1"
proof -
  let ?i = "x_fresh e (d_users (a_dir s))"
  let ?u = "\<lambda>h. blank_user\<lparr> ac_Username := cu_Username req, ac_Password := h, ac_RealName := cu_RealName req,
     ac_Phone := cu_Phone req, ac_Email := cu_Email req, ac_Status := cu_Status req \<rparr>"
  let ?g = "\<lambda>d. (case cu_Roles req of
       Some (r # rs) \<Rightarrow> ReplaceRolesByNames (x_w e) (replace_failures e) d ?i (r # rs)
     | _ \<Rightarrow> AssignRoleByName (x_w e) (x_fails e QRoleFind) (x_fails e QRoleAppend) d ?i ''user'')"
  obtain h pwd where "and_then (on_dir (\<lambda>d. user_Create (x_w e) (x_fresh e) (x_fails e QCreate) now d (?u h)) s) (\<lambda>_ s1.
        and_then (on_dir ?g s1) (\<lambda>_ s2. vm_or_rollback e ?i (cu_Username req) pwd s2)) = (s', Ok ())"
    using assms(2) unfolding CreateUser_def Let_def by (auto split: sum.splits if_splits)
  then obtain s1 s2 where 1: "on_dir (\<lambda>d. user_Create (x_w e) (x_fresh e) (x_fails e QCreate) now d (?u h)) s = (s1, Ok ())"
    and 2: "on_dir ?g s1 = (s2, Ok ())" and 3: "vm_or_rollback e ?i (cu_Username req) pwd s2 = (s', Ok ())"
    by (auto elim!: and_then_cases)
  have "d_users (fst (?g d)) = d_users d" for d by (simp split: option.split list.split)
  then have "d_users (a_dir s') = d_users (a_dir s1)" using vm_or_rollback_Ok [OF 3] on_dir_frame [OF 2] by simp
  then show ?thesis using user_Create_Ok [OF on_dir_result [OF 1]] assms(1)
    by (simp add: with_user_id_def column_defaults_def)
qed

text \<open>
  When the machine already has a user of the requested name, the account gets it as it is: its
  password on the machine stays the old one.
\<close>

theorem existing_machine_user_keeps_password:
  assumes "vm_connect e = Ok ()" "x_runs e (a_vm s) (id_command u)"
  shows "createVMUser e u p s = (s\<lparr> a_vm := a_vm s @ [(id_command u, True)] \<rparr>, Ok ())"
  using assms by (simp add: createVMUser_def vm_run_def)

text \<open>A confirmation that differs is answered with an error, but the password is changed all the same.\<close>

theorem confirmation_is_not_enforced:
  assumes "i \<noteq> 0" "DecryptIfCryptoJS (x_aes e) (cp_NewPassword req) = Ok p" "ValidatePassword p = Ok ()"
    "DecryptIfCryptoJS (x_aes e) (cp_ConfirmPassword req) = Ok q" "p \<noteq> q" "ChangePassword e now i req s = (s', Ok ())"
  shows "ctrl_ChangePassword e now i req s = (s', [CodeBadRequest, 0])"
  using assms by (simp add: ctrl_ChangePassword_def answer_def)

end
