(* ===== verification/WsPool.thy ===== *)
theory WsPool
  imports Prelude "HOL-Library.AList"
begin

text \<open>
  The pool of WebSocket connections: pkg/websocket/pool.go.

  A client is addressed by a number. A client has a send channel of capacity 1024, modelled by
  the messages waiting in it, and is closed at most once. The socket itself and the two pumps
  are the environment: a pump takes a message off the channel or closes the client.
\<close>

section \<open>Clients and the pool\<close>

record SessionMetadata =
  md_UserID :: int
  md_SessionType :: string
  md_Role :: string
  md_CreatedAt :: int

record wsClient =
  wc_Metadata :: "SessionMetadata option"
  wc_Send :: "string list"
  wc_closed :: bool

record ConnectionPool =
  cp_userClients :: "(int \<times> nat list) list"
  cp_adminClients :: "nat list"
  cp_systemInfoCount :: int
  cp_objects :: "nat \<Rightarrow> wsClient"
  cp_next :: nat

definition NewConnectionPool :: ConnectionPool where
  "NewConnectionPool = \<lparr> cp_userClients = [], cp_adminClients = [], cp_systemInfoCount = 0,
     cp_objects = (\<lambda>_. \<lparr> wc_Metadata = None, wc_Send = [], wc_closed = True \<rparr>), cp_next = 0 \<rparr>"

definition clients_of :: "ConnectionPool \<Rightarrow> int \<Rightarrow> nat list" where
  "clients_of p u = (case map_of (cp_userClients p) u of None \<Rightarrow> [] | Some cs \<Rightarrow> cs)"

definition set_client :: "nat \<Rightarrow> wsClient \<Rightarrow> ConnectionPool \<Rightarrow> ConnectionPool" where
  "set_client c w p = p\<lparr> cp_objects := (cp_objects p)(c := w) \<rparr>"

definition Add :: "int \<Rightarrow> SessionMetadata option \<Rightarrow> ConnectionPool \<Rightarrow> ConnectionPool \<times> nat" where
  "Add userID metadata p =
     (let c = cp_next p;
          p1 = (set_client c \<lparr> wc_Metadata = metadata, wc_Send = [], wc_closed = False \<rparr> p)\<lparr> cp_next := c + 1 \<rparr>
      in (case metadata of
            Some md \<Rightarrow> if md_Role md = ''admin''
              then p1\<lparr> cp_adminClients := c # cp_adminClients p1,
                       cp_systemInfoCount := (if md_SessionType md = ''systemInfo'' then cp_systemInfoCount p1 + 1 else cp_systemInfoCount p1) \<rparr>
              else p1\<lparr> cp_userClients := AList.update userID (c # clients_of p1 userID) (cp_userClients p1) \<rparr>
          | None \<Rightarrow> p1\<lparr> cp_userClients := AList.update userID (c # clients_of p1 userID) (cp_userClients p1) \<rparr>, c))"

definition remove_user_client :: "int \<Rightarrow> nat \<Rightarrow> (int \<times> nat list) list \<Rightarrow> (int \<times> nat list) list" where
  "remove_user_client u c us = (case map_of us u of
     None \<Rightarrow> us
   | Some cs \<Rightarrow> (if removeAll c cs = [] then AList.delete u us else AList.update u (removeAll c cs) us))"

text \<open>Client.Close: a client without metadata makes it panic, the second call does nothing.\<close>

definition Close :: "nat \<Rightarrow> ConnectionPool \<Rightarrow> ConnectionPool result" where
  "Close c p = (let w = cp_objects p c in if wc_closed w then Ok p
     else case wc_Metadata w of
       None \<Rightarrow> Err (Panic ''nil metadata'')
     | Some md \<Rightarrow>
         (let p1 = (if md_Role md = ''user''
                then p\<lparr> cp_userClients := remove_user_client (md_UserID md) c (cp_userClients p) \<rparr>
                else if md_Role md = ''admin''
                then p\<lparr> cp_adminClients := removeAll c (cp_adminClients p),
                        cp_systemInfoCount := (if md_SessionType md = ''systemInfo'' \<and> cp_systemInfoCount p > 0
                                               then cp_systemInfoCount p - 1 else cp_systemInfoCount p) \<rparr>
                else p)
          in Ok (set_client c (w\<lparr> wc_closed := True \<rparr>) p1)))"

definition send_capacity :: nat where "send_capacity = 1024"

text \<open>The select with a default branch: a full channel drops the message, a closed one panics.\<close>

definition try_send :: "string \<Rightarrow> nat \<Rightarrow> ConnectionPool \<Rightarrow> ConnectionPool result" where
  "try_send data c p = (let w = cp_objects p c in
     if wc_closed w then Err (Panic ''send on closed channel'')
     else if length (wc_Send w) < send_capacity then Ok (set_client c (w\<lparr> wc_Send := wc_Send w @ [data] \<rparr>) p)
     else Ok p)"

definition has_type :: "string \<Rightarrow> wsClient \<Rightarrow> bool" where
  "has_type t w = (case wc_Metadata w of None \<Rightarrow> False | Some md \<Rightarrow> md_SessionType md = t)"

definition collect_admins :: "string \<Rightarrow> ConnectionPool \<Rightarrow> nat list" where
  "collect_admins t p = filter (\<lambda>c. has_type t (cp_objects p c)) (cp_adminClients p)"

fun send_each :: "string \<Rightarrow> nat list \<Rightarrow> ConnectionPool \<Rightarrow> ConnectionPool result" where
  "send_each data [] p = Ok p"
| "send_each data (c # cs) p = (case try_send data c p of Inl e \<Rightarrow> Err e | Inr p1 \<Rightarrow> send_each data cs p1)"

definition BroadcastToAdminsByType :: "string \<Rightarrow> string \<Rightarrow> ConnectionPool \<Rightarrow> ConnectionPool result" where
  "BroadcastToAdminsByType t data p = send_each data (collect_admins t p) p"

definition IsHavingSystemInfoConnection :: "ConnectionPool \<Rightarrow> bool" where
  "IsHavingSystemInfoConnection p = (cp_systemInfoCount p > 0)"

definition GetSystemInfoConnectionCount :: "ConnectionPool \<Rightarrow> int" where
  "GetSystemInfoConnectionCount p = cp_systemInfoCount p"

definition GetTotalConnectionCount :: "ConnectionPool \<Rightarrow> nat" where
  "GetTotalConnectionCount p = length (cp_adminClients p) + sum_list (map (length \<circ> snd) (cp_userClients p))"

definition IsHavingHomeOverviewConnection :: "ConnectionPool \<Rightarrow> bool" where
  "IsHavingHomeOverviewConnection p = list_ex (\<lambda>c. has_type ''homeOverview'' (cp_objects p c)) (cp_adminClients p)"

fun close_each :: "nat list \<Rightarrow> ConnectionPool \<Rightarrow> ConnectionPool result" where
  "close_each [] p = Ok p"
| "close_each (c # cs) p = (case Close c p of Inl e \<Rightarrow> Err e | Inr p1 \<Rightarrow> close_each cs p1)"

definition all_clients :: "ConnectionPool \<Rightarrow> nat list" where
  "all_clients p = concat (map snd (cp_userClients p)) @ cp_adminClients p"

definition CloseAll :: "ConnectionPool \<Rightarrow> ConnectionPool result" where
  "CloseAll p = close_each (all_clients p) p"

section \<open>The pool as its callers use it\<close>

text \<open>
  Every caller passes metadata with its own user id and one of the two roles. The pool then
  evolves by additions, closing (by a pump or by the terminal service), broadcasts and the write
  pump taking messages.
\<close>

definition proper :: "int \<Rightarrow> SessionMetadata \<Rightarrow> bool" where
  "proper u md = (md_UserID md = u \<and> (md_Role md = ''user'' \<or> md_Role md = ''admin''))"

definition pump :: "nat \<Rightarrow> ConnectionPool \<Rightarrow> ConnectionPool" where
  "pump c p = set_client c ((cp_objects p c)\<lparr> wc_Send := tl (wc_Send (cp_objects p c)) \<rparr>) p"

inductive pool_step :: "ConnectionPool \<Rightarrow> ConnectionPool \<Rightarrow> bool" where
  step_Add: "proper u md \<Longrightarrow> pool_step p (fst (Add u (Some md) p))"
| step_Close: "Close c p = Ok q \<Longrightarrow> pool_step p q"
| step_CloseAll: "CloseAll p = Ok q \<Longrightarrow> pool_step p q"
| step_Broadcast: "BroadcastToAdminsByType t data p = Ok q \<Longrightarrow> pool_step p q"
| step_pump: "pool_step p (pump c p)"

inductive pool_reachable :: "ConnectionPool \<Rightarrow> bool" where
  pool_start: "pool_reachable NewConnectionPool"
| pool_next: "pool_reachable p \<Longrightarrow> pool_step p q \<Longrightarrow> pool_reachable q"

section \<open>Invariant\<close>

definition user_client_ok :: "ConnectionPool \<Rightarrow> int \<Rightarrow> nat \<Rightarrow> bool" where
  "user_client_ok p u c = (c < cp_next p \<and> \<not> wc_closed (cp_objects p c) \<and>
     (\<exists>md. wc_Metadata (cp_objects p c) = Some md \<and> md_Role md = ''user'' \<and> md_UserID md = u))"

definition admin_client_ok :: "ConnectionPool \<Rightarrow> nat \<Rightarrow> bool" where
  "admin_client_ok p c = (c < cp_next p \<and> \<not> wc_closed (cp_objects p c) \<and>
     (\<exists>md. wc_Metadata (cp_objects p c) = Some md \<and> md_Role md = ''admin''))"

definition registered :: "ConnectionPool \<Rightarrow> nat \<Rightarrow> bool" where
  "registered p c = (\<exists>md. wc_Metadata (cp_objects p c) = Some md \<and>
     (md_Role md = ''user'' \<and> c \<in> set (clients_of p (md_UserID md)) \<or> md_Role md = ''admin'' \<and> c \<in> set (cp_adminClients p)))"

definition pool_inv :: "ConnectionPool \<Rightarrow> bool" where
  "pool_inv p \<longleftrightarrow>
     distinct (map fst (cp_userClients p)) \<and>
     (\<forall>u cs. map_of (cp_userClients p) u = Some cs \<longrightarrow> cs \<noteq> [] \<and> distinct cs \<and> (\<forall>c \<in> set cs. user_client_ok p u c)) \<and>
     distinct (cp_adminClients p) \<and> (\<forall>c \<in> set (cp_adminClients p). admin_client_ok p c) \<and>
     (\<forall>c. \<not> wc_closed (cp_objects p c) \<longrightarrow> registered p c) \<and>
     cp_systemInfoCount p = int (length (collect_admins ''systemInfo'' p))"

lemmas pool_defs = user_client_ok_def admin_client_ok_def registered_def clients_of_def set_client_def

lemma pool_invI:
  assumes "distinct (map fst (cp_userClients p))"
    and "\<And>u cs. map_of (cp_userClients p) u = Some cs \<Longrightarrow> cs \<noteq> [] \<and> distinct cs \<and> (\<forall>c \<in> set cs. user_client_ok p u c)"
    and "distinct (cp_adminClients p)" "\<And>c. c \<in> set (cp_adminClients p) \<Longrightarrow> admin_client_ok p c"
    and "\<And>c. \<not> wc_closed (cp_objects p c) \<Longrightarrow> registered p c"
    and "cp_systemInfoCount p = int (length (collect_admins ''systemInfo'' p))"
  shows "pool_inv p"
  unfolding pool_inv_def using assms by blast

lemma pool_invD:
  assumes "pool_inv p"
  shows "distinct (map fst (cp_userClients p))"
    and "map_of (cp_userClients p) u = Some cs \<Longrightarrow> cs \<noteq> [] \<and> distinct cs \<and> (\<forall>c \<in> set cs. user_client_ok p u c)"
    and "distinct (cp_adminClients p)" "c \<in> set (cp_adminClients p) \<Longrightarrow> admin_client_ok p c"
    and "\<not> wc_closed (cp_objects p c) \<Longrightarrow> registered p c"
    and "cp_systemInfoCount p = int (length (collect_admins ''systemInfo'' p))"
  using assms unfolding pool_inv_def by blast+

lemma pool_inv_new: "pool_inv NewConnectionPool"
  by (simp add: pool_inv_def NewConnectionPool_def collect_admins_def pool_defs)

lemma map_of_remove_user_client:
  assumes "distinct (map fst us)"
  shows "map_of (remove_user_client u c us) v = (if v = u then (case map_of us u of None \<Rightarrow> None
     | Some cs \<Rightarrow> if removeAll c cs = [] then None else Some (removeAll c cs)) else map_of us v)"
  using assms by (auto simp: remove_user_client_def AList.delete_conv update_conv split: option.splits)

lemma distinct_remove_user_client:
  "distinct (map fst us) \<Longrightarrow> distinct (map fst (remove_user_client u c us))"
  by (auto simp: remove_user_client_def distinct_update distinct_delete split: option.splits)

lemma clients_of_update:
  "cp_userClients q = AList.update u cs (cp_userClients p) \<Longrightarrow> clients_of q v = (if v = u then cs else clients_of p v)"
  by (simp add: clients_of_def update_conv)

lemma clients_of_remove:
  assumes "distinct (map fst (cp_userClients p))" "cp_userClients q = remove_user_client u c (cp_userClients p)"
  shows "clients_of q v = (if v = u then removeAll c (clients_of p v) else clients_of p v)"
  using assms by (auto simp: clients_of_def map_of_remove_user_client split: option.splits)

lemma inv_fresh:
  assumes "pool_inv p"
  shows "wc_closed (cp_objects p (cp_next p))" "cp_next p \<notin> set (cp_adminClients p)"
    "map_of (cp_userClients p) u = Some cs \<Longrightarrow> cp_next p \<notin> set cs"
  using pool_invD [OF assms] by (fastforce simp: pool_defs split: option.splits)+

lemma Add_admin:
  "md_Role md = ''admin'' \<Longrightarrow> fst (Add u (Some md) p) = p\<lparr>
     cp_objects := (cp_objects p)(cp_next p := \<lparr> wc_Metadata = Some md, wc_Send = [], wc_closed = False \<rparr>),
     cp_next := cp_next p + 1, cp_adminClients := cp_next p # cp_adminClients p,
     cp_systemInfoCount := (if md_SessionType md = ''systemInfo'' then cp_systemInfoCount p + 1 else cp_systemInfoCount p) \<rparr>"
  by (simp add: Add_def Let_def set_client_def)

lemma Add_user:
  "md_Role md \<noteq> ''admin'' \<Longrightarrow> fst (Add u (Some md) p) = p\<lparr>
     cp_objects := (cp_objects p)(cp_next p := \<lparr> wc_Metadata = Some md, wc_Send = [], wc_closed = False \<rparr>),
     cp_next := cp_next p + 1, cp_userClients := AList.update u (cp_next p # clients_of p u) (cp_userClients p) \<rparr>"
  by (simp add: Add_def Let_def set_client_def clients_of_def)

lemma inv_Add:
  assumes inv: "pool_inv p" and pr: "proper u md"
  shows "pool_inv (fst (Add u (Some md) p))"
proof (cases "md_Role md = ''admin''")
  case True
  note I = pool_invD [OF inv] and F = inv_fresh [OF inv]
  show ?thesis
  proof (rule pool_invI, goal_cases)
    case (2 v cs)
    then show ?case using True I(2) [of v cs] F(3) [of v cs] by (auto simp: Add_admin user_client_ok_def)
  next
    case (4 c)
    then show ?case using True I(4) [of c] by (auto simp: Add_admin admin_client_ok_def)
  next
    case (5 c)
    then show ?case using True I(5) [of c] by (auto simp: Add_admin registered_def clients_of_def)
  next
    case 6
    have "collect_admins ''systemInfo'' (fst (Add u (Some md) p)) =
        (if md_SessionType md = ''systemInfo'' then [cp_next p] else []) @ collect_admins ''systemInfo'' p"
      using F(2) True by (auto simp: Add_admin collect_admins_def has_type_def intro!: filter_cong)
    then show ?case using True I(6) by (simp add: Add_admin)
  qed (use True I(1,3) F(2) in \<open>auto simp: Add_admin\<close>)
next
  case False
  note I = pool_invD [OF inv] and F = inv_fresh [OF inv]
  show ?thesis
  proof (rule pool_invI, goal_cases)
    case (2 v cs)
    then show ?case
      using False pr I(2) [of v] F(3) [of v]
      by (auto simp: Add_user user_client_ok_def update_conv clients_of_def proper_def less_SucI
          split: if_splits option.splits)
  next
    case (4 c)
    then show ?case using False I(4) [of c] F(2) by (auto simp: Add_user admin_client_ok_def)
  next
    case (5 c)
    then show ?case
      using False pr I(5) [of c] clients_of_update [of "fst (Add u (Some md) p)" u _ p]
      by (cases "c = cp_next p") (auto simp: Add_user registered_def proper_def)
  next
    case 6
    have "collect_admins ''systemInfo'' (fst (Add u (Some md) p)) = collect_admins ''systemInfo'' p"
      using F(2) False by (auto simp: Add_user collect_admins_def has_type_def intro!: filter_cong)
    then show ?case using False I(6) by (simp add: Add_user)
  qed (use False I(1,3) F(2) in \<open>auto simp: Add_user distinct_update\<close>)
qed

lemma Close_open:
  assumes inv: "pool_inv p" and op: "\<not> wc_closed (cp_objects p c)"
  obtains (user) md where "wc_Metadata (cp_objects p c) = Some md" "md_Role md = ''user''" "c \<in> set (clients_of p (md_UserID md))"
      "Close c p = Ok (p\<lparr> cp_userClients := remove_user_client (md_UserID md) c (cp_userClients p),
         cp_objects := (cp_objects p)(c := (cp_objects p c)\<lparr> wc_closed := True \<rparr>) \<rparr>)"
  | (admin) md where "wc_Metadata (cp_objects p c) = Some md" "md_Role md = ''admin''" "c \<in> set (cp_adminClients p)"
      "Close c p = Ok (p\<lparr> cp_adminClients := removeAll c (cp_adminClients p),
         cp_systemInfoCount := int (length (filter (\<lambda>d. d \<noteq> c) (collect_admins ''systemInfo'' p))),
         cp_objects := (cp_objects p)(c := (cp_objects p c)\<lparr> wc_closed := True \<rparr>) \<rparr>)"
proof -
  note I = pool_invD [OF inv]
  obtain md where md: "wc_Metadata (cp_objects p c) = Some md"
    and cases: "md_Role md = ''user'' \<and> c \<in> set (clients_of p (md_UserID md)) \<or> md_Role md = ''admin'' \<and> c \<in> set (cp_adminClients p)"
    using I(5) [OF op] by (auto simp: registered_def)
  show ?thesis
  proof (cases "md_Role md = ''admin''")
    case False
    then show ?thesis using user [OF md] cases op by (simp add: Close_def Let_def md set_client_def)
  next
    case True
    have d: "distinct (collect_admins ''systemInfo'' p)" using I(3) by (simp add: collect_admins_def)
    have "c \<in> set (collect_admins ''systemInfo'' p) \<longleftrightarrow> md_SessionType md = ''systemInfo''"
      using cases True md by (auto simp: collect_admins_def has_type_def)
    moreover have "int (length (filter (\<lambda>e. e \<noteq> c) xs)) = int (length xs) - (if c \<in> set xs then 1 else 0)"
      if "distinct xs" for xs :: "nat list" using that by (induction xs) auto
    ultimately have "int (length (filter (\<lambda>d. d \<noteq> c) (collect_admins ''systemInfo'' p))) =
        (if md_SessionType md = ''systemInfo'' \<and> cp_systemInfoCount p > 0 then cp_systemInfoCount p - 1 else cp_systemInfoCount p)"
      using d I(6) by (auto simp: length_pos_if_in_set)
    then show ?thesis using admin [OF md] cases True op by (simp add: Close_def Let_def md set_client_def)
  qed
qed

lemma inv_Close:
  assumes inv: "pool_inv p" and cl: "Close c p = Ok q"
  shows "pool_inv q"
proof (cases "wc_closed (cp_objects p c)")
  case True
  then show ?thesis using inv cl by (simp add: Close_def)
next
  case False
  note I = pool_invD [OF inv]
  from inv False show ?thesis
  proof (cases rule: Close_open)
    case (user md)
    then have q: "q = p\<lparr> cp_userClients := remove_user_client (md_UserID md) c (cp_userClients p),
         cp_objects := (cp_objects p)(c := (cp_objects p c)\<lparr> wc_closed := True \<rparr>) \<rparr>" using cl by simp
    show ?thesis
    proof (rule pool_invI, goal_cases)
      case (2 u cs)
      then show ?case using user I(2) [of u]
        by (auto simp: q map_of_remove_user_client [OF I(1)] user_client_ok_def distinct_removeAll
            split: if_splits option.splits)
    next
      case (4 d)
      then show ?case using user I(4) [of d] by (auto simp: q admin_client_ok_def)
    next
      case (5 d)
      then show ?case using I(5) [of d] clients_of_remove [OF I(1), of q "md_UserID md" c]
        by (cases "d = c") (auto simp: q registered_def)
    next
      case 6
      have "collect_admins ''systemInfo'' q = collect_admins ''systemInfo'' p"
        by (auto simp: q collect_admins_def has_type_def intro!: filter_cong)
      then show ?case using I(6) by (simp add: q)
    qed (use I(1,3) in \<open>auto simp: q distinct_remove_user_client\<close>)
  next
    case (admin md)
    then have q: "q = p\<lparr> cp_adminClients := removeAll c (cp_adminClients p),
         cp_systemInfoCount := int (length (filter (\<lambda>d. d \<noteq> c) (collect_admins ''systemInfo'' p))),
         cp_objects := (cp_objects p)(c := (cp_objects p c)\<lparr> wc_closed := True \<rparr>) \<rparr>" using cl by simp
    show ?thesis
    proof (rule pool_invI, goal_cases)
      case (2 u cs)
      then show ?case using admin I(2) [of u cs] by (auto simp: q user_client_ok_def)
    next
      case (4 d)
      then show ?case using I(4) [of d] by (auto simp: q admin_client_ok_def)
    next
      case (5 d)
      then show ?case using I(5) [of d] by (auto simp: q registered_def clients_of_def)
    next
      case 6
      have "collect_admins ''systemInfo'' q = filter (\<lambda>d. d \<noteq> c) (collect_admins ''systemInfo'' p)"
        by (auto simp: q collect_admins_def has_type_def removeAll_filter_not_eq intro!: filter_cong)
      then show ?case by (simp add: q)
    qed (use I(1,3) in \<open>auto simp: q distinct_removeAll\<close>)
  qed
qed

lemma Close_total:
  assumes "pool_inv p"
  shows "\<exists>q. Close c p = Ok q"
proof (cases "wc_closed (cp_objects p c)")
  case False
  from assms False show ?thesis by (cases rule: Close_open) auto
qed (simp add: Close_def)

lemma Close_closes:
  "Close c p = Ok q \<Longrightarrow> wc_closed (cp_objects q d) = (d = c \<or> wc_closed (cp_objects p d))"
  by (auto simp: Close_def Let_def set_client_def split: if_splits option.splits)

lemma close_each_total:
  assumes "pool_inv p"
  shows "\<exists>q. close_each cs p = Ok q \<and> pool_inv q \<and>
    (\<forall>d. wc_closed (cp_objects q d) = (d \<in> set cs \<or> wc_closed (cp_objects p d)))"
  using assms
proof (induction cs arbitrary: p)
  case (Cons c cs)
  obtain p1 where p1: "Close c p = Ok p1" using Close_total [OF Cons.prems] by blast
  show ?case using Cons.IH [OF inv_Close [OF Cons.prems p1]] Close_closes [OF p1] p1 by auto
qed simp

text \<open>The open clients are those in the pool.\<close>

lemma set_all_clients:
  assumes "pool_inv p"
  shows "set (all_clients p) = {c. \<not> wc_closed (cp_objects p c)}"
proof -
  note I = pool_invD [OF assms]
  have "(u, cs) \<in> set (cp_userClients p) \<longleftrightarrow> map_of (cp_userClients p) u = Some cs" for u cs using I(1) by simp
  then have set: "c \<in> set (all_clients p) \<longleftrightarrow> (\<exists>u cs. map_of (cp_userClients p) u = Some cs \<and> c \<in> set cs) \<or> c \<in> set (cp_adminClients p)" for c
    by (force simp: all_clients_def)
  have "c \<in> set (all_clients p)" if "\<not> wc_closed (cp_objects p c)" for c
    using I(5) [OF that] unfolding set registered_def clients_of_def
    by (metis empty_iff list.set(1) option.case_eq_if option.collapse)
  moreover have "\<not> wc_closed (cp_objects p c)" if "c \<in> set (all_clients p)" for c
    using that I(2,4) unfolding set by (auto simp: user_client_ok_def admin_client_ok_def)
  ultimately show ?thesis by blast
qed

lemma user_client_unique: "user_client_ok p u c \<Longrightarrow> user_client_ok p v c \<Longrightarrow> u = v"
  by (auto simp: user_client_ok_def)

lemma user_not_admin: "user_client_ok p u c \<Longrightarrow> \<not> admin_client_ok p c"
  by (auto simp: user_client_ok_def admin_client_ok_def)

lemma distinct_all_clients:
  assumes inv: "pool_inv p"
  shows "distinct (all_clients p)"
proof -
  note I = pool_invD [OF inv]
  have users: "distinct (concat (map snd us))"
    if "distinct (map fst us)" "\<And>u cs. (u, cs) \<in> set us \<Longrightarrow> distinct cs \<and> (\<forall>c \<in> set cs. user_client_ok p u c)" for us
    using that
  proof (induction us)
    case (Cons x us)
    have "set (snd x) \<inter> set cs = {}" if "(u, cs) \<in> set us" for u cs
    proof -
      have "u \<in> fst ` set us" using that by (metis fst_conv image_eqI)
      then have "fst x \<noteq> u" using Cons.prems(1) by auto
      then show ?thesis
        using Cons.prems(2) [of "fst x" "snd x"] Cons.prems(2) [of u cs] that user_client_unique [of p "fst x" _ u] by auto
    qed
    then have "set (snd x) \<inter> set (concat (map snd us)) = {}" by fastforce
    moreover have "distinct (snd x)" using Cons.prems(2) [of "fst x" "snd x"] by simp
    moreover have "distinct (concat (map snd us))" using Cons.prems(1) by (intro Cons.IH Cons.prems(2)) auto
    ultimately show ?case by simp
  qed simp
  have "distinct (concat (map snd (cp_userClients p)))" using users [OF I(1)] I(1,2) by auto
  moreover have "set cs \<inter> set (cp_adminClients p) = {}" if "(u, cs) \<in> set (cp_userClients p)" for u cs
    using I(2) [of u cs] I(1,4) that user_not_admin by fastforce
  ultimately show ?thesis using I(3) by (fastforce simp: all_clients_def)
qed

lemma pool_inv_frame:
  assumes "pool_inv p" "cp_userClients q = cp_userClients p" "cp_adminClients q = cp_adminClients p"
    and "cp_systemInfoCount q = cp_systemInfoCount p" "cp_next q = cp_next p"
    and meta: "\<And>c. wc_Metadata (cp_objects q c) = wc_Metadata (cp_objects p c)"
    and closed: "\<And>c. wc_closed (cp_objects q c) = wc_closed (cp_objects p c)"
  shows "pool_inv q"
  using assms(1) unfolding pool_inv_def user_client_ok_def admin_client_ok_def registered_def clients_of_def
    collect_admins_def has_type_def
  by (simp only: assms(2-5) meta closed) blast

lemma send_keeps:
  assumes "pool_inv p" "try_send data c p = Ok q"
  shows "pool_inv q \<and> cp_adminClients q = cp_adminClients p \<and> (\<forall>d. wc_closed (cp_objects q d) = wc_closed (cp_objects p d))"
proof -
  have "cp_userClients q = cp_userClients p \<and> cp_adminClients q = cp_adminClients p \<and>
      cp_systemInfoCount q = cp_systemInfoCount p \<and> cp_next q = cp_next p \<and>
      (\<forall>d. wc_Metadata (cp_objects q d) = wc_Metadata (cp_objects p d) \<and> wc_closed (cp_objects q d) = wc_closed (cp_objects p d))"
    using assms(2) by (auto simp: try_send_def Let_def set_client_def split: if_splits)
  then show ?thesis using pool_inv_frame [OF assms(1), of q] by simp
qed

text \<open>What a broadcast leaves in the channel of a client.\<close>

definition delivered :: "string \<Rightarrow> wsClient \<Rightarrow> wsClient" where
  "delivered data w = (if length (wc_Send w) < send_capacity then w\<lparr> wc_Send := wc_Send w @ [data] \<rparr> else w)"

lemma try_send_open:
  "\<not> wc_closed (cp_objects p c) \<Longrightarrow> try_send data c p = Ok (p\<lparr> cp_objects := (cp_objects p)(c := delivered data (cp_objects p c)) \<rparr>)"
  by (simp add: try_send_def Let_def set_client_def delivered_def)

lemma send_each_open:
  "distinct cs \<Longrightarrow> (\<And>c. c \<in> set cs \<Longrightarrow> \<not> wc_closed (cp_objects p c)) \<Longrightarrow>
   send_each data cs p = Ok (p\<lparr> cp_objects := (\<lambda>c. if c \<in> set cs then delivered data (cp_objects p c) else cp_objects p c) \<rparr>)"
proof (induction cs arbitrary: p)
  case (Cons c cs)
  let ?p1 = "p\<lparr> cp_objects := (cp_objects p)(c := delivered data (cp_objects p c)) \<rparr>"
  have "send_each data cs ?p1 = Ok (?p1\<lparr> cp_objects := (\<lambda>d. if d \<in> set cs then delivered data (cp_objects ?p1 d) else cp_objects ?p1 d) \<rparr>)"
    using Cons.prems by (intro Cons.IH) auto
  moreover have "(\<lambda>d. if d \<in> set cs then delivered data (cp_objects ?p1 d) else cp_objects ?p1 d) =
      (\<lambda>d. if d \<in> set (c # cs) then delivered data (cp_objects p d) else cp_objects p d)"
    using Cons.prems(1) by auto
  ultimately show ?case using Cons.prems(2) [of c] by (simp add: try_send_open)
qed simp

lemma collect_open:
  assumes "pool_inv p"
  shows "distinct (collect_admins t p)" "c \<in> set (collect_admins t p) \<Longrightarrow> \<not> wc_closed (cp_objects p c)"
  using pool_invD(3,4) [OF assms] by (auto simp: collect_admins_def admin_client_ok_def)

lemma delivered_frame [simp]:
  "wc_Metadata (delivered data w) = wc_Metadata w" "wc_closed (delivered data w) = wc_closed w"
  by (simp_all add: delivered_def)

lemma broadcast_spec:
  assumes "pool_inv p"
  shows "BroadcastToAdminsByType t data p = Ok (p\<lparr> cp_objects :=
    (\<lambda>c. if c \<in> set (collect_admins t p) then delivered data (cp_objects p c) else cp_objects p c) \<rparr>)"
  using send_each_open collect_open [OF assms] unfolding BroadcastToAdminsByType_def by blast

lemma inv_step:
  assumes "pool_step p q" "pool_inv p"
  shows "pool_inv q"
  using assms(1)
proof (cases rule: pool_step.cases)
  case step_CloseAll
  then show ?thesis using close_each_total [OF assms(2), of "all_clients p"] by (auto simp: CloseAll_def)
next
  case (step_Broadcast t data)
  then show ?thesis
    using broadcast_spec [OF assms(2), of t data] by (auto intro!: pool_inv_frame [OF assms(2)] split: if_splits)
next
  case (step_pump c)
  then show ?thesis by (auto simp: pump_def set_client_def intro!: pool_inv_frame [OF assms(2)] split: if_splits)
qed (use assms(2) inv_Add inv_Close in auto)

lemma reachable_inv: "pool_reachable p \<Longrightarrow> pool_inv p"
  by (induction rule: pool_reachable.induct) (auto simp: pool_inv_new inv_step)

section \<open>Properties\<close>

text \<open>
  C33: in every reachable state of the pool the counters are exact: the total is the number of
  clients that are open, the counter that tells the resource collector whether to work is the
  number of open administrator connections of type systemInfo, and a home overview connection
  is reported exactly when an open one exists.
\<close>

theorem pool_counts_exact:
  assumes "pool_reachable p"
  shows "GetTotalConnectionCount p = card {c. \<not> wc_closed (cp_objects p c)} \<and>
    (IsHavingSystemInfoConnection p \<longleftrightarrow> (\<exists>c md. \<not> wc_closed (cp_objects p c) \<and>
      wc_Metadata (cp_objects p c) = Some md \<and> md_Role md = ''admin'' \<and> md_SessionType md = ''systemInfo'')) \<and>
    (IsHavingHomeOverviewConnection p \<longleftrightarrow> (\<exists>c md. \<not> wc_closed (cp_objects p c) \<and>
      wc_Metadata (cp_objects p c) = Some md \<and> md_Role md = ''admin'' \<and> md_SessionType md = ''homeOverview''))"
proof (intro conjI)
  have inv: "pool_inv p" using assms by (rule reachable_inv)
  note I = pool_invD [OF inv]
  have "GetTotalConnectionCount p = length (all_clients p)"
    by (simp add: GetTotalConnectionCount_def all_clients_def length_concat comp_def)
  then show "GetTotalConnectionCount p = card {c. \<not> wc_closed (cp_objects p c)}"
    using set_all_clients [OF inv] distinct_card [OF distinct_all_clients [OF inv]] by simp
  have adm: "c \<in> set (cp_adminClients p) \<longleftrightarrow> (\<exists>md. \<not> wc_closed (cp_objects p c) \<and>
      wc_Metadata (cp_objects p c) = Some md \<and> md_Role md = ''admin'')" for c
    using I(4) [of c] I(5) [of c] by (auto simp: admin_client_ok_def registered_def)
  have "0 < length (collect_admins ''systemInfo'' p) \<longleftrightarrow> (\<exists>c \<in> set (cp_adminClients p). has_type ''systemInfo'' (cp_objects p c))"
    by (auto simp: collect_admins_def length_greater_0_conv filter_empty_conv)
  then show "IsHavingSystemInfoConnection p \<longleftrightarrow> (\<exists>c md. \<not> wc_closed (cp_objects p c) \<and>
      wc_Metadata (cp_objects p c) = Some md \<and> md_Role md = ''admin'' \<and> md_SessionType md = ''systemInfo'')"
    unfolding IsHavingSystemInfoConnection_def I(6) using adm by (auto simp: has_type_def split: option.splits)
  show "IsHavingHomeOverviewConnection p \<longleftrightarrow> (\<exists>c md. \<not> wc_closed (cp_objects p c) \<and>
      wc_Metadata (cp_objects p c) = Some md \<and> md_Role md = ''admin'' \<and> md_SessionType md = ''homeOverview'')"
    using adm by (auto simp: IsHavingHomeOverviewConnection_def list_ex_iff has_type_def split: option.splits)
qed

definition monitor_md :: SessionMetadata where
  "monitor_md = \<lparr> md_UserID = 4, md_SessionType = ''systemInfo'', md_Role = ''admin'', md_CreatedAt = 0 \<rparr>"

definition shell_md :: SessionMetadata where
  "shell_md = \<lparr> md_UserID = 7, md_SessionType = ''terminal'', md_Role = ''user'', md_CreatedAt = 0 \<rparr>"

definition busy_pool :: ConnectionPool where
  "busy_pool = fst (Add 4 (Some monitor_md) (fst (Add 7 (Some shell_md) NewConnectionPool)))"

lemma busy_pool_reachable: "pool_reachable busy_pool"
proof -
  have "proper 7 shell_md" "proper 4 monitor_md" by code_simp+
  then show ?thesis unfolding busy_pool_def by (meson pool_next pool_start step_Add)
qed

theorem pool_counts_exact_witness:
  "GetTotalConnectionCount busy_pool = 2 \<and> card {c. \<not> wc_closed (cp_objects busy_pool c)} = 2 \<and>
   (\<exists>c md. \<not> wc_closed (cp_objects busy_pool c) \<and> wc_Metadata (cp_objects busy_pool c) = Some md \<and>
      md_Role md = ''admin'' \<and> md_SessionType md = ''systemInfo'')"
proof -
  have "GetTotalConnectionCount busy_pool = 2" "IsHavingSystemInfoConnection busy_pool" by code_simp+
  then show ?thesis using pool_counts_exact [OF busy_pool_reachable] by simp
qed

text \<open>
  In every reachable state CloseAll returns, leaves no client open and an empty pool, and a
  broadcast returns, appending the message to the channel of exactly the open administrator
  clients of the type that have room, and changing nothing else.
\<close>

theorem close_all_and_broadcast:
  assumes "pool_reachable p"
  shows "(\<exists>q. CloseAll p = Ok q \<and> (\<forall>c. wc_closed (cp_objects q c)) \<and> GetTotalConnectionCount q = 0 \<and> cp_systemInfoCount q = 0) \<and>
    BroadcastToAdminsByType t data p = Ok (p\<lparr> cp_objects :=
      (\<lambda>c. if c \<in> set (collect_admins t p) then delivered data (cp_objects p c) else cp_objects p c) \<rparr>)"
proof (intro conjI)
  have inv: "pool_inv p" using assms by (rule reachable_inv)
  then obtain q where q: "CloseAll p = Ok q" "pool_inv q"
    "\<forall>d. wc_closed (cp_objects q d) = (d \<in> set (all_clients p) \<or> wc_closed (cp_objects p d))"
    using close_each_total [OF inv, of "all_clients p"] unfolding CloseAll_def by blast
  then have cl: "\<forall>c. wc_closed (cp_objects q c)" using set_all_clients [OF inv] by auto
  then have "all_clients q = []" using set_all_clients [OF q(2)] by auto
  then have "GetTotalConnectionCount q = 0 \<and> cp_systemInfoCount q = 0"
    using pool_invD(6) [OF q(2)]
    by (auto simp: GetTotalConnectionCount_def all_clients_def collect_admins_def)
  then show "\<exists>q. CloseAll p = Ok q \<and> (\<forall>c. wc_closed (cp_objects q c)) \<and> GetTotalConnectionCount q = 0 \<and> cp_systemInfoCount q = 0"
    using q(1) cl by blast
  show "BroadcastToAdminsByType t data p = Ok (p\<lparr> cp_objects :=
      (\<lambda>c. if c \<in> set (collect_admins t p) then delivered data (cp_objects p c) else cp_objects p c) \<rparr>)"
    using inv by (rule broadcast_spec)
qed

text \<open>
  The broadcast collects the clients under the lock and sends without it; when the only
  monitoring client disconnects between the two, the send on its closed channel panics.
\<close>

theorem broadcast_after_close_panics:
  "pool_reachable busy_pool \<and>
   (\<exists>q. Close 1 busy_pool = Ok q \<and>
     send_each ''cpu'' (collect_admins ''systemInfo'' busy_pool) q = Err (Panic ''send on closed channel''))"
proof -
  have "(case Close 1 busy_pool of Inl _ \<Rightarrow> False | Inr q \<Rightarrow>
     (case send_each ''cpu'' (collect_admins ''systemInfo'' busy_pool) q of
        Inl e \<Rightarrow> e = Panic ''send on closed channel'' | Inr _ \<Rightarrow> False))"
    by code_simp
  then show ?thesis using busy_pool_reachable by (auto split: sum.splits)
qed

end
