(* ===== verification/SystemInfo.thy ===== *)
theory SystemInfo
  imports GoTime SessionStore Scheduler WsPool
begin

text \<open>
  The state of the machine and the processes on its cards: internal/repository/systemInfo_repository.go,
  internal/service/systemInfo_service.go, internal/service/home_service.go and the handlers of
  internal/api/v1/system/controller.go.

  The outputs of nvidia-smi, the answers of the library gopsutil about disks, memory and
  processes, the clock and the success of kill are parameters. The automatic termination of
  processes works on a configuration and a set of retained processes in Redis and on the process
  cache of the scheduler; the state records every kill that was tried.
\<close>

section \<open>Reports of nvidia-smi\<close>

text \<open>The output of a command; a command that does not exist is told from one that fails.\<close>

datatype cmd_answer = CmdOutput string | CmdMissing | CmdFailed

text \<open>strings.Split with a separator of two bytes.\<close>

fun Split2 :: "char \<Rightarrow> char \<Rightarrow> string \<Rightarrow> string list" where
  "Split2 a b [] = [[]]"
| "Split2 a b [c] = [[c]]"
| "Split2 a b (c # d # s) = (if c = a \<and> d = b then [] # Split2 a b s
     else (case Split2 a b (d # s) of p # ps \<Rightarrow> (c # p) # ps | [] \<Rightarrow> [[c]]))"

record GPUInfoResponse =
  gi_Index :: int
  gi_DeviceName :: string
  gi_Temp :: string
  gi_Util :: string
  gi_MemUsed :: string
  gi_MemTotal :: string

definition gpu_info_line :: "string \<Rightarrow> GPUInfoResponse option" where
  "gpu_info_line line =
     (if TrimSpace line = [] then None
      else let parts = Split2 CHR '','' CHR '' '' line in
        if length parts < 6 then None
        else case Atoi (TrimSpace (parts ! 0)) of
          None \<Rightarrow> None
        | Some index \<Rightarrow> Some \<lparr> gi_Index = index, gi_DeviceName = Itoa index @ ''-'' @ TrimSpace (parts ! 1),
            gi_Temp = TrimSpace (parts ! 2) @ [CHR 0xC2, CHR 0xB0, CHR ''C''], gi_Util = TrimSpace (parts ! 3) @ ''%'',
            gi_MemUsed = TrimSpace (parts ! 4) @ ''MB'', gi_MemTotal = TrimSpace (parts ! 5) @ ''MB'' \<rparr>)"

definition lines_of :: "string \<Rightarrow> string list" where
  "lines_of out = Split CHR 0x0A (TrimSpace out)"

definition GetGPUInfo :: "cmd_answer \<Rightarrow> GPUInfoResponse list result" where
  "GetGPUInfo ans = (case ans of
     CmdMissing \<Rightarrow> Ok []
   | CmdFailed \<Rightarrow> Err (Errorf ''nvidia-smi'')
   | CmdOutput out \<Rightarrow> Ok (List.map_filter gpu_info_line (lines_of out)))"

definition GetGPUPIDs :: "cmd_answer \<Rightarrow> string list result" where
  "GetGPUPIDs ans = (case ans of
     CmdMissing \<Rightarrow> Ok []
   | CmdFailed \<Rightarrow> Err (Errorf ''nvidia-smi'')
   | CmdOutput out \<Rightarrow> Ok (remdups (filter (\<lambda>p. p \<noteq> []) (map TrimSpace (lines_of out)))))"

section \<open>Processes\<close>

text \<open>What gopsutil tells about a process; each question may fail. NewProcess takes an int32.\<close>

record ps_answer =
  ps_Username :: "string option"
  ps_CreateTime :: "int option"
  ps_Cmdline :: "string option"
  ps_IsRunning :: "bool option"

type_synonym ps_env = "int \<Rightarrow> ps_answer option"

definition wrap32 :: "int \<Rightarrow> int" where
  "wrap32 i = (i + 2147483648) mod 4294967296 - 2147483648"

record ProcessDuration =
  pd_PID :: string
  pd_RunningDurationSecs :: int

text \<open>The time since a creation time in milliseconds, whose milliseconds are dropped.\<close>

definition since_created :: "int \<Rightarrow> int \<Rightarrow> int" where
  "since_created now createTime = time_sub now (go_div createTime 1000 * 1000000000)"

definition process_duration :: "ps_env \<Rightarrow> int \<Rightarrow> string \<Rightarrow> ProcessDuration option" where
  "process_duration ps now line =
     (let pidStr = TrimSpace line in
      if pidStr = [] then None
      else case Atoi pidStr of
        None \<Rightarrow> None
      | Some pid \<Rightarrow> (case ps (wrap32 pid) of
          None \<Rightarrow> None
        | Some p \<Rightarrow> (case ps_CreateTime p of
            None \<Rightarrow> None
          | Some createTime \<Rightarrow> Some \<lparr> pd_PID = pidStr, pd_RunningDurationSecs = whole_seconds (since_created now createTime) \<rparr>)))"

definition GetProcessDurations :: "ps_env \<Rightarrow> int \<Rightarrow> cmd_answer \<Rightarrow> ProcessDuration list result" where
  "GetProcessDurations ps now ans = (case ans of
     CmdMissing \<Rightarrow> Ok []
   | CmdFailed \<Rightarrow> Err (Errorf ''nvidia-smi'')
   | CmdOutput out \<Rightarrow> Ok (List.map_filter (process_duration ps now) (lines_of out)))"

record ProcessInfo =
  pi_Username :: string
  pi_PID :: string
  pi_JobName :: string
  pi_GPUname :: string
  pi_StartTime :: string
  pi_IsNormal :: int
  pi_Runtime :: string
  pi_Command :: string

definition gpu_index_line :: "string \<Rightarrow> (string \<times> string) option" where
  "gpu_index_line line =
     (if TrimSpace line = [] then None
      else let parts = Split2 CHR '','' CHR '' '' line in
        if length parts \<ge> 3
        then Some (TrimSpace (parts ! 1), TrimSpace (parts ! 0) @ ''-'' @ TrimSpace (parts ! 2)) else None)"

definition getGPUIndexMap :: "cmd_answer \<Rightarrow> (string \<times> string) list" where
  "getGPUIndexMap ans = (case ans of
     CmdOutput out \<Rightarrow> fold (\<lambda>(k, v). AList.update k v) (List.map_filter gpu_index_line (lines_of out)) []
   | _ \<Rightarrow> [])"

text \<open>A line of the process report: the id, the name shown for the card, and the name of the process.\<close>

definition smi_process_line :: "(string \<times> string) list \<Rightarrow> string \<Rightarrow> (int \<times> string \<times> string) option" where
  "smi_process_line gpus line =
     (if line = [] then None
      else let parts = Split2 CHR '','' CHR '' '' (TrimSpace line) in
        if length parts < 3 then None
        else case Atoi (parts ! 0) of
          None \<Rightarrow> None
        | Some pid \<Rightarrow>
            (let shown = (case map_of gpus (parts ! 1) of Some n \<Rightarrow> n | None \<Rightarrow> [])
             in Some (pid, (if shown = [] then parts ! 1 else shown), parts ! 2)))"

definition getProcessInfoFromNvidiaSMI :: "cmd_answer \<Rightarrow> cmd_answer \<Rightarrow> (int \<times> string \<times> string) list result" where
  "getProcessInfoFromNvidiaSMI apps gpus = (case apps of
     CmdOutput out \<Rightarrow> Ok (List.map_filter (smi_process_line (getGPUIndexMap gpus)) (lines_of out))
   | _ \<Rightarrow> Err (Errorf ''nvidia-smi''))"

text \<open>\<open>fmt\<close> prints a time in seconds in the layout of the page and the local time zone.\<close>

definition getProcessDetails :: "ps_env \<Rightarrow> (int \<Rightarrow> string) \<Rightarrow> int \<Rightarrow> int \<Rightarrow> string \<Rightarrow> string \<Rightarrow> ProcessInfo option" where
  "getProcessDetails ps fmt now pid gpuName processName = (case ps (wrap32 pid) of
     None \<Rightarrow> None
   | Some p \<Rightarrow>
      (let createTime = (case ps_CreateTime p of Some t \<Rightarrow> t | None \<Rightarrow> 0)
       in Some \<lparr> pi_Username = (case ps_Username p of Some u \<Rightarrow> u | None \<Rightarrow> []), pi_PID = Itoa pid,
            pi_JobName = processName, pi_GPUname = gpuName, pi_StartTime = fmt (go_div createTime 1000),
            pi_IsNormal = (if ps_IsRunning p = Some True then 1 else 0),
            pi_Runtime = formatDuration (since_created now createTime),
            pi_Command = (case ps_Cmdline p of Some c \<Rightarrow> c | None \<Rightarrow> []) \<rparr>))"

definition GetProcessInfo :: "ps_env \<Rightarrow> (int \<Rightarrow> string) \<Rightarrow> int \<Rightarrow> cmd_answer \<Rightarrow> cmd_answer \<Rightarrow> ProcessInfo list result" where
  "GetProcessInfo ps fmt now apps gpus = (case getProcessInfoFromNvidiaSMI apps gpus of
     Inl _ \<Rightarrow> Err (Errorf ''process list'')
   | Inr ps' \<Rightarrow> Ok (List.map_filter (\<lambda>(pid, gpu, name). getProcessDetails ps fmt now pid gpu name) ps'))"

section \<open>Disks and memory\<close>

record disk_usage =
  du_Total :: nat
  du_Used :: nat
  du_Free :: nat
  du_UsedPercent :: rat

record CpuInfoResponse =
  ci_DeviceName :: string
  ci_TotalCap :: string
  ci_UseCap :: string
  ci_RemainCap :: string
  ci_Percentage :: string

definition bytesToGB :: "nat \<Rightarrow> string" where
  "bytesToGB b = fmt_fixed 1 (fdiv (f64 (of_nat b)) 1073741824) @ ''GB''"

definition GetDiskInfo :: "(string \<Rightarrow> disk_usage option) \<Rightarrow> string \<Rightarrow> CpuInfoResponse result" where
  "GetDiskInfo usage mountPoint = (case usage mountPoint of
     None \<Rightarrow> Err (Errorf ''disk'')
   | Some u \<Rightarrow> Ok \<lparr> ci_DeviceName = mountPoint @ [CHR 0xE5, CHR 0x88, CHR 0x86, CHR 0xE5, CHR 0x8C, CHR 0xBA],
       ci_TotalCap = bytesToGB (du_Total u), ci_UseCap = bytesToGB (du_Used u), ci_RemainCap = bytesToGB (du_Free u),
       ci_Percentage = fmt_fixed 1 (du_UsedPercent u) @ ''%'' \<rparr>)"

text \<open>The memory: total, available and the used percentage; the difference is one of uint64.\<close>

definition GetMemoryInfo :: "(nat \<times> nat \<times> rat) option \<Rightarrow> CpuInfoResponse result" where
  "GetMemoryInfo mem = (case mem of
     None \<Rightarrow> Err (Errorf ''memory'')
   | Some (tot, available, percent) \<Rightarrow> Ok \<lparr> ci_DeviceName = [CHR 0xE5, CHR 0x86, CHR 0x85, CHR 0xE5, CHR 0xAD, CHR 0x98],
       ci_TotalCap = bytesToGB tot, ci_UseCap = bytesToGB (nat ((int tot - int available) mod 2 ^ 64)),
       ci_RemainCap = bytesToGB available, ci_Percentage = fmt_fixed 1 percent @ ''%'' \<rparr>)"


section \<open>The service\<close>

definition RedisKeyRetainedPIDs :: string where "RedisKeyRetainedPIDs = ''gpu_task:retained_pids''"

definition RedisKeyConfig :: string where "RedisKeyConfig = ''gpu_task:config''"

definition DefaultAutoTerminateEnabled :: bool where "DefaultAutoTerminateEnabled = False"

definition DefaultMaxDurationMinutes :: int where "DefaultMaxDurationMinutes = 3"

text \<open>
  The environment of one operation: the time, the two reports, the processes, the success of kill,
  and the failures of the commands to Redis. A kill is recorded with the fact whether it was
  automatic and whether it succeeded.
\<close>

record sys_env =
  sx_now :: int
  sx_apps :: cmd_answer
  sx_gpus :: cmd_answer
  sx_ps :: ps_env
  sx_kill :: "int \<Rightarrow> bool"
  sx_config :: bool
  sx_write :: bool
  sx_member :: bool
  sx_members :: bool
  sx_pids :: bool
  sx_each :: "nat \<Rightarrow> bool"

record sysinfo =
  sy_redis :: redis_db
  sy_pids :: pid_cache
  sy_kills :: "(bool \<times> int \<times> bool) list"

definition terminateProcess :: "sys_env \<Rightarrow> bool \<Rightarrow> int \<Rightarrow> sysinfo \<Rightarrow> sysinfo \<times> unit result" where
  "terminateProcess e auto pid s =
     (s\<lparr> sy_kills := sy_kills s @ [(auto, pid, sx_kill e pid)] \<rparr>, if sx_kill e pid then Ok () else Err (Errorf ''kill''))"

definition isProcessInGPU :: "sys_env \<Rightarrow> int \<Rightarrow> bool result" where
  "isProcessInGPU e pid = (case GetGPUPIDs (sx_apps e) of Inl x \<Rightarrow> Err x | Inr pids \<Rightarrow> Ok (Itoa pid \<in> set pids))"

definition TerminateProcess :: "sys_env \<Rightarrow> int \<Rightarrow> sysinfo \<Rightarrow> sysinfo \<times> unit result" where
  "TerminateProcess e pid s = (case isProcessInGPU e pid of
     Inl _ \<Rightarrow> (s, Err (BizError CodeInternalError))
   | Inr b \<Rightarrow> (if \<not> b then (s, Err (BizError CodeBadRequest))
      else (case terminateProcess e False pid s of
        (s1, Inl _) \<Rightarrow> (s1, Err (BizError CodeInternalError))
      | (s1, Inr _) \<Rightarrow> (s1, Ok ()))))"

definition RetainProcess :: "sys_env \<Rightarrow> int \<Rightarrow> sysinfo \<Rightarrow> sysinfo \<times> unit result" where
  "RetainProcess e pid s = (case isProcessInGPU e pid of
     Inl _ \<Rightarrow> (s, Err (BizError CodeInternalError))
   | Inr b \<Rightarrow> (if \<not> b then (s, Err (BizError CodeBadRequest))
      else (case redis_SAdd (sx_write e) (sx_now e) RedisKeyRetainedPIDs (Itoa pid) (sy_redis s) of
        (db, Inl _) \<Rightarrow> (s\<lparr> sy_redis := db \<rparr>, Err (BizError CodeInternalError))
      | (db, Inr _) \<Rightarrow> (s\<lparr> sy_redis := db \<rparr>, Ok ()))))"

definition CancelRetain :: "sys_env \<Rightarrow> int \<Rightarrow> sysinfo \<Rightarrow> sysinfo \<times> unit result" where
  "CancelRetain e pid s = (case redis_SIsMember (sx_member e) (sx_now e) RedisKeyRetainedPIDs (Itoa pid) (sy_redis s) of
     Inl _ \<Rightarrow> (s, Err (BizError CodeInternalError))
   | Inr b \<Rightarrow> (if \<not> b then (s, Err (BizError CodeBadRequest))
      else (case redis_SRem (sx_write e) (sx_now e) RedisKeyRetainedPIDs (Itoa pid) (sy_redis s) of
        (db, Inl _) \<Rightarrow> (s\<lparr> sy_redis := db \<rparr>, Err (BizError CodeInternalError))
      | (db, Inr _) \<Rightarrow> (s\<lparr> sy_redis := db \<rparr>, Ok ()))))"

record ConfigResponse =
  cf_AutoTerminateEnabled :: bool
  cf_MaxDurationMinutes :: int

text \<open>A field that is missing reads as the empty text.\<close>

definition hash_field :: "(string \<times> string) list \<Rightarrow> string \<Rightarrow> string" where
  "hash_field h k = (case map_of h k of Some v \<Rightarrow> v | None \<Rightarrow> [])"

definition GetConfig :: "sys_env \<Rightarrow> sysinfo \<Rightarrow> ConfigResponse" where
  "GetConfig e s = (case redis_HGetAll (sx_config e) (sx_now e) RedisKeyConfig (sy_redis s) of
     Inl _ \<Rightarrow> \<lparr> cf_AutoTerminateEnabled = DefaultAutoTerminateEnabled, cf_MaxDurationMinutes = DefaultMaxDurationMinutes \<rparr>
   | Inr config \<Rightarrow> \<lparr>
       cf_AutoTerminateEnabled = (case ParseBool (hash_field config ''auto_terminate_enabled'') of
         None \<Rightarrow> DefaultAutoTerminateEnabled | Some b \<Rightarrow> b),
       cf_MaxDurationMinutes = (case Atoi (hash_field config ''max_duration_minutes'') of
         None \<Rightarrow> DefaultMaxDurationMinutes
       | Some d \<Rightarrow> (if d = 0 then DefaultMaxDurationMinutes else d)) \<rparr>)"

definition config_fields :: "bool option \<Rightarrow> int option \<Rightarrow> (string \<times> string) list" where
  "config_fields enabled duration =
     (case enabled of None \<Rightarrow> [] | Some b \<Rightarrow> [(''auto_terminate_enabled'', FormatBool b)]) @
     (case duration of None \<Rightarrow> [] | Some d \<Rightarrow> [(''max_duration_minutes'', Itoa d)])"

definition UpdateConfig :: "sys_env \<Rightarrow> bool option \<Rightarrow> int option \<Rightarrow> sysinfo \<Rightarrow> sysinfo \<times> unit result" where
  "UpdateConfig e enabled duration s =
     (if config_fields enabled duration = [] then (s, Err (BizError CodeBadRequest))
      else (case redis_HSet (sx_write e) (sx_now e) RedisKeyConfig (config_fields enabled duration) (sy_redis s) of
        (db, Inl _) \<Rightarrow> (s\<lparr> sy_redis := db \<rparr>, Err (BizError CodeInternalError))
      | (db, Inr _) \<Rightarrow> (s\<lparr> sy_redis := db \<rparr>, Ok ())))"

text \<open>The handler; the answer is the code of an error response or 0.\<close>

definition ctrl_UpdateConfig :: "sys_env \<Rightarrow> bool option \<Rightarrow> int option \<Rightarrow> sysinfo \<Rightarrow> sysinfo \<times> int" where
  "ctrl_UpdateConfig e enabled duration s =
     (case duration of
        Some d \<Rightarrow> (if d < 1 then (s, CodeBadRequest)
          else (case UpdateConfig e enabled duration s of (s1, Inl (BizError c)) \<Rightarrow> (s1, c) | (s1, Inl _) \<Rightarrow> (s1, CodeInternalError) | (s1, Inr _) \<Rightarrow> (s1, 0)))
      | None \<Rightarrow> (case UpdateConfig e enabled duration s of (s1, Inl (BizError c)) \<Rightarrow> (s1, c) | (s1, Inl _) \<Rightarrow> (s1, CodeInternalError) | (s1, Inr _) \<Rightarrow> (s1, 0)))"

section \<open>Automatic termination\<close>

text \<open>
  The settings as the check reads them. A field that is empty or cannot be parsed leaves the
  default; other than in GetConfig, a stored 0 is kept.
\<close>

definition auto_enabled :: "(string \<times> string) list \<Rightarrow> bool" where
  "auto_enabled config = (let v = hash_field config ''auto_terminate_enabled'' in
     if v = [] then DefaultAutoTerminateEnabled else (case ParseBool v of None \<Rightarrow> DefaultAutoTerminateEnabled | Some b \<Rightarrow> b))"

definition auto_max :: "(string \<times> string) list \<Rightarrow> int" where
  "auto_max config = (let v = hash_field config ''max_duration_minutes'' in
     if v = [] then DefaultMaxDurationMinutes else (case Atoi v of None \<Rightarrow> DefaultMaxDurationMinutes | Some d \<Rightarrow> d))"

definition system_pids :: "sys_env \<Rightarrow> sysinfo \<Rightarrow> int list" where
  "system_pids e s = (case GetAllPid (sx_pids e) (sy_pids s) of Inl _ \<Rightarrow> [] | Inr (_, pids) \<Rightarrow> pids)"

definition retained_pids :: "sys_env \<Rightarrow> sysinfo \<Rightarrow> string list" where
  "retained_pids e s = (case redis_SMembers (sx_members e) (sx_now e) RedisKeyRetainedPIDs (sy_redis s) of Inl _ \<Rightarrow> [] | Inr ms \<Rightarrow> ms)"

definition kill_expired :: "sys_env \<Rightarrow> int list \<Rightarrow> string list \<Rightarrow> int \<Rightarrow> ProcessDuration \<Rightarrow> sysinfo \<Rightarrow> sysinfo" where
  "kill_expired e systemPIDs retained maxSecs p s =
     (if pd_PID p \<in> Itoa ` set systemPIDs \<or> pd_PID p \<in> set retained then s
      else if pd_RunningDurationSecs p > maxSecs then
        (case Atoi (pd_PID p) of None \<Rightarrow> s | Some pid \<Rightarrow> fst (terminateProcess e True pid s))
      else s)"

definition checkAndTerminate :: "sys_env \<Rightarrow> sysinfo \<Rightarrow> sysinfo" where
  "checkAndTerminate e s = (case redis_HGetAll (sx_config e) (sx_now e) RedisKeyConfig (sy_redis s) of
     Inl _ \<Rightarrow> s
   | Inr config \<Rightarrow>
      (if \<not> auto_enabled config then s
       else case GetProcessDurations (sx_ps e) (sx_now e) (sx_apps e) of
         Inl _ \<Rightarrow> s
       | Inr ds \<Rightarrow> fold (kill_expired e (system_pids e s) (retained_pids e s) (wrap64 (auto_max config * 60))) ds s))"

definition isProcessRunning :: "ps_env \<Rightarrow> int \<Rightarrow> bool" where
  "isProcessRunning ps pid = (case ps (wrap32 pid) of None \<Rightarrow> False | Some p \<Rightarrow> ps_IsRunning p = Some True)"

text \<open>One element of the clean-up loop; \<open>k\<close> counts the elements, for the failures of SRem.\<close>

fun cleanup_loop :: "sys_env \<Rightarrow> nat \<Rightarrow> string list \<Rightarrow> sysinfo \<Rightarrow> sysinfo" where
  "cleanup_loop e k [] s = s"
| "cleanup_loop e k (pidStr # rest) s = cleanup_loop e (Suc k) rest
     (case Atoi pidStr of
        None \<Rightarrow> s
      | Some pid \<Rightarrow> (if isProcessRunning (sx_ps e) pid then s
          else s\<lparr> sy_redis := fst (redis_SRem (sx_each e k) (sx_now e) RedisKeyRetainedPIDs pidStr (sy_redis s)) \<rparr>))"

definition cleanupRetainedTasks :: "sys_env \<Rightarrow> sysinfo \<Rightarrow> sysinfo" where
  "cleanupRetainedTasks e s = (case redis_SMembers (sx_members e) (sx_now e) RedisKeyRetainedPIDs (sy_redis s) of
     Inl _ \<Rightarrow> s | Inr ms \<Rightarrow> cleanup_loop e 0 ms s)"


section \<open>The page of the machine\<close>

record SystemProcessInfo =
  sp_Username :: string
  sp_PID :: string
  sp_JobName :: string
  sp_GPUname :: string
  sp_StartTime :: string
  sp_IsNormal :: int
  sp_Runtime :: string
  sp_Command :: string

record ServerProcessInfo =
  vp_Username :: string
  vp_PID :: string
  vp_JobName :: string
  vp_GPUname :: string
  vp_StartTime :: string
  vp_IsNormal :: int
  vp_Runtime :: string
  vp_RunningDurationSecs :: int
  vp_Command :: string
  vp_IsRetained :: bool

definition system_process :: "ProcessInfo \<Rightarrow> SystemProcessInfo" where
  "system_process p = \<lparr> sp_Username = pi_Username p, sp_PID = pi_PID p, sp_JobName = pi_JobName p, sp_GPUname = pi_GPUname p,
     sp_StartTime = pi_StartTime p, sp_IsNormal = pi_IsNormal p, sp_Runtime = pi_Runtime p, sp_Command = pi_Command p \<rparr>"

definition server_process :: "string list \<Rightarrow> ProcessInfo \<Rightarrow> ServerProcessInfo" where
  "server_process retained p = \<lparr> vp_Username = pi_Username p, vp_PID = pi_PID p, vp_JobName = pi_JobName p, vp_GPUname = pi_GPUname p,
     vp_StartTime = pi_StartTime p, vp_IsNormal = pi_IsNormal p, vp_Runtime = pi_Runtime p, vp_RunningDurationSecs = 0,
     vp_Command = pi_Command p, vp_IsRetained = (pi_PID p \<in> set retained) \<rparr>"

definition collectAndClassifyProcesses ::
  "(int \<Rightarrow> string) \<Rightarrow> sys_env \<Rightarrow> sysinfo \<Rightarrow> SystemProcessInfo list \<times> ServerProcessInfo list" where
  "collectAndClassifyProcesses fmt e s = (case GetProcessInfo (sx_ps e) fmt (sx_now e) (sx_apps e) (sx_gpus e) of
     Inl _ \<Rightarrow> ([], [])
   | Inr infos \<Rightarrow>
      (let sys = (\<lambda>p. pi_PID p \<in> Itoa ` set (system_pids e s))
       in (map system_process (filter sys infos),
           map (server_process (retained_pids e s)) (filter (\<lambda>p. \<not> sys p) infos))))"

record SystemInfosResponse =
  si_CpuList :: "CpuInfoResponse list"
  si_GpuList :: "GPUInfoResponse list"
  si_SystemProcesses :: "SystemProcessInfo list"
  si_ServerProcesses :: "ServerProcessInfo list"

definition ok_list :: "'a result \<Rightarrow> 'a list" where
  "ok_list r = (case r of Inl _ \<Rightarrow> [] | Inr v \<Rightarrow> [v])"

text \<open>\<open>report\<close> is the report on the cards, which GetGPUInfo parses.\<close>

definition collectSystemInfo ::
  "(int \<Rightarrow> string) \<Rightarrow> (string \<Rightarrow> disk_usage option) \<Rightarrow> (nat \<times> nat \<times> rat) option \<Rightarrow> cmd_answer \<Rightarrow> sys_env \<Rightarrow> sysinfo \<Rightarrow> SystemInfosResponse" where
  "collectSystemInfo fmt usage mem report e s =
     (let (sys, srv) = collectAndClassifyProcesses fmt e s
      in \<lparr> si_CpuList = ok_list (GetDiskInfo usage ''/home'') @ ok_list (GetDiskInfo usage ''/'') @ ok_list (GetMemoryInfo mem),
           si_GpuList = concat (ok_list (GetGPUInfo report)), si_SystemProcesses = sys, si_ServerProcesses = srv \<rparr>)"

text \<open>A tick of the pusher: \<open>json\<close> encodes the answer, or fails.\<close>

definition push_info :: "(SystemInfosResponse \<Rightarrow> string option) \<Rightarrow> SystemInfosResponse \<Rightarrow> ConnectionPool \<Rightarrow> ConnectionPool result" where
  "push_info json info p =
     (if \<not> IsHavingSystemInfoConnection p then Ok p
      else case json info of None \<Rightarrow> Ok p | Some data \<Rightarrow> BroadcastToAdminsByType ''systemInfo'' data p)"

definition HandleSyMessage :: "int \<Rightarrow> int \<Rightarrow> ConnectionPool \<Rightarrow> ConnectionPool" where
  "HandleSyMessage now userID p = fst (Add userID (Some \<lparr> md_UserID = userID, md_SessionType = ''systemInfo'', md_Role = ''admin'', md_CreatedAt = now \<rparr>) p)"

section \<open>The home page\<close>

definition fill_duration :: "ServerProcessInfo \<Rightarrow> ServerProcessInfo" where
  "fill_duration p = (if vp_RunningDurationSecs p > 0 then p
     else case ParseDuration (vp_Runtime p) of None \<Rightarrow> p | Some d \<Rightarrow> p\<lparr> vp_RunningDurationSecs := whole_seconds d \<rparr>)"

definition fillRunningDurationSecs :: "ServerProcessInfo list \<Rightarrow> ServerProcessInfo list" where
  "fillRunningDurationSecs ps = map fill_duration ps"

definition merged_process :: "SystemProcessInfo \<Rightarrow> ServerProcessInfo" where
  "merged_process p = \<lparr> vp_Username = sp_Username p, vp_PID = sp_PID p, vp_JobName = sp_JobName p, vp_GPUname = sp_GPUname p,
     vp_StartTime = sp_StartTime p, vp_IsNormal = sp_IsNormal p, vp_Runtime = sp_Runtime p, vp_RunningDurationSecs = 0,
     vp_Command = sp_Command p, vp_IsRetained = False \<rparr>"

definition mergeHomeProcesses :: "SystemProcessInfo list \<Rightarrow> ServerProcessInfo list \<Rightarrow> ServerProcessInfo list" where
  "mergeHomeProcesses sys srv = map merged_process sys @ srv"

record HomeGpuSummary =
  hg_Total :: int
  hg_Busy :: int
  hg_Idle :: int

definition buildHomeGpuSummary :: "GPUInfoResponse list \<Rightarrow> ServerProcessInfo list \<Rightarrow> HomeGpuSummary" where
  "buildHomeGpuSummary gpus ps =
     (let tot = int (length gpus);
          busy0 = int (length (remdups (filter (\<lambda>n. n \<noteq> []) (map vp_GPUname ps))));
          busy = (if busy0 > tot then tot else busy0)
      in \<lparr> hg_Total = tot, hg_Busy = busy, hg_Idle = tot - busy \<rparr>)"

record HomeOverviewResponse =
  ho_GpuSummary :: HomeGpuSummary
  ho_Gpus :: "GPUInfoResponse list"
  ho_ServerProcesses :: "ServerProcessInfo list"
  ho_SystemProcesses :: "SystemProcessInfo list"
  ho_QueueSummary :: HomeQueueSummary

text \<open>
  The collector of the system information is shared; it and its repository always exist, so the
  guards of systemCollector never apply.
\<close>

definition collectRealtimeGpus :: "cmd_answer \<Rightarrow> GPUInfoResponse list" where
  "collectRealtimeGpus report = (case GetGPUInfo report of Inl _ \<Rightarrow> [] | Inr gpus \<Rightarrow> gpus)"

definition collectProcesses :: "(int \<Rightarrow> string) \<Rightarrow> sys_env \<Rightarrow> sysinfo \<Rightarrow> SystemProcessInfo list \<times> ServerProcessInfo list" where
  "collectProcesses fmt e s =
     (let (sys, srv) = collectAndClassifyProcesses fmt e s in (sys, fillRunningDurationSecs srv))"

text \<open>\<open>queue\<close> is the answer of GetHomeQueueSummary on the job table.\<close>

definition GetOverview ::
  "(int \<Rightarrow> string) \<Rightarrow> cmd_answer \<Rightarrow> HomeQueueSummary result \<Rightarrow> sys_env \<Rightarrow> sysinfo \<Rightarrow> HomeOverviewResponse result" where
  "GetOverview fmt report queue e s =
     (let gpus = collectRealtimeGpus report in
      case queue of
        Inl x \<Rightarrow> Err x
      | Inr q \<Rightarrow>
         (let (sys, srv) = collectProcesses fmt e s;
              everything = mergeHomeProcesses sys srv
          in Ok \<lparr> ho_GpuSummary = buildHomeGpuSummary gpus everything, ho_Gpus = gpus, ho_ServerProcesses = everything,
                  ho_SystemProcesses = sys, ho_QueueSummary = q \<rparr>))"

definition push_overview :: "(HomeOverviewResponse \<Rightarrow> string option) \<Rightarrow> HomeOverviewResponse result \<Rightarrow> ConnectionPool \<Rightarrow> ConnectionPool result" where
  "push_overview json overview p =
     (if \<not> IsHavingHomeOverviewConnection p then Ok p
      else case overview of
        Inl _ \<Rightarrow> Ok p
      | Inr o' \<Rightarrow> (case json o' of None \<Rightarrow> Ok p | Some data \<Rightarrow> BroadcastToAdminsByType ''homeOverview'' data p))"

definition HandleHomeMessage :: "int \<Rightarrow> int \<Rightarrow> ConnectionPool \<Rightarrow> ConnectionPool" where
  "HandleHomeMessage now userID p = fst (Add userID (Some \<lparr> md_UserID = userID, md_SessionType = ''homeOverview'', md_Role = ''admin'', md_CreatedAt = now \<rparr>) p)"


section \<open>What the check terminates\<close>

lemma fold_kill:
  "fold (kill_expired e sys ret m) ds s = s\<lparr> sy_kills := sy_kills s @ concat (map (\<lambda>p.
     if pd_PID p \<notin> Itoa ` set sys \<and> pd_PID p \<notin> set ret \<and> m < pd_RunningDurationSecs p
     then (case Atoi (pd_PID p) of None \<Rightarrow> [] | Some pid \<Rightarrow> [(True, pid, sx_kill e pid)]) else []) ds) \<rparr>"
  by (induction ds arbitrary: s) (auto simp: kill_expired_def terminateProcess_def split: option.splits)

text \<open>The processes of a report that the check ends, with the outcome of each kill.\<close>

definition expired :: "sys_env \<Rightarrow> int list \<Rightarrow> string list \<Rightarrow> int \<Rightarrow> ProcessDuration list \<Rightarrow> (bool \<times> int \<times> bool) list" where
  "expired e sys ret m ds = [(True, the (Atoi (pd_PID p)), sx_kill e (the (Atoi (pd_PID p)))). p \<leftarrow> ds,
     pd_PID p \<notin> Itoa ` set sys \<and> pd_PID p \<notin> set ret \<and> m < pd_RunningDurationSecs p]"

lemma set_map_filter: "y \<in> set (List.map_filter f xs) \<longleftrightarrow> (\<exists>x \<in> set xs. f x = Some y)"
  by (force simp: map_filter_def)

lemma process_duration_parses: "process_duration ps now line = Some p \<Longrightarrow> Atoi (pd_PID p) \<noteq> None"
  by (auto simp: process_duration_def Let_def split: option.splits if_splits)

lemma durations_parse: "GetProcessDurations ps now ans = Ok ds \<Longrightarrow> p \<in> set ds \<Longrightarrow> Atoi (pd_PID p) \<noteq> None"
  using process_duration_parses [of ps now _ p] by (auto simp: GetProcessDurations_def set_map_filter split: cmd_answer.splits)

lemma fold_kill_expired:
  assumes "\<forall>p \<in> set ds. Atoi (pd_PID p) \<noteq> None"
  shows "fold (kill_expired e sys ret m) ds s = s\<lparr> sy_kills := sy_kills s @ expired e sys ret m ds \<rparr>"
proof -
  have "concat (map (\<lambda>p. if pd_PID p \<notin> Itoa ` set sys \<and> pd_PID p \<notin> set ret \<and> m < pd_RunningDurationSecs p
      then (case Atoi (pd_PID p) of None \<Rightarrow> [] | Some pid \<Rightarrow> [(True, pid, sx_kill e pid)]) else []) ds) = expired e sys ret m ds"
    unfolding expired_def using assms by (intro arg_cong [of _ _ concat] map_cong) auto
  then show ?thesis by (simp only: fold_kill)
qed

lemma UpdateConfig_read:
  assumes "ctrl_UpdateConfig e (Some b) (Some m) s = (s1, 0)" "key_expiry (sx_now e) RedisKeyConfig (sy_redis s) = None"
  obtains h where "1 \<le> m" "redis_HGetAll False later RedisKeyConfig (sy_redis s1) = Ok h"
    "hash_field h ''auto_terminate_enabled'' = FormatBool b" "hash_field h ''max_duration_minutes'' = Itoa m"
proof -
  have "\<not> m < 1" "redis_HSet (sx_write e) (sx_now e) RedisKeyConfig (config_fields (Some b) (Some m)) (sy_redis s) = (sy_redis s1, Ok ())"
    using assms(1) by (auto simp: ctrl_UpdateConfig_def UpdateConfig_def CodeInternalError_def CodeBadRequest_def
        split: if_splits prod.splits sum.splits)
  then obtain h0 where "1 \<le> m" and h0: "(sy_redis s)(RedisKeyConfig := Some (RHash (AList.update ''max_duration_minutes'' (Itoa m)
      (AList.update ''auto_terminate_enabled'' (FormatBool b) h0)), None)) = sy_redis s1"
    using assms(2) by (auto simp: redis_HSet_def config_fields_def split: sum.splits)
  then show thesis by (intro that [of "AList.update ''max_duration_minutes'' (Itoa m) (AList.update ''auto_terminate_enabled'' (FormatBool b) h0)"])
      (simp_all add: redis_HGetAll_def live_def hash_field_def update_conv' flip: h0)
qed



text \<open>A small machine for the examples: one card, two processes of which the scheduler knows one.\<close>

definition demo_sys_env :: "bool \<Rightarrow> sys_env" where
  "demo_sys_env missing = \<lparr> sx_now = 1000000000000, sx_apps = (if missing then CmdMissing else CmdOutput ''7, U0, a''), sx_gpus = CmdOutput ''0, U0, A100'',
     sx_ps = (\<lambda>_. Some \<lparr> ps_Username = Some ''u'', ps_CreateTime = Some 0, ps_Cmdline = Some ''python'', ps_IsRunning = Some True \<rparr>),
     sx_kill = (\<lambda>_. True), sx_config = False, sx_write = False, sx_member = False, sx_members = False, sx_pids = False, sx_each = (\<lambda>_. False) \<rparr>"

definition demo_pid_env :: sys_env where
  "demo_pid_env = (demo_sys_env False)\<lparr> sx_apps := CmdOutput (''7'' @ [CHR 0x0A] @ ''8'' @ [CHR 0x0A] @ ''9'') \<rparr>"

definition demo_sysinfo :: sysinfo where
  "demo_sysinfo = \<lparr> sy_redis = [RedisKeyRetainedPIDs \<mapsto> (RSet [''9''], None)], sy_pids = [(Itoa 8, ''j'')], sy_kills = [] \<rparr>"



section \<open>Retained processes\<close>

definition is_retained :: "sysinfo \<Rightarrow> int \<Rightarrow> bool" where
  "is_retained s pid = (\<exists>ms. sy_redis s RedisKeyRetainedPIDs = Some (RSet ms, None) \<and> Itoa pid \<in> set ms)"

text \<open>A report that prints process ids in the usual way.\<close>

definition canonical_report :: "sys_env \<Rightarrow> bool" where
  "canonical_report e = (\<forall>ds. GetProcessDurations (sx_ps e) (sx_now e) (sx_apps e) = Ok ds \<longrightarrow>
     (\<forall>p \<in> set ds. \<forall>k. Atoi (pd_PID p) = Some k \<longrightarrow> pd_PID p = Itoa k))"

text \<open>Everything that may happen while a process stays retained and alive.\<close>

inductive sys_step :: "int \<Rightarrow> sysinfo \<Rightarrow> sysinfo \<Rightarrow> bool" for pid where
  step_retain: "sys_step pid s (fst (RetainProcess e q s))"
| step_cancel: "q \<noteq> pid \<Longrightarrow> sys_step pid s (fst (CancelRetain e q s))"
| step_terminate: "sys_step pid s (fst (TerminateProcess e q s))"
| step_config: "sys_step pid s (fst (ctrl_UpdateConfig e b m s))"
| step_check: "\<not> sx_members e \<Longrightarrow> canonical_report e \<Longrightarrow> sys_step pid s (checkAndTerminate e s)"
| step_cleanup: "isProcessRunning (sx_ps e) pid \<Longrightarrow> sys_step pid s (cleanupRetainedTasks e s)"
| step_cache: "sys_step pid s (s\<lparr> sy_pids := h \<rparr>)"

definition auto_kills :: "int \<Rightarrow> sysinfo \<Rightarrow> (bool \<times> int \<times> bool) list" where
  "auto_kills pid s = filter (\<lambda>(auto, q, _). auto \<and> q = pid) (sy_kills s)"

lemma members_retained: "is_retained s pid \<Longrightarrow> \<exists>ms. redis_SMembers False now RedisKeyRetainedPIDs (sy_redis s) = Ok ms \<and> Itoa pid \<in> set ms"
  by (auto simp: is_retained_def redis_SMembers_def live_def)

lemma SAdd_keeps: "is_retained s pid \<Longrightarrow> is_retained (s\<lparr> sy_redis := fst (redis_SAdd err now RedisKeyRetainedPIDs m (sy_redis s)) \<rparr>) pid"
  by (auto simp: is_retained_def redis_SAdd_def redis_SMembers_def live_def)

lemma SRem_keeps:
  "is_retained s pid \<Longrightarrow> m \<noteq> Itoa pid \<Longrightarrow> is_retained (s\<lparr> sy_redis := fst (redis_SRem err now RedisKeyRetainedPIDs m (sy_redis s)) \<rparr>) pid"
  by (auto simp: is_retained_def redis_SRem_def redis_SMembers_def live_def Let_def filter_empty_conv)

lemma HSet_keeps: "is_retained s pid \<Longrightarrow> is_retained (s\<lparr> sy_redis := fst (redis_HSet err now RedisKeyConfig fvs (sy_redis s)) \<rparr>) pid"
  by (auto simp: is_retained_def redis_HSet_def RedisKeyConfig_def RedisKeyRetainedPIDs_def split: sum.split)

lemma cleanup_loop_keeps:
  assumes "is_retained s pid" "isProcessRunning (sx_ps e) pid" "in_int pid"
  shows "is_retained (cleanup_loop e k ms s) pid \<and> sy_kills (cleanup_loop e k ms s) = sy_kills s"
  using assms(1)
proof (induction ms arbitrary: k s)
  case (Cons m ms)
  have a: "Atoi (Itoa pid) = Some pid" using assms(3) by (rule Atoi_Itoa)
  show ?case
  proof (cases "m = Itoa pid")
    case True
    then show ?thesis using Cons assms(2) a by simp
  next
    case False
    let ?s = "s\<lparr> sy_redis := fst (redis_SRem (sx_each e k) (sx_now e) RedisKeyRetainedPIDs m (sy_redis s)) \<rparr>"
    have "is_retained ?s pid" using SRem_keeps [OF Cons.prems False] .
    then show ?thesis using Cons.IH [of ?s "Suc k"] Cons.IH [of s "Suc k"] Cons.prems by (auto split: option.split)
  qed
qed simp

lemma expired_spares:
  assumes "Itoa pid \<in> set ret" "\<forall>p \<in> set ds. \<forall>k. Atoi (pd_PID p) = Some k \<longrightarrow> pd_PID p = Itoa k" "\<forall>p \<in> set ds. Atoi (pd_PID p) \<noteq> None"
  shows "filter (\<lambda>(auto, q, _). auto \<and> q = pid) (expired e sys ret m ds) = []"
  using assms by (force simp: expired_def filter_empty_conv)

lemma check_spares:
  assumes "is_retained s pid" "\<not> sx_members e" "canonical_report e"
  shows "is_retained (checkAndTerminate e s) pid \<and> auto_kills pid (checkAndTerminate e s) = auto_kills pid s"
proof (cases "checkAndTerminate e s = s")
  case False
  obtain ms where ms: "redis_SMembers False (sx_now e) RedisKeyRetainedPIDs (sy_redis s) = Ok ms" "Itoa pid \<in> set ms"
    using members_retained [OF assms(1)] by blast
  then have ret: "Itoa pid \<in> set (retained_pids e s)" using assms(2) by (simp add: retained_pids_def)
  obtain config ds where ds: "GetProcessDurations (sx_ps e) (sx_now e) (sx_apps e) = Ok ds"
    "checkAndTerminate e s = fold (kill_expired e (system_pids e s) (retained_pids e s) (wrap64 (auto_max config * 60))) ds s"
    using False by (auto simp: checkAndTerminate_def split: sum.splits if_splits)
  have p: "\<forall>p \<in> set ds. Atoi (pd_PID p) \<noteq> None" using durations_parse [OF ds(1)] by blast
  have "\<forall>p \<in> set ds. \<forall>k. Atoi (pd_PID p) = Some k \<longrightarrow> pd_PID p = Itoa k"
    using assms(3) ds(1) by (simp add: canonical_report_def)
  then show ?thesis using ds(2) expired_spares [OF ret _ p] assms(1)
    by (simp add: fold_kill_expired [OF p] auto_kills_def is_retained_def)
qed (use assms(1) in simp)

lemma sys_step_spares:
  assumes "sys_step pid s s'" "is_retained s pid" "in_int pid"
  shows "is_retained s' pid \<and> auto_kills pid s' = auto_kills pid s"
  using assms(1)
proof cases
  case (step_retain e q)
  then show ?thesis using assms(2) SAdd_keeps [OF assms(2), of "sx_write e" "sx_now e" "Itoa q"]
    by (auto simp: RetainProcess_def auto_kills_def split: sum.splits prod.splits)
next
  case (step_cancel q e)
  then show ?thesis using assms(2) SRem_keeps [OF assms(2), of "Itoa q" "sx_write e" "sx_now e"]
    by (auto simp: CancelRetain_def auto_kills_def split: sum.splits prod.splits)
next
  case (step_terminate e q)
  then show ?thesis using assms(2)
    by (auto simp: TerminateProcess_def terminateProcess_def auto_kills_def is_retained_def split: sum.splits)
next
  case (step_config e b m)
  have "is_retained (fst (UpdateConfig e b m s)) pid \<and> sy_kills (fst (UpdateConfig e b m s)) = sy_kills s"
    using assms(2) HSet_keeps [OF assms(2), of "sx_write e" "sx_now e" "config_fields b m"]
    by (auto simp: UpdateConfig_def split: sum.splits prod.splits)
  then show ?thesis using step_config assms(2)
    by (auto simp: ctrl_UpdateConfig_def auto_kills_def split: sum.splits prod.splits option.splits error.splits)
next
  case (step_check e)
  then show ?thesis using check_spares [OF assms(2)] by simp
next
  case (step_cleanup e)
  then show ?thesis using assms(2) cleanup_loop_keeps [OF assms(2) _ assms(3), of e 0]
    by (auto simp: cleanupRetainedTasks_def auto_kills_def split: sum.splits)
next
  case (step_cache h)
  then show ?thesis using assms(2) by (simp add: is_retained_def auto_kills_def)
qed




section \<open>The home page is complete\<close>

text \<open>What a row of the page says about a process, and the same of the report.\<close>

definition vp_row :: "ServerProcessInfo \<Rightarrow> string list \<times> int" where
  "vp_row p = ([vp_PID p, vp_Username p, vp_JobName p, vp_GPUname p, vp_StartTime p, vp_Runtime p, vp_Command p], vp_IsNormal p)"

definition pi_row :: "ProcessInfo \<Rightarrow> string list \<times> int" where
  "pi_row p = ([pi_PID p, pi_Username p, pi_JobName p, pi_GPUname p, pi_StartTime p, pi_Runtime p, pi_Command p], pi_IsNormal p)"

lemma vp_row_simps [simp]:
  "vp_row (fill_duration p) = vp_row p" "vp_row (server_process r q) = pi_row q" "vp_row (merged_process (system_process q)) = pi_row q"
  by (simp_all add: vp_row_def pi_row_def fill_duration_def server_process_def merged_process_def system_process_def split: option.split)

text \<open>The number of seconds of a running time survives its printing and reading.\<close>

lemma fill_duration_exact:
  assumes "vp_Runtime p = formatDuration d" "vp_RunningDurationSecs p = 0" "0 \<le> whole_seconds d" "whole_seconds d * 1000000000 \<le> int_max"
  shows "vp_RunningDurationSecs (fill_duration p) = whole_seconds d"
proof -
  have "whole_seconds d \<le> 2 ^ 53" using assms(4) by (simp add: int_max_def)
  then show ?thesis using assms parse_format_secs [OF assms(3,4)] whole_seconds_exact [OF assms(3)]
    by (simp add: fill_duration_def formatDuration_def)
qed

lemma process_info_runtime:
  assumes "GetProcessInfo ps fmt now apps gpus = Ok infos" "p \<in> set infos"
  obtains createTime where "pi_Runtime p = formatDuration (since_created now createTime)"
  using assms by (auto simp: GetProcessInfo_def set_map_filter getProcessDetails_def Let_def split: sum.splits option.splits)

lemma length_filter_names:
  assumes "distinct (map f gs)" "N \<subseteq> set (map f gs)"
  shows "length (filter (\<lambda>g. f g \<notin> N) gs) + card N = length gs"
proof -
  have "card N = length (filter (\<lambda>g. f g \<in> N) gs)"
  proof -
    have "N = set (map f (filter (\<lambda>g. f g \<in> N) gs))" using assms(2) by auto
    moreover have "distinct (map f (filter (\<lambda>g. f g \<in> N) gs))" using assms(1) by (rule distinct_map_filter)
    ultimately show ?thesis by (metis distinct_card length_map)
  qed
  then show ?thesis using sum_length_filter_compl [of "\<lambda>g. f g \<in> N" gs] by simp
qed

lemma gpu_summary_exact:
  assumes "distinct (map gi_DeviceName gpus)" "vp_GPUname ` set ps \<subseteq> gi_DeviceName ` set gpus" "\<forall>g \<in> set gpus. gi_DeviceName g \<noteq> []"
  shows "buildHomeGpuSummary gpus ps = \<lparr> hg_Total = int (length gpus),
     hg_Busy = int (length (filter (\<lambda>g. gi_DeviceName g \<in> vp_GPUname ` set ps) gpus)),
     hg_Idle = int (length (filter (\<lambda>g. gi_DeviceName g \<notin> vp_GPUname ` set ps) gpus)) \<rparr>"
proof -
  let ?N = "vp_GPUname ` set ps"
  have ne: "filter (\<lambda>n. n \<noteq> []) (map vp_GPUname ps) = map vp_GPUname ps" using assms(2,3) by (force simp: filter_id_conv)
  have "length (remdups (map vp_GPUname ps)) = card ?N" by (simp add: length_remdups_card_conv)
  moreover have "length (filter (\<lambda>g. gi_DeviceName g \<notin> ?N) gpus) + card ?N = length gpus"
    using length_filter_names [OF assms(1), of ?N] assms(2) by simp
  moreover have "length (filter (\<lambda>g. gi_DeviceName g \<in> ?N) gpus) + length (filter (\<lambda>g. gi_DeviceName g \<notin> ?N) gpus) = length gpus"
    by (rule sum_length_filter_compl)
  ultimately show ?thesis by (simp add: buildHomeGpuSummary_def ne Let_def)
qed

lemma device_names_nonempty: "GetGPUInfo report = Ok gpus \<Longrightarrow> \<forall>g \<in> set gpus. gi_DeviceName g \<noteq> []"
  by (auto simp: GetGPUInfo_def set_map_filter gpu_info_line_def Let_def split: cmd_answer.splits if_splits option.splits)

text \<open>
  The home page shows the whole report. Its list of running tasks has exactly the processes
  that the report names, each with the same user, card, times and command; a process that is not
  a task of the scheduler has its running time in seconds, read back from the printed one; and
  when the names of the cards of the processes are those of the cards of the machine, the busy
  cards are the ones with a process and the idle ones the others.
\<close>

theorem home_overview_complete:
  assumes ov: "GetOverview fmt report queue e s = Ok page" and gpus: "GetGPUInfo report = Ok gs"
    and infos: "GetProcessInfo (sx_ps e) fmt (sx_now e) (sx_apps e) (sx_gpus e) = Ok infos"
    and names: "distinct (map gi_DeviceName gs)" "pi_GPUname ` set infos \<subseteq> gi_DeviceName ` set gs"
  shows "mset (map vp_row (ho_ServerProcesses page)) = mset (map pi_row infos) \<and>
    (\<forall>p \<in> set (ho_ServerProcesses page). \<exists>d. vp_Runtime p = formatDuration d \<and>
       (vp_PID p \<notin> Itoa ` set (system_pids e s) \<and> 0 \<le> whole_seconds d \<and> whole_seconds d * 1000000000 \<le> int_max \<longrightarrow>
          vp_RunningDurationSecs p = whole_seconds d)) \<and>
    ho_GpuSummary page = \<lparr> hg_Total = int (length gs),
      hg_Busy = int (length (filter (\<lambda>g. gi_DeviceName g \<in> pi_GPUname ` set infos) gs)),
      hg_Idle = int (length (filter (\<lambda>g. gi_DeviceName g \<notin> pi_GPUname ` set infos) gs)) \<rparr>"
proof -
  let ?sys = "\<lambda>p. pi_PID p \<in> Itoa ` set (system_pids e s)"
  let ?a = "map (merged_process \<circ> system_process) (filter ?sys infos)"
  let ?b = "map (fill_duration \<circ> server_process (retained_pids e s)) (filter (\<lambda>p. \<not> ?sys p) infos)"
  have page: "ho_ServerProcesses page = ?a @ ?b" "ho_GpuSummary page = buildHomeGpuSummary gs (?a @ ?b)"
    using ov gpus infos by (auto simp: GetOverview_def collectRealtimeGpus_def collectProcesses_def collectAndClassifyProcesses_def mergeHomeProcesses_def
        fillRunningDurationSecs_def Let_def split: sum.splits)
  have rows: "mset (map vp_row (ho_ServerProcesses page)) = mset (map pi_row infos)"
    by (simp add: page comp_def) (metis image_mset_union mset_filter multiset_partition)
  then have "vp_row ` set (ho_ServerProcesses page) = pi_row ` set infos" by (metis list.set_map mset_eq_setD)
  then have "(\<lambda>r. fst r ! 3) ` vp_row ` set (ho_ServerProcesses page) = (\<lambda>r. fst r ! 3) ` pi_row ` set infos" by simp
  then have gpu: "vp_GPUname ` set (ho_ServerProcesses page) = pi_GPUname ` set infos"
    by (simp add: image_image vp_row_def pi_row_def)
  have "\<exists>d. vp_Runtime p = formatDuration d \<and> (vp_PID p \<notin> Itoa ` set (system_pids e s) \<and> 0 \<le> whole_seconds d \<and>
      whole_seconds d * 1000000000 \<le> int_max \<longrightarrow> vp_RunningDurationSecs p = whole_seconds d)"
    if p: "p \<in> set (ho_ServerProcesses page)" for p
  proof -
    obtain q where q: "q \<in> set infos" "p = merged_process (system_process q) \<and> ?sys q \<or> p = fill_duration (server_process (retained_pids e s) q)"
      using p page(1) by auto
    obtain c where "pi_Runtime q = formatDuration (since_created (sx_now e) c)" using process_info_runtime [OF infos q(1)] by blast
    moreover have "vp_Runtime p = pi_Runtime q \<and> vp_PID p = pi_PID q"
      using q(2) by (auto simp: merged_process_def system_process_def fill_duration_def server_process_def split: option.split)
    moreover have "vp_RunningDurationSecs (server_process (retained_pids e s) q) = 0" "vp_Runtime (server_process (retained_pids e s) q) = pi_Runtime q"
      by (simp_all add: server_process_def)
    ultimately show ?thesis using q(2) fill_duration_exact [of "server_process (retained_pids e s) q"] by metis
  qed
  then show ?thesis using rows gpu gpu_summary_exact [OF names(1), of "?a @ ?b"] names(2) device_names_nonempty [OF gpus] page by simp
qed

text \<open>
  Where the check does not do what it means to: when the process cache or the set of retained
  processes cannot be read, the check goes on as if there were none, and ends tasks of the
  scheduler and retained processes that have run longer than the limit.
\<close>

definition on_env :: sys_env where
  "on_env = demo_pid_env\<lparr> sx_members := True, sx_pids := True \<rparr>"

definition on_sysinfo :: sysinfo where
  "on_sysinfo = fst (ctrl_UpdateConfig demo_pid_env (Some True) (Some 10) demo_sysinfo)"

lemma check_fails_open:
  "sy_kills (checkAndTerminate on_env on_sysinfo) = [(True, 7, True), (True, 8, True), (True, 9, True)]"
  by code_simp

text \<open>A stored limit of 0 minutes is shown as 3 and used as 0; the handler does not store it.\<close>

lemma zero_limit_shown_as_default:
  "cf_MaxDurationMinutes (GetConfig on_env (fst (UpdateConfig demo_pid_env (Some True) (Some 0) demo_sysinfo))) = 3 \<and>
   auto_max (config_fields (Some True) (Some 0)) = 0 \<and>
   ctrl_UpdateConfig demo_pid_env (Some True) (Some 0) demo_sysinfo = (demo_sysinfo, CodeBadRequest)"
proof -
  have "cf_MaxDurationMinutes (GetConfig on_env (fst (UpdateConfig demo_pid_env (Some True) (Some 0) demo_sysinfo))) = 3"
    "auto_max (config_fields (Some True) (Some 0)) = 0" by code_simp+
  then show ?thesis by (simp add: ctrl_UpdateConfig_def)
qed

end
