(* ===== verification/Terminal.thy ===== *)
theory Terminal
  imports Prelude "HOL-Library.AList" "HOL-Library.Word"
begin

text \<open>
  The web terminal: internal/service/terminal_service.go.

  A terminal session object is addressed by a number, as the code compares pointers; the table
  of sessions maps keys to addresses. Bytes are 8 bit words. Standard input of a session is the
  log of the bytes written to it, the messages to the WebSocket clients are a log of pairs
  (client, message), and the clients whose Close was called are listed. The remote shell, the
  SSH session manager and the sockets answer through the environment records.
\<close>

unbundle bit_operations_syntax

section \<open>Session objects\<close>

type_synonym byte = "8 word"

definition terminalOutputBufferLimit :: int where "terminalOutputBufferLimit = 2097152"

record sshSessionWrapper =
  sw_ID :: string
  sw_Key :: string
  sw_Session :: bool
  sw_stdin :: "byte list option"
  sw_LastActive :: int
  sw_clients :: "nat list"
  sw_outputBuffer :: "byte list"
  sw_utf8Remainder :: "byte list"
  sw_maxBufferSize :: int
  sw_closed :: bool

datatype message = Output "byte list"

record terminalService =
  tm_sessions :: "(string \<times> nat) list"
  tm_objects :: "nat \<Rightarrow> sshSessionWrapper"
  tm_next :: nat
  tm_sent :: "(nat \<times> message) list"
  tm_closed :: "nat list"

section \<open>Output\<close>

definition lead_len :: "byte \<Rightarrow> nat" where
  "lead_len b = (if b AND 0xE0 = 0xC0 then 2 else if b AND 0xF0 = 0xE0 then 3
                 else if b AND 0xF8 = 0xF0 then 4 else 0)"

text \<open>
  The backward scan of Write over the last bytes (given in reverse): how many bytes at the end
  are held back because they begin a character that is not complete.
\<close>

fun held_back :: "nat \<Rightarrow> byte list \<Rightarrow> nat" where
  "held_back i [] = 0"
| "held_back i (b # bs) =
     (if i < 3 then
        if b AND 0x80 = 0 then 0
        else if b AND 0xC0 = 0xC0 then (if i + 1 < lead_len b then i + 1 else 0)
        else held_back (i + 1) bs
      else 0)"

definition utf8_cut :: "byte list \<Rightarrow> nat" where
  "utf8_cut data = length data - held_back 0 (rev data)"

definition terminalOutputMessage :: "byte list \<Rightarrow> message" where
  "terminalOutputMessage data = Output data"

definition appendOutputLocked :: "int \<Rightarrow> byte list \<Rightarrow> sshSessionWrapper \<Rightarrow> sshSessionWrapper" where
  "appendOutputLocked now data sw =
     (let buf = sw_outputBuffer sw @ data;
          lim = (if sw_maxBufferSize sw \<le> 0 then terminalOutputBufferLimit else sw_maxBufferSize sw)
      in sw\<lparr> sw_maxBufferSize := lim,
             sw_outputBuffer := (if int (length buf) > lim then drop (length buf - nat lim) buf else buf),
             sw_LastActive := now \<rparr>)"

text \<open>Write on one object: the new object and the bytes broadcast, None when nothing is sent.\<close>

definition write_chunk :: "int \<Rightarrow> byte list \<Rightarrow> sshSessionWrapper \<Rightarrow> sshSessionWrapper \<times> byte list option" where
  "write_chunk now p sw =
     (let data = sw_utf8Remainder sw @ p;
          cut = utf8_cut data;
          sw1 = sw\<lparr> sw_utf8Remainder := drop cut data \<rparr>
      in if take cut data = [] then (sw1, None)
         else (appendOutputLocked now (take cut data) sw1, Some (take cut data)))"

text \<open>A send is dropped when the client's channel is full or closed.\<close>

definition safeSendTerminalMessage :: "(nat \<Rightarrow> bool) \<Rightarrow> message \<Rightarrow> terminalService \<Rightarrow> nat \<Rightarrow> terminalService" where
  "safeSendTerminalMessage drops msg s c = (if drops c then s else s\<lparr> tm_sent := tm_sent s @ [(c, msg)] \<rparr>)"

definition set_object :: "nat \<Rightarrow> sshSessionWrapper \<Rightarrow> terminalService \<Rightarrow> terminalService" where
  "set_object a sw s = s\<lparr> tm_objects := (tm_objects s)(a := sw) \<rparr>"

definition Write :: "(nat \<Rightarrow> bool) \<Rightarrow> int \<Rightarrow> nat \<Rightarrow> byte list \<Rightarrow> terminalService \<Rightarrow> terminalService" where
  "Write drops now a p s = (case write_chunk now p (tm_objects s a) of
     (sw, None) \<Rightarrow> set_object a sw s
   | (sw, Some out) \<Rightarrow>
       foldl (safeSendTerminalMessage drops (terminalOutputMessage out)) (set_object a sw s) (sw_clients sw))"

section \<open>Clients, input and size\<close>

definition addClient :: "int \<Rightarrow> nat \<Rightarrow> sshSessionWrapper \<Rightarrow> sshSessionWrapper \<times> byte list" where
  "addClient now c sw = (if sw_closed sw then (sw, [])
     else (sw\<lparr> sw_clients := List.insert c (sw_clients sw), sw_LastActive := now \<rparr>, sw_outputBuffer sw))"

definition removeClient :: "int \<Rightarrow> nat \<Rightarrow> sshSessionWrapper \<Rightarrow> sshSessionWrapper" where
  "removeClient now c sw = sw\<lparr> sw_clients := removeAll c (sw_clients sw), sw_LastActive := now \<rparr>"

definition resize :: "unit result \<Rightarrow> int \<Rightarrow> sshSessionWrapper \<Rightarrow> sshSessionWrapper \<times> unit result" where
  "resize answer now sw = (if sw_closed sw \<or> \<not> sw_Session sw then (sw, Err (BizError CodeNotFound))
     else (sw\<lparr> sw_LastActive := now \<rparr>, answer))"

definition writeInput :: "bool \<Rightarrow> int \<Rightarrow> byte list \<Rightarrow> sshSessionWrapper \<Rightarrow> sshSessionWrapper \<times> unit result" where
  "writeInput err now data sw = (if sw_closed sw then (sw, Err (BizError CodeNotFound))
     else case sw_stdin sw of
       None \<Rightarrow> (sw, Err (BizError CodeNotFound))
     | Some w \<Rightarrow> (if err then (sw, Err SshError)
         else (sw\<lparr> sw_stdin := Some (w @ data), sw_LastActive := now \<rparr>, Ok ())))"

definition close_session :: "bool \<Rightarrow> nat \<Rightarrow> terminalService \<Rightarrow> terminalService" where
  "close_session closeClients a s = (let sw = tm_objects s a in if sw_closed sw then s
     else (set_object a (sw\<lparr> sw_closed := True, sw_clients := [], sw_outputBuffer := [],
             sw_utf8Remainder := [], sw_Session := False, sw_stdin := None \<rparr>) s)
            \<lparr> tm_closed := tm_closed s @ (if closeClients then sw_clients sw else []) \<rparr>)"

definition closeAllClients :: "nat \<Rightarrow> terminalService \<Rightarrow> terminalService" where
  "closeAllClients a s = (let sw = tm_objects s a in if sw_closed sw then s
     else (set_object a (sw\<lparr> sw_clients := [] \<rparr>) s)\<lparr> tm_closed := tm_closed s @ sw_clients sw \<rparr>)"

section \<open>The session table\<close>

definition terminalSessionKey :: "int \<Rightarrow> bool \<Rightarrow> string" where
  "terminalSessionKey userID isRoot = Itoa userID @ '':'' @ show_bool isRoot"

record ssh_env =
  se_alive :: bool
  se_ensure :: "unit result"
  se_session :: "bool result"

text \<open>
  getSSHClient: the session of the manager is used when it answers to a probe (\<open>se_alive\<close>);
  otherwise it is restored and read again, \<open>se_session\<close> telling whether a client is there.
\<close>

definition getSSHClient_terminal :: "bool \<Rightarrow> ssh_env \<Rightarrow> unit result" where
  "getSSHClient_terminal manager e = (if \<not> manager then Err (BizError CodeInternalError)
     else if se_alive e then Ok ()
     else case se_ensure e of
       Inl _ \<Rightarrow> Err (BizError CodeInternalError)
     | Inr _ \<Rightarrow> (case se_session e of
         Inl _ \<Rightarrow> Err (BizError CodeInternalError)
       | Inr client \<Rightarrow> (if client then Ok () else Err (BizError CodeInternalError))))"

definition new_wrapper :: "int \<Rightarrow> int \<Rightarrow> bool \<Rightarrow> sshSessionWrapper" where
  "new_wrapper now userID isRoot = \<lparr>
     sw_ID = Itoa userID @ '':'' @ show_bool isRoot @ '':'' @ Itoa now,
     sw_Key = terminalSessionKey userID isRoot, sw_Session = True, sw_stdin = Some [],
     sw_LastActive = now, sw_clients = [], sw_outputBuffer = [], sw_utf8Remainder = [],
     sw_maxBufferSize = terminalOutputBufferLimit, sw_closed = False \<rparr>"

definition getOrCreateTerminalSession ::
  "bool \<Rightarrow> ssh_env \<Rightarrow> bool \<Rightarrow> int \<Rightarrow> terminalService \<Rightarrow> int \<Rightarrow> bool \<Rightarrow> terminalService \<times> nat result" where
  "getOrCreateTerminalSession manager e pty_err now s userID isRoot =
     (let key = terminalSessionKey userID isRoot;
          old = map_of (tm_sessions s) key
      in if (case old of None \<Rightarrow> False | Some a \<Rightarrow> \<not> sw_closed (tm_objects s a)) then (s, Ok (the old))
         else let s1 = s\<lparr> tm_sessions := AList.delete key (tm_sessions s) \<rparr> in
           case getSSHClient_terminal manager e of
             Inl x \<Rightarrow> (s1, Err x)
           | Inr _ \<Rightarrow> (if pty_err then (s1, Err SshError)
               else let a = tm_next s1 in
                 ((set_object a (new_wrapper now userID isRoot) s1)
                    \<lparr> tm_next := a + 1, tm_sessions := AList.update key a (tm_sessions s1) \<rparr>, Ok a)))"

definition closeTerminalSession :: "terminalService \<Rightarrow> int \<Rightarrow> bool \<Rightarrow> bool \<Rightarrow> terminalService" where
  "closeTerminalSession s userID isRoot closeClients =
     (let key = terminalSessionKey userID isRoot in case map_of (tm_sessions s) key of
        None \<Rightarrow> s
      | Some a \<Rightarrow> close_session closeClients a (s\<lparr> tm_sessions := AList.delete key (tm_sessions s) \<rparr>))"

text \<open>The shell has ended: the table entry is only removed when it still is this session.\<close>

definition closeTerminalSessionByKey :: "terminalService \<Rightarrow> string \<Rightarrow> nat \<Rightarrow> bool \<Rightarrow> terminalService" where
  "closeTerminalSessionByKey s key expected closeClients = (case map_of (tm_sessions s) key of
     None \<Rightarrow> s
   | Some a \<Rightarrow> (if a = expected
       then close_session closeClients a (s\<lparr> tm_sessions := AList.delete key (tm_sessions s) \<rparr>) else s))"

definition CloseUserTerminals :: "terminalService \<Rightarrow> int \<Rightarrow> terminalService" where
  "CloseUserTerminals s userID =
     (let prefixRoot = Itoa userID @ '':'';
          hit = (\<lambda>p. length (fst p) \<ge> length prefixRoot \<and> take (length prefixRoot) (fst p) = prefixRoot)
      in foldl (\<lambda>u a. close_session True a u)
           (s\<lparr> tm_sessions := filter (\<lambda>p. \<not> hit p) (tm_sessions s) \<rparr>)
           (map snd (filter hit (tm_sessions s))))"

definition CloseAllTerminals :: "terminalService \<Rightarrow> terminalService" where
  "CloseAllTerminals s = foldl (\<lambda>u a. close_session True a u) (s\<lparr> tm_sessions := [] \<rparr>) (map snd (tm_sessions s))"

definition idle_timeout :: int where "idle_timeout = 1800000000000"

definition cleanupIdleSessions :: "int \<Rightarrow> terminalService \<Rightarrow> terminalService" where
  "cleanupIdleSessions now s =
     (let idle = (\<lambda>p. now - sw_LastActive (tm_objects s (snd p)) > idle_timeout)
      in foldl (\<lambda>u a. close_session True a u)
           (s\<lparr> tm_sessions := filter (\<lambda>p. \<not> idle p) (tm_sessions s) \<rparr>)
           (map snd (filter idle (tm_sessions s))))"

definition ResizeTerminal :: "unit result \<Rightarrow> int \<Rightarrow> terminalService \<Rightarrow> int \<Rightarrow> bool \<Rightarrow> terminalService \<times> unit result" where
  "ResizeTerminal answer now s userID isRoot = (case map_of (tm_sessions s) (terminalSessionKey userID isRoot) of
     None \<Rightarrow> (s, Err (BizError CodeNotFound))
   | Some a \<Rightarrow> (case resize answer now (tm_objects s a) of (sw, r) \<Rightarrow> (set_object a sw s, r)))"

section \<open>A connection\<close>

text \<open>
  The variables shared by HandleTerminalConnection and its message handler: the session once it
  is there, and what arrived before. A message is what json.Unmarshal made of it, None when it
  failed, with the raw bytes.
\<close>

record inboundMsg =
  im_Type :: string
  im_Data :: "byte list"
  im_Cols :: int
  im_Rows :: int

record connection =
  cn_sw :: "nat option"
  cn_pendingInput :: "byte list"
  cn_pendingResize :: "(int \<times> int) option"

record handler_env =
  he_resize :: "unit result"
  he_write :: bool

definition handle_input ::
  "handler_env \<Rightarrow> int \<Rightarrow> byte list \<Rightarrow> terminalService \<times> connection \<Rightarrow> (terminalService \<times> connection) \<times> unit result" where
  "handle_input e now data sc = (case sc of (s, c) \<Rightarrow>
     (case cn_sw c of
        None \<Rightarrow> ((s, c\<lparr> cn_pendingInput := cn_pendingInput c @ data \<rparr>), Ok ())
      | Some a \<Rightarrow> (case writeInput (he_write e) now data (tm_objects s a) of
          (sw, r) \<Rightarrow> ((set_object a sw s, c), r))))"

definition messageHandler ::
  "handler_env \<Rightarrow> int \<Rightarrow> int \<Rightarrow> bool \<Rightarrow> inboundMsg option \<Rightarrow> byte list \<Rightarrow> terminalService \<times> connection \<Rightarrow>
   (terminalService \<times> connection) \<times> unit result" where
  "messageHandler e now userID isRoot parsed data sc = (case sc of (s, c) \<Rightarrow>
     (case parsed of
        None \<Rightarrow> handle_input e now data sc
      | Some msg \<Rightarrow>
         (if im_Type msg = [] then handle_input e now data sc
          else if im_Type msg = ''resize'' then
            (if im_Cols msg > 0 \<and> im_Rows msg > 0 then
               (case cn_sw c of
                  None \<Rightarrow> ((s, c\<lparr> cn_pendingResize := Some (im_Cols msg, im_Rows msg) \<rparr>), Ok ())
                | Some a \<Rightarrow> (case resize (he_resize e) now (tm_objects s a) of
                    (sw, _) \<Rightarrow> ((set_object a sw s, c), Ok ())))
             else (sc, Ok ()))
          else if im_Type msg = ''ping'' then (sc, Ok ())
          else if im_Type msg = ''close'' then
            ((closeTerminalSession s userID isRoot False, c), Err (Errorf ''closed by user''))
          else if im_Type msg = ''input'' then handle_input e now (im_Data msg) sc
          else (sc, Ok ()))))"

text \<open>The part of HandleTerminalConnection before the socket is registered.\<close>

definition open_connection :: "unit result \<Rightarrow> terminalService \<Rightarrow> int \<Rightarrow> bool \<Rightarrow> (terminalService \<times> connection) result" where
  "open_connection ensure s userID isRoot = (case ensure of
     Inl _ \<Rightarrow> Err (BizError CodeInternalError)
   | Inr _ \<Rightarrow> Ok (closeTerminalSession s userID isRoot True,
       \<lparr> cn_sw = None, cn_pendingInput = [], cn_pendingResize = None \<rparr>))"

definition clear_screen :: "byte list" where
  "clear_screen = [0x1B, 0x5B, 0x32, 0x4A, 0x1B, 0x5B, 0x48]"

text \<open>The part after it: the session is obtained and what was pending is replayed.\<close>

definition attach_connection ::
  "bool \<Rightarrow> ssh_env \<Rightarrow> bool \<Rightarrow> handler_env \<Rightarrow> (nat \<Rightarrow> bool) \<Rightarrow> int \<Rightarrow> int \<Rightarrow> bool \<Rightarrow> nat \<Rightarrow> terminalService \<times> connection \<Rightarrow>
   (terminalService \<times> connection) \<times> unit result" where
  "attach_connection manager e pty_err he drops now userID isRoot client sc = (case sc of (s, c) \<Rightarrow>
     (case getOrCreateTerminalSession manager e pty_err now s userID isRoot of
        (s1, Inl x) \<Rightarrow> ((s1\<lparr> tm_closed := tm_closed s1 @ [client] \<rparr>, c), Err x)
      | (s1, Inr a) \<Rightarrow>
         (let sw1 = (case cn_pendingResize c of None \<Rightarrow> tm_objects s1 a
                     | Some _ \<Rightarrow> fst (resize (he_resize he) now (tm_objects s1 a)));
              sw2 = (if cn_pendingInput c \<noteq> [] then fst (writeInput (he_write he) now (cn_pendingInput c) sw1) else sw1);
              sw3 = fst (addClient now client sw2)
          in ((safeSendTerminalMessage drops (terminalOutputMessage clear_screen) (set_object a sw3 s1) client,
               \<lparr> cn_sw = Some a, cn_pendingInput = [], cn_pendingResize = None \<rparr>), Ok ()))))"

section \<open>Characters\<close>

definition is_cont :: "byte \<Rightarrow> bool" where
  "is_cont b = (b AND 0xC0 = 0x80)"

definition is_lead :: "byte \<Rightarrow> bool" where
  "is_lead b = (b AND 0xC0 = 0xC0)"

text \<open>A character: an ASCII byte, or a lead byte with the announced number of continuation bytes.\<close>

fun utf8_char :: "byte list \<Rightarrow> bool" where
  "utf8_char [] = False"
| "utf8_char (b # bs) = (if b AND 0x80 = 0 then bs = []
     else is_lead b \<and> lead_len b = Suc (length bs) \<and> list_all is_cont bs)"

text \<open>The beginning of a character that still lacks bytes.\<close>

fun utf8_partial :: "byte list \<Rightarrow> bool" where
  "utf8_partial [] = True"
| "utf8_partial (b # bs) = (is_lead b \<and> Suc (length bs) < lead_len b \<and> list_all is_cont bs)"

lemma and_80: "(b :: byte) AND 0x80 = (b AND 0xC0) AND 0x80"
  by (simp add: and.assoc)

lemma byte_classes:
  "is_cont b \<longrightarrow> b AND 0x80 \<noteq> 0 \<and> b AND 0xC0 \<noteq> 0xC0"
  "is_lead b \<longrightarrow> b AND 0x80 \<noteq> 0"
  using and_80 [of b] by (auto simp: is_cont_def is_lead_def)

lemma lead_len_le: "lead_len b \<le> 4"
  by (simp add: lead_len_def)

lemma held_back_le: "i \<le> 3 \<Longrightarrow> held_back i bs \<le> 3"
  by (induction i bs rule: held_back.induct) auto

lemma held_back_le_length: "held_back i bs \<le> i + length bs"
  by (induction i bs rule: held_back.induct) auto

lemma held_back_conts:
  "list_all is_cont bs \<Longrightarrow> i + length bs \<le> 3 \<Longrightarrow> held_back i (bs @ xs) = held_back (i + length bs) xs"
  using byte_classes(1) by (induction bs arbitrary: i) auto

lemma held_back_3 [simp]: "held_back 3 xs = 0"
  by (cases xs) auto

lemma held_back_lead:
  assumes "is_lead b" "list_all is_cont bs" "length bs \<le> 3"
  shows "held_back 0 (rev bs @ b # xs) =
    (if length bs < 3 \<and> Suc (length bs) < lead_len b then Suc (length bs) else 0)"
proof (cases "length bs = 3")
  case True
  then show ?thesis using held_back_conts [of "rev bs" 0 "b # xs"] assms(2) by simp
next
  case False
  then show ?thesis
    using held_back_conts [of "rev bs" 0 "b # xs"] assms byte_classes(2) by (auto simp: is_lead_def)
qed

lemma held_back_stream:
  assumes "list_all utf8_char cs" "utf8_partial r"
  shows "held_back 0 (rev (concat cs @ r)) = length r"
proof (cases r)
  case (Cons b bs)
  then show ?thesis
    using assms(2) lead_len_le [of b] held_back_lead [of b bs "rev (concat cs)"] by simp
next
  case Nil
  show ?thesis
  proof (cases cs rule: rev_cases)
    case (snoc cs' c)
    then obtain b bs where c: "c = b # bs" "utf8_char (b # bs)" using assms(1) by (cases c) auto
    show ?thesis
    proof (cases "b AND 0x80 = 0")
      case True
      then show ?thesis using Nil snoc c by simp
    next
      case False
      then show ?thesis
        using Nil snoc c lead_len_le [of b] held_back_lead [of b bs "rev (concat cs')"] by simp
    qed
  qed (simp add: Nil)
qed

lemma utf8_cut_stream:
  "list_all utf8_char cs \<Longrightarrow> utf8_partial r \<Longrightarrow> utf8_cut (concat cs @ r) = length (concat cs)"
  using held_back_stream [of cs r] by (simp add: utf8_cut_def)

lemma partial_prefix: "utf8_partial (xs @ ys) \<Longrightarrow> utf8_partial xs"
  by (cases xs) auto

lemma char_prefix_partial: "utf8_char (xs @ ys) \<Longrightarrow> ys \<noteq> [] \<Longrightarrow> utf8_partial xs"
  by (cases xs) (auto split: if_splits)

lemma stream_split:
  "xs @ ys = concat cs @ r \<Longrightarrow> list_all utf8_char cs \<Longrightarrow> utf8_partial r \<Longrightarrow>
   \<exists>cs1 cs2 r1. cs = cs1 @ cs2 \<and> xs = concat cs1 @ r1 \<and> utf8_partial r1 \<and> r1 @ ys = concat cs2 @ r"
proof (induction cs arbitrary: xs)
  case Nil
  then show ?case using partial_prefix [of xs ys] by (intro exI [of _ "[]"] exI [of _ xs]) auto
next
  case (Cons c cs)
  show ?case
  proof (cases "length c \<le> length xs")
    case True
    then obtain xs' where xs': "xs = c @ xs'"
    proof -
      have "c = take (length c) xs" using arg_cong [OF Cons.prems(1), of "take (length c)"] True by simp
      then show ?thesis using that by (metis append_take_drop_id)
    qed
    then obtain cs1 cs2 r1 where "cs = cs1 @ cs2" "xs' = concat cs1 @ r1" "utf8_partial r1" "r1 @ ys = concat cs2 @ r"
      using Cons.IH [of xs'] Cons.prems by auto
    then show ?thesis using xs' by (intro exI [of _ "c # cs1"] exI [of _ cs2] exI [of _ r1]) auto
  next
    case False
    then have "xs = take (length xs) c"
      using arg_cong [OF Cons.prems(1), of "take (length xs)"] by simp
    then obtain zs where zs: "c = xs @ zs" by (metis append_take_drop_id)
    then have "zs \<noteq> []" using False by auto
    then have "utf8_partial xs" using Cons.prems(2) zs char_prefix_partial [of xs zs] by simp
    then show ?thesis using Cons.prems(1) by (intro exI [of _ "[]"] exI [of _ "c # cs"] exI [of _ xs]) auto
  qed
qed

section \<open>Streams of output\<close>

fun write_all :: "int \<Rightarrow> byte list list \<Rightarrow> sshSessionWrapper \<Rightarrow> sshSessionWrapper \<times> byte list list" where
  "write_all now [] sw = (sw, [])"
| "write_all now (p # ps) sw = (case write_chunk now p sw of
     (sw1, out) \<Rightarrow> (case write_all now ps sw1 of
       (sw2, outs) \<Rightarrow> (sw2, (case out of None \<Rightarrow> outs | Some d \<Rightarrow> d # outs))))"

lemma append_remainder [simp]: "sw_utf8Remainder (appendOutputLocked now d sw) = sw_utf8Remainder sw"
  by (simp add: appendOutputLocked_def Let_def)

lemma write_chunk_remainder:
  "write_chunk now p sw = (sw', out) \<Longrightarrow>
   sw_utf8Remainder sw' = drop (utf8_cut (sw_utf8Remainder sw @ p)) (sw_utf8Remainder sw @ p) \<and>
   (case out of None \<Rightarrow> take (utf8_cut (sw_utf8Remainder sw @ p)) (sw_utf8Remainder sw @ p) = []
    | Some d \<Rightarrow> d = take (utf8_cut (sw_utf8Remainder sw @ p)) (sw_utf8Remainder sw @ p) \<and> d \<noteq> [])"
  by (auto simp: write_chunk_def Let_def split: if_splits)

lemma write_all_ConsE:
  assumes "write_all now (p # ps) sw = (sw', outs)"
  obtains sw1 out outs2 where "write_chunk now p sw = (sw1, out)" "write_all now ps sw1 = (sw', outs2)"
    "outs = (case out of None \<Rightarrow> outs2 | Some d \<Rightarrow> d # outs2)"
  using assms by (auto split: prod.splits)

lemma write_all_no_loss:
  "write_all now ps sw = (sw', outs) \<Longrightarrow>
   concat outs @ sw_utf8Remainder sw' = sw_utf8Remainder sw @ concat ps"
proof (induction ps arbitrary: sw outs)
  case (Cons p ps)
  obtain sw1 out outs2 where w: "write_chunk now p sw = (sw1, out)" and r: "write_all now ps sw1 = (sw', outs2)"
    and outs: "outs = (case out of None \<Rightarrow> outs2 | Some d \<Rightarrow> d # outs2)"
    using Cons.prems(1) by (rule write_all_ConsE)
  let ?d = "sw_utf8Remainder sw @ p"
  have "concat outs = take (utf8_cut ?d) ?d @ concat outs2"
    using outs write_chunk_remainder [OF w] by (auto split: option.splits)
  then show ?case
    using Cons.IH [OF r] write_chunk_remainder [OF w] by (metis append.assoc append_take_drop_id concat.simps(2))
qed simp

lemma write_all_remainder_le:
  "write_all now ps sw = (sw', outs) \<Longrightarrow> length (sw_utf8Remainder sw) \<le> 3 \<Longrightarrow> length (sw_utf8Remainder sw') \<le> 3"
proof (induction ps arbitrary: sw outs)
  case (Cons p ps)
  obtain sw1 out where w: "write_chunk now p sw = (sw1, out)" by (cases "write_chunk now p sw")
  have "length (drop (utf8_cut d) d) \<le> 3" for d
    using held_back_le [of 0 "rev d"] by (simp add: utf8_cut_def)
  then have "length (sw_utf8Remainder sw1) \<le> 3" using write_chunk_remainder [OF w] by metis
  then show ?case using Cons w by (auto split: prod.splits)
qed simp

lemma write_all_chars:
  "write_all now ps sw = (sw', outs) \<Longrightarrow> sw_utf8Remainder sw @ concat ps = concat cs @ r \<Longrightarrow>
   list_all utf8_char cs \<Longrightarrow> utf8_partial r \<Longrightarrow>
   utf8_partial (sw_utf8Remainder sw) \<Longrightarrow> sw_utf8Remainder sw' = r \<and>
   (\<forall>d \<in> set outs. \<exists>ds. list_all utf8_char ds \<and> d = concat ds)"
proof (induction ps arbitrary: sw outs cs)
  case Nil
  have "utf8_cut (sw_utf8Remainder sw) = 0"
    using utf8_cut_stream [of "[]" "sw_utf8Remainder sw"] Nil by simp
  moreover have "utf8_cut (sw_utf8Remainder sw) = length (concat cs)"
    using utf8_cut_stream [of cs r] Nil by simp
  ultimately show ?case using Nil by simp
next
  case (Cons p ps)
  obtain sw1 out outs2 where w: "write_chunk now p sw = (sw1, out)" and q: "write_all now ps sw1 = (sw', outs2)"
    and outs: "outs = (case out of None \<Rightarrow> outs2 | Some d \<Rightarrow> d # outs2)"
    using Cons.prems(1) by (rule write_all_ConsE)
  obtain cs1 cs2 r1 where sp: "cs = cs1 @ cs2" "sw_utf8Remainder sw @ p = concat cs1 @ r1" "utf8_partial r1"
      "r1 @ concat ps = concat cs2 @ r"
    using stream_split [of "sw_utf8Remainder sw @ p" "concat ps" cs r] Cons.prems by auto
  have cut: "utf8_cut (sw_utf8Remainder sw @ p) = length (concat cs1)"
    using utf8_cut_stream [of cs1 r1] sp Cons.prems(3) by simp
  have rem: "sw_utf8Remainder sw1 = r1" and out: "case out of None \<Rightarrow> True | Some d \<Rightarrow> d = concat cs1"
    using write_chunk_remainder [OF w] cut sp(2) by (auto split: option.splits)
  have "sw_utf8Remainder sw' = r \<and> (\<forall>d \<in> set outs2. \<exists>ds. list_all utf8_char ds \<and> d = concat ds)"
    using Cons.IH [OF q, of cs2] sp rem Cons.prems by simp
  moreover have "list_all utf8_char cs1" using sp(1) Cons.prems(3) by simp
  ultimately show ?case
    using outs out by (auto split: option.splits)
qed

text \<open>The last n elements of a list.\<close>

definition last_n :: "nat \<Rightarrow> 'a list \<Rightarrow> 'a list" where
  "last_n n xs = drop (length xs - n) xs"

lemma last_n_append: "last_n n (last_n n xs @ ys) = last_n n (xs @ ys)"
proof (cases "length xs \<le> n")
  case False
  then have "length ys + (length xs - n) = length xs + length ys - n" "length xs - (length xs - n) = n" by simp_all
  then show ?thesis by (simp add: last_n_def)
qed (simp add: last_n_def)

lemma append_buffer:
  "sw_maxBufferSize sw > 0 \<Longrightarrow>
   sw_outputBuffer (appendOutputLocked now d sw) = last_n (nat (sw_maxBufferSize sw)) (sw_outputBuffer sw @ d) \<and>
   sw_maxBufferSize (appendOutputLocked now d sw) = sw_maxBufferSize sw"
  by (auto simp: appendOutputLocked_def Let_def last_n_def)

lemma write_all_buffer:
  "write_all now ps sw = (sw', outs) \<Longrightarrow> 0 < sw_maxBufferSize sw \<Longrightarrow>
   last_n (nat (sw_maxBufferSize sw)) (sw_outputBuffer sw) = sw_outputBuffer sw \<Longrightarrow>
   sw_outputBuffer sw' = last_n (nat (sw_maxBufferSize sw)) (sw_outputBuffer sw @ concat outs)"
proof (induction ps arbitrary: sw outs)
  case (Cons p ps)
  obtain sw1 out outs2 where w: "write_chunk now p sw = (sw1, out)" and q: "write_all now ps sw1 = (sw', outs2)"
    and outs: "outs = (case out of None \<Rightarrow> outs2 | Some d \<Rightarrow> d # outs2)"
    using Cons.prems(1) by (rule write_all_ConsE)
  let ?o = "case out of None \<Rightarrow> [] | Some d \<Rightarrow> d" and ?n = "nat (sw_maxBufferSize sw)"
  have b: "sw_maxBufferSize sw1 = sw_maxBufferSize sw" "sw_outputBuffer sw1 = last_n ?n (sw_outputBuffer sw @ ?o)"
    using w Cons.prems(2,3) append_buffer by (auto simp: write_chunk_def Let_def split: if_splits)
  have idem: "last_n ?n (last_n ?n xs) = last_n ?n xs" for xs :: "byte list"
    using last_n_append [of ?n xs "[]"] by simp
  have "sw_outputBuffer sw' = last_n ?n (sw_outputBuffer sw1 @ concat outs2)"
    using Cons.IH [OF q] b Cons.prems(2) idem by simp
  then show ?case
    using outs b(2) last_n_append [of ?n "sw_outputBuffer sw @ ?o" "concat outs2"]
    by (auto split: option.splits)
qed simp

section \<open>Keys and closing\<close>

lemma key_prefix_iff:
  "take (length (Itoa u @ '':'')) (terminalSessionKey v r) = Itoa u @ '':'' \<longleftrightarrow> u = v"
proof
  assume "take (length (Itoa u @ '':'')) (terminalSessionKey v r) = Itoa u @ '':''"
  then have "\<exists>rest. Itoa u @ CHR '':'' # rest = Itoa v @ CHR '':'' # show_bool r"
    by (metis terminalSessionKey_def append_Cons append_Nil append.assoc append_take_drop_id)
  then show "u = v" by (simp add: colon_key_inject)
qed (simp add: terminalSessionKey_def)

lemma terminalSessionKey_inject [simp]:
  "terminalSessionKey u r = terminalSessionKey v q \<longleftrightarrow> u = v \<and> r = q"
  by (simp add: terminalSessionKey_def colon_key_inject)

lemma close_session_simps [simp]:
  "tm_sessions (close_session b a s) = tm_sessions s" "tm_next (close_session b a s) = tm_next s"
  "sw_closed (tm_objects (close_session b a s) c) = (c = a \<or> sw_closed (tm_objects s c))"
  by (auto simp: close_session_def set_object_def Let_def)

lemma foldl_close_sessions:
  "tm_sessions (foldl (\<lambda>u a. close_session b a u) s as) = tm_sessions s"
  "sw_closed (tm_objects (foldl (\<lambda>u a. close_session b a u) s as) c) = (c \<in> set as \<or> sw_closed (tm_objects s c))"
  by (induction as arbitrary: s) auto

lemma foldl_close_next: "tm_next (foldl (\<lambda>u a. close_session b a u) s as) = tm_next s"
  by (induction as arbitrary: s) auto

text \<open>A table whose entries are keys of users, with their sessions open and unshared.\<close>

definition table_ok :: "terminalService \<Rightarrow> bool" where
  "table_ok s \<longleftrightarrow> distinct (map fst (tm_sessions s)) \<and> distinct (map snd (tm_sessions s)) \<and>
     (\<forall>p \<in> set (tm_sessions s). snd p < tm_next s \<and> \<not> sw_closed (tm_objects s (snd p)) \<and>
        (\<exists>u r. fst p = terminalSessionKey u r))"

lemma set_delete: "set (AList.delete k xs) = {p \<in> set xs. fst p \<noteq> k}"
  by (auto simp: AList.delete_eq)

lemma table_ok_close:
  assumes "table_ok s" "map_of (tm_sessions s) k = Some a"
  shows "table_ok (close_session b a (s\<lparr> tm_sessions := AList.delete k (tm_sessions s) \<rparr>))"
proof -
  have "(k, a) \<in> set (tm_sessions s)" using assms(2) by (rule map_of_SomeD)
  then have ne: "(x, a) \<notin> set (tm_sessions s)" if "x \<noteq> k" for x
    using assms(1) that unfolding table_ok_def distinct_map by (metis fst_conv inj_on_eq_iff snd_conv)
  show ?thesis
    using assms(1) ne
    by (auto simp: table_ok_def set_delete AList.delete_eq distinct_map_filter)
qed

lemma table_ok_closeTerminalSession: "table_ok s \<Longrightarrow> table_ok (closeTerminalSession s u r b)"
  using table_ok_close by (auto simp: closeTerminalSession_def Let_def split: option.splits)

text \<open>A session obtained after the old one was closed is a new one.\<close>

lemma getOrCreate_absent:
  assumes "map_of (tm_sessions s) (terminalSessionKey u r) = None"
  shows "getOrCreateTerminalSession mg e pe now s u r = (case getSSHClient_terminal mg e of
      Inl x \<Rightarrow> (s, Err x)
    | Inr _ \<Rightarrow> if pe then (s, Err SshError) else
        ((set_object (tm_next s) (new_wrapper now u r) s)\<lparr> tm_next := tm_next s + 1,
          tm_sessions := tm_sessions s @ [(terminalSessionKey u r, tm_next s)] \<rparr>, Ok (tm_next s)))"
proof -
  have "AList.delete (terminalSessionKey u r) (tm_sessions s) = tm_sessions s"
    using assms by (simp add: delete_id map_of_eq_None_iff)
  moreover have upd: "AList.update (terminalSessionKey u r) a xs = xs @ [(terminalSessionKey u r, a)]"
    if "terminalSessionKey u r \<notin> fst ` set xs" for a and xs :: "(string \<times> nat) list"
    using that by (induction xs) auto
  ultimately show ?thesis
    using assms upd [of "tm_sessions s" "tm_next s"]
    by (simp add: getOrCreateTerminalSession_def Let_def map_of_eq_None_iff [symmetric] set_object_def split: sum.splits)
qed

lemma table_ok_getOrCreate:
  assumes "table_ok s"
  shows "table_ok (fst (getOrCreateTerminalSession mg e pe now s u r))"
proof (cases "map_of (tm_sessions s) (terminalSessionKey u r)")
  case (Some a)
  then have "\<not> sw_closed (tm_objects s a)"
    using assms map_of_SomeD [OF Some] by (auto simp: table_ok_def)
  then show ?thesis using Some assms by (simp add: getOrCreateTerminalSession_def Let_def)
next
  case None
  have "table_ok ((set_object (tm_next s) (new_wrapper now u r) s)
      \<lparr> tm_next := tm_next s + 1, tm_sessions := tm_sessions s @ [(terminalSessionKey u r, tm_next s)] \<rparr>)"
    using assms None
    by (fastforce simp: table_ok_def set_object_def new_wrapper_def map_of_eq_None_iff)
  then show ?thesis
    using None assms by (auto simp: getOrCreate_absent split: sum.splits)
qed

lemma closeTerminalSession_next [simp]: "tm_next (closeTerminalSession s u r b) = tm_next s"
  by (simp add: closeTerminalSession_def Let_def split: option.splits)

lemma close_removes_key: "map_of (tm_sessions (closeTerminalSession s u r b)) (terminalSessionKey u r) = None"
  by (auto simp: closeTerminalSession_def Let_def AList.delete_conv split: option.splits)

lemma attach_after_close:
  assumes "attach_connection mg e pe he drops now u r cl (closeTerminalSession s u r b, c) = (sc, Ok ())"
    and "\<not> he_write he"
  shows "cn_sw (snd sc) = Some (tm_next s) \<and> \<not> sw_closed (tm_objects (fst sc) (tm_next s)) \<and>
    sw_stdin (tm_objects (fst sc) (tm_next s)) = Some (cn_pendingInput c) \<and>
    sw_outputBuffer (tm_objects (fst sc) (tm_next s)) = [] \<and>
    (\<forall>a. a \<noteq> tm_next s \<longrightarrow> tm_objects (fst sc) a = tm_objects (closeTerminalSession s u r b) a) \<and>
    tm_sessions (fst sc) = tm_sessions (closeTerminalSession s u r b) @ [(terminalSessionKey u r, tm_next s)] \<and>
    tm_next (fst sc) = Suc (tm_next s)"
  using assms
  by (auto simp: attach_connection_def getOrCreate_absent [OF close_removes_key] Let_def safeSendTerminalMessage_def
      set_object_def resize_def writeInput_def addClient_def new_wrapper_def
      split: option.splits sum.splits if_splits)

section \<open>Input\<close>

text \<open>The bytes that a message contributes to standard input.\<close>

definition input_of :: "inboundMsg option \<times> byte list \<Rightarrow> byte list" where
  "input_of m = (case fst m of None \<Rightarrow> snd m
     | Some msg \<Rightarrow> (if im_Type msg = [] then snd m else if im_Type msg = ''input'' then im_Data msg else []))"

definition not_close :: "inboundMsg option \<times> byte list \<Rightarrow> bool" where
  "not_close m = (case fst m of None \<Rightarrow> True | Some msg \<Rightarrow> im_Type msg \<noteq> ''close'')"

definition handle_all ::
  "handler_env \<Rightarrow> int \<Rightarrow> int \<Rightarrow> bool \<Rightarrow> (inboundMsg option \<times> byte list) list \<Rightarrow> terminalService \<times> connection \<Rightarrow> terminalService \<times> connection" where
  "handle_all e now u r ms sc = foldl (\<lambda>x m. fst (messageHandler e now u r (fst m) (snd m) x)) sc ms"

lemma handle_pending:
  assumes "cn_sw c = None" "list_all not_close ms"
  shows "\<exists>c'. handle_all e now u r ms (s, c) = (s, c') \<and> cn_sw c' = None \<and>
    cn_pendingInput c' = cn_pendingInput c @ concat (map input_of ms)"
  using assms
proof (induction ms arbitrary: c)
  case (Cons m ms)
  have "\<exists>c'. fst (messageHandler e now u r (fst m) (snd m) (s, c)) = (s, c') \<and> cn_sw c' = None \<and>
      cn_pendingInput c' = cn_pendingInput c @ input_of m"
    using Cons.prems
    by (auto simp: messageHandler_def handle_input_def input_of_def not_close_def split: option.splits)
  then obtain c' where c': "fst (messageHandler e now u r (fst m) (snd m) (s, c)) = (s, c')" "cn_sw c' = None"
      "cn_pendingInput c' = cn_pendingInput c @ input_of m" by blast
  from Cons.IH [OF this(2)] this show ?case using Cons.prems(2) by (auto simp: handle_all_def)
qed (simp add: handle_all_def)

lemma handle_attached:
  assumes "cn_sw c = Some a" "\<not> he_write e" "list_all not_close ms"
    and "sw_stdin (tm_objects s a) = Some w" "\<not> sw_closed (tm_objects s a)"
  shows "\<exists>s'. handle_all e now u r ms (s, c) = (s', c) \<and> \<not> sw_closed (tm_objects s' a) \<and>
    sw_stdin (tm_objects s' a) = Some (w @ concat (map input_of ms))"
  using assms(3-5)
proof (induction ms arbitrary: s w)
  case (Cons m ms)
  have "\<exists>s'. fst (messageHandler e now u r (fst m) (snd m) (s, c)) = (s', c) \<and> \<not> sw_closed (tm_objects s' a) \<and>
      sw_stdin (tm_objects s' a) = Some (w @ input_of m)"
    using Cons.prems assms(1,2)
    by (auto simp: messageHandler_def handle_input_def writeInput_def resize_def input_of_def not_close_def
        set_object_def split: option.splits)
  then obtain s' where s': "fst (messageHandler e now u r (fst m) (snd m) (s, c)) = (s', c)" "\<not> sw_closed (tm_objects s' a)"
      "sw_stdin (tm_objects s' a) = Some (w @ input_of m)" by blast
  from Cons.IH [OF _ this(3,2)] this show ?case using Cons.prems(1) by (auto simp: handle_all_def)
qed (simp add: handle_all_def)

section \<open>Properties\<close>

text \<open>
  C28: however the output of the shell is cut into chunks, every message to the clients holds
  whole UTF-8 characters: when the bytes received so far are complete characters followed by
  the beginning of one, the messages together are exactly the complete characters, and the
  beginning is kept for the next chunk.
\<close>

theorem output_characters_intact:
  assumes "write_all now ps sw = (sw', outs)" "sw_utf8Remainder sw = []"
    and "concat ps = concat cs @ r" "list_all utf8_char cs" "utf8_partial r"
  shows "concat outs = concat cs \<and> sw_utf8Remainder sw' = r \<and>
    (\<forall>d \<in> set outs. \<exists>ds. list_all utf8_char ds \<and> d = concat ds)"
  using write_all_chars [OF assms(1), of cs r] write_all_no_loss [OF assms(1)] assms(2-5) by simp

theorem output_characters_intact_witness:
  "(case write_all 1 [[0x41, 0xE4], [0xBD], [0xA0, 0xF0, 0x9F]] (new_wrapper 0 7 False) of
     (sw, outs) \<Rightarrow> concat outs = [0x41, 0xE4, 0xBD, 0xA0] \<and> sw_utf8Remainder sw = [0xF0, 0x9F])"
proof (cases "write_all 1 [[0x41, 0xE4], [0xBD], [0xA0, 0xF0, 0x9F]] (new_wrapper 0 7 False)")
  case (Pair sw outs)
  have "list_all utf8_char [[0x41], [0xE4, 0xBD, 0xA0]]" "utf8_partial [0xF0, 0x9F]" by code_simp+
  then show ?thesis
    using output_characters_intact [OF Pair, of "[[0x41], [0xE4, 0xBD, 0xA0]]" "[0xF0, 0x9F]"] Pair
    by (simp add: new_wrapper_def)
qed



lemma close_hits:
  assumes "table_ok s" "(k, a) \<in> set (tm_sessions s)" "(x, a) \<in> set (tm_sessions s)"
  shows "x = k"
  using assms unfolding table_ok_def distinct_map by (metis inj_on_eq_iff fst_conv snd_conv)

lemma user_hit:
  assumes "table_ok s" "(k, a) \<in> set (tm_sessions s)"
  shows "(length k \<ge> length (Itoa u @ '':'') \<and> take (length (Itoa u @ '':'')) k = Itoa u @ '':'') \<longleftrightarrow>
    (\<exists>r. k = terminalSessionKey u r)"
proof -
  obtain v q where k: "k = terminalSessionKey v q" using assms by (fastforce simp: table_ok_def)
  have "length (Itoa v @ '':'') \<le> length k" by (simp add: k terminalSessionKey_def)
  then show ?thesis using key_prefix_iff [of u v q] by (auto simp: k)
qed

lemma map_of_filter_key:
  "map_of (filter (\<lambda>p. P (fst p)) xs) k = (if P k then map_of xs k else None)"
  by (induction xs) auto

lemma close_user_terminals:
  assumes ok: "table_ok s"
  shows "table_ok (CloseUserTerminals s u) \<and>
    (\<forall>v r. map_of (tm_sessions (CloseUserTerminals s u)) (terminalSessionKey v r) =
       (if v = u then None else map_of (tm_sessions s) (terminalSessionKey v r))) \<and>
    (\<forall>a. sw_closed (tm_objects (CloseUserTerminals s u) a) =
       (sw_closed (tm_objects s a) \<or> (\<exists>r. (terminalSessionKey u r, a) \<in> set (tm_sessions s))))"
proof -
  define mine where "mine k = (length k \<ge> length (Itoa u @ '':'') \<and> take (length (Itoa u @ '':'')) k = Itoa u @ '':'')" for k
  have mine_key: "mine (terminalSessionKey v r) = (v = u)" for v r
    using key_prefix_iff [of u v r] by (auto simp: mine_def terminalSessionKey_def)
  have mine_iff: "mine k = (\<exists>r. k = terminalSessionKey u r)" if "(k, a) \<in> set (tm_sessions s)" for k a
    using user_hit [OF ok that, of u] by (simp add: mine_def)
  have eq: "CloseUserTerminals s u = foldl (\<lambda>t a. close_session True a t)
      (s\<lparr> tm_sessions := filter (\<lambda>p. \<not> mine (fst p)) (tm_sessions s) \<rparr>)
      (map snd (filter (\<lambda>p. mine (fst p)) (tm_sessions s)))"
    by (simp add: CloseUserTerminals_def Let_def mine_def)
  have tab: "tm_sessions (CloseUserTerminals s u) = filter (\<lambda>p. \<not> mine (fst p)) (tm_sessions s)"
    by (simp add: eq foldl_close_sessions)
  have nx: "tm_next (CloseUserTerminals s u) = tm_next s"
    by (simp add: eq foldl_close_next)
  have closed: "sw_closed (tm_objects (CloseUserTerminals s u) a) =
      (sw_closed (tm_objects s a) \<or> (\<exists>r. (terminalSessionKey u r, a) \<in> set (tm_sessions s)))" for a
    using mine_iff mine_key by (auto simp: eq foldl_close_sessions image_iff)
  have "table_ok (CloseUserTerminals s u)"
    using ok close_hits [OF ok] mine_key
    by (fastforce simp: table_ok_def tab nx closed distinct_map_filter)
  moreover have "map_of (tm_sessions (CloseUserTerminals s u)) (terminalSessionKey v r) =
       (if v = u then None else map_of (tm_sessions s) (terminalSessionKey v r))" for v r
    by (simp add: tab mine_key map_of_filter_key [of "\<lambda>k. \<not> mine k"])
  ultimately show ?thesis using closed by blast
qed

text \<open>
  C30: closing the terminals of a user closes both of the user's sessions and no session of
  another user (user 1 against user 12, say), and keeps the table well formed: distinct keys
  of users, each with an open session of its own.
\<close>

theorem close_user_terminals_exact:
  assumes ok: "table_ok s"
  shows "table_ok (CloseUserTerminals s u) \<and>
    (\<forall>v r. map_of (tm_sessions (CloseUserTerminals s u)) (terminalSessionKey v r) =
       (if v = u then None else map_of (tm_sessions s) (terminalSessionKey v r))) \<and>
    (\<forall>a. sw_closed (tm_objects (CloseUserTerminals s u) a) =
       (sw_closed (tm_objects s a) \<or> (\<exists>r. (terminalSessionKey u r, a) \<in> set (tm_sessions s))))"
  by (rule close_user_terminals [OF ok])

definition no_terminals :: terminalService where
  "no_terminals = \<lparr> tm_sessions = [], tm_objects = (\<lambda>_. new_wrapper 0 0 False), tm_next = 0, tm_sent = [], tm_closed = [] \<rparr>"

definition ready_ssh :: ssh_env where
  "ready_ssh = \<lparr> se_alive = True, se_ensure = Ok (), se_session = Ok True \<rparr>"

definition two_users :: terminalService where
  "two_users = fst (getOrCreateTerminalSession True ready_ssh False 6
     (fst (getOrCreateTerminalSession True ready_ssh False 5 no_terminals 1 False)) 12 False)"

lemma two_users_ok: "table_ok two_users"
proof -
  have "table_ok no_terminals" by (simp add: no_terminals_def table_ok_def)
  then show ?thesis unfolding two_users_def by (intro table_ok_getOrCreate)
qed

theorem close_user_terminals_exact_witness:
  "map_of (tm_sessions (CloseUserTerminals two_users 1)) (terminalSessionKey 12 False) =
     map_of (tm_sessions two_users) (terminalSessionKey 12 False) \<and>
   map_of (tm_sessions (CloseUserTerminals two_users 1)) (terminalSessionKey 1 False) = None"
  using close_user_terminals_exact [OF two_users_ok, of 1] by simp

text \<open>
  input typed while the session is being set up is not lost or reordered: when the messages
  before the session is there and those after it contain no close request and no write fails,
  standard input of the session grew by exactly the input of all the messages, in order.
\<close>

theorem input_in_order:
  assumes "open_connection ensure s u r = Ok sc" "list_all not_close before" "list_all not_close later"
    and "\<not> he_write he"
    and "attach_connection mg e pe he drops now u r cl (handle_all he now u r before sc) = (sc2, Ok ())"
  shows "\<exists>a. cn_sw (snd sc2) = Some a \<and>
    sw_stdin (tm_objects (fst (handle_all he now u r later sc2)) a) = Some (concat (map input_of (before @ later)))"
proof -
  let ?s1 = "closeTerminalSession s u r True"
  have sc: "sc = (?s1, \<lparr> cn_sw = None, cn_pendingInput = [], cn_pendingResize = None \<rparr>)"
    using assms(1) by (auto simp: open_connection_def split: sum.splits)
  obtain c where c: "handle_all he now u r before sc = (?s1, c)" "cn_pendingInput c = concat (map input_of before)"
    using handle_pending [of "snd sc" before he now u r ?s1] assms(2) by (auto simp: sc)
  have "cn_sw (snd sc2) = Some (tm_next s)" "\<not> sw_closed (tm_objects (fst sc2) (tm_next s))"
    "sw_stdin (tm_objects (fst sc2) (tm_next s)) = Some (cn_pendingInput c)"
    using attach_after_close [of mg e pe he drops now u r cl s True c sc2] assms(4,5) c(1) by auto
  then show ?thesis
    using handle_attached [of "snd sc2" "tm_next s" he later "fst sc2" _ now u r] assms(3,4) c(2) by auto
qed

text \<open>
  A connection replaces the session that the user had: the old session is closed, the new
  one has an empty history, and the end of the old shell, whenever it is noticed, does not
  touch the new session.
\<close>

theorem reconnect_starts_afresh:
  assumes "table_ok s" "map_of (tm_sessions s) (terminalSessionKey u r) = Some old"
    and "attach_connection mg e pe he drops now u r cl
      (closeTerminalSession s u r True, \<lparr> cn_sw = None, cn_pendingInput = [], cn_pendingResize = None \<rparr>) = (sc, Ok ())"
    and "\<not> he_write he"
  shows "\<exists>a. cn_sw (snd sc) = Some a \<and> a \<noteq> old \<and> map_of (tm_sessions (fst sc)) (terminalSessionKey u r) = Some a \<and>
    sw_closed (tm_objects (fst sc) old) \<and> sw_outputBuffer (tm_objects (fst sc) a) = [] \<and>
    closeTerminalSessionByKey (fst sc) (terminalSessionKey u r) old b = fst sc"
proof -
  have "old < tm_next s" using assms(1) map_of_SomeD [OF assms(2)] by (auto simp: table_ok_def)
  moreover have "sw_closed (tm_objects (closeTerminalSession s u r True) old)"
    by (simp add: closeTerminalSession_def Let_def assms(2))
  ultimately show ?thesis
    using attach_after_close [OF assms(3,4)] close_removes_key [of s u r True]
    by (auto simp: closeTerminalSessionByKey_def map_add_def map_of_append)
qed

end
