(* ===== verification/Handlers.thy ===== *)
theory Handlers
  imports MachineAccounts SystemInfo Terminal GoPath
begin

text \<open>
  The remaining handlers: internal/api/v1/permissionManage, user, admin, auth, system, home and
  terminal.

  A handler reads the id of the user from the token, a parameter of the path or a decoded body
  (None when the binding fails), calls one service and answers with data or with the code of an error
  response. The handlers that have checks of their own for registration, login and passwords are in the
  theory of the accounts.
\<close>

section \<open>Plumbing\<close>

definition reply :: "'a result \<Rightarrow> int + 'a" where
  "reply r = (case r of Inl err \<Rightarrow> Inl (error_code err) | Inr x \<Rightarrow> Inr x)"

definition replied :: "'s \<times> 'a result \<Rightarrow> 's \<times> (int + 'a)" where
  "replied x = (fst x, reply (snd x))"

text \<open>A missing row is answered with 404.\<close>

definition reply_row :: "'a option result \<Rightarrow> int + 'a" where
  "reply_row r = (case r of Inl err \<Rightarrow> Inl (error_code err) | Inr None \<Rightarrow> Inl CodeNotFound | Inr (Some x) \<Rightarrow> Inr x)"

text \<open>A parameter of the path that has to be a number, and a body that has to be bound.\<close>

definition with_number :: "int option \<Rightarrow> (int \<Rightarrow> int + 'a) \<Rightarrow> int + 'a" where
  "with_number i k = (case i of None \<Rightarrow> Inl CodeBadRequest | Some n \<Rightarrow> k n)"

definition call_with :: "'r option \<Rightarrow> ('r \<Rightarrow> 's \<Rightarrow> 's \<times> 'a result) \<Rightarrow> 's \<Rightarrow> 's \<times> (int + 'a)" where
  "call_with req k s = (case req of None \<Rightarrow> (s, Inl CodeBadRequest) | Some x \<Rightarrow> replied (k x s))"

definition ParseInt32 :: "string \<Rightarrow> int option" where
  "ParseInt32 t = (case Atoi t of None \<Rightarrow> None | Some i \<Rightarrow> (if - (2 ^ 31) \<le> i \<and> i < 2 ^ 31 then Some i else None))"

text \<open>
  What the handlers read from the context of the request: the id is 0 without a token; the name is
  taken from the body when there is no token, \<open>dec\<close> gives the text field username of a JSON object.
\<close>

definition GetUserID :: "int option \<Rightarrow> int" where
  "GetUserID ctxUser = (case ctxUser of Some i \<Rightarrow> i | None \<Rightarrow> 0)"

definition extractUsernameFromBody :: "(string \<Rightarrow> string option) \<Rightarrow> string \<Rightarrow> string option \<Rightarrow> string" where
  "extractUsernameFromBody dec method raw_body = (if method \<noteq> ''POST'' then []
     else case raw_body of
       None \<Rightarrow> []
     | Some str \<Rightarrow> (if str = [] then [] else case dec str of None \<Rightarrow> [] | Some username \<Rightarrow> username))"

definition GetUsername :: "(string \<Rightarrow> string option) \<Rightarrow> string \<Rightarrow> string option \<Rightarrow> string option \<Rightarrow> string" where
  "GetUsername dec method ctxName raw_body = (case ctxName of Some n \<Rightarrow> n | None \<Rightarrow> extractUsernameFromBody dec method raw_body)"

text \<open>NewPageResponse: the rows, their number, the page, its size and the number of pages.\<close>

definition NewPageResponse :: "int \<Rightarrow> int \<Rightarrow> 'a list \<times> int \<Rightarrow> 'a list \<times> int \<times> int \<times> int \<times> int" where
  "NewPageResponse page pageSize = (\<lambda>(rows, n). (rows, n, page, pageSize, page_total n pageSize))"

section \<open>Roles\<close>

definition ctrl_GetRoleByID :: "bool \<Rightarrow> directory \<Rightarrow> string \<Rightarrow> int + Role" where
  "ctrl_GetRoleByID err d idStr = with_number (Atoi idStr) (\<lambda>i. reply_row (role_GetRoleByID err d i))"

record page_query =
  pq_Page :: int
  pq_PageSize :: int
  pq_Name :: string
  pq_Status :: "int option"

definition ctrl_role_PageList ::
  "(string \<Rightarrow> string \<Rightarrow> bool) \<Rightarrow> bool \<Rightarrow> bool \<Rightarrow> directory \<Rightarrow> page_query option \<Rightarrow> int + (Role list \<times> int \<times> int \<times> int \<times> int)" where
  "ctrl_role_PageList like cerr ferr d q = (case q of
     None \<Rightarrow> Inl CodeBadRequest
   | Some r \<Rightarrow> reply (map_sum id (NewPageResponse (pq_Page r) (pq_PageSize r))
       (roleService_PageList like cerr ferr d (pq_Page r) (pq_PageSize r) (pq_Name r) (pq_Status r))))"

definition ctrl_role_Create :: "collation \<Rightarrow> (Role list \<Rightarrow> int) \<Rightarrow> service_env \<Rightarrow> int \<Rightarrow> CreateRoleRequest option \<Rightarrow> directory \<Rightarrow> directory \<times> (int + unit)" where
  "ctrl_role_Create w fresh e now = (\<lambda>req. call_with req (\<lambda>r d. roleService_Create w fresh e now d r))"

definition ctrl_role_Update :: "collation \<Rightarrow> service_env \<Rightarrow> int \<Rightarrow> UpdateRoleRequest option \<Rightarrow> directory \<Rightarrow> directory \<times> (int + unit)" where
  "ctrl_role_Update w e now = (\<lambda>req. call_with req (\<lambda>r d. roleService_Update w e now d r))"

definition ctrl_role_Delete :: "bool \<Rightarrow> bool \<Rightarrow> string \<Rightarrow> directory \<Rightarrow> directory \<times> (int + unit)" where
  "ctrl_role_Delete ferr derr idStr = call_with (Atoi idStr) (\<lambda>i d. roleService_Delete ferr derr d i)"

definition ctrl_role_BatchDelete :: "(nat \<Rightarrow> bool) \<Rightarrow> bool \<Rightarrow> int list option \<Rightarrow> directory \<Rightarrow> directory \<times> (int + unit)" where
  "ctrl_role_BatchDelete ferr derr = (\<lambda>req. call_with req (\<lambda>ids d. roleService_BatchDelete ferr derr d ids))"

definition ctrl_GetRolePermissionByID ::
  "(string list \<Rightarrow> string list) \<Rightarrow> role_page_env \<Rightarrow> directory \<Rightarrow> string \<Rightarrow> int + (MenuNodeResponse list \<times> (string \<times> ApiPermissionRes list) list)" where
  "ctrl_GetRolePermissionByID it e d idStr = with_number (Atoi idStr) (\<lambda>i. reply (roleService_GetRolePermissionByID it e d i))"

definition ctrl_UpdateRolePermission ::
  "role_perm_env \<Rightarrow> string \<Rightarrow> (int list \<times> int list) option \<Rightarrow> directory \<Rightarrow> directory \<times> (int + unit)" where
  "ctrl_UpdateRolePermission e idStr req d = (case Atoi idStr of
     None \<Rightarrow> (d, Inl CodeBadRequest)
   | Some i \<Rightarrow> call_with req (\<lambda>(menus, permissions) d. roleService_UpdateRolePermission e d i menus permissions) d)"

section \<open>Menus\<close>

definition ctrl_GetMenuByID :: "bool \<Rightarrow> directory \<Rightarrow> string \<Rightarrow> int + Menu" where
  "ctrl_GetMenuByID err d idStr = with_number (Atoi idStr) (\<lambda>i. reply_row (menu_GetMenuByID err d i))"

definition ctrl_menu_PageList ::
  "(string \<Rightarrow> string \<Rightarrow> bool) \<Rightarrow> menu_page_env \<Rightarrow> directory \<Rightarrow> page_query option \<Rightarrow> int + (MenuTreeNode list \<times> int \<times> int \<times> int \<times> int)" where
  "ctrl_menu_PageList like e d q = (case q of
     None \<Rightarrow> Inl CodeBadRequest
   | Some r \<Rightarrow> reply (map_sum id (NewPageResponse (pq_Page r) (pq_PageSize r))
       (menuService_PageList like e d (pq_Page r) (pq_PageSize r) (pq_Name r) (pq_Status r))))"

definition ctrl_menu_Create :: "collation \<Rightarrow> (Menu list \<Rightarrow> int) \<Rightarrow> service_env \<Rightarrow> int \<Rightarrow> CreateMenuRequest option \<Rightarrow> directory \<Rightarrow> directory \<times> (int + unit)" where
  "ctrl_menu_Create w fresh e now = (\<lambda>req. call_with req (\<lambda>r d. menuService_Create w fresh e now d r))"

definition ctrl_menu_Update :: "collation \<Rightarrow> service_env \<Rightarrow> int \<Rightarrow> UpdateMenuRequest option \<Rightarrow> directory \<Rightarrow> directory \<times> (int + unit)" where
  "ctrl_menu_Update w e now = (\<lambda>req. call_with req (\<lambda>r d. menuService_Update w e now d r))"

definition ctrl_menu_Delete :: "bool \<Rightarrow> bool \<Rightarrow> string \<Rightarrow> directory \<Rightarrow> directory \<times> (int + unit)" where
  "ctrl_menu_Delete ferr derr idStr = call_with (Atoi idStr) (\<lambda>i d. menuService_Delete ferr derr d i)"

definition ctrl_menu_BatchDelete :: "(nat \<Rightarrow> bool) \<Rightarrow> bool \<Rightarrow> int list option \<Rightarrow> directory \<Rightarrow> directory \<times> (int + unit)" where
  "ctrl_menu_BatchDelete ferr derr = (\<lambda>req. call_with req (\<lambda>ids d. menuService_BatchDelete ferr derr d ids))"

section \<open>Permissions\<close>

definition ctrl_GetAPIByID :: "bool \<Rightarrow> directory \<Rightarrow> string \<Rightarrow> int + Permission" where
  "ctrl_GetAPIByID err d idStr = with_number (Atoi idStr) (\<lambda>i. reply_row (api_GetAPIByID err d i))"

definition ctrl_api_PageList ::
  "collation \<Rightarrow> (string \<Rightarrow> string \<Rightarrow> bool) \<Rightarrow> bool \<Rightarrow> bool \<Rightarrow> directory \<Rightarrow> page_query option \<Rightarrow> int + (Permission list \<times> int \<times> int \<times> int \<times> int)" where
  "ctrl_api_PageList w like cerr ferr d q = (case q of
     None \<Rightarrow> Inl CodeBadRequest
   | Some r \<Rightarrow> reply (map_sum id (NewPageResponse (pq_Page r) (pq_PageSize r))
       (apiService_PageList w like cerr ferr d (pq_Page r) (pq_PageSize r) (pq_Name r) (pq_Status r))))"

definition ctrl_api_Create :: "collation \<Rightarrow> (Permission list \<Rightarrow> int) \<Rightarrow> service_env \<Rightarrow> int \<Rightarrow> CreateAPIRequest option \<Rightarrow> directory \<Rightarrow> directory \<times> (int + unit)" where
  "ctrl_api_Create w fresh e now = (\<lambda>req. call_with req (\<lambda>r d. apiService_Create w fresh e now d r))"

definition ctrl_api_Update :: "collation \<Rightarrow> service_env \<Rightarrow> int \<Rightarrow> UpdateAPIRequest option \<Rightarrow> directory \<Rightarrow> directory \<times> (int + unit)" where
  "ctrl_api_Update w e now = (\<lambda>req. call_with req (\<lambda>r d. apiService_Update w e now d r))"

definition ctrl_api_Delete :: "bool \<Rightarrow> bool \<Rightarrow> string \<Rightarrow> directory \<Rightarrow> directory \<times> (int + unit)" where
  "ctrl_api_Delete ferr derr idStr = call_with (Atoi idStr) (\<lambda>i d. apiService_Delete ferr derr d i)"

definition ctrl_api_BatchDelete :: "(nat \<Rightarrow> bool) \<Rightarrow> bool \<Rightarrow> int list option \<Rightarrow> directory \<Rightarrow> directory \<times> (int + unit)" where
  "ctrl_api_BatchDelete ferr derr = (\<lambda>req. call_with req (\<lambda>ids d. apiService_BatchDelete ferr derr d ids))"

section \<open>Users and administrators\<close>

definition ctrl_GetProfile :: "acc_env \<Rightarrow> int \<Rightarrow> accounts \<Rightarrow> int + UserResponse" where
  "ctrl_GetProfile e userID s = (if userID = 0 then Inl CodeUnauthorized
     else reply (map_sum id GetUserResponse (GetUserByID e userID s)))"

record user_query =
  uq_Page :: int
  uq_Size :: int
  uq_Username :: string
  uq_Email :: string
  uq_Status :: string

definition ctrl_ListUsers ::
  "(string \<Rightarrow> string \<Rightarrow> bool) \<Rightarrow> acc_env \<Rightarrow> user_query option \<Rightarrow> accounts \<Rightarrow> int + (UserResponse list \<times> int \<times> int \<times> int \<times> int)" where
  "ctrl_ListUsers like e q s = (case q of
     None \<Rightarrow> Inl CodeBadRequest
   | Some r \<Rightarrow> reply (ListUsers like e (uq_Page r) (uq_Size r) (uq_Username r) (uq_Email r) (uq_Status r) s))"

definition ctrl_GetByUsername :: "acc_env \<Rightarrow> string \<Rightarrow> accounts \<Rightarrow> int + UserResponse" where
  "ctrl_GetByUsername e username s = (if username = [] then Inl CodeBadRequest
     else reply (map_sum id GetUserResponse (GetUserByUsername e username s)))"

text \<open>
  strings.ToLower on bytes. Two letters outside ASCII have a lower case inside it; the others are
  left as they are, their lower case is outside ASCII too.
\<close>

definition lower_char :: "char \<Rightarrow> char" where
  "lower_char c = (if 65 \<le> (of_char c :: nat) \<and> (of_char c :: nat) \<le> 90 then char_of ((of_char c :: nat) + 32) else c)"

fun ToLower :: "string \<Rightarrow> string" where
  "ToLower (c # d # e # t) = (if c = CHR 0xC4 \<and> d = CHR 0xB0 then CHR ''i'' # ToLower (e # t)
     else if c = CHR 0xE2 \<and> d = CHR 0x84 \<and> e = CHR 0xAA then CHR ''k'' # ToLower t
     else lower_char c # ToLower (d # e # t))"
| "ToLower [c, d] = (if c = CHR 0xC4 \<and> d = CHR 0xB0 then ''i'' else [lower_char c, lower_char d])"
| "ToLower [c] = [lower_char c]"
| "ToLower [] = []"

definition allowedExts :: "string list" where
  "allowedExts = [''.jpg'', ''.jpeg'', ''.png'', ''.gif'', ''.bmp'', ''.webp'']"

text \<open>The part of the form: its file name (of which the library keeps the last component), its type and its content.\<close>

record avatar_form =
  av_Filename :: string
  av_ContentType :: string
  av_content :: string

definition avatar_path :: "int \<Rightarrow> int \<Rightarrow> string \<Rightarrow> string" where
  "avatar_path userID nanos ext = path_Join [path_Join [''uploads'', ''avatars''], Itoa userID @ ''_'' @ Itoa nanos @ ext]"

definition ctrl_UploadAvatar ::
  "acc_env \<Rightarrow> bool \<Rightarrow> bool \<Rightarrow> int \<Rightarrow> int \<Rightarrow> avatar_form option \<Rightarrow> (string \<Rightarrow> string option) \<times> accounts \<Rightarrow> ((string \<Rightarrow> string option) \<times> accounts) \<times> (int + string)" where
  "ctrl_UploadAvatar e mkdir save now userID form = (\<lambda>(files, s).
     if userID = 0 then ((files, s), Inl CodeUnauthorized)
     else case form of
       None \<Rightarrow> ((files, s), Inl CodeBadRequest)
     | Some f \<Rightarrow>
         (let ext = ToLower (path_Ext (path_Base (av_Filename f))); dst = avatar_path userID now ext in
          if ext \<notin> set allowedExts then ((files, s), Inl CodeBadRequest)
          else if \<not> HasPrefix (av_ContentType f) ''image/'' then ((files, s), Inl CodeBadRequest)
          else if \<not> mkdir then ((files, s), Inl CodeInternalError)
          else if \<not> save then ((files, s), Inl CodeInternalError)
          else case UpdateAvatar e now userID dst s of
              (s1, Inl x) \<Rightarrow> ((files(dst \<mapsto> av_content f), s1), Inl (error_code x))
            | (s1, Inr _) \<Rightarrow> ((files(dst \<mapsto> av_content f), s1), Inr (''http://192.168.10.1:8080/'' @ dst))))"

definition ctrl_GetUserMenuPermission ::
  "go_order \<Rightarrow> acc_env \<Rightarrow> (nat \<Rightarrow> bool) \<Rightarrow> int option \<Rightarrow> accounts \<Rightarrow> int + (PermissionResponse list \<times> MenuTreeNode list)" where
  "ctrl_GetUserMenuPermission go e ferr ctxUser s = (case ctxUser of
     None \<Rightarrow> Inl CodeUnauthorized
   | Some userID \<Rightarrow> reply (GetUserMenuPermission go (x_w e) (x_fails e QFind) ferr (a_dir s) userID))"

definition ctrl_DeleteUser :: "acc_env \<Rightarrow> string \<Rightarrow> accounts \<Rightarrow> accounts \<times> (int + unit)" where
  "ctrl_DeleteUser e idStr = call_with (ParseInt32 idStr) (\<lambda>i s. DeleteUser e i s)"

definition ctrl_UpdateUser :: "acc_env \<Rightarrow> int \<Rightarrow> string \<Rightarrow> AdminUpdateUserRequest option \<Rightarrow> accounts \<Rightarrow> accounts \<times> (int + unit)" where
  "ctrl_UpdateUser e now idStr req s = (case ParseInt32 idStr of
     None \<Rightarrow> (s, Inl CodeBadRequest)
   | Some i \<Rightarrow> call_with req (\<lambda>r s. AdminUpdateUser e now i r s) s)"

definition ctrl_GetUser :: "acc_env \<Rightarrow> string \<Rightarrow> accounts \<Rightarrow> int + UserResponse" where
  "ctrl_GetUser e idStr s = with_number (ParseInt32 idStr) (\<lambda>i. reply (map_sum id GetUserResponse (GetUserByID e i s)))"

definition ctrl_admin_ListUsers ::
  "(string \<Rightarrow> string \<Rightarrow> bool) \<Rightarrow> acc_env \<Rightarrow> user_query option \<Rightarrow> accounts \<Rightarrow> int + (UserResponse list \<times> int \<times> int \<times> int \<times> int)" where
  "ctrl_admin_ListUsers like e q s = (case q of
     None \<Rightarrow> Inl CodeBadRequest
   | Some r \<Rightarrow> reply (ListUsers like e (uq_Page r) (uq_Size r) (uq_Username r) (uq_Email r) (uq_Status r) s))"

definition ctrl_ListRoleSimple :: "bool \<Rightarrow> directory \<Rightarrow> int + (string \<times> string) list" where
  "ctrl_ListRoleSimple err d = reply (map_sum id (map (\<lambda>r. (rl_Name r, rl_Slug r))) (GetAllRoles err d))"

section \<open>Authentication\<close>

text \<open>Logout closes the terminals of the user before the sessions and credentials.\<close>

definition ctrl_Logout :: "acc_env \<Rightarrow> session_env \<Rightarrow> int \<Rightarrow> int \<Rightarrow> terminalService \<times> accounts \<Rightarrow> (terminalService \<times> accounts) \<times> (int + unit)" where
  "ctrl_Logout e se now userID = (\<lambda>(ts, s). if userID = 0 then ((ts, s), Inl CodeUnauthorized)
     else case Logout e se now userID s of (s1, r) \<Rightarrow> ((CloseUserTerminals ts userID, s1), reply r))"

definition ctrl_RefreshToken ::
  "(string \<Rightarrow> string \<Rightarrow> jwt_answer) \<Rightarrow> (string \<Rightarrow> CustomClaims \<Rightarrow> string option) \<Rightarrow> string \<Rightarrow> int \<Rightarrow> int \<Rightarrow> string option \<Rightarrow> int + string" where
  "ctrl_RefreshToken verify sign secret expireHours now req = (case req of
     None \<Rightarrow> Inl CodeBadRequest
   | Some token \<Rightarrow> reply (RefreshToken verify sign secret expireHours now token))"

definition ctrl_SendEmailCode :: "acc_env \<Rightarrow> int \<Rightarrow> nat \<Rightarrow> string option \<Rightarrow> accounts \<Rightarrow> accounts \<times> (int + unit)" where
  "ctrl_SendEmailCode e now n req = call_with req (\<lambda>email s. SendEmailCode e now n email s)"

text \<open>The library draws the captcha: its id and its picture, or an error.\<close>

definition ctrl_GetCaptcha :: "(string \<times> string) option \<Rightarrow> int + (string \<times> string) list" where
  "ctrl_GetCaptcha generated = (case generated of
     None \<Rightarrow> Inl CodeInternalError
   | Some (i, b64s) \<Rightarrow> Inr [(''captcha_id'', i), (''captcha_val'', b64s)])"

section \<open>The machine and its terminals\<close>

definition ctrl_GetConfig :: "sys_env \<Rightarrow> sysinfo \<Rightarrow> ConfigResponse" where
  "ctrl_GetConfig e s = GetConfig e s"

definition ctrl_TerminateProcess :: "sys_env \<Rightarrow> string \<Rightarrow> sysinfo \<Rightarrow> sysinfo \<times> (int + unit)" where
  "ctrl_TerminateProcess e pidStr = call_with (Atoi pidStr) (\<lambda>pid s. TerminateProcess e pid s)"

definition ctrl_RetainProcess :: "sys_env \<Rightarrow> string \<Rightarrow> sysinfo \<Rightarrow> sysinfo \<times> (int + unit)" where
  "ctrl_RetainProcess e pidStr = call_with (Atoi pidStr) (\<lambda>pid s. RetainProcess e pid s)"

definition ctrl_CancelRetain :: "sys_env \<Rightarrow> string \<Rightarrow> sysinfo \<Rightarrow> sysinfo \<times> (int + unit)" where
  "ctrl_CancelRetain e pidStr = call_with (Atoi pidStr) (\<lambda>pid s. CancelRetain e pid s)"

text \<open>The sockets: \<open>upgrade\<close> tells whether the upgrade succeeds; a failed one has answered itself.\<close>

definition ctrl_HandleWebSocket :: "bool \<Rightarrow> int \<Rightarrow> int option \<Rightarrow> ConnectionPool \<Rightarrow> ConnectionPool \<times> (int + unit)" where
  "ctrl_HandleWebSocket upgrade now ctxUser p = (case ctxUser of
     None \<Rightarrow> (p, Inl CodeBadRequest)
   | Some userID \<Rightarrow> (if upgrade then HandleSyMessage now userID p else p, Inr ()))"

definition ctrl_Overview :: "HomeOverviewResponse result \<Rightarrow> int + HomeOverviewResponse" where
  "ctrl_Overview r = (case r of Inl _ \<Rightarrow> Inl CodeInternalError | Inr page \<Rightarrow> Inr page)"

definition ctrl_WebSocketOverview :: "bool \<Rightarrow> int \<Rightarrow> int \<Rightarrow> ConnectionPool \<Rightarrow> ConnectionPool \<times> (int + unit)" where
  "ctrl_WebSocketOverview upgrade now userID p = (if userID = 0 then (p, Inl CodeBadRequest)
     else (if upgrade then HandleHomeMessage now userID p else p, Inr ()))"

text \<open>A terminal is opened in the mode that the access of the user gives, and only after the upgrade.\<close>

definition ctrl_WebSocketTerminal ::
  "collation \<Rightarrow> bool \<Rightarrow> (nat \<Rightarrow> bool) \<Rightarrow> directory \<Rightarrow> int \<Rightarrow> bool \<Rightarrow> unit result \<Rightarrow> terminalService \<Rightarrow> (int + (terminalService \<times> connection) option)" where
  "ctrl_WebSocketTerminal w uerr ferr d userID upgrade ensure s = (if userID = 0 then Inl CodeUnauthorized
     else case HasSystemAccess w uerr ferr d userID AccessTypeTerminal of
       Inl err \<Rightarrow> Inl (error_code err)
     | Inr isRoot \<Rightarrow> (if \<not> upgrade then Inr None
         else case open_connection ensure s userID isRoot of Inl _ \<Rightarrow> Inr None | Inr sc \<Rightarrow> Inr (Some sc)))"

section \<open>Requests as steps of the services\<close>

lemma call_with_cases:
  "fst (call_with req k s) = s \<or> (\<exists>x. req = Some x \<and> fst (call_with req k s) = fst (k x s))"
  by (cases req) (simp_all add: call_with_def replied_def)

text \<open>The handlers of permissionManage that write, over the directory.\<close>

inductive dir_request :: "collation \<Rightarrow> directory \<Rightarrow> directory \<Rightarrow> bool" for w where
  "unused_id rl_ID fr \<Longrightarrow> dir_request w d (fst (ctrl_role_Create w fr e now cr d))"
| "dir_request w d (fst (ctrl_role_Update w e now ur d))"
| "dir_request w d (fst (ctrl_role_Delete ferr derr idStr d))"
| "dir_request w d (fst (ctrl_role_BatchDelete ferrs derr ids d))"
| "dir_request w d (fst (ctrl_UpdateRolePermission pe idStr mps d))"
| "unused_id mn_ID fm \<Longrightarrow> dir_request w d (fst (ctrl_menu_Create w fm e now cm d))"
| "dir_request w d (fst (ctrl_menu_Update w e now um d))"
| "dir_request w d (fst (ctrl_menu_Delete ferr derr idStr d))"
| "dir_request w d (fst (ctrl_menu_BatchDelete ferrs derr ids d))"
| "unused_id pm_ID fp \<Longrightarrow> dir_request w d (fst (ctrl_api_Create w fp e now ca d))"
| "dir_request w d (fst (ctrl_api_Update w e now ua d))"
| "dir_request w d (fst (ctrl_api_Delete ferr derr idStr d))"
| "dir_request w d (fst (ctrl_api_BatchDelete ferrs derr ids d))"

lemma call_with_step:
  assumes "\<And>x. req = Some x \<Longrightarrow> R d (fst (k x d))"
  shows "R\<^sup>=\<^sup>= d (fst (call_with req k d))"
  using assms call_with_cases [of req k d] by auto

lemma UpdateRolePermission_request: "(dir_step w)\<^sup>=\<^sup>= d (fst (ctrl_UpdateRolePermission pe idStr mps d))"
  by (auto simp: ctrl_UpdateRolePermission_def call_with_def replied_def intro: dir_step.intros(5) split: option.split)

lemma dir_request_step:
  assumes "dir_request w d d'"
  shows "(dir_step w)\<^sup>=\<^sup>= d d'"
  using assms
proof cases
  case (5 pe idStr mps)
  then show ?thesis using UpdateRolePermission_request by simp
qed (simp_all only: ctrl_role_Create_def ctrl_role_Update_def ctrl_role_Delete_def ctrl_role_BatchDelete_def
    ctrl_menu_Create_def ctrl_menu_Update_def ctrl_menu_Delete_def ctrl_menu_BatchDelete_def
    ctrl_api_Create_def ctrl_api_Update_def ctrl_api_Delete_def ctrl_api_BatchDelete_def, (rule call_with_step, rule dir_step.intros, assumption?)+)


text \<open>
  Every request that changes accounts, the directory or the table of terminals, with an environment
  of its own. A terminal is opened with the roles of the state and obtains its session afterwards.
\<close>

inductive http_step :: "collation \<Rightarrow> (string \<Rightarrow> bool) \<Rightarrow> terminalService \<times> accounts \<Rightarrow> terminalService \<times> accounts \<Rightarrow> bool" for w base where
  req_Register: "sound_env w base e \<Longrightarrow> default_role w (a_dir s) \<Longrightarrow> http_step w base (ts, s) (ts, fst (ctrl_Register e now req s))"
| req_CreateUser: "sound_env w base e \<Longrightarrow> default_role w (a_dir s) \<Longrightarrow> http_step w base (ts, s) (ts, fst (ctrl_CreateUser e now creq s))"
| req_DeleteUser: "sound_env w base e \<Longrightarrow> http_step w base (ts, s) (ts, fst (ctrl_DeleteUser e idStr s))"
| req_UpdateUser: "sound_env w base e \<Longrightarrow> http_step w base (ts, s) (ts, fst (ctrl_UpdateUser e now idStr areq s))"
| req_ChangePassword: "sound_env w base e \<Longrightarrow> http_step w base (ts, s) (ts, fst (ctrl_ChangePassword e now i cpreq s))"
| req_ResetPassword: "sound_env w base e \<Longrightarrow> http_step w base (ts, s) (ts, fst (ctrl_ResetPassword e now rreq s))"
| req_UpdateProfile: "sound_env w base e \<Longrightarrow> http_step w base (ts, s) (ts, fst (ctrl_UpdateProfile e now i preq s))"
| req_UploadAvatar: "sound_env w base e \<Longrightarrow> http_step w base (ts, s) (ts, snd (fst (ctrl_UploadAvatar e mkdir save now i form (files, s))))"
| req_Login: "http_step w base (ts, s) (ts, fst (ctrl_Login e tk go ferr now lreq s))"
| req_Logout: "http_step w base (ts, s) (fst (ctrl_Logout e se now i (ts, s)))"
| req_SendEmailCode: "http_step w base (ts, s) (ts, fst (ctrl_SendEmailCode e now n mreq s))"
| req_Directory: "dir_request w (a_dir s) d \<Longrightarrow> http_step w base (ts, s) (ts, s\<lparr> a_dir := d \<rparr>)"
| req_Terminal: "ctrl_WebSocketTerminal w uerr ferr (a_dir s) i upgrade (snd (EnsureSSHSession e se answers ferr2 now i s)) ts = Inr (Some (ts1, c)) \<Longrightarrow>
     http_step w base (ts, s) (ts1, fst (EnsureSSHSession e se answers ferr2 now i s))"
| req_Attach: "http_step w base (ts, s) (fst (getOrCreateTerminalSession manager ssh pty_err now ts i isRoot), s)"

lemma call_with_accounts:
  assumes "\<And>x. acc_step w base s (fst (k x s))"
  shows "(acc_step w base)\<^sup>=\<^sup>= s (fst (call_with req k s))"
  using call_with_step [of req "acc_step w base" s k] assms by simp

lemma UploadAvatar_state:
  "snd (fst (ctrl_UploadAvatar e mkdir save now i form (files, s))) = s \<or>
   (\<exists>path. snd (fst (ctrl_UploadAvatar e mkdir save now i form (files, s))) = fst (UpdateAvatar e now i path s))"
  by (auto simp: ctrl_UploadAvatar_def Let_def split: option.split prod.split sum.split; metis fst_conv)

lemma dir_request_accounts:
  assumes "dir_request w (a_dir s) d"
  shows "(acc_step w base)\<^sup>=\<^sup>= s (s\<lparr> a_dir := d \<rparr>)"
  using dir_request_step [OF assms] acc_step.step_Dir [of w s d base] by auto

lemma UpdateUser_accounts:
  assumes "sound_env w base e"
  shows "(acc_step w base)\<^sup>=\<^sup>= s (fst (ctrl_UpdateUser e now idStr areq s))"
  using call_with_accounts [of w base s "\<lambda>r s. AdminUpdateUser e now _ r s"] step_Admin [OF assms]
  by (auto simp: ctrl_UpdateUser_def split: option.split)

lemma http_step_accounts:
  assumes "http_step w base x y"
  shows "(acc_step w base)\<^sup>=\<^sup>= (snd x) (snd y)"
  using assms
proof cases
  case (req_UploadAvatar e ts s mkdir save now i form files)
  then show ?thesis using UploadAvatar_state [of e mkdir save now i form files s] step_Avatar by auto
next
  case (req_Logout ts s e se now i)
  then show ?thesis using step_Logout [of w base s e se now i] by (auto simp: ctrl_Logout_def split: prod.split)
next
  case req_Directory
  then show ?thesis using dir_request_accounts by simp
next
  case req_UpdateUser
  then show ?thesis using UpdateUser_accounts by simp
next
  case (req_DeleteUser e ts s idStr)
  then show ?thesis using call_with_accounts [of w base s "DeleteUser e"] step_DeleteUser by (simp add: ctrl_DeleteUser_def)
next
  case (req_SendEmailCode ts s e now n mreq)
  then show ?thesis using call_with_accounts [of w base s "SendEmailCode e now n"] step_Mail by (simp add: ctrl_SendEmailCode_def)
qed (auto intro: acc_step.intros)


lemma http_step_table:
  assumes "http_step w base x y" "table_ok (fst x)"
  shows "table_ok (fst y)"
  using assms(1)
proof cases
  case (req_Logout ts s e se now i)
  then show ?thesis using assms(2) close_user_terminals [of ts i] by (auto simp: ctrl_Logout_def split: prod.split)
next
  case req_Terminal
  then show ?thesis using assms(2) table_ok_closeTerminalSession
    by (auto simp: ctrl_WebSocketTerminal_def open_connection_def split: if_splits sum.splits)
next
  case req_Attach
  then show ?thesis using assms(2) table_ok_getOrCreate by simp
qed (use assms(2) in simp_all)


definition demo_web :: "terminalService \<times> accounts" where
  "demo_web = fst (ctrl_Logout demo_acc redis_up 7 1 (two_users, fst (ctrl_Register demo_acc 7 demo_register demo_state)))"



section \<open>Avatars\<close>

lemma Itoa_no_slash: "CHR ''/'' \<notin> set (Itoa i)"
  using show_nat_digits [of "nat i"] show_nat_digits [of "nat (- i)"] by (auto simp: Itoa_def list_all_iff)

lemma avatar_path_text:
  assumes "CHR ''/'' \<notin> set ext"
  shows "avatar_path userID nanos ext = ''uploads/avatars/'' @ Itoa userID @ ''_'' @ Itoa nanos @ ext"
proof -
  let ?f = "Itoa userID @ ''_'' @ Itoa nanos @ ext"
  have dir: "path_Clean ''uploads/avatars'' = ''uploads/avatars''" by code_simp
  have "CHR ''_'' \<in> set ?f" "CHR ''_'' \<notin> set ''..''" "set ''.'' = set ''..''" by simp_all
  then have "?f \<noteq> ''.''" "?f \<noteq> ''..''" by metis+
  then have f: "CHR ''/'' \<notin> set ?f" "?f \<noteq> []" "?f \<noteq> ''..''" "named ?f"
    using assms Itoa_no_slash [of userID] Itoa_no_slash [of nanos] by (auto simp: named_def)
  have "Split CHR ''/'' (''uploads/avatars/'' @ ?f) = [''uploads'', ''avatars'', ?f]"
    using Split_append_sep [of "CHR ''/''" "''uploads''" "''avatars/'' @ ?f"]
      Split_append_sep [of "CHR ''/''" "''avatars''" ?f] Split_free [OF f(1)] by simp
  moreover have "clean_parts False [''uploads'', ''avatars'', ?f] = [''uploads'', ''avatars'', ?f]"
    using f by (subst clean_parts_no_dotdot) (auto simp: named_def)
  ultimately have "path_Clean (''uploads/avatars/'' @ ?f) = ''uploads/avatars/'' @ ?f"
    by (simp add: path_Clean_def Let_def path_IsAbs_def HasPrefix_def)
  then show ?thesis using f(2) by (simp add: avatar_path_def dir path_Join_def)
qed

text \<open>
  An avatar is written under a name of its own below uploads/avatars, with an extension of the
  list, whatever the name and the type of the uploaded file; no other file changes.
\<close>

lemma avatar_upload_confined:
  assumes "ctrl_UploadAvatar e mkdir save now i form (files, s) = ((files', s'), r)"
  shows "files' = files \<or> (\<exists>ext \<in> set allowedExts. \<exists>c. files' = files(''uploads/avatars/'' @ Itoa i @ ''_'' @ Itoa now @ ext \<mapsto> c))"
proof -
  have "files' = files \<or> (\<exists>ext \<in> set allowedExts. \<exists>c. files' = files(avatar_path i now ext \<mapsto> c))"
    using assms by (auto simp: ctrl_UploadAvatar_def Let_def split: option.splits prod.splits sum.splits if_splits)
  moreover have "CHR ''/'' \<notin> set ext" if "ext \<in> set allowedExts" for ext using that by (auto simp: allowedExts_def)
  ultimately show ?thesis using avatar_path_text by metis
qed

text \<open>The extension is checked without its case, and the answer names the host of the deployment.\<close>

lemma avatar_upload_demo:
  "snd (ctrl_UploadAvatar demo_acc True True 7 5 (Some \<lparr> av_Filename = ''a/../me.PNG'', av_ContentType = ''image/png'', av_content = ''x'' \<rparr>) (Map.empty, demo_state))
     = Inr ''http://192.168.10.1:8080/uploads/avatars/5_7.png''"
  by code_simp


section \<open>Parameters, sockets and terminals\<close>

text \<open>
  An id in a path reaches the service as it was printed. The ids of users are parsed with 32 bits:
  longer ones are refused without a call of the service.
\<close>

lemma path_parameter: "in_int i \<Longrightarrow> with_number (Atoi (Itoa i)) k = k i"
  by (simp add: with_number_def Atoi_Itoa)

lemma ParseInt32_Itoa: "in_int i \<Longrightarrow> ParseInt32 (Itoa i) = (if - (2 ^ 31) \<le> i \<and> i < 2 ^ 31 then Some i else None)"
  by (simp add: ParseInt32_def Atoi_Itoa)

lemma bad_user_id:
  assumes "ParseInt32 t = None"
  shows "ctrl_DeleteUser e t s = (s, Inl CodeBadRequest)" "ctrl_UpdateUser e now t req s = (s, Inl CodeBadRequest)" "ctrl_GetUser e t s = Inl CodeBadRequest"
  using assms by (simp_all add: ctrl_DeleteUser_def ctrl_UpdateUser_def ctrl_GetUser_def call_with_def with_number_def)

text \<open>The handlers of processes run the service or leave the state as it is.\<close>

lemma process_requests:
  "fst (ctrl_TerminateProcess e t s) = s \<or> (\<exists>pid. fst (ctrl_TerminateProcess e t s) = fst (TerminateProcess e pid s))"
  "fst (ctrl_RetainProcess e t s) = s \<or> (\<exists>pid. fst (ctrl_RetainProcess e t s) = fst (RetainProcess e pid s))"
  "fst (ctrl_CancelRetain e t s) = s \<or> (\<exists>pid. fst (ctrl_CancelRetain e t s) = fst (CancelRetain e pid s))"
  using call_with_cases [of "Atoi t" "TerminateProcess e" s] call_with_cases [of "Atoi t" "RetainProcess e" s]
    call_with_cases [of "Atoi t" "CancelRetain e" s] by (auto simp: ctrl_TerminateProcess_def ctrl_RetainProcess_def ctrl_CancelRetain_def)

text \<open>A terminal is opened in root mode exactly when the user has root access to terminals at that moment.\<close>

lemma terminal_mode:
  assumes "ctrl_WebSocketTerminal w uerr ferr d u upgrade ensure s = Inr (Some (s', c))"
  shows "\<exists>isRoot. HasSystemAccess w uerr ferr d u AccessTypeTerminal = Ok isRoot \<and> u \<noteq> 0 \<and> upgrade \<and> ensure = Ok () \<and>
    s' = closeTerminalSession s u isRoot True \<and> cn_sw c = None"
  using assms by (auto simp: ctrl_WebSocketTerminal_def open_connection_def split: if_splits sum.splits)

text \<open>A socket joins the pool only for a known user whose upgrade succeeded.\<close>

lemma sockets_joined:
  assumes "fst (ctrl_HandleWebSocket upgrade now ctxUser p) \<noteq> p \<or> fst (ctrl_WebSocketOverview upgrade now (GetUserID ctxUser) p) \<noteq> p"
  shows "upgrade \<and> ctxUser \<noteq> None"
  using assms by (auto simp: ctrl_HandleWebSocket_def ctrl_WebSocketOverview_def GetUserID_def split: option.splits if_splits)

end
