(* ===== verification/OperationLog.thy ===== *)
theory OperationLog
  imports Accounts "HOL-Library.Sublist"
begin

text \<open>
  The operation logs: internal/middleware/operationLog.go with its queue and its consumer, the
  replies of pkg/response, the repositories, services and handlers of the two logs, and the
  handlers Restart and Shutdown of internal/api/v1/admin/controller.go.

  The encoding and decoding of JSON, the operator LIKE and the failures of the database are
  parameters. A time is the number of nanoseconds since 1970; the zero time of Go is \<open>zero_time\<close>.
\<close>

definition zero_time :: int where "zero_time = - 62135596800000000000"

section \<open>Replies\<close>

record Response =
  rp_Http :: int
  rp_Code :: int
  rp_Message :: string

definition CodeSuccess :: int where "CodeSuccess = 0"

definition reply_Success :: "(int \<Rightarrow> string) \<Rightarrow> Response" where
  "reply_Success msg = \<lparr> rp_Http = 200, rp_Code = CodeSuccess, rp_Message = msg CodeSuccess \<rparr>"

definition reply_Error :: "int \<Rightarrow> string \<Rightarrow> Response" where
  "reply_Error code message = \<lparr> rp_Http = code, rp_Code = code, rp_Message = message \<rparr>"

definition reply_ErrorWithData :: "int \<Rightarrow> string \<Rightarrow> Response" where
  "reply_ErrorWithData code message = \<lparr> rp_Http = 200, rp_Code = code, rp_Message = message \<rparr>"

text \<open>The table of messages is \<open>msg\<close>; the message of a business error is its own.\<close>

definition reply_BizError :: "(int \<Rightarrow> string) \<Rightarrow> string \<Rightarrow> error \<Rightarrow> Response" where
  "reply_BizError msg own x = (case x of
     BizError code \<Rightarrow> \<lparr> rp_Http = 200, rp_Code = code, rp_Message = own \<rparr>
   | _ \<Rightarrow> reply_Error CodeInternalError (msg CodeInternalError))"

section \<open>The writer that keeps a copy\<close>

definition MaxBodyLogSize :: nat where "MaxBodyLogSize = 4 * 1024"

text \<open>The writer below is the one of gin: its status, and the bytes that reach the browser.\<close>

record bodyLogWriter =
  bw_body :: string
  bw_statusCode :: int
  bw_maxBodySize :: nat
  bw_inner :: int
  bw_sent :: string

definition new_writer :: bodyLogWriter where
  "new_writer = \<lparr> bw_body = [], bw_statusCode = 0, bw_maxBodySize = MaxBodyLogSize, bw_inner = 200, bw_sent = [] \<rparr>"

definition bw_Write :: "string \<Rightarrow> bodyLogWriter \<Rightarrow> bodyLogWriter" where
  "bw_Write b w =
     (let w1 = (if length (bw_body w) < bw_maxBodySize w then
                 (let remaining = bw_maxBodySize w - length (bw_body w)
                  in if length b > remaining then w\<lparr> bw_body := bw_body w @ take remaining b @ ''[truncated]'' \<rparr>
                     else w\<lparr> bw_body := bw_body w @ b \<rparr>)
               else w)
      in w1\<lparr> bw_sent := bw_sent w @ b \<rparr>)"

definition bw_WriteHeader :: "int \<Rightarrow> bodyLogWriter \<Rightarrow> bodyLogWriter" where
  "bw_WriteHeader code w = w\<lparr> bw_statusCode := code, bw_inner := (if code > 0 then code else bw_inner w) \<rparr>"

definition bw_Status :: "bodyLogWriter \<Rightarrow> int" where
  "bw_Status w = (if bw_statusCode w = 0 then bw_inner w else bw_statusCode w)"

text \<open>c.JSON writes the status, then the text at once.\<close>

definition c_JSON :: "(Response \<Rightarrow> string) \<Rightarrow> Response \<Rightarrow> bodyLogWriter \<Rightarrow> bodyLogWriter" where
  "c_JSON enc r w = bw_Write (enc r) (bw_WriteHeader (rp_Http r) w)"

section \<open>The entry of a request\<close>

record UserOperationLog =
  ol_ID :: int
  ol_Username :: string
  ol_Method :: string
  ol_RequestData :: string
  ol_ActionType :: string
  ol_Path :: string
  ol_Status :: int
  ol_ErrorMessage :: string
  ol_CreatedAt :: int
  ol_UpdatedAt :: int

text \<open>
  The request as the middleware sees it after the handlers: maps are lists of their pairs in the
  order of the iteration. \<open>lq_operation\<close> is None without a value in the context, and the inner None
  for a value that is not a string.
\<close>

record log_request =
  lq_Username :: string
  lq_Method :: string
  lq_Path :: string
  lq_operation :: "string option option"
  lq_Query :: "(string \<times> string list) list"
  lq_Params :: "(string \<times> string) list"
  lq_ContentType :: string
  lq_ContentLength :: int
  lq_PostForm :: "(string \<times> string list) list"
  lq_Files :: "(string \<times> string list) list option"
  lq_raw_body :: "string option"
  lq_Errors :: string
  lq_start :: int

definition pairs_of :: "(string \<times> string list) list \<Rightarrow> string list" where
  "pairs_of m = concat (map (\<lambda>(k, vs). map (\<lambda>v. k @ ''='' @ v) vs) m)"

definition body_content :: "((string \<times> string) list \<Rightarrow> string option) \<Rightarrow> log_request \<Rightarrow> string" where
  "body_content marshal rq =
     (if Contains_str (lq_ContentType rq) ''application/x-www-form-urlencoded'' \<or> Contains_str (lq_ContentType rq) ''multipart/form-data'' then
        (case lq_Files rq of None \<Rightarrow> []
         | Some fs \<Rightarrow> (let info = map (\<lambda>(k, ns). (k, hd ns)) (filter (\<lambda>(k, ns). ns \<noteq> []) fs)
             in if info = [] then [] else case marshal info of None \<Rightarrow> [] | Some j \<Rightarrow> j))
      else if Contains_str (lq_ContentType rq) ''application/json'' then
        (case lq_raw_body rq of None \<Rightarrow> []
         | Some str \<Rightarrow> (if length str > MaxBodyLogSize then take MaxBodyLogSize str @ ''...[truncated]'' else str))
      else if lq_ContentLength rq > 0 then ''[Not logged: Content-Type='' @ lq_ContentType rq @ '']''
      else [])"

definition buildRequestSnapshot :: "((string \<times> string) list \<Rightarrow> string option) \<Rightarrow> log_request \<Rightarrow> string" where
  "buildRequestSnapshot marshal rq =
     (let form = Contains_str (lq_ContentType rq) ''application/x-www-form-urlencoded'' \<or> Contains_str (lq_ContentType rq) ''multipart/form-data'';
          parts = pairs_of (lq_Query rq) @ map (\<lambda>(k, v). k @ ''='' @ v) (lq_Params rq) @ (if form then pairs_of (lq_PostForm rq) else []);
          result = Join ''&'' parts; content = body_content marshal rq
      in if content \<noteq> [] then (if result \<noteq> [] then result @ ''&body='' @ content else ''body='' @ content) else result)"

text \<open>\<open>dec\<close> decodes the code and the message of a text; a missing field is 0 or empty.\<close>

definition getBusinessStatus :: "(string \<Rightarrow> (int \<times> string) option) \<Rightarrow> string \<Rightarrow> int \<times> string" where
  "getBusinessStatus dec body = (if body = [] then (0, []) else case dec body of None \<Rightarrow> (0, []) | Some r \<Rightarrow> r)"

definition log_entry ::
  "((string \<times> string) list \<Rightarrow> string option) \<Rightarrow> (string \<Rightarrow> (int \<times> string) option) \<Rightarrow> log_request \<Rightarrow> bodyLogWriter \<Rightarrow> UserOperationLog option" where
  "log_entry marshal dec rq w =
     (if lq_Username rq = [] then None
      else case lq_operation rq of
        None \<Rightarrow> None
      | Some opType \<Rightarrow>
         (let (code, message) = getBusinessStatus dec (bw_body w)
          in Some \<lparr> ol_ID = 0, ol_Username = lq_Username rq, ol_Method = lq_Method rq, ol_RequestData = buildRequestSnapshot marshal rq,
               ol_ActionType = (case opType of None \<Rightarrow> [] | Some a \<Rightarrow> a), ol_Path = lq_Path rq,
               ol_Status = (if code = 0 then bw_Status w else code),
               ol_ErrorMessage = (if message = [] \<and> lq_Errors rq \<noteq> [] then lq_Errors rq else message),
               ol_CreatedAt = lq_start rq, ol_UpdatedAt = zero_time \<rparr>))"

section \<open>Capturing the body\<close>

definition maxCaptureSize :: nat where "maxCaptureSize = 64 * 1024"

text \<open>
  The body that the handlers read, and the copy for the log. \<open>readErr\<close> is the number of bytes that
  were read before an error; then the handlers get the rest.
\<close>

definition CaptureRawBody :: "string \<Rightarrow> string \<Rightarrow> int \<Rightarrow> nat option \<Rightarrow> string option \<Rightarrow> string option \<times> string option" where
  "CaptureRawBody method contentType contentLength readErr body =
     (if method = ''GET'' then (None, body)
      else if \<not> Contains_str contentType ''application/json'' then (None, body)
      else if contentLength = 0 then (None, body)
      else case body of
        None \<Rightarrow> (None, None)
      | Some b \<Rightarrow> (case readErr of
          None \<Rightarrow> (Some (take maxCaptureSize b), Some (take maxCaptureSize b))
        | Some n \<Rightarrow> (None, Some (drop n b))))"

section \<open>The queue\<close>

definition LogQueueSize :: nat where "LogQueueSize = 2000"

record LogManager =
  lm_logChan :: "UserOperationLog list"
  lm_rows :: "UserOperationLog list"

text \<open>The insertion of a row: the id is the next one, a status of 0 becomes the default of the column, a zero time the current one.\<close>

definition user_CreateLog :: "bool \<Rightarrow> int \<Rightarrow> UserOperationLog \<Rightarrow> UserOperationLog list \<Rightarrow> UserOperationLog list \<times> unit result" where
  "user_CreateLog err now l t = (if err then (t, Err DbError)
     else (t @ [l\<lparr> ol_ID := 1 + foldr max (map ol_ID t) 0, ol_Status := (if ol_Status l = 0 then 1 else ol_Status l),
        ol_CreatedAt := (if ol_CreatedAt l = zero_time then now else ol_CreatedAt l), ol_UpdatedAt := (if ol_UpdatedAt l = zero_time then now else ol_UpdatedAt l) \<rparr>], Ok ()))"

definition send_log :: "UserOperationLog \<Rightarrow> LogManager \<Rightarrow> LogManager" where
  "send_log l lm = (if length (lm_logChan lm) < LogQueueSize then lm\<lparr> lm_logChan := lm_logChan lm @ [l] \<rparr> else lm)"

definition UserOperationLogs ::
  "((string \<times> string) list \<Rightarrow> string option) \<Rightarrow> (string \<Rightarrow> (int \<times> string) option) \<Rightarrow> log_request \<Rightarrow> bodyLogWriter \<Rightarrow> LogManager \<Rightarrow> LogManager" where
  "UserOperationLogs marshal dec rq w lm = (case log_entry marshal dec rq w of None \<Rightarrow> lm | Some l \<Rightarrow> send_log l lm)"

text \<open>One turn of the consumer.\<close>

definition consume_log :: "bool \<Rightarrow> int \<Rightarrow> LogManager \<Rightarrow> LogManager" where
  "consume_log err now lm = (case lm_logChan lm of
     [] \<Rightarrow> lm
   | l # rest \<Rightarrow> lm\<lparr> lm_logChan := rest, lm_rows := fst (user_CreateLog err now l (lm_rows lm)) \<rparr>)"

text \<open>Close: the consumer empties the channel before it ends.\<close>

fun drain_log :: "bool list \<Rightarrow> int \<Rightarrow> nat \<Rightarrow> LogManager \<Rightarrow> LogManager" where
  "drain_log errs now 0 lm = lm"
| "drain_log errs now (Suc n) lm = drain_log (tl errs) now n (consume_log (errs \<noteq> [] \<and> hd errs) now lm)"

definition Close_logs :: "bool list \<Rightarrow> int \<Rightarrow> LogManager \<Rightarrow> LogManager" where
  "Close_logs errs now lm = drain_log errs now (length (lm_logChan lm)) lm"

section \<open>Reading the logs\<close>

definition newest_first :: "('r \<Rightarrow> int) \<Rightarrow> 'r list \<Rightarrow> 'r list" where
  "newest_first time t = sort_key (\<lambda>r. - time r) t"

text \<open>EXISTS in the ids of the newest 5000 rows.\<close>

definition among_latest :: "('r \<Rightarrow> int) \<Rightarrow> ('r \<Rightarrow> int) \<Rightarrow> 'r list \<Rightarrow> 'r \<Rightarrow> bool" where
  "among_latest rid time t r = (rid r \<in> rid ` set (take 5000 (newest_first time t)))"

definition user_log_matches ::
  "(string \<Rightarrow> string \<Rightarrow> bool) \<Rightarrow> string \<Rightarrow> string \<Rightarrow> string \<Rightarrow> int \<Rightarrow> int \<Rightarrow> UserOperationLog list \<Rightarrow> UserOperationLog \<Rightarrow> bool" where
  "user_log_matches like username actionType status start end' t r =
     (among_latest ol_ID ol_CreatedAt t r \<and>
      (actionType \<noteq> [] \<longrightarrow> like (''%'' @ actionType @ ''%'') (ol_ActionType r)) \<and>
      (username \<noteq> [] \<longrightarrow> like (''%'' @ username @ ''%'') (ol_Username r)) \<and>
      (if status = ''success'' then ol_Status r = 200 else if status = ''fail'' then ol_Status r \<noteq> 200 else True) \<and>
      (start \<noteq> zero_time \<longrightarrow> start \<le> ol_CreatedAt r) \<and> (end' \<noteq> zero_time \<longrightarrow> ol_CreatedAt r \<le> end'))"

definition FindUserLogs ::
  "(string \<Rightarrow> string \<Rightarrow> bool) \<Rightarrow> bool \<Rightarrow> bool \<Rightarrow> int \<Rightarrow> int \<Rightarrow> string \<Rightarrow> string \<Rightarrow> string \<Rightarrow> int \<Rightarrow> int \<Rightarrow>
   UserOperationLog list \<Rightarrow> (UserOperationLog list \<times> int) result" where
  "FindUserLogs like cerr ferr offset size' username actionType status start end' t =
     page_rows cerr ferr (user_log_matches like username actionType status start end' t) (newest_first ol_CreatedAt) offset size' t"

definition GetUserLogs ::
  "(string \<Rightarrow> string \<Rightarrow> bool) \<Rightarrow> bool \<Rightarrow> bool \<Rightarrow> int \<Rightarrow> int \<Rightarrow> string \<Rightarrow> string \<Rightarrow> string \<Rightarrow> int \<Rightarrow> int \<Rightarrow>
   UserOperationLog list \<Rightarrow> (UserOperationLog list \<times> int \<times> int \<times> int \<times> int) result" where
  "GetUserLogs like cerr ferr page size' username actionType status start end' t =
     (case FindUserLogs like cerr ferr (wrap64 ((page - 1) * size')) size' username actionType status start end' t of
        Inl _ \<Rightarrow> Err (BizError CodeInternalError)
      | Inr (logs, n) \<Rightarrow> Ok (logs, n, page, size', page_total n size'))"

record AdminOperationLog =
  al_ID :: int
  al_Username :: string
  al_ActionType :: string
  al_Status :: int
  al_CreatedAt :: int
  al_UpdatedAt :: int

definition admin_log_matches ::
  "(string \<Rightarrow> string \<Rightarrow> bool) \<Rightarrow> string \<Rightarrow> string \<Rightarrow> AdminOperationLog list \<Rightarrow> AdminOperationLog \<Rightarrow> bool" where
  "admin_log_matches like keyWord status t r =
     (among_latest al_ID al_CreatedAt t r \<and>
      (keyWord \<noteq> [] \<longrightarrow> like (''%'' @ keyWord @ ''%'') (al_Username r) \<or> like (''%'' @ keyWord @ ''%'') (al_ActionType r)) \<and>
      (if status = ''success'' then al_Status r = 1 else if status = ''fail'' then al_Status r \<noteq> 1 else True))"

definition FindAdminLogs ::
  "(string \<Rightarrow> string \<Rightarrow> bool) \<Rightarrow> bool \<Rightarrow> bool \<Rightarrow> int \<Rightarrow> int \<Rightarrow> string \<Rightarrow> string \<Rightarrow> AdminOperationLog list \<Rightarrow> (AdminOperationLog list \<times> int) result" where
  "FindAdminLogs like cerr ferr offset size' keyWord status t =
     page_rows cerr ferr (admin_log_matches like keyWord status t) (newest_first al_CreatedAt) offset size' t"

definition GetAdminLogs ::
  "(string \<Rightarrow> string \<Rightarrow> bool) \<Rightarrow> bool \<Rightarrow> bool \<Rightarrow> int \<Rightarrow> int \<Rightarrow> string \<Rightarrow> string \<Rightarrow> AdminOperationLog list \<Rightarrow>
   (AdminOperationLog list \<times> int \<times> int \<times> int \<times> int) result" where
  "GetAdminLogs like cerr ferr page size' keyWord status t =
     (case FindAdminLogs like cerr ferr (wrap64 ((page - 1) * size')) size' keyWord status t of
        Inl _ \<Rightarrow> Err (BizError CodeInternalError)
      | Inr (logs, n) \<Rightarrow> Ok (logs, n, page, size', page_total n size'))"

definition admin_CreateLog :: "bool \<Rightarrow> AdminOperationLog \<Rightarrow> AdminOperationLog list \<Rightarrow> AdminOperationLog list \<times> int result" where
  "admin_CreateLog err l t = (if err then (t, Err DbError)
     else (let i = 1 + foldr max (map al_ID t) 0
           in (t @ [l\<lparr> al_ID := i, al_Status := (if al_Status l = 0 then 1 else al_Status l) \<rparr>], Ok i)))"

text \<open>The number of rows that the statement changed; the database does not count rows that stay the same.\<close>

definition admin_UpdateStatus :: "bool \<Rightarrow> int \<Rightarrow> int \<Rightarrow> AdminOperationLog list \<Rightarrow> AdminOperationLog list \<times> int result" where
  "admin_UpdateStatus err now i t = (if err then (t, Err DbError)
     else (let t' = update_row al_ID i (\<lambda>r. r\<lparr> al_Status := 1, al_UpdatedAt := now \<rparr>) t
           in (t', Ok (int (length (filter (\<lambda>(a, b). a \<noteq> b) (zip t t')))))))"

section \<open>Dates\<close>

definition leap :: "int \<Rightarrow> bool" where
  "leap y \<longleftrightarrow> y mod 4 = 0 \<and> (y mod 100 \<noteq> 0 \<or> y mod 400 = 0)"

definition days_in :: "int \<Rightarrow> int \<Rightarrow> int" where
  "days_in m y = (if m = 2 then (if leap y then 29 else 28) else if m \<in> {4, 6, 9, 11} then 30 else 31)"

text \<open>The day number of a date, counted from 1970-01-01.\<close>

definition day_number :: "int \<Rightarrow> int \<Rightarrow> int \<Rightarrow> int" where
  "day_number y m d = 365 * (y - 1) + (y - 1) div 4 - (y - 1) div 100 + (y - 1) div 400 +
     sum_list (map (\<lambda>k. days_in k y) [1..m - 1]) + d - 1 - 719162"

text \<open>time.Parse with the layout 2006-01-02.\<close>

definition ParseDate :: "string \<Rightarrow> int option" where
  "ParseDate s =
     (if length s = 10 \<and> s ! 4 = CHR ''-'' \<and> s ! 7 = CHR ''-'' then
        (case (read_digits (take 4 s), read_digits (take 2 (drop 5 s)), read_digits (drop 8 s)) of
           (Some y, Some m, Some d) \<Rightarrow>
             (if 1 \<le> m \<and> m \<le> 12 \<and> 1 \<le> d \<and> int d \<le> days_in (int m) (int y)
              then Some (day_number (int y) (int m) (int d) * 86400000000000) else None)
         | _ \<Rightarrow> None)
      else None)"

section \<open>The handlers\<close>

text \<open>The answer is the code of an error response, or the data; the page and the size passed the validation of the request.\<close>

definition status_ok :: "string \<Rightarrow> bool" where
  "status_ok status = (status = [] \<or> status = ''success'' \<or> status = ''fail'')"

definition ctrl_GetAdminLogs ::
  "(string \<Rightarrow> string \<Rightarrow> bool) \<Rightarrow> bool \<Rightarrow> bool \<Rightarrow> int \<Rightarrow> int \<Rightarrow> string \<Rightarrow> string \<Rightarrow> AdminOperationLog list \<Rightarrow>
   int + (AdminOperationLog list \<times> int \<times> int \<times> int \<times> int)" where
  "ctrl_GetAdminLogs like cerr ferr page size' keyWord status t =
     (if \<not> (1 \<le> page \<and> 1 \<le> size' \<and> size' \<le> 100) then Inl CodeBadRequest
      else if \<not> status_ok status then Inl CodeBadRequest
      else case GetAdminLogs like cerr ferr page size' keyWord status t of
        Inl (BizError c) \<Rightarrow> Inl c | Inl _ \<Rightarrow> Inl CodeInternalError | Inr data \<Rightarrow> Inr data)"

definition ctrl_GetUserLogs ::
  "(string \<Rightarrow> string \<Rightarrow> bool) \<Rightarrow> bool \<Rightarrow> bool \<Rightarrow> int \<Rightarrow> int \<Rightarrow> string \<Rightarrow> string \<Rightarrow> string \<Rightarrow> string \<Rightarrow> string \<Rightarrow>
   UserOperationLog list \<Rightarrow> int + (UserOperationLog list \<times> int \<times> int \<times> int \<times> int)" where
  "ctrl_GetUserLogs like cerr ferr page size' username actionType status startTime endTime t =
     (if \<not> (1 \<le> page \<and> 1 \<le> size' \<and> size' \<le> 100) then Inl CodeBadRequest
      else case (if startTime \<noteq> [] then ParseDate startTime else Some zero_time) of
        None \<Rightarrow> Inl CodeBadRequest
      | Some start \<Rightarrow>
         (case (if endTime \<noteq> [] then map_option (\<lambda>d. d + 86399000000000) (ParseDate endTime) else Some zero_time) of
            None \<Rightarrow> Inl CodeBadRequest
          | Some end' \<Rightarrow>
             (if start \<noteq> zero_time \<and> end' \<noteq> zero_time \<and> start > end' then Inl CodeBadRequest
              else if \<not> status_ok status then Inl CodeBadRequest
              else case GetUserLogs like cerr ferr page size' username actionType status start end' t of
                Inl (BizError c) \<Rightarrow> Inl c | Inl _ \<Rightarrow> Inl CodeInternalError | Inr data \<Rightarrow> Inr data)))"

text \<open>
  Restart and Shutdown: \<open>action\<close> is the name of the action; \<open>started\<close> tells whether the command could
  be started. The answer is the code of the reply.
\<close>

definition power_off :: "string \<Rightarrow> bool \<Rightarrow> bool \<Rightarrow> bool \<Rightarrow> int \<Rightarrow> string \<Rightarrow> AdminOperationLog list \<Rightarrow> AdminOperationLog list \<times> int" where
  "power_off action err uerr started now username t =
     (case admin_CreateLog err \<lparr> al_ID = 0, al_Username = username, al_ActionType = action, al_Status = 1, al_CreatedAt = now, al_UpdatedAt = now \<rparr> t of
        (t1, Inl _) \<Rightarrow> (t1, CodeInternalError)
      | (t1, Inr i) \<Rightarrow>
         (if \<not> started then (case admin_UpdateStatus uerr now i t1 of (t2, _) \<Rightarrow> (t2, CodeInternalError))
          else (t1, CodeSuccess)))"

definition ctrl_Restart :: "bool \<Rightarrow> bool \<Rightarrow> bool \<Rightarrow> int \<Rightarrow> string \<Rightarrow> AdminOperationLog list \<Rightarrow> AdminOperationLog list \<times> int" where
  "ctrl_Restart = power_off [CHR 0xE9, CHR 0x87, CHR 0x8D, CHR 0xE5, CHR 0x90, CHR 0xAF, CHR 0xE7, CHR 0xB3, CHR 0xBB, CHR 0xE7, CHR 0xBB, CHR 0x9F]"

definition ctrl_Shutdown :: "bool \<Rightarrow> bool \<Rightarrow> bool \<Rightarrow> int \<Rightarrow> string \<Rightarrow> AdminOperationLog list \<Rightarrow> AdminOperationLog list \<times> int" where
  "ctrl_Shutdown = power_off [CHR 0xE5, CHR 0x85, CHR 0xB3, CHR 0xE9, CHR 0x97, CHR 0xAD, CHR 0xE7, CHR 0xB3, CHR 0xBB, CHR 0xE7, CHR 0xBB, CHR 0x9F]"


section \<open>Entries arrive in order\<close>

text \<open>What an entry says, apart from what the database fills in.\<close>

definition entry_text :: "UserOperationLog \<Rightarrow> string list" where
  "entry_text l = [ol_Username l, ol_Method l, ol_Path l, ol_ActionType l, ol_RequestData l, ol_ErrorMessage l]"

datatype log_event = Sent UserOperationLog | Consumed bool int

fun log_event_step :: "log_event \<Rightarrow> LogManager \<Rightarrow> LogManager" where
  "log_event_step (Sent l) lm = send_log l lm"
| "log_event_step (Consumed err now) lm = consume_log err now lm"

definition sent_entries :: "log_event list \<Rightarrow> UserOperationLog list" where
  "sent_entries evs = concat (map (\<lambda>ev. case ev of Sent l \<Rightarrow> [l] | Consumed _ _ \<Rightarrow> []) evs)"

definition logged :: "LogManager \<Rightarrow> string list list" where
  "logged lm = map entry_text (lm_rows lm @ lm_logChan lm)"

definition empty_logs :: LogManager where
  "empty_logs = \<lparr> lm_logChan = [], lm_rows = [] \<rparr>"

text \<open>An event loses nothing: the queue has room, the insertion succeeds.\<close>

fun lossless :: "LogManager \<Rightarrow> log_event \<Rightarrow> bool" where
  "lossless lm (Sent l) = (length (lm_logChan lm) < LogQueueSize)"
| "lossless lm (Consumed err now) = (\<not> err)"

lemma logged_send: "logged (send_log l lm) = (if length (lm_logChan lm) < LogQueueSize then logged lm @ [entry_text l] else logged lm)"
  by (simp add: send_log_def logged_def)

lemma logged_consume:
  "logged (consume_log err now lm) = (case lm_logChan lm of [] \<Rightarrow> logged lm
     | l # rest \<Rightarrow> map entry_text (lm_rows lm) @ (if err then [] else [entry_text l]) @ map entry_text rest)"
  by (auto simp: consume_log_def logged_def user_CreateLog_def entry_text_def split: list.split)

lemma subseq_consume: "subseq (logged (consume_log err now lm)) (logged lm)"
  unfolding logged_consume by (cases "lm_logChan lm") (auto simp: logged_def intro: list_emb_append_mono)

lemma logged_consume_ok: "logged (consume_log False now lm) = logged lm"
  unfolding logged_consume by (cases "lm_logChan lm") (simp_all add: logged_def)

lemma sent_entries_simps [simp]:
  "sent_entries [] = []" "sent_entries (evs @ [Sent l]) = sent_entries evs @ [l]" "sent_entries (evs @ [Consumed err now]) = sent_entries evs"
  by (simp_all add: sent_entries_def)

lemma log_events_subseq: "subseq (logged (fold log_event_step evs empty_logs)) (map entry_text (sent_entries evs))"
proof (induction evs rule: rev_induct)
  case (snoc ev evs)
  then show ?case
  proof (cases ev)
    case (Sent l)
    then show ?thesis using snoc list_emb_append_mono [of "(=)" _ _ "[entry_text l]" "[entry_text l]"]
      by (auto simp: logged_send subseq_order.trans [OF _ list_emb_prefix])
  next
    case (Consumed err now)
    then show ?thesis using snoc subseq_order.trans [OF subseq_consume] by simp
  qed
qed (simp add: logged_def empty_logs_def)

lemma log_events_lossless:
  assumes "\<forall>i < length evs. lossless (fold log_event_step (take i evs) empty_logs) (evs ! i)"
  shows "logged (fold log_event_step evs empty_logs) = map entry_text (sent_entries evs)"
  using assms
proof (induction evs rule: rev_induct)
  case (snoc ev evs)
  have "lossless (fold log_event_step evs empty_logs) ev" using spec [OF snoc.prems, of "length evs"] by simp
  moreover have "logged (fold log_event_step evs empty_logs) = map entry_text (sent_entries evs)"
  proof (rule snoc.IH, intro allI impI)
    fix i assume "i < length evs"
    then show "lossless (fold log_event_step (take i evs) empty_logs) (evs ! i)" using spec [OF snoc.prems, of i] by (simp add: nth_append)
  qed
  ultimately show ?case by (cases ev) (auto simp: logged_send logged_consume_ok)
qed (simp add: logged_def empty_logs_def)

lemma chan_bound: "length (lm_logChan (fold log_event_step evs empty_logs)) \<le> LogQueueSize"
proof (induction evs rule: rev_induct)
  case (snoc ev evs)
  then show ?case by (cases ev) (auto simp: send_log_def consume_log_def split: list.split)
qed (simp add: empty_logs_def)

lemma drain_log_empties:
  "length (lm_logChan lm) = n \<Longrightarrow> lm_logChan (drain_log errs now n lm) = [] \<and> (errs = [] \<longrightarrow> map entry_text (lm_rows (drain_log errs now n lm)) = logged lm)"
proof (induction n arbitrary: errs lm)
  case (Suc n)
  let ?lm = "consume_log (errs \<noteq> [] \<and> hd errs) now lm"
  have "length (lm_logChan ?lm) = n" using Suc.prems by (cases "lm_logChan lm") (simp_all add: consume_log_def)
  then have "lm_logChan (drain_log (tl errs) now n ?lm) = []" "tl errs = [] \<longrightarrow> map entry_text (lm_rows (drain_log (tl errs) now n ?lm)) = logged ?lm"
    using Suc.IH [of ?lm "tl errs"] by blast+
  then show ?case by (auto simp: logged_consume_ok)
qed (simp add: logged_def)

definition demo_log_request :: log_request where
  "demo_log_request = \<lparr> lq_Username = ''bob'', lq_Method = ''POST'', lq_Path = ''/jobs'', lq_operation = Some (Some ''submit''),
     lq_Query = [(''id'', [''4''])], lq_Params = [], lq_ContentType = [], lq_ContentLength = 0, lq_PostForm = [], lq_Files = None,
     lq_raw_body = None, lq_Errors = [], lq_start = 5 \<rparr>"

text \<open>
  C31: The operation log keeps the order of the requests. Whatever the consumer and the database
  do, the queue has at most 2000 entries, and the stored entries followed by the waiting ones are
  a subsequence of the entries sent; when no insertion fails and no entry is sent to a full queue
  they are exactly the entries sent, and closing the manager stores all of them.
\<close>

theorem operation_log_in_order:
  "let lm = fold log_event_step evs empty_logs in
     length (lm_logChan lm) \<le> LogQueueSize \<and> subseq (logged lm) (map entry_text (sent_entries evs)) \<and>
     lm_logChan (Close_logs errs now lm) = [] \<and>
     ((\<forall>i < length evs. lossless (fold log_event_step (take i evs) empty_logs) (evs ! i)) \<longrightarrow>
        map entry_text (lm_rows (Close_logs [] now lm)) = map entry_text (sent_entries evs))"
  using chan_bound [of evs] log_events_subseq [of evs] log_events_lossless [of evs]
    drain_log_empties [of "fold log_event_step evs empty_logs", OF refl]
  by (simp add: Close_logs_def Let_def)

theorem operation_log_in_order_witness:
  "let evs = [Sent (the (log_entry (\<lambda>_. None) (\<lambda>_. None) demo_log_request new_writer)), Consumed False 7] in
     map entry_text (lm_rows (Close_logs [] 9 (fold log_event_step evs empty_logs))) = [[''bob'', ''POST'', ''/jobs'', ''submit'', ''id=4'', []]]"
proof -
  let ?evs = "[Sent (the (log_entry (\<lambda>_. None) (\<lambda>_. None) demo_log_request new_writer)), Consumed False 7]"
  have "\<forall>i < length ?evs. lossless (fold log_event_step (take i ?evs) empty_logs) (?evs ! i)"
    by (auto simp: less_Suc_eq LogQueueSize_def empty_logs_def)
  then have "map entry_text (lm_rows (Close_logs [] 9 (fold log_event_step ?evs empty_logs))) = map entry_text (sent_entries ?evs)"
    using operation_log_in_order [of ?evs "[]" 9] by (simp add: Let_def)
  moreover have "map entry_text (sent_entries ?evs) = [[''bob'', ''POST'', ''/jobs'', ''submit'', ''id=4'', []]]" by code_simp
  ultimately show ?thesis by (simp add: Let_def)
qed

section \<open>What an entry records\<close>

lemma writes_sent: "bw_sent (fold bw_Write bs w) = bw_sent w @ concat bs"
  by (induction bs arbitrary: w) (simp_all add: bw_Write_def Let_def)

lemma bw_Write_body:
  "bw_maxBodySize (bw_Write b w) = bw_maxBodySize w"
  "length (bw_body w) + length b \<le> bw_maxBodySize w \<Longrightarrow> b \<noteq> [] \<Longrightarrow> bw_body (bw_Write b w) = bw_body w @ b"
  "length (bw_body w) \<le> bw_maxBodySize w + 11 \<Longrightarrow> length (bw_body (bw_Write b w)) \<le> bw_maxBodySize w + 11"
  by (cases b; auto simp: bw_Write_def Let_def)+

lemma bw_Write_Nil: "bw_body (bw_Write [] w) = bw_body w"
  by (simp add: bw_Write_def Let_def)

lemma writes_body:
  "length (bw_body w) + length (concat bs) \<le> bw_maxBodySize w \<Longrightarrow> bw_body (fold bw_Write bs w) = bw_body w @ concat bs"
proof (induction bs arbitrary: w)
  case (Cons b bs)
  have "bw_body (bw_Write b w) = bw_body w @ b" using Cons.prems by (cases "b = []") (simp_all add: bw_Write_body bw_Write_Nil)
  then show ?case using Cons.IH [of "bw_Write b w"] Cons.prems by (simp add: bw_Write_body)
qed simp

lemma writes_bounded: "length (bw_body w) \<le> bw_maxBodySize w + 11 \<Longrightarrow> length (bw_body (fold bw_Write bs w)) \<le> bw_maxBodySize w + 11"
proof (induction bs arbitrary: w)
  case (Cons b bs)
  then show ?case using Cons.IH [of "bw_Write b w"] by (simp add: bw_Write_body)
qed simp

text \<open>
  A request is logged with what it was answered. The copying writer passes every byte on to
  the browser, and keeps at most 4107 bytes; when a logged-in user's request with an operation
  name is answered by a reply of at most 4096 bytes, the entry in the queue has the user, the
  path, the operation and the code of the reply, also when the HTTP status says otherwise; a success,
  whose code is 0, is logged with its HTTP status.
\<close>

theorem reply_is_logged:
  assumes dec: "dec (enc r) = Some (rp_Code r, rp_Message r)" "length (enc r) \<le> MaxBodyLogSize" "enc r \<noteq> []" "0 < rp_Http r"
    and rq: "lq_Username rq \<noteq> []" "lq_operation rq = Some (Some action)" and room: "length (lm_logChan lm) < LogQueueSize"
  shows "bw_sent (fold bw_Write bs new_writer) = concat bs \<and> length (bw_body (fold bw_Write bs new_writer)) \<le> 4107 \<and>
    bw_sent (c_JSON enc r new_writer) = enc r \<and>
    (\<exists>l. lm_logChan (UserOperationLogs marshal dec rq (c_JSON enc r new_writer) lm) = lm_logChan lm @ [l] \<and>
       ol_Username l = lq_Username rq \<and> ol_Path l = lq_Path rq \<and> ol_Method l = lq_Method rq \<and> ol_ActionType l = action \<and>
       ol_Status l = (if rp_Code r = CodeSuccess then rp_Http r else rp_Code r) \<and> (rp_Message r \<noteq> [] \<longrightarrow> ol_ErrorMessage l = rp_Message r) \<and> ol_CreatedAt l = lq_start rq)"
proof -
  let ?w = "c_JSON enc r new_writer"
  have n: "bw_body new_writer = []" "bw_sent new_writer = []" "bw_maxBodySize new_writer = MaxBodyLogSize" by (simp_all add: new_writer_def)
  have h: "bw_body (bw_WriteHeader c w) = bw_body w" "bw_sent (bw_WriteHeader c w) = bw_sent w" "bw_maxBodySize (bw_WriteHeader c w) = bw_maxBodySize w" for c w
    by (simp_all add: bw_WriteHeader_def)
  have body: "bw_body ?w = enc r" "bw_sent ?w = enc r"
    using writes_body [of "bw_WriteHeader (rp_Http r) new_writer" "[enc r]"] writes_sent [of "[enc r]" "bw_WriteHeader (rp_Http r) new_writer"] dec n h
    by (simp_all add: c_JSON_def)
  have status: "bw_Status ?w = rp_Http r" using dec(4) by (simp add: c_JSON_def bw_Write_def bw_WriteHeader_def bw_Status_def Let_def)
  have "\<exists>l. log_entry marshal dec rq ?w = Some l \<and> ol_Username l = lq_Username rq \<and> ol_Path l = lq_Path rq \<and> ol_Method l = lq_Method rq \<and>
      ol_ActionType l = action \<and> ol_Status l = (if rp_Code r = CodeSuccess then rp_Http r else rp_Code r) \<and> (rp_Message r \<noteq> [] \<longrightarrow> ol_ErrorMessage l = rp_Message r) \<and> ol_CreatedAt l = lq_start rq"
    using dec rq status by (simp add: log_entry_def getBusinessStatus_def body CodeSuccess_def)
  then show ?thesis using writes_sent [of bs new_writer] writes_bounded [of new_writer bs] body(2) room n
    by (auto simp: UserOperationLogs_def send_log_def MaxBodyLogSize_def)
qed

section \<open>Pages of the log\<close>

lemma page_total_covers:
  assumes "0 < sz" "0 \<le> n"
  shows "0 \<le> page_total n sz" "n \<le> page_total n sz * sz" "(page_total n sz - 1) * sz \<le> n"
proof -
  have q: "sz * ((- n) div sz) = - n - (- n) mod sz" by (simp add: minus_mod_eq_mult_div)
  have m: "0 \<le> (- n) mod sz" "(- n) mod sz < sz" using assms(1) by simp_all
  have p: "page_total n sz * sz = n + (- n) mod sz" using q by (simp add: page_total_def mult.commute)
  show "n \<le> page_total n sz * sz" using p m by linarith
  show "(page_total n sz - 1) * sz \<le> n" using p m by (simp add: left_diff_distrib)
  show "0 \<le> page_total n sz" using assms by (simp add: page_total_def div_nonpos_pos_le0)
qed

lemma limit_offset_page:
  assumes "0 < sz" "in_int ((int k - 1) * sz)" "1 \<le> k"
  shows "limit_offset sz (wrap64 ((int k - 1) * sz)) xs = take (nat sz) (drop ((k - 1) * nat sz) xs)"
proof -
  have "nat ((int k - 1) * sz) = (k - 1) * nat sz"
    using assms by (metis nat_diff_distrib' nat_int nat_mult_distrib nat_one_as_int of_nat_0_le_iff of_nat_1 of_nat_diff)
  then show ?thesis using assms by (simp add: limit_offset_def wrap64_id)
qed

definition user_log_page ::
  "(string \<Rightarrow> string \<Rightarrow> bool) \<Rightarrow> int \<Rightarrow> string \<Rightarrow> string \<Rightarrow> string \<Rightarrow> string \<Rightarrow> string \<Rightarrow> UserOperationLog list \<Rightarrow> nat \<Rightarrow> UserOperationLog list" where
  "user_log_page like sz username actionType status startTime endTime t k =
     (case ctrl_GetUserLogs like False False (int k) sz username actionType status startTime endTime t of Inl _ \<Rightarrow> [] | Inr (logs, _) \<Rightarrow> logs)"

lemma sorted_newest_first: "sorted (map (\<lambda>r. - time r) (newest_first time t))"
  by (simp add: newest_first_def)

text \<open>
  Paging through the operation log shows every matching entry once, the newest first. For
  a request that is accepted, the pages 1 to the reported number of pages are one after the other
  exactly the matching rows among the newest 5000, sorted by time, and the reported total is their number.
\<close>

theorem log_pages_partition:
  assumes "ctrl_GetUserLogs like False False 1 sz username actionType status startTime endTime t = Inr (logs, n, p, sz', pages)"
    and small: "int (length t) + sz \<le> int_max"
  shows "\<exists>start end'. (startTime = [] \<longrightarrow> start = zero_time) \<and> (endTime = [] \<longrightarrow> end' = zero_time) \<and>
    concat (map (user_log_page like sz username actionType status startTime endTime t) [1..<nat pages + 1]) =
      newest_first ol_CreatedAt (filter (user_log_matches like username actionType status start end' t) t) \<and>
    n = int (length (filter (user_log_matches like username actionType status start end' t) t))"
proof -
  obtain start end' where se: "(if startTime \<noteq> [] then ParseDate startTime else Some zero_time) = Some start"
    "(if endTime \<noteq> [] then map_option (\<lambda>d. d + 86399000000000) (ParseDate endTime) else Some zero_time) = Some end'"
    using assms(1) by (auto simp: ctrl_GetUserLogs_def split: if_splits option.splits)
  have sz: "1 \<le> sz" "sz \<le> 100" using assms(1) by (auto simp: ctrl_GetUserLogs_def split: if_splits)
  have ok: "\<not> (start \<noteq> zero_time \<and> end' \<noteq> zero_time \<and> start > end')" "status_ok status"
    using assms(1) se by (auto simp: ctrl_GetUserLogs_def split: if_splits option.splits)
  let ?P = "user_log_matches like username actionType status start end' t"
  let ?rows = "newest_first ol_CreatedAt (filter ?P t)"
  have call: "ctrl_GetUserLogs like False False k sz username actionType status startTime endTime t =
      Inr (limit_offset sz (wrap64 ((k - 1) * sz)) ?rows, count_rows ?P t, k, sz, page_total (count_rows ?P t) sz)" if "1 \<le> k" for k
    using that sz ok se unfolding ctrl_GetUserLogs_def by (simp add: GetUserLogs_def FindUserLogs_def page_rows_def)
  then have n: "n = count_rows ?P t" "pages = page_total n sz" using assms(1) by auto
  have len: "length ?rows = nat n" "0 \<le> n" "n \<le> int (length t)" by (simp_all add: n count_rows_def newest_first_def)
  have cover: "0 \<le> pages" "n \<le> pages * sz" using page_total_covers [of sz n] sz len n(2) by auto
  have below: "(pages - 1) * sz \<le> n" using page_total_covers(3) [of sz n] sz len n(2) by auto
  have page: "user_log_page like sz username actionType status startTime endTime t k = take (nat sz) (drop ((k - 1) * nat sz) ?rows)"
    if "k \<in> set [1..<nat pages + 1]" for k
  proof -
    have k: "1 \<le> k" "int k \<le> pages" using that cover by auto
    have "(int k - 1) * sz \<le> (pages - 1) * sz" using k sz by (intro mult_right_mono) auto
    then have "(int k - 1) * sz \<le> int_max" using below small len(3) sz by linarith
    moreover have "0 \<le> (int k - 1) * sz" using k sz by simp
    ultimately have "in_int ((int k - 1) * sz)" by (simp add: in_int_def int_min_def)
    then show ?thesis using call [of "int k"] limit_offset_page [of sz k ?rows] k(1) sz by (simp add: user_log_page_def)
  qed
  have "concat (map (user_log_page like sz username actionType status startTime endTime t) [1..<nat pages + 1]) =
      concat (map (\<lambda>k. take (nat sz) (drop ((k - 1) * nat sz) ?rows)) [1..<nat pages + 1])"
    using page by (intro arg_cong [of _ _ concat] map_cong) auto
  also have "\<dots> = take (nat pages * nat sz) ?rows" using sz by (intro pages_concat) simp
  also have "\<dots> = ?rows"
  proof -
    have "nat n \<le> nat pages * nat sz" using cover sz nat_mult_distrib [of pages sz] nat_mono [of n "pages * sz"] by simp
    then show ?thesis using len(1) by simp
  qed
  finally have "concat (map (user_log_page like sz username actionType status startTime endTime t) [1..<nat pages + 1]) = ?rows" .
  then show ?thesis using n se by (intro exI [of _ start] exI [of _ end']) (auto simp: count_rows_def)
qed

section \<open>Where the logs do not say what happened\<close>

text \<open>
  A restart or shutdown that could not be started is logged as a success: the row is created with
  status 1, and on a failure UpdateStatus sets the status to 1 again. So the list of failed
  operations of administrators is always empty.
\<close>

lemma power_off_rows:
  assumes "\<forall>r \<in> set t. al_Status r = 1"
  shows "\<forall>r \<in> set (fst (power_off action err uerr started now username t)). al_Status r = 1"
  using assms by (auto simp: power_off_def admin_CreateLog_def admin_UpdateStatus_def update_row_def Let_def split: prod.splits)

lemma failed_restart_is_success:
  assumes "\<forall>r \<in> set t. al_Status r = 1" "\<not> cerr" "\<not> ferr"
  shows "FindAdminLogs like cerr ferr off sz kw ''fail'' (fst (ctrl_Restart err uerr False now username t)) = Ok ([], 0) \<and>
    FindAdminLogs like cerr ferr off sz kw ''fail'' (fst (ctrl_Shutdown err uerr False now username t)) = Ok ([], 0)"
proof -
  have "FindAdminLogs like cerr ferr off sz kw ''fail'' u = Ok ([], 0)" if "\<forall>r \<in> set u. al_Status r = 1" for u
  proof -
    have "filter (admin_log_matches like kw ''fail'' u) u = []" using that by (auto simp: filter_empty_conv admin_log_matches_def)
    then show ?thesis using assms(2,3) by (simp add: FindAdminLogs_def page_rows_def count_rows_def newest_first_def limit_offset_def)
  qed
  then show ?thesis using power_off_rows [OF assms(1)] by (simp add: ctrl_Restart_def ctrl_Shutdown_def)
qed

text \<open>
  A request body in JSON of more than 64 KB is cut for the handlers, not only for the log; up to
  that size the handlers and the log get all of it.
\<close>

lemma capture_exact:
  assumes "method \<noteq> ''GET''" "Contains_str ct ''application/json''" "len \<noteq> 0"
  shows "length b \<le> maxCaptureSize \<Longrightarrow> CaptureRawBody method ct len None (Some b) = (Some b, Some b)"
    and "length b > maxCaptureSize \<Longrightarrow> snd (CaptureRawBody method ct len None (Some b)) \<noteq> Some b"
proof -
  show "length b \<le> maxCaptureSize \<Longrightarrow> CaptureRawBody method ct len None (Some b) = (Some b, Some b)" using assms by (simp add: CaptureRawBody_def)
  assume l: "length b > maxCaptureSize"
  then have "length (take maxCaptureSize b) < length b" by simp
  then have "take maxCaptureSize b \<noteq> b" by (metis nat_neq_iff)
  then show "snd (CaptureRawBody method ct len None (Some b)) \<noteq> Some b" using assms by (simp add: CaptureRawBody_def)
qed

text \<open>The last second of the day of the end date is not part of the range.\<close>

lemma last_second_missed:
  "user_log_matches (\<lambda>_ _. True) [] [] [] zero_time (the (ParseDate ''2024-02-29'') + 86399000000000) [l] l \<longleftrightarrow>
     ol_CreatedAt l \<le> 1709251199000000000"
proof -
  have "the (ParseDate ''2024-02-29'') = 1709164800000000000" by code_simp
  then show ?thesis by (simp add: user_log_matches_def among_latest_def newest_first_def zero_time_def)
qed

end
