(* ===== verification/JobHandlers.thy ===== *)
theory JobHandlers
  imports Handlers JobService Exec OperationLog
begin

text \<open>
  The handlers of internal/api/v1/job/controller.go and internal/api/v1/queue/controller.go that
  read, the submission handler, and the dates of their filters (pkg/utils/time.go).

  The time zone of the machine is a parameter: the instant that time.Date gives for midnight of a day,
  and the day of an instant. Days are counted from 1970-01-01.
\<close>

section \<open>Dates\<close>

definition is_leap :: "int \<Rightarrow> bool" where
  "is_leap y = (y mod 4 = 0 \<and> (y mod 100 \<noteq> 0 \<or> y mod 400 = 0))"

definition daysIn :: "int \<Rightarrow> int \<Rightarrow> int" where
  "daysIn m y = (if m = 2 then (if is_leap y then 29 else 28) else if m \<in> {4, 6, 9, 11} then 30 else 31)"

definition day_number :: "int \<Rightarrow> int \<Rightarrow> int \<Rightarrow> int" where
  "day_number y m d =
     (let y' = (if m \<le> 2 then y - 1 else y); era = y' div 400; yoe = y' - era * 400;
          doy = (153 * (if m > 2 then m - 3 else m + 9) + 2) div 5 + d - 1
      in era * 146097 + yoe * 365 + yoe div 4 - yoe div 100 + doy - 719468)"

text \<open>time.Parse with the layout 2006-01-02: all digits are required, and the date has to exist.\<close>

definition ParseDate :: "string \<Rightarrow> int option" where
  "ParseDate s =
     (if length s = 10 \<and> list_all is_digit (take 4 s) \<and> s ! 4 = CHR ''-'' \<and> list_all is_digit (take 2 (drop 5 s)) \<and>
         s ! 7 = CHR ''-'' \<and> list_all is_digit (drop 8 s)
      then (let y = int (read_nat (take 4 s)); m = int (read_nat (take 2 (drop 5 s))); d = int (read_nat (drop 8 s))
            in if 1 \<le> m \<and> m \<le> 12 \<and> 1 \<le> d \<and> d \<le> daysIn m y then Some (day_number y m d) else None)
      else None)"

record zone =
  zn_Date :: "int \<Rightarrow> int"
  zn_day :: "int \<Rightarrow> int"

text \<open>The zero time, also of an empty text, means no filter for the repository.\<close>

definition time_filter :: "int \<Rightarrow> int option" where
  "time_filter t = (if t = zero_time then None else Some t)"

definition ParseStartDate :: "zone \<Rightarrow> string \<Rightarrow> int option" where
  "ParseStartDate z s = (if s = [] then Some zero_time
     else map_option (\<lambda>n. let t = zn_Date z n in zn_Date z (zn_day z t)) (ParseDate s))"

definition ParseEndDate :: "zone \<Rightarrow> string \<Rightarrow> int option" where
  "ParseEndDate z s = (if s = [] then Some zero_time
     else map_option (\<lambda>n. let t = zn_Date z n in zn_Date z (zn_day z t + 1) - 1) (ParseDate s))"

section \<open>Handlers\<close>

record job_query =
  jq_req :: JobListRequest
  jq_StartTime :: string
  jq_EndTime :: string

definition handleJobList ::
  "zone \<Rightarrow> (JobListRequest \<Rightarrow> int option \<Rightarrow> int option \<Rightarrow> int \<Rightarrow> (JobResponse list \<times> int \<times> int \<times> int) result) \<Rightarrow>
   (JobResponse list \<Rightarrow> JobResponse list result) \<Rightarrow> int \<Rightarrow> job_query option \<Rightarrow> int + (JobResponse list \<times> int \<times> int \<times> int \<times> int)" where
  "handleJobList z fetch enrich userID q = (case q of
     None \<Rightarrow> Inl CodeBadRequest
   | Some j \<Rightarrow> (case ParseStartDate z (jq_StartTime j) of
       None \<Rightarrow> Inl CodeBadRequest
     | Some startTime \<Rightarrow> (case ParseEndDate z (jq_EndTime j) of
         None \<Rightarrow> Inl CodeBadRequest
       | Some endTime \<Rightarrow> (case fetch (jq_req j) (time_filter startTime) (time_filter endTime) userID of
           Inl _ \<Rightarrow> Inl CodeInternalError
         | Inr (rows, n, page, pageSize) \<Rightarrow> (case enrich rows of
             Inl _ \<Rightarrow> Inl 500
           | Inr rows' \<Rightarrow> Inr (NewPageResponse page pageSize (rows', n)))))))"

definition ctrl_GetJobsList where
  "ctrl_GetJobsList z like e cs err now s = handleJobList z (GetJobList like e cs (qjobs s)) (EnrichJobList err now s)"

definition ctrl_GetWaitJobsList where
  "ctrl_GetWaitJobsList z like e cs err now s = handleJobList z (GetWaitJobList like e cs (qjobs s)) (EnrichJobList err now s)"

definition ctrl_SubmitJob :: "submit_env \<Rightarrow> int \<Rightarrow> int \<Rightarrow> SubmitJobRequest option \<Rightarrow> queue_sys \<Rightarrow> queue_sys \<times> (int + Job)" where
  "ctrl_SubmitJob e now userID req = call_with req (\<lambda>r s. SubmitJob e now s r userID)"

definition internal_or :: "'a result \<Rightarrow> int + 'a" where
  "internal_or r = (case r of Inl _ \<Rightarrow> Inl CodeInternalError | Inr x \<Rightarrow> Inr x)"

definition ctrl_GetStats :: "(nat \<Rightarrow> bool) \<Rightarrow> job_table \<Rightarrow> int + JobStatsResponse" where
  "ctrl_GetStats err t = internal_or (GetStats err t)"

definition ctrl_GetGpus :: "bool \<Rightarrow> bool \<Rightarrow> card_table \<Rightarrow> int + (GpuSpec list \<times> int)" where
  "ctrl_GetGpus err_list err_count t = internal_or (GetGpus err_list err_count t)"

definition ctrl_GetCondaEnvs :: "exec_calls \<Rightarrow> (nat \<Rightarrow> bool) \<Rightarrow> int \<Rightarrow> accounts \<Rightarrow> accounts \<times> (int + string list)" where
  "ctrl_GetCondaEnvs e ferr userID s = (case ListCondaEnvs e ferr userID s of (s1, r) \<Rightarrow> (s1, internal_or r))"

record queue_query =
  qq_req :: QueueListRequest
  qq_StartTime :: string
  qq_EndTime :: string

definition ctrl_GetQueue ::
  "zone \<Rightarrow> (string \<Rightarrow> string \<Rightarrow> bool) \<Rightarrow> (int \<Rightarrow> string) \<Rightarrow> page_env \<Rightarrow> int \<Rightarrow> queue_sys \<Rightarrow> queue_query option \<Rightarrow>
   int + (QueueJobResponse list \<times> int \<times> int \<times> int \<times> int)" where
  "ctrl_GetQueue z like uname e now s q = (case q of
     None \<Rightarrow> Inl CodeBadRequest
   | Some j \<Rightarrow> (case ParseStartDate z (qq_StartTime j) of
       None \<Rightarrow> Inl CodeBadRequest
     | Some startTime \<Rightarrow> (case ParseEndDate z (qq_EndTime j) of
         None \<Rightarrow> Inl CodeBadRequest
       | Some endTime \<Rightarrow> (case GetQueuePage like uname e now s (qq_req j) (time_filter startTime) (time_filter endTime) of
           Inl _ \<Rightarrow> Inl CodeInternalError
         | Inr (rows, n, page, pageSize) \<Rightarrow> Inr (NewPageResponse page pageSize (rows, n))))))"

section \<open>The calendar\<close>

lemma div_eq_iff:
  fixes d :: int
  assumes "0 < d"
  shows "t div d = n \<longleftrightarrow> n * d \<le> t \<and> t < (n + 1) * d"
proof
  assume "t div d = n"
  then have "n * d + t mod d = t" using div_mult_mod_eq [of t d] by simp
  moreover have "0 \<le> t mod d" "t mod d < d" using assms by simp_all
  ultimately show "n * d \<le> t \<and> t < (n + 1) * d" unfolding distrib_right by linarith
next
  assume "n * d \<le> t \<and> t < (n + 1) * d"
  then show "t div d = n" using assms by (intro int_div_pos_eq [of t d n "t - d * n"]) (simp_all add: algebra_simps)
qed

lemma year_start: "(y div 400) * 146097 + (y - (y div 400) * 400) * 365 + (y - (y div 400) * 400) div 4 - (y - (y div 400) * 400) div 100
  = 365 * y + y div 4 - y div 100 + y div (400::int)"
proof -
  define q r where "q = y div 400" and "r = y - (y div 400) * 400"
  then have "y = r + 4 * (100 * q)" "y = r + 100 * (4 * q)" by simp_all
  then have "y div 4 = r div 4 + 100 * q" "y div 100 = r div 100 + 4 * q"
    using div_mult_self2 [of 4 r "100 * q"] div_mult_self2 [of 100 r "4 * q"] by simp_all
  then show ?thesis unfolding q_def [symmetric] r_def [symmetric] using \<open>y = r + 4 * (100 * q)\<close> by simp
qed

lemma div_pred: "0 < k \<Longrightarrow> y div k - (y - 1) div k = (if k dvd y then 1 else 0)" for y k :: int
proof (cases "k dvd y")
  case True
  assume k: "0 < k"
  from True obtain n where y: "y = n * k" by (metis dvdE mult.commute)
  have "y div k = n" "(y - 1) div k = n - 1" using k unfolding div_eq_iff [OF k] y by (simp_all add: algebra_simps)
  then show ?thesis using True by simp
next
  case False
  assume k: "0 < k"
  have "0 < y mod k" using False k by (simp add: dvd_eq_mod_eq_0 order_less_le)
  then have "(y - 1) div k = y div k" 
    using k div_mult_mod_eq [of y k] pos_mod_bound [of k y] unfolding div_eq_iff [OF k] distrib_right by linarith
  then show ?thesis using False by simp
qed

lemma leap_step: "(y::int) div 4 - (y - 1) div 4 - (y div 100 - (y - 1) div 100) + (y div 400 - (y - 1) div 400) = (if is_leap y then 1 else 0)"
proof -
  have "(400::int) dvd y \<Longrightarrow> 100 dvd y" by (rule dvd_trans [of 100 400]) simp_all
  moreover have "(100::int) dvd y \<Longrightarrow> 4 dvd y" by (rule dvd_trans [of 4 100]) simp_all
  moreover have "is_leap y = (4 dvd y \<and> (\<not> 100 dvd y \<or> 400 dvd y))" by (simp only: is_leap_def dvd_eq_mod_eq_0)
  moreover have "y div 4 - (y - 1) div 4 = (if 4 dvd y then 1 else 0)" "y div 100 - (y - 1) div 100 = (if 100 dvd y then 1 else 0)"
    "y div 400 - (y - 1) div 400 = (if 400 dvd y then 1 else 0)" by (simp_all only: div_pred zero_less_numeral)
  ultimately show ?thesis by (simp only: if_True if_False split: if_split) auto
qed

lemma day_number_eq: "day_number y m d = (let y' = if m \<le> 2 then y - 1 else y in
   365 * y' + y' div 4 - y' div 100 + y' div 400 + (153 * (if m > 2 then m - 3 else m + 9) + 2) div 5 + d - 719469)"
  unfolding day_number_def Let_def year_start by simp

text \<open>Consecutive dates of the calendar have consecutive numbers, from 1970-01-01 with 0.\<close>

lemma day_number_next_month:
  assumes "1 \<le> m" "m < 12"
  shows "day_number y (m + 1) 1 = day_number y m (daysIn m y) + 1"
proof -
  have "m \<in> {1, 2, 3, 4, 5, 6, 7, 8, 9, 10, 11}" using assms by (simp; presburger)
  then consider "m = 2" | "m \<in> {1, 3, 4, 5, 6, 7, 8, 9, 10, 11}" by blast
  then show ?thesis
  proof cases
    case 1
    then show ?thesis using leap_step [of y] by (cases "is_leap y") (simp_all add: day_number_eq daysIn_def Let_def)
  qed (auto simp: day_number_eq daysIn_def Let_def)
qed

lemma day_number_next_year: "day_number (y + 1) 1 1 = day_number y 12 31 + 1"
  by (simp add: day_number_eq Let_def)

lemma day_number_epoch: "day_number 1970 1 1 = 0"
  by code_simp

section \<open>Filtering by days\<close>

text \<open>No day of the zone is skipped, and time.Date gives the beginning of a day.\<close>

definition zone_ok :: "zone \<Rightarrow> bool" where
  "zone_ok z = ((\<forall>n. zn_Date z n < zn_Date z (n + 1)) \<and> (\<forall>t n. zn_day z t = n \<longleftrightarrow> zn_Date z n \<le> t \<and> t < zn_Date z (n + 1)))"

lemma zone_mono:
  assumes "zone_ok z" "a \<le> b"
  shows "zn_Date z a \<le> zn_Date z b"
  using assms(2)
proof (induction b rule: int_ge_induct)
  case (step b)
  then show ?case using assms(1) unfolding zone_ok_def by (meson order.trans order_less_imp_le)
qed simp

lemma zone_day_midnight: "zone_ok z \<Longrightarrow> zn_day z (zn_Date z n) = n"
  by (simp add: zone_ok_def)

lemma zone_day_le:
  assumes "zone_ok z"
  shows "zn_Date z n \<le> t \<longleftrightarrow> n \<le> zn_day z t"
proof -
  have "zn_Date z (zn_day z t) \<le> t" "t < zn_Date z (zn_day z t + 1)" using assms unfolding zone_ok_def by blast+
  then show ?thesis using zone_mono [OF assms, of n "zn_day z t"] zone_mono [OF assms, of "zn_day z t + 1" n] by fastforce
qed

lemma window_days:
  assumes "zone_ok z" "ParseDate st = Some a" "ParseDate en = Some b" "zero_time < zn_Date z a" "zero_time < zn_Date z (b + 1) - 1"
  shows "\<exists>x y. ParseStartDate z st = Some x \<and> ParseEndDate z en = Some y \<and>
    in_window (time_filter x) (time_filter y) t = (a \<le> zn_day z t \<and> zn_day z t \<le> b)"
proof -
  have "st \<noteq> []" "en \<noteq> []" using assms(2,3) by (auto simp: ParseDate_def)
  then show ?thesis using assms zone_day_le [OF assms(1), of a t] zone_day_le [OF assms(1), of "b + 1" t]
    by (auto simp: ParseStartDate_def ParseEndDate_def zone_day_midnight time_filter_def in_window_def)
qed

lemma clamp_bounds: "1 \<le> jl_PageSize (clamp_page_size req)" "jl_PageSize (clamp_page_size req) \<le> 100"
  by (simp_all add: clamp_page_size_def Let_def)

lemma limit_offset_length: "0 \<le> n \<Longrightarrow> int (length (limit_offset n k xs)) \<le> n"
  by (simp add: limit_offset_def)

lemma clamp_filters [simp]:
  "job_list_match like (clamp_page_size req) = job_list_match like req" "jl_Status (clamp_page_size req) = jl_Status req"
  by (auto simp: job_list_match_def clamp_page_size_def Let_def fun_eq_iff)

lemma GetJobList_count:
  assumes "GetJobList like e cs t req st en u = Ok (rows, n, page, sz)"
  shows "n = int (length (filter (job_list_match like req st en u (StatusInt (jl_Status req))) t)) \<and>
    sz = jl_PageSize (clamp_page_size req) \<and> int (length rows) \<le> sz"
  using assms limit_offset_length [of "jl_PageSize (clamp_page_size req)"] clamp_bounds [of req]
  by (auto simp: GetJobList_def repo_GetJobList_def getJobListWithFilters_def Let_def split: if_splits)

lemma Enrich_length: "EnrichJobList err now s rows = Ok rows' \<Longrightarrow> length rows' = length rows"
  by (induction rows arbitrary: rows') (auto simp: Let_def map_sum_def split: sum.splits)



definition shanghai :: zone where
  "shanghai = \<lparr> zn_Date = (\<lambda>n. n * 86400000000000 - 28800000000000), zn_day = (\<lambda>t. (t + 28800000000000) div 86400000000000) \<rparr>"

lemma shanghai_ok: "zone_ok shanghai"
  by (auto simp: zone_ok_def shanghai_def div_eq_iff algebra_simps)

definition demo_query :: job_query where
  "demo_query = \<lparr> jq_req = \<lparr> jl_Id = 0, jl_Status = 0, jl_Name = [], jl_PageSize = 2, jl_Page = 1 \<rparr>,
     jq_StartTime = ''1970-01-01'', jq_EndTime = ''1970-01-01'' \<rparr>"

abbreviation demo_list :: "job_query \<Rightarrow> int + (JobResponse list \<times> int \<times> int \<times> int \<times> int)" where
  "demo_list q \<equiv> ctrl_GetJobsList shanghai (\<lambda>_ _. True) \<lparr> le_count = False, le_scan = False, le_cards = False \<rparr> [] (\<lambda>_. False) 0 demo_queue 1 (Some q)"


end
