(* ===== verification/QueueLock.thy ===== *)
theory QueueLock
  imports Scheduler
begin

text \<open>
  The lock of the queue in time: acquireQueueLock, releaseQueueLock and the watchdog
  startQueueLockWatchdog of internal/service/scheduler_service.go, run by several instances of the
  program against one Redis.

  Times are nanoseconds. The key carries its deadline; an instance that has acquired the lock works
  until it releases it, and its watchdog renews the deadline every third of the life time. The lock
  of the theory Scheduler is the abstraction that forgets the deadline.
\<close>

section \<open>The key and its scripts\<close>

type_synonym lock_key = "(string \<times> int) option"

definition lock_live :: "int \<Rightarrow> lock_key \<Rightarrow> string option" where
  "lock_live now k = (case k of None \<Rightarrow> None | Some (token, deadline) \<Rightarrow> if now < deadline then Some token else None)"

definition lock_ttl :: int where "lock_ttl = 30 * 1000000000"

definition queue_token :: "int \<Rightarrow> int \<Rightarrow> string" where
  "queue_token nano pid = Itoa nano @ ''-'' @ Itoa pid"

text \<open>The flags of the operations stand for a failing call of Redis, or for no client at all.\<close>

definition timed_acquire :: "bool \<Rightarrow> int \<Rightarrow> int \<Rightarrow> int \<Rightarrow> lock_key \<Rightarrow> lock_key \<times> string \<times> bool" where
  "timed_acquire err now pid ttl k = (if err then (k, [], False)
     else let token = queue_token now pid in
       case lock_live now k of None \<Rightarrow> (Some (token, now + ttl), token, True) | Some _ \<Rightarrow> (k, token, False))"

definition timed_release :: "bool \<Rightarrow> int \<Rightarrow> string \<Rightarrow> lock_key \<Rightarrow> lock_key" where
  "timed_release err now token k = (if err \<or> token = [] then k
     else if lock_live now k = Some token then None else k)"

text \<open>PEXPIRE takes whole milliseconds.\<close>

definition timed_renew :: "bool \<Rightarrow> int \<Rightarrow> string \<Rightarrow> int \<Rightarrow> lock_key \<Rightarrow> lock_key" where
  "timed_renew err now token ttl k = (if err then k
     else if lock_live now k = Some token then Some (token, now + ttl div 1000000 * 1000000) else k)"

definition watchdog_interval :: "int \<Rightarrow> int" where
  "watchdog_interval ttl = (let interval = ttl div 3 in if interval \<le> 0 then 1000000000 else interval)"

section \<open>Instances\<close>

text \<open>
  An instance between acquire and release has its token, the time of the next tick of its watchdog
  and the number of renewals that failed in a row.
\<close>

record lock_worker =
  wk_token :: string
  wk_tick :: int
  wk_fails :: nat

record lock_sys =
  ls_now :: int
  ls_key :: lock_key
  ls_work :: "nat \<rightharpoonup> lock_worker"

definition turn_begin :: "bool \<Rightarrow> int \<Rightarrow> nat \<Rightarrow> lock_sys \<Rightarrow> lock_sys" where
  "turn_begin err pid i s = (case timed_acquire err (ls_now s) pid lock_ttl (ls_key s) of
     (k, token, False) \<Rightarrow> s\<lparr> ls_key := k \<rparr>
   | (k, token, True) \<Rightarrow> s\<lparr> ls_key := k, ls_work := (ls_work s)(i \<mapsto>
       \<lparr> wk_token = token, wk_tick = ls_now s + watchdog_interval lock_ttl, wk_fails = 0 \<rparr>) \<rparr>)"

definition turn_renew :: "bool \<Rightarrow> nat \<Rightarrow> lock_sys \<Rightarrow> lock_sys" where
  "turn_renew err i s = (case ls_work s i of
     None \<Rightarrow> s
   | Some w \<Rightarrow> s\<lparr> ls_key := timed_renew err (ls_now s) (wk_token w) lock_ttl (ls_key s),
       ls_work := (ls_work s)(i \<mapsto> w\<lparr> wk_tick := wk_tick w + watchdog_interval lock_ttl,
         wk_fails := (if err then wk_fails w + 1 else 0) \<rparr>) \<rparr>)"

definition turn_end :: "bool \<Rightarrow> nat \<Rightarrow> lock_sys \<Rightarrow> lock_sys" where
  "turn_end err i s = (case ls_work s i of
     None \<Rightarrow> s
   | Some w \<Rightarrow> s\<lparr> ls_key := timed_release err (ls_now s) (wk_token w) (ls_key s), ls_work := (ls_work s)(i := None) \<rparr>)"

definition lock_idle :: "int \<Rightarrow> lock_sys" where
  "lock_idle now = \<lparr> ls_now = now, ls_key = None, ls_work = Map.empty \<rparr>"

text \<open>
  The runs with a punctual watchdog: a tick is served less than one interval late, and of two
  renewals in a row at most one fails. Everything else is arbitrary: the calls that fail, the order
  of the instances, how long a turn takes, turns that end without releasing the lock.
\<close>

inductive lock_step :: "(nat \<Rightarrow> int) \<Rightarrow> lock_sys \<Rightarrow> lock_sys \<Rightarrow> bool" for pid where
  step_begin: "ls_work s i = None \<Longrightarrow> lock_step pid s (turn_begin err (pid i) i s)"
| step_renew: "ls_work s i = Some w \<Longrightarrow> wk_tick w \<le> ls_now s \<Longrightarrow> err \<longrightarrow> wk_fails w = 0 \<Longrightarrow> lock_step pid s (turn_renew err i s)"
| step_end: "lock_step pid s (turn_end err i s)"
| step_wait: "0 \<le> d \<Longrightarrow> \<forall>i w. ls_work s i = Some w \<longrightarrow> ls_now s + d < wk_tick w + watchdog_interval lock_ttl \<Longrightarrow>
    lock_step pid s (s\<lparr> ls_now := ls_now s + d \<rparr>)"

inductive lock_reachable :: "(nat \<Rightarrow> int) \<Rightarrow> lock_sys \<Rightarrow> bool" for pid where
  lock_start: "0 \<le> now \<Longrightarrow> lock_reachable pid (lock_idle now)"
| lock_next: "lock_reachable pid s \<Longrightarrow> lock_step pid s t \<Longrightarrow> lock_reachable pid t"

section \<open>Tokens\<close>

lemma queue_token_inject:
  assumes "0 \<le> n" "0 \<le> m" "queue_token n p = queue_token m q"
  shows "n = m \<and> p = q"
proof -
  have free: "CHR ''-'' \<notin> set (Itoa k)" if "0 \<le> k" for k
    using that set_show_nat [of "CHR ''-''" "nat k"] by (auto simp: Itoa_def)
  have "Itoa n # Split CHR ''-'' (Itoa p) = Itoa m # Split CHR ''-'' (Itoa q)"
    using assms Split_append_sep [OF free [OF assms(1)], of "Itoa p"] Split_append_sep [OF free [OF assms(2)], of "Itoa q"]
    by (simp add: queue_token_def)
  then have "n = m" by simp
  then show ?thesis using assms(3) by (simp add: queue_token_def)
qed

lemma queue_token_not_Nil [simp]: "queue_token n p \<noteq> []"
  by (simp add: queue_token_def)

section \<open>The scheduler's view\<close>

text \<open>
  Without its deadline the key is the lock of the theory Scheduler: acquiring and releasing are the
  operations of that theory, a renewal leaves it alone, and the passing of time leaves it alone or
  is its expiry.
\<close>

theorem timed_lock_refines:
  assumes "sc_lock s = lock_live now k"
  shows "acquireQueueLock err (queue_token now pid) s =
      (case timed_acquire err now pid lock_ttl k of (k1, _, ok) \<Rightarrow> (s\<lparr> sc_lock := lock_live now k1 \<rparr>, ok))"
    and "releaseQueueLock err token s = s\<lparr> sc_lock := lock_live now (timed_release err now token k) \<rparr>"
    and "lock_live now (timed_renew err now token lock_ttl k) = lock_live now k"
    and "0 \<le> d \<Longrightarrow> s\<lparr> sc_lock := lock_live (now + d) k \<rparr> \<in> {s, lock_expire s}"
  using assms by (auto simp: acquireQueueLock_def timed_acquire_def releaseQueueLock_def timed_release_def timed_renew_def
      lock_expire_def lock_live_def lock_ttl_def Let_def split: option.splits prod.splits)

section \<open>Exclusion\<close>

definition worker_ok :: "(nat \<Rightarrow> int) \<Rightarrow> lock_sys \<Rightarrow> nat \<Rightarrow> lock_worker \<Rightarrow> bool" where
  "worker_ok pid s i w \<longleftrightarrow> (\<exists>n \<ge> 0. wk_token w = queue_token n (pid i)) \<and> wk_fails w \<le> 1 \<and>
     ls_now s < wk_tick w + watchdog_interval lock_ttl \<and>
     (\<exists>d. ls_key s = Some (wk_token w, d) \<and> wk_tick w + lock_ttl \<le> d + (int (wk_fails w) + 1) * watchdog_interval lock_ttl)"

definition lock_inv :: "(nat \<Rightarrow> int) \<Rightarrow> lock_sys \<Rightarrow> bool" where
  "lock_inv pid s \<longleftrightarrow> 0 \<le> ls_now s \<and> (\<forall>t d. ls_key s = Some (t, d) \<longrightarrow> d \<le> ls_now s + lock_ttl) \<and>
     (\<forall>i w. ls_work s i = Some w \<longrightarrow> worker_ok pid s i w)"

lemma lock_times [simp]: "lock_ttl = 30000000000" "watchdog_interval 30000000000 = 10000000000"
  by (simp_all add: watchdog_interval_def lock_ttl_def)

lemma worker_live:
  assumes "worker_ok pid s i w"
  shows "lock_live (ls_now s) (ls_key s) = Some (wk_token w)"
proof -
  have "(int (wk_fails w) + 1) * 10000000000 \<le> 20000000000" using assms by (simp add: worker_ok_def)
  then show ?thesis using assms by (auto simp: worker_ok_def lock_live_def)
qed

lemma one_worker:
  assumes "inj pid" "lock_inv pid s" "ls_work s i = Some w" "ls_work s j = Some v"
  shows "i = j"
proof -
  have ok: "worker_ok pid s i w" "worker_ok pid s j v" using assms by (auto simp: lock_inv_def)
  then have "wk_token w = wk_token v" using worker_live [of pid s i w] worker_live [of pid s j v] by simp
  then have "pid i = pid j" using ok queue_token_inject unfolding worker_ok_def by metis
  then show ?thesis using assms(1) by (simp add: inj_eq)
qed

lemma inv_begin:
  assumes "lock_inv pid s" "ls_work s i = None"
  shows "lock_inv pid (turn_begin err (pid i) i s)"
proof (cases "err \<or> lock_live (ls_now s) (ls_key s) \<noteq> None")
  case True
  then have "turn_begin err (pid i) i s = s" by (auto simp: turn_begin_def timed_acquire_def Let_def)
  then show ?thesis using assms by simp
next
  case False
  then have alone: "ls_work s j = None" for j using assms(1) worker_live [of pid s j] unfolding lock_inv_def by (cases "ls_work s j") fastforce+
  show ?thesis using False assms(1)
    by (auto simp: turn_begin_def timed_acquire_def Let_def lock_inv_def alone worker_ok_def)
qed

lemma inv_renew:
  assumes "inj pid" "lock_inv pid s" "ls_work s i = Some w" "wk_tick w \<le> ls_now s" "err \<longrightarrow> wk_fails w = 0"
  shows "lock_inv pid (turn_renew err i s)"
proof -
  let ?w = "w\<lparr> wk_tick := wk_tick w + watchdog_interval lock_ttl, wk_fails := (if err then wk_fails w + 1 else 0) \<rparr>"
  let ?s = "turn_renew err i s"
  have ok: "worker_ok pid s i w" using assms by (simp add: lock_inv_def)
  have s: "ls_now ?s = ls_now s" "ls_work ?s = (ls_work s)(i \<mapsto> ?w)"
    "ls_key ?s = (if err then ls_key s else Some (wk_token w, ls_now s + lock_ttl))"
    using assms(3) worker_live [OF ok] by (simp_all add: turn_renew_def timed_renew_def)
  have "worker_ok pid ?s i ?w"
    using ok assms(4,5) unfolding worker_ok_def s by (cases err) auto
  moreover have "ls_work ?s j = None" if "j \<noteq> i" for j
    using one_worker [OF assms(1,2,3), of j] that by (cases "ls_work s j") (auto simp: s)
  ultimately have "worker_ok pid ?s j v" if "ls_work ?s j = Some v" for j v using that s(2) by (cases "j = i") auto
  then show ?thesis using assms(2) unfolding lock_inv_def s(1,3) by auto
qed

lemma inv_end:
  assumes "inj pid" "lock_inv pid s"
  shows "lock_inv pid (turn_end err i s)"
proof (cases "ls_work s i")
  case (Some w)
  have alone: "j = i" if "ls_work s j = Some v" for j v using one_worker [OF assms that Some] .
  show ?thesis using Some assms(2)
    by (auto simp: turn_end_def timed_release_def lock_inv_def dest: alone)
qed (use assms in \<open>simp add: turn_end_def\<close>)

lemma inv_lock_step: "lock_step pid s t \<Longrightarrow> inj pid \<Longrightarrow> lock_inv pid s \<Longrightarrow> lock_inv pid t"
proof (induction rule: lock_step.induct)
  case (step_wait d s)
  then show ?case by (fastforce simp: lock_inv_def worker_ok_def)
qed (auto intro: inv_begin inv_renew inv_end)

lemma lock_reachable_inv: "lock_reachable pid s \<Longrightarrow> inj pid \<Longrightarrow> lock_inv pid s"
proof (induction rule: lock_reachable.induct)
  case (lock_next s t)
  then show ?case using inv_lock_step by blast
qed (simp add: lock_inv_def lock_idle_def)

text \<open>
  C6: One instance at a time serves the queue. With distinct process ids and a watchdog that is
  served less than one interval late and never fails twice in a row, an instance that works on the
  queue holds the lock, no second instance works at the same time, and whatever happens to the
  instances, calls that fail and turns that never release included, the key is gone after 30 seconds
  without a renewal.
\<close>

theorem queue_lock_exclusive:
  assumes "lock_reachable pid s" "inj pid"
  shows "(\<forall>i w. ls_work s i = Some w \<longrightarrow>
      lock_live (ls_now s) (ls_key s) = Some (wk_token w) \<and> (\<forall>j. j \<noteq> i \<longrightarrow> ls_work s j = None)) \<and>
    lock_live (ls_now s + lock_ttl) (ls_key s) = None"
proof (intro conjI allI impI)
  have inv: "lock_inv pid s" using lock_reachable_inv assms by blast
  show "lock_live (ls_now s + lock_ttl) (ls_key s) = None"
    using inv by (auto simp: lock_inv_def lock_live_def split: option.splits)
  fix i w assume i: "ls_work s i = Some w"
  show "lock_live (ls_now s) (ls_key s) = Some (wk_token w)" using inv i worker_live [of pid s i w] by (simp add: lock_inv_def)
  show "ls_work s j = None" if "j \<noteq> i" for j using one_worker [OF assms(2) inv i, of j] that by fastforce
qed

text \<open>Instance 0 begins a turn at time 5, fails a renewal 12 seconds later, and instance 1 tries to begin.\<close>

definition lock_demo :: lock_sys where
  "lock_demo = turn_begin False 101 1 (turn_renew True 0
     ((turn_begin False 100 0 (lock_idle 5))\<lparr> ls_now := 12000000005 \<rparr>))"

definition demo_pid :: "nat \<Rightarrow> int" where "demo_pid i = 100 + int i"

lemma lock_demo_reachable: "lock_reachable demo_pid lock_demo"
proof -
  let ?s1 = "turn_begin False 100 0 (lock_idle 5)"
  let ?s2 = "?s1\<lparr> ls_now := ls_now ?s1 + 12000000000 \<rparr>"
  note eval = turn_begin_def turn_renew_def timed_acquire_def timed_renew_def lock_idle_def lock_live_def Let_def
  have "lock_reachable demo_pid ?s1"
    using lock_next [OF lock_start step_begin [where i = 0 and err = False and pid = demo_pid]] by (simp add: lock_idle_def demo_pid_def)
  moreover have "lock_step demo_pid ?s1 ?s2" by (rule step_wait) (simp_all add: eval)
  ultimately have s2: "lock_reachable demo_pid ?s2" by (rule lock_next)
  obtain w where w: "ls_work ?s2 0 = Some w" "wk_tick w \<le> ls_now ?s2" "wk_fails w = 0" by (simp add: eval)
  have s3: "lock_reachable demo_pid (turn_renew True 0 ?s2)"
    using lock_next [OF s2 step_renew [OF w(1,2), of True]] w(3) by simp
  have "ls_work (turn_renew True 0 ?s2) 1 = None" by (simp add: eval)
  then have "lock_reachable demo_pid (turn_begin False (demo_pid 1) 1 (turn_renew True 0 ?s2))"
    by (intro lock_next [OF s3] step_begin)
  moreover have "ls_now ?s1 = 5" by (simp add: eval)
  ultimately show ?thesis by (simp add: lock_demo_def demo_pid_def)
qed

theorem queue_lock_exclusive_witness:
  "(\<exists>w. ls_work lock_demo 0 = Some w) \<and> ls_work lock_demo 1 = None \<and> lock_live (ls_now lock_demo + lock_ttl) (ls_key lock_demo) = None"
proof -
  have "inj demo_pid" by (simp add: inj_def demo_pid_def)
  note excl = queue_lock_exclusive [OF lock_demo_reachable this]
  have "ls_work lock_demo 0 \<noteq> None" by code_simp
  then obtain w where "ls_work lock_demo 0 = Some w" by blast
  then show ?thesis using excl by fastforce
qed

section \<open>Limits\<close>

text \<open>
  The answer of a renewal is not looked at: when two renewals in a row fail, the key expires under
  the working instance, which goes on, and a second one begins.
\<close>

theorem lost_lock_is_not_noticed:
  assumes "late = (turn_renew True 0 (turn_renew True 0 (turn_begin False 100 0 (lock_idle 0))))\<lparr> ls_now := lock_ttl \<rparr>"
  shows "ls_work (turn_begin False 101 1 late) 0 \<noteq> None \<and> ls_work (turn_begin False 101 1 late) 1 \<noteq> None"
  by (simp add: assms turn_begin_def turn_renew_def timed_acquire_def timed_renew_def lock_idle_def lock_live_def Let_def)

text \<open>
  The release is called with the context of the scheduler. When the scheduler is stopped during a
  turn the context is cancelled, the call fails, and the lock stays: until the 30 seconds have
  passed no instance can begin.
\<close>

theorem cancelled_release_keeps_lock:
  assumes "lock_live (ls_now s) (ls_key s) = None" "0 \<le> d" "d < lock_ttl"
    and "t = turn_end True i (turn_begin False p i s)"
  shows "ls_work (turn_begin err q j (t\<lparr> ls_now := ls_now s + d \<rparr>)) j = ls_work t j"
  using assms by (simp add: turn_end_def turn_begin_def timed_acquire_def timed_release_def lock_live_def Let_def)

end
