(* ===== verification/Pumps.thy ===== *)
theory Pumps
  imports WsPool Terminal "HOL-Library.Sublist"
begin

text \<open>
  The two goroutines of a WebSocket client: WritePump and ReadPump of pkg/websocket/pool.go, on top
  of the pool of the theory WsPool.

  The socket answers through flags: each call on it may fail. A turn of the write pump is one
  execution of its select, which the environment decides when both cases are ready; it blocks when
  the channel is empty and open. Frames are those completely written, in order.
\<close>

section \<open>Writing\<close>

datatype ws_frame = TextFrame string | PingFrame | CloseFrame

datatype select_case = FromSend | FromTicker

record write_env =
  we_deadline :: bool
  we_writer :: bool
  we_write :: bool
  we_flush :: bool
  we_close :: bool
  we_ping :: bool

text \<open>The pool after the turn, the frames it wrote, and whether the loop returns.\<close>

definition write_turn :: "write_env \<Rightarrow> select_case \<Rightarrow> nat \<Rightarrow> ConnectionPool \<Rightarrow> (ConnectionPool \<times> ws_frame list \<times> bool) option" where
  "write_turn e sel c p = (case sel of
     FromSend \<Rightarrow>
       (case wc_Send (cp_objects p c) of
          message # _ \<Rightarrow>
            (if we_deadline e \<or> we_writer e \<or> we_write e \<or> we_flush e then Some (pump c p, [], True)
             else Some (pump c p, [TextFrame message], False))
        | [] \<Rightarrow>
            (if \<not> wc_closed (cp_objects p c) then None
             else if we_deadline e \<or> we_close e then Some (p, [], True)
             else Some (p, [CloseFrame], True)))
   | FromTicker \<Rightarrow> (if we_deadline e \<or> we_ping e then Some (p, [], True) else Some (p, [PingFrame], False)))"

definition texts :: "ws_frame list \<Rightarrow> string list" where
  "texts fs = concat (map (\<lambda>f. case f of TextFrame m \<Rightarrow> [m] | _ \<Rightarrow> []) fs)"

section \<open>Reading\<close>

text \<open>
  What a read gives: the message or an error, and whether the new deadline could be set. The
  handler works on the state of the service that registered the client.
\<close>

record ws_read =
  rd_message :: "(int \<times> byte list) option"
  rd_deadline :: bool

type_synonym 's ws_handler = "int \<Rightarrow> byte list \<Rightarrow> 's \<Rightarrow> 's \<times> unit result"

definition read_turn :: "'s ws_handler option \<Rightarrow> ws_read \<Rightarrow> 's \<Rightarrow> 's \<times> bool" where
  "read_turn handler r s = (case rd_message r of
     None \<Rightarrow> (s, True)
   | Some (messageType, data) \<Rightarrow>
      (if rd_deadline r then (s, True)
       else case handler of
         None \<Rightarrow> (s, False)
       | Some h \<Rightarrow> (case h messageType data s of (s1, ans) \<Rightarrow> (s1, \<not> is_ok ans))))"

fun read_loop :: "'s ws_handler option \<Rightarrow> ws_read list \<Rightarrow> 's \<Rightarrow> 's \<times> bool" where
  "read_loop handler [] s = (s, False)"
| "read_loop handler (r # rs) s = (case read_turn handler r s of (s1, True) \<Rightarrow> (s1, True) | (s1, False) \<Rightarrow> read_loop handler rs s1)"

definition ReadPump :: "bool \<Rightarrow> 's ws_handler option \<Rightarrow> ws_read list \<Rightarrow> nat \<Rightarrow> ConnectionPool \<times> 's \<Rightarrow> ConnectionPool result \<times> 's" where
  "ReadPump deadline_err handler rs c = (\<lambda>(p, s).
     if deadline_err then (Close c p, s)
     else case read_loop handler rs s of (s1, ended) \<Rightarrow> (if ended then Close c p else Ok p, s1))"

section \<open>The pool with its pumps\<close>

text \<open>
  Per client: the frames written, the messages its channel has accepted, and whether its pumps
  still run. A broadcast is a number of sends; the clients may be closed in between by whoever
  holds them.
\<close>

record pumped =
  pm_pool :: ConnectionPool
  pm_frames :: "nat \<Rightarrow> ws_frame list"
  pm_accepted :: "nat \<Rightarrow> string list"
  pm_writing :: "nat \<Rightarrow> bool"
  pm_reading :: "nat \<Rightarrow> bool"

definition pumped_start :: pumped where
  "pumped_start = \<lparr> pm_pool = NewConnectionPool, pm_frames = (\<lambda>_. []), pm_accepted = (\<lambda>_. []),
     pm_writing = (\<lambda>_. False), pm_reading = (\<lambda>_. False) \<rparr>"

definition room :: "nat \<Rightarrow> pumped \<Rightarrow> bool" where
  "room c s = (length (wc_Send (cp_objects (pm_pool s) c)) < send_capacity)"

inductive pump_step :: "pumped \<Rightarrow> pumped \<Rightarrow> bool" where
  pump_Add: "proper u md \<Longrightarrow> Add u (Some md) (pm_pool s) = (p, c) \<Longrightarrow>
    pump_step s (s\<lparr> pm_pool := p, pm_writing := (pm_writing s)(c := True), pm_reading := (pm_reading s)(c := True) \<rparr>)"
| pump_Close: "Close c (pm_pool s) = Ok q \<Longrightarrow> pump_step s (s\<lparr> pm_pool := q \<rparr>)"
| pump_send: "try_send data c (pm_pool s) = Ok q \<Longrightarrow>
    pump_step s (s\<lparr> pm_pool := q, pm_accepted := (pm_accepted s)(c := pm_accepted s c @ (if room c s then [data] else [])) \<rparr>)"
| pump_write: "pm_writing s c \<Longrightarrow> write_turn e sel c (pm_pool s) = Some (p, fs, False) \<Longrightarrow>
    pump_step s (s\<lparr> pm_pool := p, pm_frames := (pm_frames s)(c := pm_frames s c @ fs) \<rparr>)"
| pump_write_end: "pm_writing s c \<Longrightarrow> write_turn e sel c (pm_pool s) = Some (p, fs, True) \<Longrightarrow> Close c p = Ok q \<Longrightarrow>
    pump_step s (s\<lparr> pm_pool := q, pm_frames := (pm_frames s)(c := pm_frames s c @ fs), pm_writing := (pm_writing s)(c := False) \<rparr>)"
| pump_read_end: "pm_reading s c \<Longrightarrow> Close c (pm_pool s) = Ok q \<Longrightarrow>
    pump_step s (s\<lparr> pm_pool := q, pm_reading := (pm_reading s)(c := False) \<rparr>)"

inductive pump_reachable :: "pumped \<Rightarrow> bool" where
  pumps_start: "pump_reachable pumped_start"
| pumps_next: "pump_reachable s \<Longrightarrow> pump_step s t \<Longrightarrow> pump_reachable t"

section \<open>Delivery\<close>

lemma texts_simps [simp]: "texts [] = []" "texts (TextFrame m # fs) = m # texts fs" "texts (PingFrame # fs) = texts fs"
  "texts (CloseFrame # fs) = texts fs" "texts (fs @ gs) = texts fs @ texts gs"
  by (simp_all add: texts_def)

text \<open>What holds of each client; the pool keeps its own invariant.\<close>

definition client_ok :: "pumped \<Rightarrow> nat \<Rightarrow> bool" where
  "client_ok s c \<longleftrightarrow>
     (if pm_writing s c
      then pm_accepted s c = texts (pm_frames s c) @ wc_Send (cp_objects (pm_pool s) c) \<and> CloseFrame \<notin> set (pm_frames s c)
      else wc_closed (cp_objects (pm_pool s) c) \<and> prefix (texts (pm_frames s c)) (pm_accepted s c) \<and>
        (CloseFrame \<in> set (pm_frames s c) \<longrightarrow> texts (pm_frames s c) = pm_accepted s c)) \<and>
     (\<not> pm_reading s c \<longrightarrow> wc_closed (cp_objects (pm_pool s) c)) \<and>
     (cp_next (pm_pool s) \<le> c \<longrightarrow> \<not> pm_writing s c \<and> pm_frames s c = [] \<and> pm_accepted s c = [])"

definition pumped_inv :: "pumped \<Rightarrow> bool" where
  "pumped_inv s \<longleftrightarrow> pool_inv (pm_pool s) \<and> (\<forall>c. client_ok s c)"

lemma Close_frame:
  assumes "Close c p = Ok q"
  shows "cp_next q = cp_next p" "wc_Send (cp_objects q d) = wc_Send (cp_objects p d)"
  using assms by (auto simp: Close_def Let_def set_client_def split: if_splits option.splits)

lemma Add_frame:
  assumes "Add u (Some md) p = (q, c)"
  shows "c = cp_next p" "cp_next q = Suc c" "cp_objects q = (cp_objects p)(c := \<lparr> wc_Metadata = Some md, wc_Send = [], wc_closed = False \<rparr>)"
  using assms by (auto simp: Add_def Let_def set_client_def split: if_splits)

lemma pool_inv_write:
  assumes "pool_inv p" "write_turn e sel c p = Some (q, fs, ended)"
  shows "pool_inv q" "cp_next q = cp_next p" "wc_closed (cp_objects q d) = wc_closed (cp_objects p d)"
    "d \<noteq> c \<Longrightarrow> cp_objects q d = cp_objects p d"
proof -
  have q: "q = p \<or> q = pump c p" using assms(2) by (auto simp: write_turn_def split: select_case.splits list.splits if_splits)
  have "pool_inv (pump c p)" using inv_step [OF step_pump assms(1)] .
  then show "pool_inv q" using q assms(1) by blast
  show "cp_next q = cp_next p" "wc_closed (cp_objects q d) = wc_closed (cp_objects p d)"
    "d \<noteq> c \<Longrightarrow> cp_objects q d = cp_objects p d"
    using q by (auto simp: pump_def set_client_def split: if_splits)
qed

text \<open>A turn that goes on moves the head of the channel to the frames; one that ends may lose it.\<close>

lemma write_turn_goes_on:
  assumes "write_turn e sel c p = Some (q, fs, False)"
  shows "wc_Send (cp_objects p c) = texts fs @ wc_Send (cp_objects q c)" "CloseFrame \<notin> set fs"
  using assms by (auto simp: write_turn_def pump_def set_client_def split: select_case.splits list.splits if_splits)

lemma write_turn_ends:
  assumes "write_turn e sel c p = Some (q, fs, True)"
  shows "texts fs = []" "CloseFrame \<in> set fs \<Longrightarrow> wc_Send (cp_objects p c) = []"
  using assms by (auto simp: write_turn_def split: select_case.splits list.splits if_splits)

lemma pumped_inv_step:
  assumes "pump_step s t" "pumped_inv s"
  shows "pumped_inv t"
proof -
  have inv: "pool_inv (pm_pool s)" and ok: "client_ok s c" for c using assms(2) by (auto simp: pumped_inv_def)
  from assms(1) show ?thesis
  proof (cases rule: pump_step.cases)
    case (pump_Add u md p c)
    note f = Add_frame [OF pump_Add(3)]
    have "pool_inv p" using inv_Add [OF inv pump_Add(2)] pump_Add(3) by simp
    moreover have "client_ok t d" for d using ok [of d] f by (auto simp: pump_Add(1) client_ok_def)
    ultimately show ?thesis by (simp add: pumped_inv_def pump_Add(1))
  next
    case (pump_Close c q)
    have "client_ok t d" for d using ok [of d] Close_frame [OF pump_Close(2)] Close_closes [OF pump_Close(2)]
      by (auto simp: pump_Close(1) client_ok_def)
    then show ?thesis using inv_Close [OF inv pump_Close(2)] by (simp add: pumped_inv_def pump_Close(1))
  next
    case (pump_send data c q)
    have op: "\<not> wc_closed (cp_objects (pm_pool s) c)" using pump_send(2) by (auto simp: try_send_def Let_def)
    then have wr: "pm_writing s c" using ok [of c] by (auto simp: client_ok_def split: if_splits)
    have q: "q = (pm_pool s)\<lparr> cp_objects := (cp_objects (pm_pool s))(c := delivered data (cp_objects (pm_pool s) c)) \<rparr>"
      using try_send_open [OF op, of data] pump_send(2) by simp
    have "client_ok t d" for d using ok [of d] ok [of c] wr
      by (auto simp: pump_send(1) q client_ok_def delivered_def room_def)
    then show ?thesis using send_keeps [OF inv pump_send(2)] by (simp add: pumped_inv_def pump_send(1))
  next
    case (pump_write c e sel p fs)
    note w = pool_inv_write [OF inv pump_write(3)] write_turn_goes_on [OF pump_write(3)]
    have "client_ok t d" for d
    proof (cases "d = c")
      case True
      then show ?thesis using ok [of c] pump_write(2) w(5,6) by (simp add: pump_write(1) client_ok_def w(2,3))
    next
      case False
      then show ?thesis using ok [of d] by (simp add: pump_write(1) client_ok_def w(2,4))
    qed
    then show ?thesis using w(1) by (simp add: pumped_inv_def pump_write(1))
  next
    case (pump_write_end c e sel p fs q)
    note w = pool_inv_write [OF inv pump_write_end(3)] write_turn_ends [OF pump_write_end(3)]
    note cl = Close_frame [OF pump_write_end(4)] Close_closes [OF pump_write_end(4)]
    have "client_ok t d" for d
    proof (cases "d = c")
      case True
      then show ?thesis using ok [of c] pump_write_end(2) w(2,5,6) cl
        by (auto simp: pump_write_end(1) client_ok_def)
    next
      case False
      then show ?thesis using ok [of d] w(2,4) cl by (auto simp: pump_write_end(1) client_ok_def)
    qed
    then show ?thesis using inv_Close [OF w(1) pump_write_end(4)] by (simp add: pumped_inv_def pump_write_end(1))
  next
    case (pump_read_end c q)
    have "client_ok t d" for d using ok [of d] Close_frame [OF pump_read_end(3)] Close_closes [OF pump_read_end(3)]
      by (auto simp: pump_read_end(1) client_ok_def)
    then show ?thesis using inv_Close [OF inv pump_read_end(3)] by (simp add: pumped_inv_def pump_read_end(1))
  qed
qed

lemma pumped_reachable_inv: "pump_reachable s \<Longrightarrow> pumped_inv s"
proof (induction rule: pump_reachable.induct)
  case pumps_start
  then show ?case using pool_inv_new by (simp add: pumped_inv_def client_ok_def pumped_start_def NewConnectionPool_def)
qed (rule pumped_inv_step)

text \<open>
  C32: Messages reach the browser in order. In every state of the pool with its pumps, whatever calls
  on the sockets fail and whoever closes clients, the text frames written to a client are an initial
  part of the messages its channel accepted; while the write pump runs the rest is waiting in the
  channel, so that none is lost or doubled; a close frame is written only after all of them; a pump
  that has ended leaves its client closed; and the call that ends a pump never panics.
\<close>

theorem messages_delivered_in_order:
  assumes "pump_reachable s"
  shows "prefix (texts (pm_frames s c)) (pm_accepted s c) \<and>
    (pm_writing s c \<longrightarrow> pm_accepted s c = texts (pm_frames s c) @ wc_Send (cp_objects (pm_pool s) c)) \<and>
    (CloseFrame \<in> set (pm_frames s c) \<longrightarrow> texts (pm_frames s c) = pm_accepted s c \<and> \<not> pm_writing s c) \<and>
    (\<not> pm_writing s c \<or> \<not> pm_reading s c \<longrightarrow> wc_closed (cp_objects (pm_pool s) c)) \<and>
    (\<exists>q. Close c (pm_pool s) = Ok q)"
proof -
  have "client_ok s c" "pool_inv (pm_pool s)" using pumped_reachable_inv [OF assms] by (auto simp: pumped_inv_def)
  then show ?thesis using Close_total [of "pm_pool s" c] by (auto simp: client_ok_def split: if_splits)
qed

text \<open>A monitoring client with two messages, of which the first is written.\<close>

definition good_socket :: write_env where
  "good_socket = \<lparr> we_deadline = False, we_writer = False, we_write = False, we_flush = False, we_close = False, we_ping = False \<rparr>"

definition demo_clients :: "string list \<Rightarrow> ConnectionPool" where
  "demo_clients ms = foldl (\<lambda>p m. case try_send m 0 p of Inl _ \<Rightarrow> p | Inr q \<Rightarrow> q) (fst (Add 4 (Some monitor_md) NewConnectionPool)) ms"

definition pumped_demo :: pumped where
  "pumped_demo = pumped_start\<lparr> pm_pool := pump 0 (demo_clients [''cpu'', ''gpu'']), pm_frames := (\<lambda>_. [])(0 := [TextFrame ''cpu'']),
     pm_accepted := (\<lambda>_. [])(0 := [''cpu'', ''gpu'']), pm_writing := (\<lambda>_. False)(0 := True), pm_reading := (\<lambda>_. False)(0 := True) \<rparr>"

lemma pumped_demo_reachable: "pump_reachable pumped_demo"
proof -
  let ?s1 = "pumped_start\<lparr> pm_pool := demo_clients [], pm_writing := (\<lambda>_. False)(0 := True), pm_reading := (\<lambda>_. False)(0 := True) \<rparr>"
  let ?s2 = "?s1\<lparr> pm_pool := demo_clients [''cpu''], pm_accepted := (\<lambda>_. [])(0 := [''cpu'']) \<rparr>"
  let ?s3 = "?s2\<lparr> pm_pool := demo_clients [''cpu'', ''gpu''], pm_accepted := (\<lambda>_. [])(0 := [''cpu'', ''gpu'']) \<rparr>"
  note eval = demo_clients_def Add_def NewConnectionPool_def monitor_md_def set_client_def try_send_def send_capacity_def
    pumped_start_def room_def pump_def write_turn_def good_socket_def Let_def
  have "Add 4 (Some monitor_md) (pm_pool pumped_start) = (demo_clients [], 0)" "proper 4 monitor_md"
    by (simp_all add: eval proper_def)
  from pumps_next [OF pumps_start pump_Add [OF this(2,1)]] have s1: "pump_reachable ?s1" by (simp add: pumped_start_def)
  have r1: "try_send ''cpu'' 0 (pm_pool ?s1) = Ok (demo_clients [''cpu''])" "room 0 ?s1" by (simp_all add: eval)
  have s2: "pump_reachable ?s2" using pumps_next [OF s1 pump_send [OF r1(1)]] r1(2) by (simp add: pumped_start_def)
  have r2: "try_send ''gpu'' 0 (pm_pool ?s2) = Ok (demo_clients [''cpu'', ''gpu''])" "room 0 ?s2" by (simp_all add: eval)
  have s3: "pump_reachable ?s3" using pumps_next [OF s2 pump_send [OF r2(1)]] r2(2) by simp
  have "write_turn good_socket FromSend 0 (pm_pool ?s3) = Some (pump 0 (demo_clients [''cpu'', ''gpu'']), [TextFrame ''cpu''], False)"
    by (simp add: eval)
  from pumps_next [OF s3 pump_write [OF _ this]] show ?thesis by (simp add: pumped_demo_def pumped_start_def)
qed

theorem messages_delivered_in_order_witness:
  "pm_writing pumped_demo 0 \<and> texts (pm_frames pumped_demo 0) = [''cpu''] \<and> pm_accepted pumped_demo 0 = [''cpu'', ''gpu''] \<and>
   wc_Send (cp_objects (pm_pool pumped_demo) 0) = [''gpu'']"
proof -
  have w: "pm_writing pumped_demo 0" "texts (pm_frames pumped_demo 0) = [''cpu'']" "pm_accepted pumped_demo 0 = [''cpu'', ''gpu'']"
    by (simp_all add: pumped_demo_def)
  then show ?thesis using messages_delivered_in_order [OF pumped_demo_reachable, of 0] by simp
qed

section \<open>What the handler sees\<close>

lemma read_loop_prefix:
  assumes "read_loop (Some h) rs s = (s', ended)"
  shows "\<exists>ms rest. map rd_message rs = map Some ms @ rest \<and> s' = foldl (\<lambda>x m. fst (h (fst m) (snd m) x)) s ms \<and> (\<not> ended \<longrightarrow> rest = [])"
  using assms
proof (induction rs arbitrary: s)
  case (Cons r rs)
  show ?case
  proof (cases "\<exists>m. rd_message r = Some m \<and> \<not> rd_deadline r")
    case True
    then obtain m where m: "rd_message r = Some m" "\<not> rd_deadline r" by blast
    obtain s1 ans where h: "h (fst m) (snd m) s = (s1, ans)" by fastforce
    show ?thesis
    proof (cases "is_ok ans")
      case True
      then have "read_loop (Some h) rs s1 = (s', ended)" using Cons.prems m h by (cases m) (simp add: read_turn_def)
      from Cons.IH [OF this] obtain ms rest where "map rd_message rs = map Some ms @ rest"
        "s' = foldl (\<lambda>x m. fst (h (fst m) (snd m) x)) s1 ms" "\<not> ended \<longrightarrow> rest = []" by blast
      then show ?thesis using m h by (intro exI [of _ "m # ms"] exI [of _ rest]) simp
    next
      case False
      then have "s' = s1" "ended" using Cons.prems m h by (cases m; simp add: read_turn_def)+
      then show ?thesis using m h by (intro exI [of _ "[m]"] exI [of _ "map rd_message rs"]) simp
    qed
  next
    case False
    then have "s' = s" "ended" using Cons.prems by (auto simp: read_turn_def split: option.splits if_splits)
    then show ?thesis by (intro exI [of _ "[]"] exI [of _ "map rd_message (r # rs)"]) simp
  qed
qed simp

text \<open>The terminal as the handler of its client: the messages are those that json.Unmarshal accepts.\<close>

definition terminal_handler ::
  "(byte list \<Rightarrow> inboundMsg option) \<Rightarrow> handler_env \<Rightarrow> int \<Rightarrow> int \<Rightarrow> bool \<Rightarrow> (terminalService \<times> connection) ws_handler" where
  "terminal_handler unmarshal e now u r = (\<lambda>_ data. messageHandler e now u r (unmarshal data) data)"

text \<open>
  The terminal handles an initial part of what the socket delivers, in order, and all of it when
  the loop goes on; a close request ends the loop and the client.
\<close>

theorem terminal_reads_in_order:
  assumes "ReadPump False (Some (terminal_handler unmarshal e now u r)) rs c (p, sc) = (res, sc')"
  shows "\<exists>ms rest. map rd_message rs = map Some ms @ rest \<and> sc' = handle_all e now u r (map (\<lambda>m. (unmarshal (snd m), snd m)) ms) sc \<and>
    (rest \<noteq> [] \<longrightarrow> res = Close c p)"
proof -
  obtain ended where l: "read_loop (Some (terminal_handler unmarshal e now u r)) rs sc = (sc', ended)" "res = (if ended then Close c p else Ok p)"
    using assms by (auto simp: ReadPump_def split: prod.splits)
  have h: "foldl (\<lambda>x m. fst (terminal_handler unmarshal e now u r (fst m) (snd m) x)) sc ms =
      handle_all e now u r (map (\<lambda>m. (unmarshal (snd m), snd m)) ms) sc" for ms :: "(int \<times> byte list) list"
    by (simp add: handle_all_def terminal_handler_def foldl_map)
  from read_loop_prefix [OF l(1)] obtain ms rest where "map rd_message rs = map Some ms @ rest"
    "sc' = handle_all e now u r (map (\<lambda>m. (unmarshal (snd m), snd m)) ms) sc" "\<not> ended \<longrightarrow> rest = []" unfolding h by blast
  then show ?thesis using l(2) by (intro exI [of _ ms] exI [of _ rest]) simp
qed

theorem close_request_ends_connection:
  assumes "unmarshal data = Some msg" "im_Type msg = ''close''" "rd_message m = Some (ty, data)" "\<not> rd_deadline m"
  shows "fst (ReadPump False (Some (terminal_handler unmarshal e now u r)) (m # rs) c (p, sc)) = Close c p"
  using assms by (simp add: ReadPump_def read_turn_def terminal_handler_def messageHandler_def split: prod.splits)

end
