(* ===== verification/RedisTypes.thy ===== *)
theory RedisTypes
  imports MachineAccounts SystemInfo
begin

text \<open>
  The keys of the shared Redis store and the types of their values.

  The services write values of different kinds into one store and tell them apart by their keys
  only. The typing of keys below is the contract between them: what stands under a key has the kind
  that the key announces. The theory shows that the operations on accounts, sessions and
  processes keep it and that with it no command meets a value of a kind it cannot read.
\<close>

section \<open>The typing\<close>

datatype redis_type = TText | TSession | TUserCreds | TSshCreds | TSet | THash

fun value_type :: "redis_value \<Rightarrow> redis_type" where
  "value_type (RText _) = TText"
| "value_type (RSession _) = TSession"
| "value_type (RUserCreds _) = TUserCreds"
| "value_type (RSshCreds _) = TSshCreds"
| "value_type (redis_value.RSet _) = TSet"
| "value_type (RHash _) = THash"

definition key_type :: "string \<Rightarrow> redis_type option" where
  "key_type k = (if k = sessionListKey \<or> k = RedisKeyRetainedPIDs then Some TSet
     else if k = RedisKeyConfig then Some THash
     else if HasPrefix k sessionKeyPrefix then Some TSession
     else if HasPrefix k credsKeyPrefix then Some TUserCreds
     else if HasPrefix k ''ssh_creds:'' then Some TSshCreds
     else if HasPrefix k ''email_code:'' then Some TText
     else None)"

definition typed :: "redis_db \<Rightarrow> bool" where
  "typed db = (\<forall>k v t. db k = Some (v, t) \<longrightarrow> key_type k = Some (value_type v))"

lemma key_types [simp]:
  "key_type sessionListKey = Some TSet" "key_type RedisKeyRetainedPIDs = Some TSet" "key_type RedisKeyConfig = Some THash"
  "key_type (meta_key u) = Some TSession" "key_type (getCredsKey u) = Some TUserCreds"
  "key_type (creds_key u) = Some TSshCreds" "key_type (code_key m) = Some TText"
  using meta_key_neq(1) [of u]
  by (auto simp: key_type_def sessionListKey_def RedisKeyRetainedPIDs_def RedisKeyConfig_def meta_key_def getCredsKey_def
      creds_key_def code_key_def sessionKeyPrefix_def credsKeyPrefix_def HasPrefix_def)

section \<open>Commands\<close>

lemma typed_put: "typed db \<Longrightarrow> key_type k = Some (value_type v) \<Longrightarrow> typed (db(k := Some (v, t)))"
  by (simp add: typed_def)

lemma typed_remove: "typed db \<Longrightarrow> typed (db(k := None))"
  by (simp add: typed_def)

lemma live_type: "typed db \<Longrightarrow> live now db k = Some v \<Longrightarrow> key_type k = Some (value_type v)"
  by (auto simp: live_def typed_def split: option.splits if_splits prod.splits)

lemma commands_typed:
  assumes "typed db"
  shows "key_type k = Some (value_type v) \<Longrightarrow> typed (fst (redis_Set err now k v ex db))" "typed (fst (redis_Del err k db))"
    "key_type k = Some TSet \<Longrightarrow> typed (fst (redis_SAdd err now k m db))" "key_type k = Some TSet \<Longrightarrow> typed (fst (redis_SRem err now k m db))"
    "key_type k = Some THash \<Longrightarrow> typed (fst (redis_HSet err now k fvs db))" "key_type k = Some THash \<Longrightarrow> typed (fst (redis_HDel err now k fs db))"
  using assms by (auto simp: redis_Set_def redis_Del_def redis_SAdd_def redis_SRem_def redis_HSet_def redis_HDel_def Let_def
      intro!: typed_put typed_remove split: sum.split)

text \<open>A command on a key of its own kind is never refused for the kind of the value.\<close>

lemma SMembers_typed: "typed db \<Longrightarrow> key_type k = Some TSet \<Longrightarrow> \<exists>ms. redis_SMembers False now k db = Ok ms"
  using live_type [of db now k] by (fastforce simp: redis_SMembers_def split: option.split redis_value.split)

lemma HGetAll_typed: "typed db \<Longrightarrow> key_type k = Some THash \<Longrightarrow> \<exists>h. redis_HGetAll False now k db = Ok h"
  using live_type [of db now k] by (fastforce simp: redis_HGetAll_def split: option.split redis_value.split)

lemma Get_typed:
  assumes "typed db" "key_type k = Some ty" "ty \<notin> {TSet, THash}"
  shows "redis_Get False now k db = Err RedisNil \<or> (\<exists>v. redis_Get False now k db = Ok v \<and> value_type v = ty)"
  using assms live_type [of db now k] by (fastforce simp: redis_Get_def split: option.split redis_value.split)

section \<open>Operations\<close>

lemma del_loop_typed: "typed db \<Longrightarrow> typed (del_loop each k us db)"
  by (induction each k us db rule: del_loop.induct) (simp_all add: commands_typed)

text \<open>The shape of the operations: a command, an early return on its error, and the rest.\<close>

lemma typed_then:
  assumes "typed (fst x)" "\<And>db. typed db \<Longrightarrow> typed (fst (f db))"
  shows "typed (fst (case x of (db, Inl err) \<Rightarrow> (db, g err) | (db, Inr u) \<Rightarrow> f db))"
  using assms by (auto split: prod.split sum.split)

lemma session_operations_typed:
  assumes "typed db"
  shows "typed (fst (SaveSession e now u name isRoot t db))" "typed (fst (meta_DeleteSession e now u db))"
    "typed (fst (DeleteUserCredentials e u db))" "typed (fst (SaveUserCredentials e now u name pwd t db))"
    "typed (fst (DeleteAllSessions it e now db))"
  using assms by (simp_all add: SaveSession_def meta_DeleteSession_def DeleteUserCredentials_def SaveUserCredentials_def DeleteAllSessions_def
      Let_def typed_then commands_typed del_loop_typed split: sum.split)

lemma session_reads_typed:
  assumes "typed db"
  shows "typed (fst (meta_UpdateLastUsed e now u t db))" "typed (fst (GetUserCredentials e now u db))"
  using assms by (simp_all add: meta_UpdateLastUsed_def GetUserCredentials_def typed_then commands_typed session_operations_typed
      split: sum.split redis_value.split error.split)

lemma cleanup_loop_typed: "typed (sy_redis s) \<Longrightarrow> typed (sy_redis (cleanup_loop e k ps s))"
  by (induction e k ps s rule: cleanup_loop.induct) (simp_all add: commands_typed split: option.split)

lemma kills_keep_redis: "sy_redis (fold (kill_expired e a b c) ds s) = sy_redis s"
  by (induction ds arbitrary: s) (simp_all add: kill_expired_def terminateProcess_def split: option.split)

lemma fst_typed: "typed (fst x) \<Longrightarrow> x = (db, r) \<Longrightarrow> typed db"
  by simp

lemma system_operations_typed:
  assumes "typed (sy_redis s)"
  shows "typed (sy_redis (fst (RetainProcess e pid s)))" "typed (sy_redis (fst (CancelRetain e pid s)))"
    "typed (sy_redis (fst (TerminateProcess e pid s)))" "typed (sy_redis (fst (UpdateConfig e b d s)))"
    "typed (sy_redis (checkAndTerminate e s))" "typed (sy_redis (cleanupRetainedTasks e s))"
  using assms fst_typed [OF commands_typed(3) [OF assms key_types(2)]] fst_typed [OF commands_typed(4) [OF assms key_types(2)]]
    fst_typed [OF commands_typed(5) [OF assms key_types(3)]]
  by (auto simp: RetainProcess_def CancelRetain_def TerminateProcess_def terminateProcess_def UpdateConfig_def checkAndTerminate_def
      cleanupRetainedTasks_def cleanup_loop_typed kills_keep_redis split: sum.split prod.split)

section \<open>Accounts\<close>

lemma machine_keeps_redis [simp]:
  "a_redis (fst (vm_run e c s)) = a_redis s" "a_redis (fst (createVMUser e u p s)) = a_redis s"
  "a_redis (fst (updateVMPassword e u p s)) = a_redis s" "a_redis (fst (deleteVMUser e u s)) = a_redis s"
  "a_redis (fst (vm_or_rollback e i u p s)) = a_redis s" "a_redis (fst (sync_password e v p s)) = a_redis s"
  by (auto simp: vm_run_def createVMUser_def updateVMPassword_def deleteVMUser_def vm_or_rollback_def sync_password_def Let_def
      split: sum.split prod.split)

lemma and_then_typed:
  assumes "typed (a_redis (fst x))" "\<And>v s. typed (a_redis s) \<Longrightarrow> typed (a_redis (fst (k v s)))"
  shows "typed (a_redis (fst (and_then x k)))"
  using assms by (auto simp: and_then_def split: prod.split sum.split)

lemma drop_code_typed: "typed (a_redis s) \<Longrightarrow> typed (a_redis (drop_code e m s))"
  by (simp add: drop_code_def commands_typed)

lemma case_typed:
  "(\<And>x. typed (a_redis (fst (f x)))) \<Longrightarrow> (\<And>y. typed (a_redis (fst (g y)))) \<Longrightarrow> typed (a_redis (fst (case r of Inl x \<Rightarrow> f x | Inr y \<Rightarrow> g y)))"
  "typed (a_redis (fst a)) \<Longrightarrow> (\<And>x. typed (a_redis (fst (h x)))) \<Longrightarrow> typed (a_redis (fst (case q of None \<Rightarrow> a | Some x \<Rightarrow> h x)))"
  "(\<And>x y. typed (a_redis (fst (p x y)))) \<Longrightarrow> typed (a_redis (fst (case z of (x, y) \<Rightarrow> p x y)))"
  "typed (a_redis (fst a)) \<Longrightarrow> typed (a_redis (fst b)) \<Longrightarrow> typed (a_redis (fst (if c then a else b)))"
  "(\<And>x. typed (a_redis (fst (l x)))) \<Longrightarrow> typed (a_redis (fst (let x = v in l x)))"
  by (simp_all split: sum.split option.split prod.split)

lemma pair_typed: "typed (a_redis s) \<Longrightarrow> typed (a_redis (fst (s, r)))"
  by simp

lemma on_dir_typed: "typed (a_redis s) \<Longrightarrow> typed (a_redis (fst (on_dir f s)))"
  "typed (a_redis s) \<Longrightarrow> typed (a_redis (fst (vm_or_rollback e i u p s)))"
  "typed (a_redis s) \<Longrightarrow> typed (a_redis (fst (sync_password e v p s)))"
  by simp_all

lemmas typed_rules = case_typed and_then_typed on_dir_typed drop_code_typed pair_typed

lemma Register_typed: "typed (a_redis s) \<Longrightarrow> typed (a_redis (fst (Register e now req s)))"
  unfolding Register_def Let_def by (intro typed_rules; simp add: drop_code_typed)

lemma CreateUser_typed: "typed (a_redis s) \<Longrightarrow> typed (a_redis (fst (CreateUser e now req s)))"
  unfolding CreateUser_def by (intro typed_rules; assumption)

lemma removal_typed:
  "typed (a_redis s) \<Longrightarrow> typed (a_redis (fst (case deleteVMUser e u s of (s1, Inl x) \<Rightarrow> (s1, f x) | (s1, Inr y) \<Rightarrow> (s1, g y))))"
  using machine_keeps_redis(4) [of e u s] by (cases "deleteVMUser e u s") (auto simp del: machine_keeps_redis split: sum.split)

lemma DeleteUser_typed: "typed (a_redis s) \<Longrightarrow> typed (a_redis (fst (DeleteUser e i s)))"
  unfolding DeleteUser_def by (intro case_typed(1,3) and_then_typed on_dir_typed) (simp_all add: removal_typed)

lemma ChangePassword_typed: "typed (a_redis s) \<Longrightarrow> typed (a_redis (fst (ChangePassword e now i req s)))"
  unfolding ChangePassword_def by (intro typed_rules; assumption)

lemma ResetPassword_typed: "typed (a_redis s) \<Longrightarrow> typed (a_redis (fst (ResetPassword e now req s)))"
  unfolding ResetPassword_def by (intro typed_rules; assumption)

lemma profile_typed:
  "typed (a_redis s) \<Longrightarrow> typed (a_redis (fst (UpdateProfile e now i req s)))"
  "typed (a_redis s) \<Longrightarrow> typed (a_redis (fst (UpdateAvatar e now i path s)))"
  unfolding UpdateProfile_def UpdateAvatar_def Let_def by (intro typed_rules; simp)+

lemma AdminUpdateUser_typed: "typed (a_redis s) \<Longrightarrow> typed (a_redis (fst (AdminUpdateUser e now i req s)))"
  unfolding AdminUpdateUser_def admin_password_def by (intro typed_rules; assumption)

lemma session_requests_typed:
  assumes "typed (a_redis s)"
  shows "typed (a_redis (fst (Login e tk go ferr now lreq s)))" "typed (a_redis (fst (Logout e se now i s)))"
    "typed (a_redis (fst (EnsureSSHSession e se answers ferr now i s)))" "typed (a_redis (fst (SendEmailCode e now n m s)))"
proof -
  have save: "typed (a_redis (fst (saveUserCredentialsToRedis e now u name p s)))" for u name p
    using fst_typed [OF commands_typed(1) [OF assms, of "creds_key u" "RSshCreds _"]] by (auto simp: saveUserCredentialsToRedis_def split: prod.split sum.split)
  then show "typed (a_redis (fst (Login e tk go ferr now lreq s)))" unfolding Login_def Let_def
    using assms by (intro typed_rules; simp)
  show "typed (a_redis (fst (Logout e se now i s)))"
    using assms by (simp add: Logout_def Let_def session_operations_typed commands_typed)
  show "typed (a_redis (fst (SendEmailCode e now n m s)))"
    using fst_typed [OF commands_typed(1) [OF assms, of "code_key m" "RText _"]] by (auto simp: SendEmailCode_def split: prod.split sum.split)
  show "typed (a_redis (fst (EnsureSSHSession e se answers ferr now i s)))"
    using assms by (auto simp: EnsureSSHSession_def EnsureSSHSessionByType_def session_operations_typed split: sum.split option.split prod.split)
qed


section \<open>Type soundness\<close>

text \<open>One operation of any service on the store, or the expiry of a key.\<close>

inductive redis_step :: "redis_db \<Rightarrow> redis_db \<Rightarrow> bool" where
  by_account: "acc_step w base s s' \<Longrightarrow> redis_step (a_redis s) (a_redis s')"
| by_save: "redis_step db (fst (SaveSession e now u name isRoot t db))"
| by_delete: "redis_step db (fst (meta_DeleteSession e now u db))"
| by_delete_all: "redis_step db (fst (DeleteAllSessions it e now db))"
| by_use: "redis_step db (fst (meta_UpdateLastUsed e now u t db))"
| by_save_creds: "redis_step db (fst (SaveUserCredentials e now u name pwd t db))"
| by_get_creds: "redis_step db (fst (GetUserCredentials e now u db))"
| by_delete_creds: "redis_step db (fst (DeleteUserCredentials e u db))"
| by_retain: "redis_step (sy_redis y) (sy_redis (fst (RetainProcess x pid y)))"
| by_cancel: "redis_step (sy_redis y) (sy_redis (fst (CancelRetain x pid y)))"
| by_terminate: "redis_step (sy_redis y) (sy_redis (fst (TerminateProcess x pid y)))"
| by_config: "redis_step (sy_redis y) (sy_redis (fst (UpdateConfig x b d y)))"
| by_check: "redis_step (sy_redis y) (sy_redis (checkAndTerminate x y))"
| by_cleanup: "redis_step (sy_redis y) (sy_redis (cleanupRetainedTasks x y))"
| by_expiry: "redis_step db (db(k := None))"

lemma controllers_typed:
  assumes "typed (a_redis s)"
  shows "typed (a_redis (fst (ctrl_Register e now req s)))" "typed (a_redis (fst (ctrl_CreateUser e now creq s)))"
    "typed (a_redis (fst (ctrl_ChangePassword e now i cpreq s)))" "typed (a_redis (fst (ctrl_ResetPassword e now rreq s)))"
    "typed (a_redis (fst (ctrl_Login e tk go ferr now lreq s)))" "typed (a_redis (fst (ctrl_UpdateProfile e now i preq s)))"
  using assms Register_typed [OF assms, of e now req] CreateUser_typed [OF assms, of e now creq] ChangePassword_typed [OF assms, of e now i cpreq]
    ResetPassword_typed [OF assms, of e now rreq] session_requests_typed(1) [OF assms, of e tk go ferr now lreq] profile_typed(1) [OF assms, of e now i preq]
  by (auto simp: ctrl_Register_def ctrl_CreateUser_def ctrl_ChangePassword_def ctrl_ResetPassword_def ctrl_Login_def ctrl_UpdateProfile_def
      split: sum.split prod.splits)

lemma acc_step_typed:
  assumes "acc_step w base s s'" "typed (a_redis s)"
  shows "typed (a_redis s')"
  using assms by cases (simp_all add: controllers_typed DeleteUser_typed profile_typed AdminUpdateUser_typed session_requests_typed)

lemma redis_step_typed: "redis_step db db' \<Longrightarrow> typed db \<Longrightarrow> typed db'"
  by (induction rule: redis_step.induct)
    (simp_all add: acc_step_typed session_operations_typed session_reads_typed system_operations_typed typed_remove)

lemma value_type_iff:
  "value_type v = TText \<longleftrightarrow> (\<exists>c. v = RText c)" "value_type v = TSession \<longleftrightarrow> (\<exists>i. v = RSession i)"
  "value_type v = TUserCreds \<longleftrightarrow> (\<exists>c. v = RUserCreds c)" "value_type v = TSshCreds \<longleftrightarrow> (\<exists>c. v = RSshCreds c)"
  by (cases v; simp)+

lemma reads_typed:
  assumes "typed db"
  shows "redis_Get False now (meta_key u) db = Err RedisNil \<or> (\<exists>i. redis_Get False now (meta_key u) db = Ok (RSession i))"
    "redis_Get False now (getCredsKey u) db = Err RedisNil \<or> (\<exists>c. redis_Get False now (getCredsKey u) db = Ok (RUserCreds c))"
    "redis_Get False now (creds_key u) db = Err RedisNil \<or> (\<exists>c. redis_Get False now (creds_key u) db = Ok (RSshCreds c))"
    "redis_Get False now (code_key m) db = Err RedisNil \<or> (\<exists>c. redis_Get False now (code_key m) db = Ok (RText c))"
  using Get_typed [OF assms key_types(4), of now u] Get_typed [OF assms key_types(5), of now u]
    Get_typed [OF assms key_types(6), of now u] Get_typed [OF assms key_types(7), of now m]
  by (auto simp: value_type_iff)

lemma GetSessionInfo_typed:
  "typed db \<Longrightarrow> GetSessionInfo redis_up now u db = Err (Errorf ''no session'') \<or> (\<exists>i. GetSessionInfo redis_up now u db = Ok i)"
  using reads_typed(1) [of db now u] by (auto simp: GetSessionInfo_def)

lemma GetUserCredentials_typed:
  "typed db \<Longrightarrow> snd (GetUserCredentials redis_up now u db) \<in> {Err (Errorf ''credentials missing''), Err (Errorf ''credentials expired'')} \<union> range Ok"
  using reads_typed(2) [of db now u] by (auto simp: GetUserCredentials_def split: if_splits)



end
