(* ===== verification/Workers.thy ===== *)
theory Workers
  imports RedisTypes SchedulerSafety
begin

text \<open>
  The background goroutines: ResourceCollector (internal/service/systemInfo_service.go),
  HomeOverviewCollector (internal/service/home_service.go), and the two loops of the scheduler, run
  and startAuditor (internal/service/scheduler_service.go).

  Each is a group of loops that share a context and a wait group: a loop selects between its ticker
  and the end of the context, Stop cancels the context and waits until every loop has returned. A
  panic in a tick ends the program, so a tick has a result. What other parts of the program do to
  the shared state in between is the environment of a group.
\<close>

section \<open>Groups of loops\<close>

record ('l, 's) group =
  gr_once :: bool
  gr_cancelled :: bool
  gr_loops :: "'l list"
  gr_state :: 's

definition new_group :: "'s \<Rightarrow> ('l, 's) group" where
  "new_group s = \<lparr> gr_once = False, gr_cancelled = False, gr_loops = [], gr_state = s \<rparr>"

text \<open>Once.Do: the loops are started by the first call only.\<close>

definition group_Start :: "'l list \<Rightarrow> ('l, 's) group \<Rightarrow> ('l, 's) group" where
  "group_Start loops g = (if gr_once g then g else g\<lparr> gr_once := True, gr_loops := loops \<rparr>)"

text \<open>The two cases of the select. The ticker may win although the context has ended.\<close>

definition group_tick :: "('l \<Rightarrow> 'e \<Rightarrow> 's \<Rightarrow> 's result) \<Rightarrow> 'l \<Rightarrow> 'e \<Rightarrow> ('l, 's) group \<Rightarrow> ('l, 's) group result" where
  "group_tick body l e g = (if l \<notin> set (gr_loops g) then Ok g
     else case body l e (gr_state g) of Inl err \<Rightarrow> Err err | Inr s \<Rightarrow> Ok (g\<lparr> gr_state := s \<rparr>))"

definition group_done :: "'l \<Rightarrow> ('l, 's) group \<Rightarrow> ('l, 's) group" where
  "group_done l g = (if gr_cancelled g then g\<lparr> gr_loops := removeAll l (gr_loops g) \<rparr> else g)"

text \<open>Stop, in two halves: it cancels, and it returns when the wait group is empty.\<close>

definition group_cancel :: "('l, 's) group \<Rightarrow> ('l, 's) group" where
  "group_cancel g = g\<lparr> gr_cancelled := True \<rparr>"

definition group_stopped :: "('l, 's) group \<Rightarrow> bool" where
  "group_stopped g \<longleftrightarrow> gr_cancelled g \<and> gr_loops g = []"

text \<open>The life of a group, with the environment acting on the state within an invariant.\<close>

inductive group_reach :: "'l list \<Rightarrow> ('l \<Rightarrow> 'e \<Rightarrow> 's \<Rightarrow> 's result) \<Rightarrow> ('s \<Rightarrow> bool) \<Rightarrow> ('l, 's) group \<Rightarrow> bool"
  for loops body inv where
  reach_new: "inv s \<Longrightarrow> group_reach loops body inv (new_group s)"
| reach_start: "group_reach loops body inv g \<Longrightarrow> group_reach loops body inv (group_Start loops g)"
| reach_tick: "group_reach loops body inv g \<Longrightarrow> group_tick body l e g = Ok h \<Longrightarrow> group_reach loops body inv h"
| reach_done: "group_reach loops body inv g \<Longrightarrow> group_reach loops body inv (group_done l g)"
| reach_cancel: "group_reach loops body inv g \<Longrightarrow> group_reach loops body inv (group_cancel g)"
| reach_other: "group_reach loops body inv g \<Longrightarrow> inv s \<Longrightarrow> group_reach loops body inv (g\<lparr> gr_state := s \<rparr>)"

text \<open>A result that is a value with a property, and no error or panic.\<close>

definition ends_in :: "('a \<Rightarrow> bool) \<Rightarrow> 'a result \<Rightarrow> bool" where
  "ends_in P r = (case r of Inl _ \<Rightarrow> False | Inr t \<Rightarrow> P t)"

lemma ends_in_simps [simp]: "ends_in P (Ok t) = P t" "\<not> ends_in P (Err x)" "ends_in P (map_sum id f r) = ends_in (P \<circ> f) r"
  by (simp_all add: ends_in_def split: sum.split)

lemma ends_inE: "ends_in P r \<Longrightarrow> (\<And>t. r = Ok t \<Longrightarrow> P t \<Longrightarrow> Q) \<Longrightarrow> Q"
  by (cases r) (simp_all add: ends_in_def)

locale loop_group =
  fixes loops :: "'l list" and body :: "'l \<Rightarrow> 'e \<Rightarrow> 's \<Rightarrow> 's result" and inv :: "'s \<Rightarrow> bool"
  assumes distinct_loops: "distinct loops"
    and body_keeps: "inv s \<Longrightarrow> ends_in inv (body l e s)"
begin

lemma reach_ok: "group_reach loops body inv g \<Longrightarrow> inv (gr_state g) \<and> distinct (gr_loops g) \<and> set (gr_loops g) \<subseteq> set loops"
proof (induction rule: group_reach.induct)
  case (reach_tick g l e h)
  then show ?case using body_keeps [of "gr_state g" l e] by (fastforce simp: group_tick_def elim!: ends_inE split: if_splits)
qed (use distinct_loops in \<open>auto simp: new_group_def group_Start_def group_done_def group_cancel_def distinct_removeAll\<close>)

lemma tick_total: "group_reach loops body inv g \<Longrightarrow> \<exists>h. group_tick body l e g = Ok h"
  using reach_ok [of g] body_keeps [of "gr_state g" l e] by (auto simp: group_tick_def elim!: ends_inE)

text \<open>Once Stop has returned nothing of the group acts any more, and Start does not revive it.\<close>

lemma stopped_quiet:
  assumes "group_stopped g" "gr_once g"
  shows "group_tick body l e g = Ok g \<and> group_Start loops g = g \<and> group_done l g = g"
  using assms by (simp add: group_stopped_def group_tick_def group_Start_def group_done_def)

text \<open>Stop returns as soon as each loop has seen the end of the context, without touching the state.\<close>

lemma done_all:
  assumes "gr_cancelled g"
  shows "fold group_done ls g = g\<lparr> gr_loops := filter (\<lambda>l. l \<notin> set ls) (gr_loops g) \<rparr>"
  using assms
proof (induction ls arbitrary: g)
  case (Cons l ls)
  let ?g = "g\<lparr> gr_loops := removeAll l (gr_loops g) \<rparr>"
  have "filter (\<lambda>x. x \<notin> set ls) (removeAll l (gr_loops g)) = filter (\<lambda>x. x \<notin> set (l # ls)) (gr_loops g)"
    by (auto simp: removeAll_filter_not_eq intro: filter_cong)
  then show ?case using Cons.IH [of ?g] Cons.prems by (simp add: group_done_def)
qed simp

lemma stop_returns:
  assumes "group_reach loops body inv g"
  shows "group_stopped (fold group_done loops (group_cancel g)) \<and> gr_state (fold group_done loops (group_cancel g)) = gr_state g"
  using reach_ok [OF assms] done_all [of "group_cancel g" loops] by (auto simp: group_cancel_def group_stopped_def filter_empty_conv)

end

section \<open>The resource collector\<close>

datatype resource_loop = InfoPusher | AutoTerminator | RetainedTaskCleaner

definition resource_loops :: "resource_loop list" where
  "resource_loops = [InfoPusher, AutoTerminator, RetainedTaskCleaner]"

record resource_event =
  rv_env :: sys_env
  rv_fmt :: "int \<Rightarrow> string"
  rv_usage :: "string \<Rightarrow> disk_usage option"
  rv_mem :: "(nat \<times> nat \<times> rat) option"
  rv_report :: cmd_answer
  rv_json :: "SystemInfosResponse \<Rightarrow> string option"

definition startInfoPusher :: "resource_event \<Rightarrow> ConnectionPool \<times> sysinfo \<Rightarrow> (ConnectionPool \<times> sysinfo) result" where
  "startInfoPusher e = (\<lambda>(p, s). map_sum id (\<lambda>q. (q, s))
     (push_info (rv_json e) (collectSystemInfo (rv_fmt e) (rv_usage e) (rv_mem e) (rv_report e) (rv_env e) s) p))"

definition startAutoTerminator :: "resource_event \<Rightarrow> ConnectionPool \<times> sysinfo \<Rightarrow> (ConnectionPool \<times> sysinfo) result" where
  "startAutoTerminator e = (\<lambda>(p, s). Ok (p, checkAndTerminate (rv_env e) s))"

definition startRetainedTaskCleaner :: "resource_event \<Rightarrow> ConnectionPool \<times> sysinfo \<Rightarrow> (ConnectionPool \<times> sysinfo) result" where
  "startRetainedTaskCleaner e = (\<lambda>(p, s). Ok (p, cleanupRetainedTasks (rv_env e) s))"

text \<open>A tick of the loop with the name.\<close>

definition resource_tick :: "resource_loop \<Rightarrow> resource_event \<Rightarrow> ConnectionPool \<times> sysinfo \<Rightarrow> (ConnectionPool \<times> sysinfo) result" where
  "resource_tick l = (case l of
     InfoPusher \<Rightarrow> startInfoPusher
   | AutoTerminator \<Rightarrow> startAutoTerminator
   | RetainedTaskCleaner \<Rightarrow> startRetainedTaskCleaner)"

lemmas resource_ticks = resource_tick_def startInfoPusher_def startAutoTerminator_def startRetainedTaskCleaner_def

definition resource_inv :: "ConnectionPool \<times> sysinfo \<Rightarrow> bool" where
  "resource_inv = (\<lambda>(p, s). pool_inv p \<and> typed (sy_redis s))"

lemma broadcast_keeps: "pool_inv p \<Longrightarrow> ends_in pool_inv (BroadcastToAdminsByType t data p)"
  using broadcast_spec [of p t data] inv_step [OF step_Broadcast, of t data p] by auto

lemma push_info_keeps: "pool_inv p \<Longrightarrow> ends_in pool_inv (push_info j i p)"
  by (simp add: push_info_def broadcast_keeps split: option.split)

lemma push_overview_keeps: "pool_inv p \<Longrightarrow> ends_in pool_inv (push_overview j i p)"
  by (simp add: push_overview_def broadcast_keeps split: option.split sum.split)

lemma resource_tick_keeps: "resource_inv s \<Longrightarrow> ends_in resource_inv (resource_tick l e s)"
  using push_info_keeps [of "fst s"] system_operations_typed(5,6) [of "snd s"]
  by (cases l) (auto simp: resource_ticks resource_inv_def comp_def split: prod.splits)

interpretation resource: loop_group resource_loops resource_tick resource_inv
  by unfold_locales (simp_all add: resource_loops_def resource_tick_keeps)

section \<open>The collector of the home page\<close>

record home_event =
  hv_env :: sys_env
  hv_fmt :: "int \<Rightarrow> string"
  hv_report :: cmd_answer
  hv_queue :: "HomeQueueSummary result"
  hv_json :: "HomeOverviewResponse \<Rightarrow> string option"

definition home_loops :: "unit list" where "home_loops = [()]"

definition home_tick :: "unit \<Rightarrow> home_event \<Rightarrow> ConnectionPool \<times> sysinfo \<Rightarrow> (ConnectionPool \<times> sysinfo) result" where
  "home_tick l e = (\<lambda>(p, s). map_sum id (\<lambda>q. (q, s))
     (push_overview (hv_json e) (GetOverview (hv_fmt e) (hv_report e) (hv_queue e) (hv_env e) s) p))"

lemma home_tick_keeps: "resource_inv s \<Longrightarrow> ends_in resource_inv (home_tick l e s)"
  using push_overview_keeps [of "fst s"] by (auto simp: home_tick_def resource_inv_def comp_def split: prod.splits)

interpretation home: loop_group home_loops home_tick resource_inv
  by unfold_locales (simp_all add: home_loops_def home_tick_keeps)

section \<open>The loops of the scheduler\<close>

datatype sched_loop = RunLoop | AuditLoop

definition sched_loops :: "sched_loop list" where "sched_loops = [RunLoop, AuditLoop]"

record sched_event =
  sv_queue :: queue_env
  sv_audit :: recover_env
  sv_now :: int

definition run :: "sched_event \<Rightarrow> sched \<Rightarrow> sched result" where
  "run e s = Ok (processQueue (sv_queue e) (sv_now e) s)"

definition startAuditor :: "sched_event \<Rightarrow> sched \<Rightarrow> sched result" where
  "startAuditor e s = Ok (auditRunningJobs (sv_audit e) (sv_now e) s)"

definition sched_tick :: "sched_loop \<Rightarrow> sched_event \<Rightarrow> sched \<Rightarrow> sched result" where
  "sched_tick l = (case l of RunLoop \<Rightarrow> run | AuditLoop \<Rightarrow> startAuditor)"

text \<open>What a tick never changes: which jobs there are and to whom they belong.\<close>

definition job_owners :: "sched \<Rightarrow> (int \<times> int) list" where
  "job_owners s = map (\<lambda>j. (job_ID j, job_UserId j)) (sc_jobs s)"

lemma owners_status: "UpdateStatus err now (sc_jobs s) i st = Ok t \<Longrightarrow> map (\<lambda>j. (job_ID j, job_UserId j)) t = job_owners s"
  by (auto simp: job_owners_def UpdateStatus_def set_status_def split: if_splits)

lemma owners_same [simp]:
  "job_owners (try_status err now i st s) = job_owners s" "job_owners (try_release err2 n ids s) = job_owners s"
  "job_owners (try_remove err3 k s) = job_owners s" "job_owners (try_DelPid err4 pid s) = job_owners s"
  "job_owners (try_proc_Update err5 p s) = job_owners s"
  by (auto simp: try_status_def owners_status split: sum.splits) (simp_all add: job_owners_def owners_status)

lemma owners_executeJob: "job_owners (fst (executeJob e now s job ids)) = job_owners s"
proof -
  have prep: "job_owners (fst (exec_prepare e now s job ids)) = job_owners s"
    by (auto simp: exec_prepare_def Let_def split: sum.split) (simp_all add: job_owners_def owners_status)
  have track: "job_owners (fst (exec_track e now u job ids pid)) = job_owners u" for u pid
    by (auto simp: exec_track_def job_owners_def Let_def split: sum.split prod.split)
  show ?thesis using prep track by (auto simp: executeJob_def abort_job_def split: sum.split prod.split)
qed

lemma owners_processQueue: "job_owners (processQueue e now s) = job_owners s"
proof -
  have head: "job_owners (serve_head e now u) = job_owners u" for u
    by (simp add: serve_head_def owners_executeJob Let_def split: sum.split option.split bool.split)
  have "job_owners (releaseQueueLock err t u) = job_owners u" for err t u by (simp add: releaseQueueLock_def job_owners_def)
  moreover have "job_owners (fst (acquireQueueLock err t s)) = job_owners s" for err t
    by (simp add: acquireQueueLock_def job_owners_def split: option.split)
  ultimately show ?thesis using head by (simp add: processQueue_def split: prod.split bool.split) (metis fst_conv)
qed

lemma owners_audit: "job_owners (auditRunningJobs e now s) = job_owners s"
proof -
  have miss: "job_owners (handleMissingProcess me now job p u) = job_owners u" for me job p u
    by (simp add: handleMissingProcess_def Let_def split: option.split)
  have "job_owners (audit_process e now job u p) = job_owners u" for job u p
    by (simp add: audit_process_def miss split: sum.split)
  then have "job_owners (audit_job e now u job) = job_owners u" for u job
    by (simp add: audit_job_def miss foldl_same split: sum.split)
  then show ?thesis by (simp add: auditRunningJobs_def foldl_same split: sum.split)
qed

lemma sched_tick_keeps: "job_owners s = js \<Longrightarrow> ends_in (\<lambda>t. job_owners t = js) (sched_tick l e s)"
  by (cases l) (simp_all add: sched_tick_def run_def startAuditor_def owners_processQueue owners_audit)

interpretation scheduler: loop_group sched_loops sched_tick "\<lambda>s. job_owners s = js" for js
  by unfold_locales (simp_all add: sched_loops_def sched_tick_keeps)

section \<open>Stopping\<close>

text \<open>
  The collectors work and stop as they should, whatever the rest of the program does to the pool and
  to Redis within their invariants: no tick panics, and every tick leaves the pool consistent and
  the store well typed; Stop returns once each loop has seen the end of the context and does
  not touch the state; after that neither a tick nor a second Start has any effect.
\<close>

theorem resource_collector_stops:
  assumes "group_reach resource_loops resource_tick resource_inv g"
  shows "(\<exists>h. group_tick resource_tick l e g = Ok h) \<and> resource_inv (gr_state g) \<and>
    group_stopped (fold group_done resource_loops (group_cancel g)) \<and>
    gr_state (fold group_done resource_loops (group_cancel g)) = gr_state g \<and>
    (group_stopped g \<and> gr_once g \<longrightarrow> group_tick resource_tick l e g = Ok g \<and> group_Start resource_loops g = g)"
  using resource.tick_total [OF assms, of l e] resource.reach_ok [OF assms] resource.stop_returns [OF assms]
    resource.stopped_quiet [of g l e] by blast

theorem home_collector_stops:
  assumes "group_reach home_loops home_tick resource_inv g"
  shows "(\<exists>h. group_tick home_tick l e g = Ok h) \<and> resource_inv (gr_state g) \<and>
    group_stopped (fold group_done home_loops (group_cancel g)) \<and>
    (group_stopped g \<and> gr_once g \<longrightarrow> group_tick home_tick l e g = Ok g \<and> group_Start home_loops g = g)"
  using home.tick_total [OF assms, of l e] home.reach_ok [OF assms] home.stop_returns [OF assms]
    home.stopped_quiet [of g l e] by blast

text \<open>The loops of the scheduler never add, delete or reassign a job.\<close>

theorem scheduler_keeps_jobs:
  assumes "group_reach sched_loops sched_tick (\<lambda>s. job_owners s = js) g"
  shows "job_owners (gr_state g) = js \<and> (\<exists>h. group_tick sched_tick l e g = Ok h)"
  using scheduler.tick_total [OF assms, of l e] scheduler.reach_ok [OF assms] by blast

end
