(* ===== verification/SshClient.thy ===== *)
theory SshClient
  imports GoPath
begin

text \<open>
  The rest of pkg/server/client.go: terminal sessions on an SSH client, the upload of a local file,
  and closing. Connecting is in the theory SshSessions, running commands in the theory Exec.

  The SSH library answers through an environment that holds the error of each call. An error of this
  file has its own text and wraps another one, or nothing when a nil error was wrapped.
\<close>

section \<open>Terminal sessions\<close>

datatype client_error = ClientError string "string option"

record ssh_session =
  ss_open :: bool
  ss_pty :: "(int \<times> int) option"
  ss_stdin :: bool
  ss_shell :: bool

record pty_env =
  pe_session :: "string option"
  pe_pty :: "string option"
  pe_stdin :: "string option"
  pe_shell :: "string option"
  pe_close :: "string option"

definition open_session :: ssh_session where
  "open_session = \<lparr> ss_open = True, ss_pty = None, ss_stdin = False, ss_shell = False \<rparr>"

text \<open>
  The branch that all three failures take: the session is closed, and the error of the closing,
  which hides the one that led here, is wrapped, be it nil or not.
\<close>

definition give_up :: "pty_env \<Rightarrow> string \<Rightarrow> ssh_session \<Rightarrow> ssh_session option \<times> (client_error + ssh_session)" where
  "give_up e what s = (case pe_close e of
     Some err \<Rightarrow> (Some s, Inl (ClientError ''close session'' (Some err)))
   | None \<Rightarrow> (Some (s\<lparr> ss_open := False \<rparr>), Inl (ClientError what None)))"

text \<open>The SSH session as it is left, if one was created, and the answer.\<close>

definition NewTerminalSession :: "pty_env \<Rightarrow> int \<Rightarrow> int \<Rightarrow> ssh_session option \<times> (client_error + ssh_session)" where
  "NewTerminalSession e cols rows = (case pe_session e of
     Some err \<Rightarrow> (None, Inl (ClientError ''create session'' (Some err)))
   | None \<Rightarrow>
      (let s0 = open_session;
           cols = (if cols = 0 then 80 else cols);
           rows = (if rows = 0 then 24 else rows)
       in if pe_pty e \<noteq> None then give_up e ''request PTY'' s0
          else let s1 = s0\<lparr> ss_pty := Some (rows, cols) \<rparr> in
            if pe_stdin e \<noteq> None then give_up e ''stdin'' s1
            else let s2 = s1\<lparr> ss_stdin := True \<rparr> in
              if pe_shell e \<noteq> None then give_up e ''start shell'' s2
              else let s3 = s2\<lparr> ss_shell := True \<rparr> in (Some s3, Inr s3)))"

text \<open>Resize and Close of a TerminalSession, whose session may be nil.\<close>

definition Resize :: "string option \<Rightarrow> int \<Rightarrow> int \<Rightarrow> ssh_session option \<Rightarrow> ssh_session option \<times> (client_error + unit)" where
  "Resize answer cols rows ts = (case ts of
     None \<Rightarrow> (None, Inl (ClientError ''no session'' None))
   | Some s \<Rightarrow> (case answer of
       Some err \<Rightarrow> (ts, Inl (ClientError err None))
     | None \<Rightarrow> (Some (s\<lparr> ss_pty := Some (rows, cols) \<rparr>), Inr ())))"

definition Close_terminal :: "string option \<Rightarrow> ssh_session option \<Rightarrow> ssh_session option \<times> (client_error + unit)" where
  "Close_terminal answer ts = (case ts of
     None \<Rightarrow> (None, Inr ())
   | Some s \<Rightarrow> (case answer of
       Some err \<Rightarrow> (ts, Inl (ClientError err None))
     | None \<Rightarrow> (Some (s\<lparr> ss_open := False \<rparr>), Inr ())))"

section \<open>The client\<close>

record ssh_client =
  sl_ssh :: "bool option"
  sl_sftp :: "bool option"

text \<open>
  None is a nil client, True an open one. Errors of the two calls are dropped, so that Close has no
  error to report.
\<close>

definition Close_client :: "ssh_client \<Rightarrow> ssh_client \<times> unit result" where
  "Close_client c = (c\<lparr> sl_sftp := map_option (\<lambda>_. False) (sl_sftp c), sl_ssh := map_option (\<lambda>_. False) (sl_ssh c) \<rparr>, Ok ())"

definition GetSFTPClient :: "ssh_client \<Rightarrow> bool option" where
  "GetSFTPClient c = sl_sftp c"

definition GetSSHClient :: "ssh_client \<Rightarrow> bool option" where
  "GetSSHClient c = sl_ssh c"

section \<open>Uploading a local file\<close>

record remote_files =
  rf_dirs :: "string set"
  rf_files :: "string \<rightharpoonup> string"

record copy_env =
  ce_local :: "string \<Rightarrow> string option"
  ce_mkdir :: bool
  ce_create :: bool
  ce_copied :: "nat option"

definition MkdirAll :: "bool \<Rightarrow> string \<Rightarrow> remote_files \<Rightarrow> remote_files \<times> unit result" where
  "MkdirAll err p r = (if err then (r, Err SshError) else (r\<lparr> rf_dirs := insert p (rf_dirs r) \<rparr>, Ok ()))"

text \<open>io.Copy: all of the file, or the first \<open>ce_copied\<close> bytes when it fails.\<close>

definition UploadFile_client :: "copy_env \<Rightarrow> string \<Rightarrow> string \<Rightarrow> remote_files \<Rightarrow> remote_files \<times> unit result" where
  "UploadFile_client e localPath remotePath r = (case ce_local e localPath of
     None \<Rightarrow> (r, Err (Errorf ''open local file''))
   | Some content \<Rightarrow> (case MkdirAll (ce_mkdir e) (path_Dir remotePath) r of
       (r1, Inl _) \<Rightarrow> (r1, Err (Errorf ''create remote directory''))
     | (r1, Inr _) \<Rightarrow>
        (if ce_create e then (r1, Err (Errorf ''create remote file''))
         else case ce_copied e of
           Some n \<Rightarrow> (r1\<lparr> rf_files := (rf_files r1)(remotePath \<mapsto> take n content) \<rparr>, Err (Errorf ''upload''))
         | None \<Rightarrow> (r1\<lparr> rf_files := (rf_files r1)(remotePath \<mapsto> content) \<rparr>, Ok ()))))"

section \<open>Properties\<close>

text \<open>
  A terminal session is handed out complete, with a PTY of the size asked for (80 by 24 where
  nothing was asked) and a shell, and on every failing path the SSH session that was created is
  closed, unless the closing itself fails.
\<close>

theorem terminal_session_complete:
  assumes "NewTerminalSession e cols rows = (left, res)"
  shows "(\<forall>s. res = Inr s \<longrightarrow> left = Some s \<and> ss_open s \<and> ss_stdin s \<and> ss_shell s \<and>
      ss_pty s = Some (if rows = 0 then 24 else rows, if cols = 0 then 80 else cols)) \<and>
    (\<forall>err s. res = Inl err \<longrightarrow> left = Some s \<longrightarrow> pe_close e = None \<longrightarrow> \<not> ss_open s) \<and>
    (\<not> isl res \<longleftrightarrow> pe_session e = None \<and> pe_pty e = None \<and> pe_stdin e = None \<and> pe_shell e = None)"
  using assms by (auto simp: NewTerminalSession_def give_up_def open_session_def Let_def split: option.splits if_splits)

text \<open>
  The reason why a PTY, the standard input or the shell was refused never reaches the caller: the
  variable of the error is declared anew for the closing, and what is wrapped is that one.
\<close>

theorem terminal_error_loses_cause:
  assumes "pe_session e = None" "snd (NewTerminalSession e cols rows) = Inl (ClientError what cause)"
  shows "cause = pe_close e"
  using assms by (auto simp: NewTerminalSession_def give_up_def Let_def split: option.splits if_splits)

text \<open>An upload of a local file leaves exactly its content, and a broken copy leaves an initial part behind.\<close>

theorem upload_file_content:
  assumes "UploadFile_client e l p r = (r', res)"
  shows "(is_ok res \<longrightarrow> rf_files r' = (rf_files r)(p := ce_local e l) \<and> path_Dir p \<in> rf_dirs r') \<and>
    (\<not> is_ok res \<longrightarrow> (\<forall>q. q \<noteq> p \<longrightarrow> rf_files r' q = rf_files r q))"
  using assms by (auto simp: UploadFile_client_def MkdirAll_def split: option.splits if_splits)

end
