(* ===== verification/App.thy ===== *)
theory App
  imports Handlers OperationLog DiskUsage SchedulerSafety
begin

text \<open>
  The life of the program: internal/app/app.go. Initialize builds the components, Run starts the
  scheduler and the server, gracefulShutdown ends the components one after the other.

  The state is the components together. The constructors without effects on the modelled state (the
  repositories and most services) leave no trace in it; what is stored in MySQL and Redis is found
  as it was left, in the scheduler (queue, cards, processes) and in the rows of the operation log.
\<close>

section \<open>The components together\<close>

record App =
  ap_wsPool :: ConnectionPool
  ap_terminalSvc :: terminalService
  ap_scheduler :: sched
  ap_disk :: DiskUsageScheduler
  ap_info :: bool
  ap_home :: bool
  ap_logManager :: LogManager
  ap_logsClosed :: bool
  ap_serving :: bool
  ap_sessionManager :: "SessionManager option"
  ap_stores :: bool

definition NewTerminalService :: terminalService where
  "NewTerminalService = \<lparr> tm_sessions = [], tm_objects = (\<lambda>_. new_wrapper 0 0 False), tm_next = 0, tm_sent = [], tm_closed = [] \<rparr>"

text \<open>A new scheduler on the stored queue, cards and processes; the lock in Redis may be held from before.\<close>

definition NewScheduler :: "sched \<Rightarrow> sched" where
  "NewScheduler stored = stored\<lparr> sc_runningJobs := (\<lambda>_. None), sc_monitors := [], sc_isRunning := False \<rparr>"

text \<open>The disk job and both collectors are started with their services; the configuration may switch SSH off.\<close>

definition initDependencies :: "Config option \<Rightarrow> int \<Rightarrow> sched \<Rightarrow> UserOperationLog list \<Rightarrow> App" where
  "initDependencies server now stored rows = \<lparr>
     ap_wsPool = NewConnectionPool, ap_terminalSvc = NewTerminalService, ap_scheduler = NewScheduler stored,
     ap_disk = Start_disk now NewDiskUsageScheduler, ap_info = True, ap_home = True,
     ap_logManager = \<lparr> lm_logChan = [], lm_rows = rows \<rparr>, ap_logsClosed = False, ap_serving = False,
     ap_sessionManager = map_option NewSessionManager server, ap_stores = True \<rparr>"

record init_env =
  in_config :: bool
  in_logger :: bool
  in_mysql :: bool
  in_redis :: bool
  in_sync :: "sched \<Rightarrow> sched"

text \<open>
  Each flag makes its step fail. MySQL is an error of Initialize, Redis a panic. The cards are
  synchronised in between (\<open>in_sync\<close>, whose errors are only logged, as those of the migration).
\<close>

definition Initialize :: "init_env \<Rightarrow> Config option \<Rightarrow> int \<Rightarrow> sched \<Rightarrow> UserOperationLog list \<Rightarrow> App result" where
  "Initialize e server now stored rows =
     (if in_config e then Err (Errorf ''config'')
      else if in_logger e then Err (Errorf ''logger'')
      else if in_mysql e then Err (Errorf ''mysql'')
      else if in_redis e then Err (Panic ''redis'')
      else Ok (initDependencies server now (in_sync e stored) rows))"

text \<open>Run, up to the wait for the signal.\<close>

definition Run :: "recover_env \<Rightarrow> int \<Rightarrow> App \<Rightarrow> App" where
  "Run e now a = a\<lparr> ap_scheduler := Start e now (ap_scheduler a), ap_serving := True \<rparr>"

section \<open>Shutting down\<close>

datatype shutdown_action = ClosePool | CloseTerminals | StopScheduler | StopDisk | StopInfo | StopHome | CloseLogs
  | ShutdownServer | CloseSessions | CloseStores

record shutdown_env =
  sd_monitor :: monitor_env
  sd_now :: int
  sd_logErrs :: "bool list"

fun shutdown_step :: "shutdown_env \<Rightarrow> shutdown_action \<Rightarrow> App \<Rightarrow> App result" where
  "shutdown_step e ClosePool a = map_sum id (\<lambda>p. a\<lparr> ap_wsPool := p \<rparr>) (CloseAll (ap_wsPool a))"
| "shutdown_step e CloseTerminals a = Ok (a\<lparr> ap_terminalSvc := CloseAllTerminals (ap_terminalSvc a) \<rparr>)"
| "shutdown_step e StopScheduler a = Ok (a\<lparr> ap_scheduler := Stop (sd_monitor e) (sd_now e) (ap_scheduler a) \<rparr>)"
| "shutdown_step e StopDisk a = Ok (a\<lparr> ap_disk := Stop_disk (ap_disk a) \<rparr>)"
| "shutdown_step e StopInfo a = Ok (a\<lparr> ap_info := False \<rparr>)"
| "shutdown_step e StopHome a = Ok (a\<lparr> ap_home := False \<rparr>)"
| "shutdown_step e CloseLogs a = (if ap_logsClosed a then Err (Panic ''close of closed channel'')
     else Ok (a\<lparr> ap_logManager := Close_logs (sd_logErrs e) (sd_now e) (ap_logManager a), ap_logsClosed := True \<rparr>))"
| "shutdown_step e ShutdownServer a = Ok (a\<lparr> ap_serving := False \<rparr>)"
| "shutdown_step e CloseSessions a = (case ap_sessionManager a of
     None \<Rightarrow> Ok a
   | Some sm \<Rightarrow> map_sum id (\<lambda>sm'. a\<lparr> ap_sessionManager := Some sm' \<rparr>) (CloseAll_sessions sm))"
| "shutdown_step e CloseStores a = Ok (a\<lparr> ap_stores := False \<rparr>)"

definition shutdown_actions :: "shutdown_action list" where
  "shutdown_actions = [ClosePool, CloseTerminals, StopScheduler, StopDisk, StopInfo, StopHome, CloseLogs,
     ShutdownServer, CloseSessions, CloseStores]"

fun run_actions :: "shutdown_env \<Rightarrow> shutdown_action list \<Rightarrow> App \<Rightarrow> App result" where
  "run_actions e [] a = Ok a"
| "run_actions e (x # xs) a = (case shutdown_step e x a of Inl err \<Rightarrow> Err err | Inr a1 \<Rightarrow> run_actions e xs a1)"

definition gracefulShutdown :: "shutdown_env \<Rightarrow> App \<Rightarrow> App result" where
  "gracefulShutdown e a = run_actions e shutdown_actions a"

text \<open>
  The end of a logged request while the server still answers: the entry is sent to the channel of the
  log, which panics once the channel is closed.
\<close>

definition end_request :: "UserOperationLog \<Rightarrow> App \<Rightarrow> App result" where
  "end_request l a = (if \<not> ap_serving a then Err (Errorf ''server closed'')
     else if ap_logsClosed a then Err (Panic ''send on closed channel'')
     else Ok (a\<lparr> ap_logManager := send_log l (ap_logManager a) \<rparr>))"

section \<open>After the shutdown\<close>

lemma CloseAll_empties:
  assumes "pool_inv p"
  shows "\<exists>q. CloseAll p = Ok q \<and> pool_inv q \<and> all_clients q = []"
proof -
  obtain q where q: "CloseAll p = Ok q" "pool_inv q" "\<forall>d. wc_closed (cp_objects q d) = (d \<in> set (all_clients p) \<or> wc_closed (cp_objects p d))"
    using close_each_total [OF assms, of "all_clients p"] unfolding CloseAll_def by blast
  then have "set (all_clients q) = {}" unfolding set_all_clients [OF q(2)] using set_all_clients [OF assms] by blast
  then show ?thesis using q by simp
qed

lemma CloseAllTerminals_effect:
  "tm_sessions (CloseAllTerminals s) = []"
  "a \<in> set (map snd (tm_sessions s)) \<Longrightarrow> sw_closed (tm_objects (CloseAllTerminals s) a)"
  by (simp_all add: CloseAllTerminals_def foldl_close_sessions)

lemma CloseAll_sessions_effect:
  assumes "ssh_inv sm" "\<not> sm_stopped sm"
  shows "\<exists>q. CloseAll_sessions sm = Ok q \<and> sm_sessions q = [] \<and> (\<forall>c < sm_dialled q. c \<in> set (sm_closed q))"
proof -
  let ?sm = "sm\<lparr> sm_stopped := True \<rparr>"
  have inv: "ssh_inv ?sm" using assms(1) by (simp add: ssh_inv_def held_by_def)
  have "sm_sessions (close_where (\<lambda>_. True) ?sm) = []" by (simp add: close_where_def)
  moreover from this have "\<forall>c < sm_dialled (close_where (\<lambda>_. True) ?sm). c \<in> set (sm_closed (close_where (\<lambda>_. True) ?sm))"
    using ssh_invD(6) [OF inv_close_where [OF inv]] by (fastforce simp: held_by_def)
  ultimately show ?thesis using assms(2) by (simp add: CloseAll_sessions_def)
qed

lemma foldl_keeps: "(\<And>u x. P (f u x) = P u) \<Longrightarrow> P (foldl f s xs) = P s"
  by (induction xs arbitrary: s) auto

lemma cleanup_running: "sc_isRunning (monitor_cleanup e now jp s) = sc_isRunning s"
proof -
  have "sc_isRunning (try_proc_Update err p u) = sc_isRunning u" for err p u
    by (simp add: try_proc_Update_def split: sum.split)
  then have "sc_isRunning (end_processes e now j u) = sc_isRunning u" for j u
    by (simp add: end_processes_def foldl_keeps [of sc_isRunning] split: sum.split)
  then show ?thesis by (simp add: monitor_cleanup_def try_release_def try_DelPid_def split: sum.split)
qed

lemma Stop_effect: "\<not> sc_isRunning (Stop e now s)" "sc_isRunning s \<Longrightarrow> sc_monitors (Stop e now s) = []"
  using foldl_keeps [of sc_isRunning "\<lambda>u m. monitor_cancel e now m u" "s\<lparr> sc_isRunning := False \<rparr>" "sc_monitors s"]
  by (simp_all add: Stop_def monitor_cancel_def cleanup_running)

text \<open>The invariants of the components.\<close>

definition app_inv :: "App \<Rightarrow> bool" where
  "app_inv a \<longleftrightarrow> pool_inv (ap_wsPool a) \<and> table_ok (ap_terminalSvc a) \<and> \<not> ap_logsClosed a \<and>
     (\<forall>sm. ap_sessionManager a = Some sm \<longrightarrow> ssh_inv sm \<and> \<not> sm_stopped sm)"

lemma app_inv_Initialize:
  assumes "Initialize e server now stored rows = Ok a"
  shows "app_inv (Run re now' a)"
proof -
  have "table_ok NewTerminalService" by (simp add: NewTerminalService_def table_ok_def)
  moreover have "\<not> sm_stopped (NewSessionManager cfg)" for cfg by (simp add: NewSessionManager_def)
  ultimately show ?thesis using assms pool_inv_new ssh_inv_new
    by (auto simp: Initialize_def initDependencies_def Run_def app_inv_def split: if_splits)
qed

text \<open>
  C38: A shutdown leaves nothing behind. From every state in which the components keep their
  invariants, as they do from the start on, and without requests in between, it runs through without
  a panic; then the pool is empty, every terminal of the table is closed and the table empty, the scheduler
  is stopped and its monitors have left, the disk job is stopped, the channel of the operation log is
  drained, with all its entries written in order when the database takes them, the server has
  stopped answering, and every SSH client that was ever dialled is closed.
\<close>

theorem shutdown_complete:
  assumes inv: "app_inv a"
  shows "\<exists>a'. gracefulShutdown e a = Ok a' \<and> all_clients (ap_wsPool a') = [] \<and>
    tm_sessions (ap_terminalSvc a') = [] \<and> (\<forall>x \<in> set (map snd (tm_sessions (ap_terminalSvc a))). sw_closed (tm_objects (ap_terminalSvc a') x)) \<and>
    \<not> sc_isRunning (ap_scheduler a') \<and> (sc_isRunning (ap_scheduler a) \<longrightarrow> sc_monitors (ap_scheduler a') = []) \<and>
    \<not> ds_isRunning (ap_disk a') \<and> \<not> ap_info a' \<and> \<not> ap_home a' \<and> lm_logChan (ap_logManager a') = [] \<and>
    (sd_logErrs e = [] \<longrightarrow> map entry_text (lm_rows (ap_logManager a')) = logged (ap_logManager a)) \<and>
    \<not> ap_serving a' \<and> \<not> ap_stores a' \<and>
    (\<forall>sm. ap_sessionManager a' = Some sm \<longrightarrow> sm_sessions sm = [] \<and> (\<forall>c < sm_dialled sm. c \<in> set (sm_closed sm)))"
proof -
  obtain p where p: "CloseAll (ap_wsPool a) = Ok p" "all_clients p = []" using CloseAll_empties inv unfolding app_inv_def by blast
  have ssh: "\<exists>q. CloseAll_sessions sm = Ok q \<and> sm_sessions q = [] \<and> (\<forall>c < sm_dialled q. c \<in> set (sm_closed q))"
    if "ap_sessionManager a = Some sm" for sm using CloseAll_sessions_effect inv that unfolding app_inv_def by blast
  have disk: "\<not> ds_isRunning (Stop_disk (ap_disk a))" by (simp add: Stop_disk_def)
  have logs: "lm_logChan (Close_logs (sd_logErrs e) (sd_now e) (ap_logManager a)) = []"
    "sd_logErrs e = [] \<longrightarrow> map entry_text (lm_rows (Close_logs (sd_logErrs e) (sd_now e) (ap_logManager a))) = logged (ap_logManager a)"
    using drain_log_empties [of "ap_logManager a" _ "sd_logErrs e" "sd_now e", OF refl] by (auto simp: Close_logs_def)
  have open_log: "\<not> ap_logsClosed a" using inv by (simp add: app_inv_def)
  note effects = p open_log disk logs Stop_effect CloseAllTerminals_effect
  show ?thesis
  proof (cases "ap_sessionManager a")
    case None
    then show ?thesis using effects by (simp add: gracefulShutdown_def shutdown_actions_def)
  next
    case (Some sm)
    then show ?thesis using effects ssh [OF Some] by (auto simp: gracefulShutdown_def shutdown_actions_def)
  qed
qed

text \<open>A running program on a stored queue, with the terminals of two users open.\<close>

definition app_demo :: App where
  "app_demo = (initDependencies None 0 idle_sched [])\<lparr> ap_terminalSvc := two_users, ap_scheduler := idle_sched, ap_serving := True \<rparr>"

definition shutdown_demo :: shutdown_env where
  "shutdown_demo = \<lparr> sd_monitor = demo_monitor (Ok True), sd_now = 9, sd_logErrs = [] \<rparr>"

lemma app_demo_inv: "app_inv app_demo"
  using two_users_ok pool_inv_new by (simp add: app_inv_def app_demo_def initDependencies_def)

lemma shutdown_complete_witness:
  "map fst (tm_sessions (ap_terminalSvc app_demo)) \<noteq> [] \<and>
   (\<exists>a'. gracefulShutdown shutdown_demo app_demo = Ok a' \<and> tm_sessions (ap_terminalSvc a') = [] \<and> \<not> sc_isRunning (ap_scheduler a'))"
proof -
  have "map fst (tm_sessions (ap_terminalSvc app_demo)) \<noteq> []" by code_simp
  then show ?thesis using shutdown_complete [OF app_demo_inv] by blast
qed

section \<open>The order of the shutdown\<close>

text \<open>
  The channel of the operation log is closed while the server still answers: a logged request that
  ends after that panics in the middleware, after its reply has been sent.
\<close>

theorem late_request_panics:
  assumes "app_inv a" "ap_serving a"
  shows "\<exists>a1. run_actions e [ClosePool, CloseTerminals, StopScheduler, StopDisk, StopInfo, StopHome, CloseLogs] a = Ok a1 \<and>
    end_request l a1 = Err (Panic ''send on closed channel'')"
proof -
  obtain q where q: "CloseAll (ap_wsPool a) = Ok q" "\<not> ap_logsClosed a"
    using CloseAll_empties [of "ap_wsPool a"] assms(1) by (auto simp: app_inv_def)
  have "end_request l (b\<lparr> ap_logsClosed := True \<rparr>) = Err (Panic ''send on closed channel'')" if "ap_serving b" for b :: App
    using that by (simp add: end_request_def)
  then show ?thesis using q assms(2) by simp
qed

text \<open>
  The terminals are closed while the server still answers, too: a terminal that is opened after that
  stays in the table, and nothing closes it any more.
\<close>

theorem late_terminal_stays:
  assumes inv: "app_inv a" and start: "run_actions e [ClosePool, CloseTerminals] a = Ok a1"
    and opened: "getOrCreateTerminalSession manager ssh pty_err now (ap_terminalSvc a1) u r = (t, Ok x)"
  shows "\<exists>a'. run_actions e (drop 2 shutdown_actions) (a1\<lparr> ap_terminalSvc := t \<rparr>) = Ok a' \<and>
    map_of (tm_sessions (ap_terminalSvc a')) (terminalSessionKey u r) = Some x \<and> \<not> sw_closed (tm_objects (ap_terminalSvc a') x)"
proof -
  obtain p where a1: "a1 = a\<lparr> ap_wsPool := p, ap_terminalSvc := CloseAllTerminals (ap_terminalSvc a) \<rparr>"
    using start CloseAll_empties [of "ap_wsPool a"] inv by (auto simp: app_inv_def)
  have "map_of (tm_sessions (ap_terminalSvc a1)) (terminalSessionKey u r) = None" by (simp add: a1 CloseAllTerminals_effect)
  from getOrCreate_absent [OF this] have t: "map_of (tm_sessions t) (terminalSessionKey u r) = Some x \<and> \<not> sw_closed (tm_objects t x)"
    using opened by (auto simp: a1 CloseAllTerminals_effect set_object_def new_wrapper_def split: sum.splits if_splits)
  have "\<not> ap_logsClosed a" using inv by (simp add: app_inv_def)
  moreover have "\<exists>q. CloseAll_sessions sm = Ok q" if "ap_sessionManager a = Some sm" for sm
    using CloseAll_sessions_effect inv that unfolding app_inv_def by blast
  ultimately show ?thesis using t
    by (cases "ap_sessionManager a") (fastforce simp: shutdown_actions_def a1 numeral_2_eq_2)+
qed

end
