(* ===== verification/Routes.thy ===== *)
theory Routes
  imports Access
begin

text \<open>
  The routes: internal/api/router.go, the routes of every controller, and the chains of middleware
  around them (internal/middleware/auth.go, cors.go, recovery.go).

  The web framework gin is outside the repository. What the table relies on of it: \<open>join\<close> joins the
  path of a group with a relative path, \<open>pick\<close> chooses the route of a request among the registered
  ones (None for none), a group hands its chain to the groups and routes declared in it, and the
  elements of a chain run in their order until one of them aborts. The names of operations are given
  by their code points.
\<close>

section \<open>Groups, chains and routes\<close>

datatype middleware = MRecovery | MLogger | MCORS | MAuth | MRequirePermission | MCaptureRawBody | MUserOperationLogs
  | MWithOperation "nat list" | MHandler string

text \<open>An entry has its method, its relative path, the middleware of its own and its handler.\<close>

datatype route_group = Group string "middleware list" "(string \<times> string \<times> middleware list \<times> string) list" "route_group list"

record route =
  ro_Method :: string
  ro_Path :: string
  ro_Chain :: "middleware list"
  ro_Handler :: string

definition entry_route :: "(string \<Rightarrow> string \<Rightarrow> string) \<Rightarrow> string \<Rightarrow> middleware list \<Rightarrow> string \<times> string \<times> middleware list \<times> string \<Rightarrow> route" where
  "entry_route join base chain = (\<lambda>(m, p, own, h).
     \<lparr> ro_Method = m, ro_Path = join base p, ro_Chain = chain @ own @ [MHandler h], ro_Handler = h \<rparr>)"

fun group_routes :: "(string \<Rightarrow> string \<Rightarrow> string) \<Rightarrow> string \<Rightarrow> middleware list \<Rightarrow> route_group \<Rightarrow> route list" where
  "group_routes join base chain (Group p own entries subs) =
     map (entry_route join (join base p) (chain @ own)) entries @ concat (map (group_routes join (join base p) (chain @ own)) subs)"

section \<open>The controllers\<close>

definition auth_RegisterRoutes :: "route_group list" where
  "auth_RegisterRoutes =
    [Group ''/auth'' [MCaptureRawBody, MUserOperationLogs]
       [(''POST'', ''/register'', [MWithOperation [0x7528, 0x6237, 0x6CE8, 0x518C]], ''auth.Register''),
        (''POST'', ''/login'', [MWithOperation [0x7528, 0x6237, 0x767B, 0x5F55]], ''auth.Login''),
        (''POST'', ''/logout'', [MAuth], ''auth.Logout''),
        (''POST'', ''/email/code'', [], ''auth.SendEmailCode''),
        (''POST'', ''/password/reset'', [], ''auth.ResetPassword''),
        (''POST'', ''/refresh'', [], ''auth.RefreshToken''),
        (''GET'', ''/captcha'', [], ''auth.GetCaptcha'')]
       []]"

definition admin_RegisterRoutes :: "route_group list" where
  "admin_RegisterRoutes =
    [Group ''/admin'' [MAuth, MRequirePermission, MCaptureRawBody, MUserOperationLogs]
       [(''POST'', ''/users'', [MWithOperation [0x521B, 0x5EFA, 0x7528, 0x6237]], ''admin.CreateUser''),
        (''DELETE'', ''/users/:id'', [MWithOperation [0x5220, 0x9664, 0x7528, 0x6237]], ''admin.DeleteUser''),
        (''PUT'', ''/users/:id'', [MWithOperation [0x66F4, 0x65B0, 0x7528, 0x6237]], ''admin.UpdateUser''),
        (''GET'', ''/users/:id'', [], ''admin.GetUser''),
        (''GET'', ''/users'', [], ''admin.ListUsers''),
        (''GET'', ''/roles/simple'', [], ''admin.ListRoleSimple''),
        (''GET'', ''/restart'', [], ''admin.Restart''),
        (''GET'', ''/shutdown'', [], ''admin.Shutdown'')]
       []]"

definition user_RegisterRoutes :: "route_group list" where
  "user_RegisterRoutes =
    [Group ''/user'' [MAuth, MRequirePermission, MCaptureRawBody, MUserOperationLogs]
       [(''GET'', ''/profile'', [], ''user.GetProfile''),
        (''PUT'', ''/profile'', [MWithOperation [0x66F4, 0x65B0, 0x4E2A, 0x4EBA, 0x4FE1, 0x606F]], ''user.UpdateProfile''),
        (''PUT'', ''/password'', [MWithOperation [0x4FEE, 0x6539, 0x5BC6, 0x7801]], ''user.ChangePassword''),
        (''GET'', ''/list'', [], ''user.ListUsers''),
        (''GET'', ''/by-username'', [], ''user.GetByUsername''),
        (''POST'', ''/avatar'', [MWithOperation [0x4E0A, 0x4F20, 0x5934, 0x50CF]], ''user.UploadAvatar''),
        (''GET'', ''/menu-permission'', [], ''user.GetUserMenuPermission'')]
       []]"

definition permission_RegisterRoutes :: "route_group list" where
  "permission_RegisterRoutes =
    [Group ''/permissionManage/API'' [MAuth, MRequirePermission, MCaptureRawBody, MUserOperationLogs]
       [(''GET'', ''/page'', [], ''permission.PageList''),
        (''GET'', ''/:id'', [], ''permission.GetAPIByID''),
        (''POST'', '''', [MWithOperation [0x521B, 0x5EFA, 0x41, 0x50, 0x49]], ''permission.Create''),
        (''PUT'', '''', [MWithOperation [0x66F4, 0x65B0, 0x41, 0x50, 0x49]], ''permission.Update''),
        (''DELETE'', ''/:id'', [MWithOperation [0x5220, 0x9664, 0x41, 0x50, 0x49]], ''permission.Delete''),
        (''DELETE'', ''/batch'', [MWithOperation [0x6279, 0x91CF, 0x5220, 0x9664, 0x41, 0x50, 0x49]], ''permission.BatchDelete'')]
       []]"

definition menu_RegisterRoutes :: "route_group list" where
  "menu_RegisterRoutes =
    [Group ''/permissionManage/menus'' [MAuth, MRequirePermission, MCaptureRawBody, MUserOperationLogs]
       [(''GET'', ''/page'', [], ''menu.PageList''),
        (''GET'', ''/:id'', [], ''menu.GetMenuByID''),
        (''POST'', '''', [MWithOperation [0x521B, 0x5EFA, 0x83DC, 0x5355]], ''menu.Create''),
        (''PUT'', '''', [MWithOperation [0x66F4, 0x65B0, 0x83DC, 0x5355]], ''menu.Update''),
        (''DELETE'', ''/:id'', [MWithOperation [0x5220, 0x9664, 0x83DC, 0x5355]], ''menu.Delete''),
        (''DELETE'', ''/batch'', [MWithOperation [0x6279, 0x91CF, 0x5220, 0x9664, 0x83DC, 0x5355]], ''menu.BatchDelete'')]
       []]"

definition role_RegisterRoutes :: "route_group list" where
  "role_RegisterRoutes =
    [Group ''/permissionManage/roles'' [MAuth, MRequirePermission, MCaptureRawBody, MUserOperationLogs]
       [(''GET'', ''/page'', [], ''role.PageList''),
        (''GET'', ''/:id'', [], ''role.GetRoleByID''),
        (''POST'', '''', [MWithOperation [0x521B, 0x5EFA, 0x89D2, 0x8272]], ''role.Create''),
        (''PUT'', '''', [MWithOperation [0x66F4, 0x65B0, 0x89D2, 0x8272]], ''role.Update''),
        (''DELETE'', ''/:id'', [MWithOperation [0x5220, 0x9664, 0x89D2, 0x8272]], ''role.Delete''),
        (''DELETE'', ''/batch'', [MWithOperation [0x6279, 0x91CF, 0x5220, 0x9664, 0x89D2, 0x8272]], ''role.BatchDelete''),
        (''GET'', ''/role_perm/:id'', [], ''role.GetRolePermissionByID''),
        (''PUT'', ''/role_perm/:role_id'', [MWithOperation [0x66F4, 0x65B0, 0x89D2, 0x8272, 0x6743, 0x9650]], ''role.UpdateRolePermission'')]
       []]"

definition terminal_RegisterRoutes :: "route_group list" where
  "terminal_RegisterRoutes =
    [Group ''/terminal'' [MAuth, MRequirePermission]
       [(''GET'', ''/ws'', [], ''terminal.WebSocketTerminal'')]
       []]"

definition operationLogs_RegisterRoutes :: "route_group list" where
  "operationLogs_RegisterRoutes =
    [Group ''/operationLogs'' [MAuth, MRequirePermission]
       []
       [Group ''/adminLog'' []
          [(''GET'', ''/list'', [], ''operationLogs.GetAdminLogs'')]
          [],
        Group ''/userLog'' []
          [(''GET'', ''/list'', [], ''operationLogs.GetUserLogs'')]
          []]]"

definition system_RegisterRoutes :: "route_group list" where
  "system_RegisterRoutes =
    [Group ''/system'' [MAuth, MRequirePermission]
       [(''GET'', '''', [], ''system.HandleWebSocket''),
        (''POST'', ''/:pid/terminate'', [], ''system.TerminateProcess''),
        (''POST'', ''/:pid/retain'', [], ''system.RetainProcess''),
        (''DELETE'', ''/:pid/retain'', [], ''system.CancelRetain''),
        (''GET'', ''/config'', [], ''system.GetConfig''),
        (''PUT'', ''/config'', [], ''system.UpdateConfig'')]
       []]"

definition home_RegisterRoutes :: "route_group list" where
  "home_RegisterRoutes =
    [Group ''/home'' [MAuth, MRequirePermission]
       [(''GET'', ''/overview'', [], ''home.Overview''),
        (''GET'', ''/ws'', [], ''home.WebSocketOverview'')]
       []]"

definition JobsRoutes :: "route_group list" where
  "JobsRoutes =
    [Group ''/job'' [MAuth, MRequirePermission, MCaptureRawBody, MUserOperationLogs]
       [(''POST'', '''', [MWithOperation [0x63D0, 0x4EA4, 0x4EFB, 0x52A1]], ''job.SubmitJob''),
        (''GET'', '''', [], ''job.GetJobsList''),
        (''GET'', ''/wait'', [], ''job.GetWaitJobsList''),
        (''GET'', ''/stats'', [], ''job.GetStats''),
        (''DELETE'', ''/:id'', [MWithOperation [0x5220, 0x9664, 0x6392, 0x961F, 0x4EFB, 0x52A1]], ''job.CancelJob''),
        (''GET'', ''/gpus'', [], ''job.GetGpus''),
        (''GET'', ''/conda-envs'', [], ''job.GetCondaEnvs'')]
       []]"

definition QueueRoutes :: "route_group list" where
  "QueueRoutes =
    [Group ''/queue'' [MAuth, MRequirePermission, MCaptureRawBody, MUserOperationLogs]
       [(''GET'', '''', [], ''queue.GetQueue''),
        (''POST'', '''', [MWithOperation [0x91CD, 0x65B0, 0x6392, 0x5E8F, 0x961F, 0x5217]], ''queue.ReorderQueue''),
        (''DELETE'', ''/:jobId'', [MWithOperation [0x79FB, 0x9664, 0x961F, 0x5217, 0x4E2D, 0x7684, 0x4EFB, 0x52A1]], ''queue.RemoveJob'')]
       []]"

definition files_RegisterRoutes :: "route_group list" where
  "files_RegisterRoutes =
    [Group ''/files'' [MAuth, MRequirePermission, MCaptureRawBody, MUserOperationLogs]
       [(''GET'', ''/list'', [], ''files.GetFileList''),
        (''GET'', ''/list/*path'', [], ''files.GetFileList''),
        (''DELETE'', ''/delete'', [MWithOperation [0x5220, 0x9664, 0x6587, 0x4EF6]], ''files.DeleteFile''),
        (''POST'', ''/upload'', [MWithOperation [0x4E0A, 0x4F20, 0x6587, 0x4EF6]], ''files.UploadFile''),
        (''GET'', ''/upload/progress'', [], ''files.GetUploadProgress''),
        (''GET'', ''/download'', [MWithOperation [0x4E0B, 0x8F7D, 0x6587, 0x4EF6]], ''files.DownloadFile''),
        (''POST'', ''/unzip'', [MWithOperation [0x89E3, 0x538B, 0x6587, 0x4EF6]], ''files.UnzipFile''),
        (''GET'', ''/size'', [MWithOperation [0x8BA1, 0x7B97, 0x6587, 0x4EF6, 0x5927, 0x5C0F]], ''files.CalculateSize'')]
       [],
     Group ''/directories'' [MAuth, MRequirePermission]
       [(''GET'', ''/calculate-usage'', [], ''files.GetDiskUsage''),
        (''GET'', ''/list-home'', [], ''files.ListHomeDirectories''),
        (''GET'', ''/list-home/*path'', [], ''files.ListHomeDirectories'')]
       [],
     Group ''/admin'' [MAuth]
       [(''GET'', ''/disk-usage/all'', [MWithOperation [0x83B7, 0x53D6, 0x6240, 0x6709, 0x7528, 0x6237, 0x78C1, 0x76D8, 0x4F7F, 0x7528, 0x60C5, 0x51B5]], ''files.GetAllUsersDiskUsage'')]
       []]"

section \<open>The whole table\<close>

definition global_chain :: "middleware list" where
  "global_chain = [MRecovery, MLogger, MCORS]"

definition v1_groups :: "route_group list" where
  "v1_groups = auth_RegisterRoutes @ admin_RegisterRoutes @ user_RegisterRoutes @ permission_RegisterRoutes @
     menu_RegisterRoutes @ role_RegisterRoutes @ terminal_RegisterRoutes @ operationLogs_RegisterRoutes @
     system_RegisterRoutes @ home_RegisterRoutes @ JobsRoutes @ QueueRoutes @ files_RegisterRoutes"

definition Setup :: "(string \<Rightarrow> string \<Rightarrow> string) \<Rightarrow> route list" where
  "Setup join =
     map (\<lambda>m. entry_route join ''/'' global_chain (m, ''/uploads/*filepath'', [], ''static'')) [''GET'', ''HEAD''] @
     [entry_route join ''/'' global_chain (''GET'', ''/api/v1/health'', [], ''health'')] @
     concat (map (group_routes join (join ''/'' ''/api/v1'') global_chain) v1_groups)"

section \<open>A request\<close>

record CORSConfig =
  cr_Enabled :: bool
  cr_AllowOrigins :: "string list"
  cr_AllowMethods :: "string list"
  cr_AllowHeaders :: "string list"

text \<open>The first entry that is a star or the origin itself.\<close>

definition allowOrigin :: "string list \<Rightarrow> string \<Rightarrow> string" where
  "allowOrigin allowed origin = (case find (\<lambda>a. a = ''*'' \<or> a = origin) allowed of None \<Rightarrow> [] | Some a \<Rightarrow> a)"

text \<open>CORS sets headers and answers 204 to a preflight request, or goes on.\<close>

definition CORS :: "CORSConfig \<Rightarrow> string \<Rightarrow> string \<Rightarrow> (string \<times> string) list \<times> (int + unit)" where
  "CORS cfg origin method = (if \<not> cr_Enabled cfg then ([], Inr ())
     else ((let o' = allowOrigin (cr_AllowOrigins cfg) origin in if o' \<noteq> [] then [(''Access-Control-Allow-Origin'', o')] else []) @
           [(''Access-Control-Allow-Methods'', Join '', '' (cr_AllowMethods cfg)),
            (''Access-Control-Allow-Headers'', Join '', '' (cr_AllowHeaders cfg)),
            (''Access-Control-Expose-Headers'', ''Content-Length, Access-Control-Allow-Origin, Access-Control-Allow-Headers''),
            (''Access-Control-Allow-Credentials'', ''true''), (''Access-Control-Max-Age'', ''86400'')],
           if method = ''OPTIONS'' then Inl 204 else Inr ()))"

text \<open>
  The configuration of CORS and the origin of the request, the library of tokens, the collation and
  the rows of the directory; \<open>rv_err\<close> tells that the query of the permission fails.
\<close>

record route_env =
  rv_cors :: CORSConfig
  rv_origin :: string
  rv_verify :: "string \<Rightarrow> string \<Rightarrow> jwt_answer"
  rv_secret :: string
  rv_w :: collation
  rv_err :: bool
  rv_dir :: directory

text \<open>
  A chain ends in its handler, with the claims that the context holds, or in the answer of the
  middleware that aborts it. The others only record or annotate the request.
\<close>

datatype outcome = Entered string "CustomClaims option" | Answered int

fun run_chain :: "route_env \<Rightarrow> http_request \<Rightarrow> CustomClaims option \<Rightarrow> middleware list \<Rightarrow> outcome" where
  "run_chain e rq ctx (MHandler h # _) = Entered h ctx"
| "run_chain e rq ctx (MCORS # ms) = (case snd (CORS (rv_cors e) (rv_origin e) (rq_Method rq)) of Inl code \<Rightarrow> Answered code | Inr _ \<Rightarrow> run_chain e rq ctx ms)"
| "run_chain e rq ctx (MAuth # ms) = (case Auth (rv_verify e) (rv_secret e) rq of
     Inl code \<Rightarrow> Answered code | Inr claims \<Rightarrow> run_chain e rq (Some claims) ms)"
| "run_chain e rq ctx (MRequirePermission # ms) =
     (case RequirePermission (rv_w e) (rv_err e) (rv_dir e) (map_option cl_UserID ctx) rq of
       Inl code \<Rightarrow> Answered code | Inr _ \<Rightarrow> run_chain e rq ctx ms)"
| "run_chain e rq ctx (m # ms) = run_chain e rq ctx ms"
| "run_chain e rq ctx [] = Answered CodeNotFound"

text \<open>The path of the route, with its parameters, is what RequirePermission asks for.\<close>

definition serve ::
  "(route list \<Rightarrow> string \<Rightarrow> string \<Rightarrow> route option) \<Rightarrow> (string \<Rightarrow> string \<Rightarrow> string) \<Rightarrow> route_env \<Rightarrow> http_request \<Rightarrow> string \<Rightarrow> outcome" where
  "serve pick join e rq path = (case pick (Setup join) (rq_Method rq) path of
     None \<Rightarrow> run_chain e rq None global_chain
   | Some r \<Rightarrow> run_chain e (rq\<lparr> rq_FullPath := ro_Path r \<rparr>) None (ro_Chain r))"

section \<open>Who enters a handler\<close>

text \<open>Nothing else of a chain decides whether its handler is entered.\<close>

fun guards :: "middleware list \<Rightarrow> middleware list" where
  "guards (MHandler h # ms) = [MHandler h]"
| "guards (m # ms) = (if m \<in> {MCORS, MAuth, MRequirePermission} then m # guards ms else guards ms)"
| "guards [] = []"

lemma run_chain_guards: "run_chain e rq ctx ms = run_chain e rq ctx (guards ms)"
  by (induction e rq ctx ms rule: run_chain.induct) (auto split: sum.split)

definition public_handlers :: "string list" where
  "public_handlers = [''static'', ''health'', ''auth.Register'', ''auth.Login'', ''auth.SendEmailCode'',
     ''auth.ResetPassword'', ''auth.RefreshToken'', ''auth.GetCaptcha'']"

definition login_handlers :: "string list" where
  "login_handlers = [''auth.Logout'', ''files.GetAllUsersDiskUsage'']"

definition expected_guards :: "string \<Rightarrow> middleware list" where
  "expected_guards h = MCORS # (if h \<in> set public_handlers then [] else if h \<in> set login_handlers then [MAuth] else [MAuth, MRequirePermission]) @ [MHandler h]"

lemmas route_tables = auth_RegisterRoutes_def admin_RegisterRoutes_def user_RegisterRoutes_def permission_RegisterRoutes_def
  menu_RegisterRoutes_def role_RegisterRoutes_def terminal_RegisterRoutes_def operationLogs_RegisterRoutes_def
  system_RegisterRoutes_def home_RegisterRoutes_def JobsRoutes_def QueueRoutes_def files_RegisterRoutes_def

lemma Setup_guards: "list_all (\<lambda>r. guards (ro_Chain r) = expected_guards (ro_Handler r)) (Setup join)"
  by (simp add: Setup_def v1_groups_def route_tables entry_route_def global_chain_def expected_guards_def
      public_handlers_def login_handlers_def)

lemma Setup_methods: "list_all (\<lambda>r. ro_Method r \<noteq> ''OPTIONS'') (Setup join)"
  by (simp add: Setup_def v1_groups_def route_tables entry_route_def)

lemma Auth_iff: "Auth verify secret rq = Inr claims \<longleftrightarrow>
    request_token rq \<noteq> [] \<and> verify secret (request_token rq) = JwtClaims claims True"
  by (auto simp: Auth_def ParseToken_def Let_def split: sum.splits jwt_answer.splits)

lemma RequirePermission_iff: "RequirePermission w err d u rq = Inr x \<longleftrightarrow>
    (\<exists>i. u = Some i \<and> \<not> err \<and> granted w d i (rq_Method rq) (rq_FullPath rq))"
  by (auto simp: RequirePermission_def CheckUserPermission_def role_CheckUserPermission_def permission_rows_granted
      split: option.splits sum.splits)

lemma CORS_iff: "snd (CORS cfg origin m) = Inr x \<longleftrightarrow> \<not> (cr_Enabled cfg \<and> m = ''OPTIONS'')"
  by (simp add: CORS_def)

lemma request_token_path [simp]: "request_token (rq\<lparr> rq_FullPath := p \<rparr>) = request_token rq"
  by (simp add: request_token_def Let_def split: option.split)

lemma run_chain_steps:
  "run_chain e rq ctx (MCORS # ms) = Entered h c \<longleftrightarrow> \<not> (cr_Enabled (rv_cors e) \<and> rq_Method rq = ''OPTIONS'') \<and> run_chain e rq ctx ms = Entered h c"
  "run_chain e rq ctx (MAuth # ms) = Entered h c \<longleftrightarrow> (\<exists>claims. request_token rq \<noteq> [] \<and>
     rv_verify e (rv_secret e) (request_token rq) = JwtClaims claims True \<and> run_chain e rq (Some claims) ms = Entered h c)"
  "run_chain e rq ctx (MRequirePermission # ms) = Entered h c \<longleftrightarrow> (\<exists>claims. ctx = Some claims \<and> \<not> rv_err e \<and>
     granted (rv_w e) (rv_dir e) (cl_UserID claims) (rq_Method rq) (rq_FullPath rq) \<and> run_chain e rq ctx ms = Entered h c)"
  using CORS_iff [of "rv_cors e" "rv_origin e" "rq_Method rq"] Auth_iff [of "rv_verify e" "rv_secret e" rq]
    RequirePermission_iff [of "rv_w e" "rv_err e" "rv_dir e" "map_option cl_UserID ctx" rq]
  by (fastforce split: sum.splits)+

text \<open>
  C7: Only the handlers of registration, login, mail code, password reset, token refresh and captcha, the
  health check and the uploaded files are reached without a token. Every other handler is entered
  only with a token that the library accepts, and all but the logout and the disk report of all users
  only when a role of the user grants the method and the path of the route; when the query of the
  permissions fails none of those is entered. In all these cases the handler is indeed entered, with
  the claims of the token in its context; a path without a route enters no handler.
\<close>

theorem routes_guarded:
  assumes gin: "\<forall>t m p r. pick t m p = Some r \<longrightarrow> r \<in> set t \<and> ro_Method r = m"
  shows "serve pick join e rq path = Entered h ctx \<longleftrightarrow> (\<exists>r. pick (Setup join) (rq_Method rq) path = Some r \<and> h = ro_Handler r \<and>
    (if h \<in> set public_handlers then ctx = None
     else (\<exists>claims. ctx = Some claims \<and> request_token rq \<noteq> [] \<and> rv_verify e (rv_secret e) (request_token rq) = JwtClaims claims True \<and>
       (h \<in> set login_handlers \<or> \<not> rv_err e \<and> granted (rv_w e) (rv_dir e) (cl_UserID claims) (rq_Method rq) (ro_Path r)))))"
proof (cases "pick (Setup join) (rq_Method rq) path")
  case None
  then show ?thesis by (simp add: serve_def global_chain_def CORS_def)
next
  case (Some r)
  then have r: "r \<in> set (Setup join)" "ro_Method r = rq_Method rq" using gin by blast+
  have "guards (ro_Chain r) = expected_guards (ro_Handler r)" "rq_Method rq \<noteq> ''OPTIONS''"
    using r Setup_guards [of join] Setup_methods [of join] by (auto simp: list_all_iff)
  then have "serve pick join e rq path = run_chain e (rq\<lparr> rq_FullPath := ro_Path r \<rparr>) None (expected_guards (ro_Handler r))"
    using Some by (simp add: serve_def run_chain_guards [of _ _ _ "ro_Chain r"])
  then show ?thesis using Some \<open>rq_Method rq \<noteq> ''OPTIONS''\<close>
    by (auto simp: expected_guards_def run_chain_steps simp del: run_chain.simps(2-4))
qed


text \<open>A router for paths without parameters.\<close>

definition plain_pick :: "route list \<Rightarrow> string \<Rightarrow> string \<Rightarrow> route option" where
  "plain_pick t m p = find (\<lambda>r. ro_Method r = m \<and> ro_Path r = p) t"

definition plain_join :: "string \<Rightarrow> string \<Rightarrow> string" where
  "plain_join a b = (if a = ''/'' then b else a @ b)"

definition route_demo :: route_env where
  "route_demo = \<lparr> rv_cors = \<lparr> cr_Enabled = True, cr_AllowOrigins = [''*''], cr_AllowMethods = [''GET''], cr_AllowHeaders = [] \<rparr>,
     rv_origin = [], rv_verify = (\<lambda>_ _. JwtClaims \<lparr> cl_UserID = 5, cl_Username = ''bob'', cl_Roles = [], cl_ExpiresAt = 0, cl_IssuedAt = 0 \<rparr> True),
     rv_secret = [], rv_w = (\<lambda>s. s), rv_err = False, rv_dir = access_demo \<rparr>"

definition route_request :: "string \<Rightarrow> http_request" where
  "route_request token = \<lparr> rq_Method = ''GET'', rq_FullPath = [], rq_Authorization = token, rq_QueryToken = [], rq_CookieToken = None \<rparr>"

lemma plain_pick_registered: "\<forall>t m p r. plain_pick t m p = Some r \<longrightarrow> r \<in> set t \<and> ro_Method r = m"
  by (auto simp: plain_pick_def find_Some_iff)

lemma routes_guarded_witness:
  "serve plain_pick plain_join route_demo (route_request ''t'') ''/api/v1/user/list'' =
     Entered ''user.ListUsers'' (Some \<lparr> cl_UserID = 5, cl_Username = ''bob'', cl_Roles = [], cl_ExpiresAt = 0, cl_IssuedAt = 0 \<rparr>) \<and>
   (\<forall>ctx. serve plain_pick plain_join route_demo (route_request ''t'') ''/api/v1/admin/users'' \<noteq> Entered ''admin.ListUsers'' ctx)"
proof -
  have hit: "map_option (\<lambda>r. (ro_Handler r, ro_Path r)) (plain_pick (Setup plain_join) ''GET'' ''/api/v1/user/list'') = Some (''user.ListUsers'', ''/api/v1/user/list'')"
    "map_option (\<lambda>r. (ro_Handler r, ro_Path r)) (plain_pick (Setup plain_join) ''GET'' ''/api/v1/admin/users'') = Some (''admin.ListUsers'', ''/api/v1/admin/users'')"
    by code_simp+
  have "granted (\<lambda>s. s) access_demo 5 ''GET'' ''/api/v1/user/list''" "\<not> granted (\<lambda>s. s) access_demo 5 ''GET'' ''/api/v1/admin/users''"
    by code_simp+
  then show ?thesis using hit routes_guarded [OF plain_pick_registered]
    by (auto simp: route_demo_def route_request_def public_handlers_def login_handlers_def request_token_def header_token_def SplitN2_def)
qed


text \<open>No route is registered twice, which the framework would refuse when the program starts.\<close>

lemma Setup_distinct: "distinct (map (\<lambda>r. (ro_Method r, ro_Path r)) (Setup plain_join))"
  by code_simp

text \<open>An origin is only ever allowed as itself or by a star.\<close>

lemma allowOrigin_member: "allowOrigin allowed origin \<noteq> [] \<Longrightarrow>
    allowOrigin allowed origin \<in> set allowed \<and> (allowOrigin allowed origin = ''*'' \<or> allowOrigin allowed origin = origin)"
  by (induction allowed) (auto simp: allowOrigin_def)

lemma CORS_origin:
  assumes "(''Access-Control-Allow-Origin'', a) \<in> set (fst (CORS cfg origin m))"
  shows "a \<in> set (cr_AllowOrigins cfg) \<and> (a = ''*'' \<or> a = origin)"
  using assms allowOrigin_member by (auto simp: CORS_def Let_def split: if_splits)

section \<open>What the table does not guard\<close>

text \<open>
  The disk report of all users is meant for administrators, but its permission check is commented
  out: any accepted token enters the handler, whatever the roles of its user.
\<close>

theorem disk_report_needs_no_permission:
  assumes "request_token rq \<noteq> []" "rv_verify e (rv_secret e) (request_token rq) = JwtClaims claims True" "rq_Method rq = ''GET''"
  shows "serve plain_pick plain_join e rq ''/api/v1/admin/disk-usage/all'' = Entered ''files.GetAllUsersDiskUsage'' (Some claims)"
proof -
  have "map_option ro_Handler (plain_pick (Setup plain_join) ''GET'' ''/api/v1/admin/disk-usage/all'') = Some ''files.GetAllUsersDiskUsage''"
    by code_simp
  moreover have "map_option (\<lambda>r. guards (ro_Chain r)) (plain_pick (Setup plain_join) ''GET'' ''/api/v1/admin/disk-usage/all'')
      = Some [MCORS, MAuth, MHandler ''files.GetAllUsersDiskUsage'']" by code_simp
  ultimately show ?thesis using assms
    by (auto simp: serve_def run_chain_guards [of _ _ _ "ro_Chain _"] run_chain_steps simp del: run_chain.simps(2-4))
qed

end
