(* ===== verification/Startup.thy ===== *)
theory Startup
  imports App Routes
begin

text \<open>
  What the program stands on: the configuration (pkg/config), the connections (pkg/database), the
  logger (pkg/logger), the first three steps of Initialize (internal/app/app.go), the throttle of
  error messages (pkg/throttle), the texts of the error codes (pkg/errors) and the middleware that
  logs requests and catches panics (internal/middleware/logger.go, recovery.go).

  viper, gorm, the Redis client and zap answer through environments. The three settings of CORS that
  no code reads are left out. The package variables are one
  record; what is printed is kept in it.
\<close>

section \<open>Configuration\<close>

record AppConfig =
  ac_Name :: string
  ac_Version :: string
  ac_Mode :: string
  ac_Port :: int
  ac_AESSecret :: string

record MySQLConfig =
  my_Host :: string
  my_Port :: int
  my_Username :: string
  my_Password :: string
  my_Database :: string
  my_MaxIdleConns :: int
  my_MaxOpenConns :: int

record RedisConfig =
  rc_Host :: string
  rc_Port :: int
  rc_Password :: string
  rc_DB :: int
  rc_PoolSize :: int

record JWTConfig =
  jc_Secret :: string
  jc_ExpireHours :: int

record EmailConfig =
  ec_Host :: string
  ec_Port :: int
  ec_Username :: string
  ec_Password :: string

record LogConfig =
  lc_Level :: string
  lc_Filename :: string
  lc_MaxSize :: int
  lc_MaxBackups :: int
  lc_MaxAge :: int
  lc_Compress :: bool

record ServerConfig =
  vc_Host :: string
  vc_RootUsername :: string
  vc_RootPassword :: string
  vc_PrivateKeyPath :: string
  vc_PrivateKeyPassphrase :: string
  vc_BasePath :: string
  vc_Timeout :: int
  vc_SessionTimeout :: int
  vc_Enabled :: bool

record AllConfig =
  gc_App :: AppConfig
  gc_MySQL :: MySQLConfig
  gc_Redis :: RedisConfig
  gc_JWT :: JWTConfig
  gc_Log :: LogConfig
  gc_CORS :: CORSConfig
  gc_Email :: EmailConfig
  gc_Server :: ServerConfig
  gc_AutoAllocate :: bool

type_synonym settings = "(string \<times> string) list"

datatype config_source = ConfigFile string | ConfigSearch string string "string list"

definition config_place :: "string \<Rightarrow> config_source" where
  "config_place configPath = (if configPath \<noteq> [] then ConfigFile configPath
     else ConfigSearch ''config'' ''yaml'' [''./configs'', ''.''])"

datatype log_level = DebugLevel | InfoLevel | WarnLevel | ErrorLevel

text \<open>The pool that gorm keeps for MySQL, and whether it is open.\<close>

record sql_pool =
  sq_dsn :: string
  sq_verbose :: bool
  sq_idle :: int
  sq_open :: int
  sq_alive :: bool

record redis_client =
  rx_addr :: string
  rx_db :: int
  rx_alive :: bool

record globals =
  gl_config :: "AllConfig option"
  gl_logger :: "log_level option"
  gl_mysql :: "sql_pool option"
  gl_redis :: "redis_client option"
  gl_stdout :: "settings list"
  gl_lines :: "(log_level \<times> string) list"

definition no_globals :: globals where
  "no_globals = \<lparr> gl_config = None, gl_logger = None, gl_mysql = None, gl_redis = None, gl_stdout = [], gl_lines = [] \<rparr>"

record viper_env =
  ve_read :: "config_source \<Rightarrow> settings option"
  ve_unmarshal :: "settings \<Rightarrow> AllConfig option"
  ve_getenv :: "string \<Rightarrow> string"

text \<open>The four secrets that the environment overrides when they are set and not empty.\<close>

definition override :: "(string \<Rightarrow> string) \<Rightarrow> AllConfig \<Rightarrow> AllConfig" where
  "override getenv c =
     (let pick = (\<lambda>name old. if getenv name \<noteq> [] then getenv name else old)
      in c\<lparr> gc_MySQL := (gc_MySQL c)\<lparr> my_Password := pick ''MYSQL_PASSWORD'' (my_Password (gc_MySQL c)) \<rparr>,
            gc_Redis := (gc_Redis c)\<lparr> rc_Password := pick ''REDIS_PASSWORD'' (rc_Password (gc_Redis c)) \<rparr>,
            gc_JWT := (gc_JWT c)\<lparr> jc_Secret := pick ''JWT_SECRET'' (jc_Secret (gc_JWT c)) \<rparr>,
            gc_App := (gc_App c)\<lparr> ac_AESSecret := pick ''AES_SECRET'' (ac_AESSecret (gc_App c)) \<rparr> \<rparr>)"

definition Load :: "viper_env \<Rightarrow> string \<Rightarrow> globals \<Rightarrow> globals \<times> AllConfig result" where
  "Load v configPath g = (case ve_read v (config_place configPath) of
     None \<Rightarrow> (g, Err (Errorf ''read config''))
   | Some settings \<Rightarrow>
      (let g1 = g\<lparr> gl_stdout := gl_stdout g @ [settings] \<rparr> in
       case ve_unmarshal v settings of
         None \<Rightarrow> (g1, Err (Errorf ''parse config''))
       | Some c \<Rightarrow> (g1\<lparr> gl_config := Some (override (ve_getenv v) c) \<rparr>, Ok (override (ve_getenv v) c))))"

definition Get :: "globals \<Rightarrow> AllConfig result" where
  "Get g = (case gl_config g of None \<Rightarrow> Err (Panic ''config'') | Some c \<Rightarrow> Ok c)"

definition MustLoad :: "viper_env \<Rightarrow> string \<Rightarrow> globals \<Rightarrow> globals \<times> AllConfig result" where
  "MustLoad v configPath g = (case Load v configPath g of (g1, Inl _) \<Rightarrow> (g1, Err (Panic ''load'')) | (g1, Inr c) \<Rightarrow> (g1, Ok c))"

section \<open>Logger\<close>

definition level_of :: "string \<Rightarrow> log_level" where
  "level_of s = (if s = ''debug'' then DebugLevel else if s = ''info'' then InfoLevel
     else if s = ''warn'' then WarnLevel else if s = ''error'' then ErrorLevel else InfoLevel)"

fun severity :: "log_level \<Rightarrow> nat" where
  "severity DebugLevel = 0"
| "severity InfoLevel = 1"
| "severity WarnLevel = 2"
| "severity ErrorLevel = 3"

definition Init_logger :: "LogConfig \<Rightarrow> globals \<Rightarrow> globals \<times> unit result" where
  "Init_logger cfg g = (g\<lparr> gl_logger := Some (level_of (lc_Level cfg)) \<rparr>, Ok ())"

definition InitFromConfig :: "globals \<Rightarrow> globals \<times> unit result" where
  "InitFromConfig g = (case Get g of Inl x \<Rightarrow> (g, Err x) | Inr c \<Rightarrow> Init_logger (gc_Log c) g)"

definition default_log :: LogConfig where
  "default_log = \<lparr> lc_Level = ''debug'', lc_Filename = ''operationLogs/app.log'', lc_MaxSize = 100, lc_MaxBackups = 3, lc_MaxAge = 28, lc_Compress = True \<rparr>"

definition InitDefault :: "globals \<Rightarrow> globals \<times> unit result" where
  "InitDefault g = Init_logger default_log g"

text \<open>Debug, Info, Warn and Error, and their formatting variants: a nil logger panics.\<close>

definition log_line :: "log_level \<Rightarrow> string \<Rightarrow> globals \<Rightarrow> globals result" where
  "log_line l msg g = (case gl_logger g of
     None \<Rightarrow> Err (Panic ''nil logger'')
   | Some least \<Rightarrow> Ok (if severity least \<le> severity l then g\<lparr> gl_lines := gl_lines g @ [(l, msg)] \<rparr> else g))"

section \<open>Connections\<close>

definition mysql_dsn :: "MySQLConfig \<Rightarrow> string" where
  "mysql_dsn c = my_Username c @ '':'' @ my_Password c @ ''@tcp('' @ my_Host c @ '':'' @ Itoa (my_Port c) @ '')/'' @
     my_Database c @ ''?charset=utf8mb4&parseTime=True&loc=Local''"

record mysql_env =
  me_open :: bool
  me_db :: bool
  me_ping :: bool
  me_close :: bool

definition InitMySQL :: "mysql_env \<Rightarrow> MySQLConfig \<Rightarrow> globals \<Rightarrow> globals \<times> unit result" where
  "InitMySQL e cfg g = (case Get g of
     Inl x \<Rightarrow> (g, Err x)
   | Inr c \<Rightarrow>
      (if me_open e then (g, Err (Errorf ''mysql connect''))
       else if me_db e then (g, Err (Errorf ''mysql db''))
       else if me_ping e then (g, Err (Errorf ''mysql ping''))
       else (g\<lparr> gl_mysql := Some \<lparr> sq_dsn = mysql_dsn cfg, sq_verbose = (ac_Mode (gc_App c) = ''debug''), sq_idle = my_MaxIdleConns cfg,
               sq_open = my_MaxOpenConns cfg, sq_alive = True \<rparr> \<rparr>, Ok ())))"

definition GetMySQL :: "globals \<Rightarrow> sql_pool result" where
  "GetMySQL g = (case gl_mysql g of None \<Rightarrow> Err (Panic ''mysql'') | Some p \<Rightarrow> Ok p)"

definition CloseMySQL :: "mysql_env \<Rightarrow> globals \<Rightarrow> globals \<times> unit result" where
  "CloseMySQL e g = (case gl_mysql g of
     None \<Rightarrow> (g, Ok ())
   | Some p \<Rightarrow> (if me_db e \<or> me_close e then (g, Err DbError) else (g\<lparr> gl_mysql := Some (p\<lparr> sq_alive := False \<rparr>) \<rparr>, Ok ())))"

definition InitRedis :: "bool \<Rightarrow> RedisConfig \<Rightarrow> globals \<Rightarrow> globals \<times> unit result" where
  "InitRedis ping_err cfg g = (if ping_err then (g, Err (Errorf ''redis''))
     else (g\<lparr> gl_redis := Some \<lparr> rx_addr = rc_Host cfg @ '':'' @ Itoa (rc_Port cfg), rx_db = rc_DB cfg, rx_alive = True \<rparr> \<rparr>, Ok ()))"

text \<open>GetRedis answers nil, after a message, when there is no client.\<close>

definition GetRedis :: "globals \<Rightarrow> (globals \<times> redis_client option) result" where
  "GetRedis g = (case gl_redis g of
     None \<Rightarrow> map_sum id (\<lambda>g1. (g1, None)) (log_line InfoLevel ''no redis'' g)
   | Some c \<Rightarrow> Ok (g, Some c))"

definition CloseRedis :: "bool \<Rightarrow> globals \<Rightarrow> globals \<times> unit result" where
  "CloseRedis err g = (case gl_redis g of
     None \<Rightarrow> (g, Ok ())
   | Some c \<Rightarrow> (if err then (g, Err RedisError) else (g\<lparr> gl_redis := Some (c\<lparr> rx_alive := False \<rparr>) \<rparr>, Ok ())))"

section \<open>The first steps of Initialize\<close>

definition initConfig :: "viper_env \<Rightarrow> globals \<Rightarrow> globals \<times> AllConfig result" where
  "initConfig v g = (case Load v [] g of (g1, Inl _) \<Rightarrow> (g1, Err (Errorf ''config'')) | (g1, Inr c) \<Rightarrow> (g1, Ok c))"

definition initLogger :: "AllConfig \<Rightarrow> globals \<Rightarrow> globals \<times> unit result" where
  "initLogger c g = (case Init_logger (gc_Log c) g of (g1, Inl _) \<Rightarrow> (g1, Err (Errorf ''logger'')) | (g1, Inr _) \<Rightarrow> (g1, Ok ()))"

text \<open>The migration and the initialisation of the cards only log their errors and touch no package variable.\<close>

definition initDatabase :: "mysql_env \<Rightarrow> bool \<Rightarrow> AllConfig \<Rightarrow> globals \<Rightarrow> globals \<times> unit result" where
  "initDatabase e redis_err c g = (case InitMySQL e (gc_MySQL c) g of
     (g1, Inl (Panic m)) \<Rightarrow> (g1, Err (Panic m))
   | (g1, Inl _) \<Rightarrow> (g1, Err (Errorf ''mysql''))
   | (g1, Inr _) \<Rightarrow> (case InitRedis redis_err (gc_Redis c) g1 of
       (g2, Inl _) \<Rightarrow> (g2, Err (Panic ''redis''))
     | (g2, Inr _) \<Rightarrow> (g2, Ok ())))"

definition init_steps :: "viper_env \<Rightarrow> mysql_env \<Rightarrow> bool \<Rightarrow> globals \<Rightarrow> globals \<times> AllConfig result" where
  "init_steps v e redis_err g = (case initConfig v g of
     (g1, Inl x) \<Rightarrow> (g1, Err x)
   | (g1, Inr c) \<Rightarrow> (case initLogger c g1 of
       (g2, Inl x) \<Rightarrow> (g2, Err x)
     | (g2, Inr _) \<Rightarrow> (case initDatabase e redis_err c g2 of
         (g3, Inl x) \<Rightarrow> (g3, Err x)
       | (g3, Inr _) \<Rightarrow> (g3, Ok c))))"

section \<open>Throttled messages\<close>

record ErrorThrottle =
  et_lastLogTime :: int
  et_interval :: int

definition NewErrorThrottle :: "int \<Rightarrow> ErrorThrottle" where
  "NewErrorThrottle interval = \<lparr> et_lastLogTime = zero_time, et_interval = interval \<rparr>"

text \<open>Whether the message is logged.\<close>

definition Log :: "int \<Rightarrow> ErrorThrottle \<Rightarrow> ErrorThrottle \<times> bool" where
  "Log now t = (if time_sub now (et_lastLogTime t) \<ge> et_interval t then (t\<lparr> et_lastLogTime := now \<rparr>, True) else (t, False))"

text \<open>The times at which a sequence of calls logs.\<close>

fun log_times :: "int list \<Rightarrow> ErrorThrottle \<Rightarrow> int list" where
  "log_times [] t = []"
| "log_times (n # ns) t = (case Log n t of (t1, b) \<Rightarrow> (if b then [n] else []) @ log_times ns t1)"

section \<open>Texts of errors\<close>

definition codeMessages :: "(int \<times> string) list" where
  "codeMessages = [
      (0, [CHR 0xE6, CHR 0x88, CHR 0x90, CHR 0xE5, CHR 0x8A, CHR 0x9F]),
      (400, [CHR 0xE8, CHR 0xAF, CHR 0xB7, CHR 0xE6, CHR 0xB1, CHR 0x82, CHR 0xE5, CHR 0x8F, CHR 0x82, CHR 0xE6, CHR 0x95, CHR 0xB0, CHR 0xE9, CHR 0x94, CHR 0x99, CHR 0xE8, CHR 0xAF, CHR 0xAF]),
      (401, [CHR 0xE6, CHR 0x9C, CHR 0xAA, CHR 0xE6, CHR 0x8E, CHR 0x88, CHR 0xE6, CHR 0x9D, CHR 0x83]),
      (403, [CHR 0xE7, CHR 0xA6, CHR 0x81, CHR 0xE6, CHR 0xAD, CHR 0xA2, CHR 0xE8, CHR 0xAE, CHR 0xBF, CHR 0xE9, CHR 0x97, CHR 0xAE]),
      (404, [CHR 0xE8, CHR 0xB5, CHR 0x84, CHR 0xE6, CHR 0xBA, CHR 0x90, CHR 0xE4, CHR 0xB8, CHR 0x8D, CHR 0xE5, CHR 0xAD, CHR 0x98, CHR 0xE5, CHR 0x9C, CHR 0xA8]),
      (405, [CHR 0xE6, CHR 0x96, CHR 0xB9, CHR 0xE6, CHR 0xB3, CHR 0x95, CHR 0xE4, CHR 0xB8, CHR 0x8D, CHR 0xE5, CHR 0x85, CHR 0x81, CHR 0xE8, CHR 0xAE, CHR 0xB8]),
      (408, [CHR 0xE8, CHR 0xAF, CHR 0xB7, CHR 0xE6, CHR 0xB1, CHR 0x82, CHR 0xE8, CHR 0xB6, CHR 0x85, CHR 0xE6, CHR 0x97, CHR 0xB6]),
      (409, [CHR 0xE8, CHR 0xB5, CHR 0x84, CHR 0xE6, CHR 0xBA, CHR 0x90, CHR 0xE5, CHR 0x86, CHR 0xB2, CHR 0xE7, CHR 0xAA, CHR 0x81]),
      (500, [CHR 0xE6, CHR 0x9C, CHR 0x8D, CHR 0xE5, CHR 0x8A, CHR 0xA1, CHR 0xE5, CHR 0x99, CHR 0xA8, CHR 0xE5, CHR 0x86, CHR 0x85, CHR 0xE9, CHR 0x83, CHR 0xA8, CHR 0xE9, CHR 0x94, CHR 0x99, CHR 0xE8, CHR 0xAF, CHR 0xAF]),
      (501, [CHR 0xE5, CHR 0x8A, CHR 0x9F, CHR 0xE8, CHR 0x83, CHR 0xBD, CHR 0xE6, CHR 0x9C, CHR 0xAA, CHR 0xE5, CHR 0xAE, CHR 0x9E, CHR 0xE7, CHR 0x8E, CHR 0xB0]),
      (503, [CHR 0xE6, CHR 0x9C, CHR 0x8D, CHR 0xE5, CHR 0x8A, CHR 0xA1, CHR 0xE4, CHR 0xB8, CHR 0x8D, CHR 0xE5, CHR 0x8F, CHR 0xAF, CHR 0xE7, CHR 0x94, CHR 0xA8]),
      (1001, [CHR 0xE7, CHR 0x94, CHR 0xA8, CHR 0xE6, CHR 0x88, CHR 0xB7, CHR 0xE4, CHR 0xB8, CHR 0x8D, CHR 0xE5, CHR 0xAD, CHR 0x98, CHR 0xE5, CHR 0x9C, CHR 0xA8]),
      (1002, [CHR 0xE7, CHR 0x94, CHR 0xA8, CHR 0xE6, CHR 0x88, CHR 0xB7, CHR 0xE5, CHR 0xB7, CHR 0xB2, CHR 0xE5, CHR 0xAD, CHR 0x98, CHR 0xE5, CHR 0x9C, CHR 0xA8]),
      (1003, [CHR 0xE7, CHR 0x94, CHR 0xA8, CHR 0xE6, CHR 0x88, CHR 0xB7, CHR 0xE5, CHR 0x90, CHR 0x8D, CHR 0xE6, CHR 0x88, CHR 0x96, CHR 0xE5, CHR 0xAF, CHR 0x86, CHR 0xE7, CHR 0xA0, CHR 0x81, CHR 0xE9, CHR 0x94, CHR 0x99, CHR 0xE8, CHR 0xAF, CHR 0xAF]),
      (1004, [CHR 0xE7, CHR 0x94, CHR 0xA8, CHR 0xE6, CHR 0x88, CHR 0xB7, CHR 0xE5, CHR 0xB7, CHR 0xB2, CHR 0xE8, CHR 0xA2, CHR 0xAB, CHR 0xE7, CHR 0xA6, CHR 0x81, CHR 0xE7, CHR 0x94, CHR 0xA8]),
      (1005, [CHR 0xE6, CHR 0x97, CHR 0xA0, CHR 0xE6, CHR 0x95, CHR 0x88, CHR 0xE7, CHR 0x9A, CHR 0x84, CHR 0xE4, CHR 0xBB, CHR 0xA4, CHR 0xE7, CHR 0x89, CHR 0x8C]),
      (1006, [CHR 0xE4, CHR 0xBB, CHR 0xA4, CHR 0xE7, CHR 0x89, CHR 0x8C, CHR 0xE5, CHR 0xB7, CHR 0xB2, CHR 0xE8, CHR 0xBF, CHR 0x87, CHR 0xE6, CHR 0x9C, CHR 0x9F]),
      (1007, [CHR 0xE9, CHR 0xAA, CHR 0x8C, CHR 0xE8, CHR 0xAF, CHR 0x81, CHR 0xE7, CHR 0xA0, CHR 0x81, CHR 0xE6, CHR 0x97, CHR 0xA0, CHR 0xE6, CHR 0x95, CHR 0x88]),
      (1008, [CHR ''S'', CHR ''S'', CHR ''H'', CHR 0xE5, CHR 0x87, CHR 0xAD, CHR 0xE8, CHR 0xAF, CHR 0x81, CHR 0xE6, CHR 0x9C, CHR 0xAA, CHR 0xE6, CHR 0x89, CHR 0xBE, CHR 0xE5, CHR 0x88, CHR 0xB0, CHR 0xE6, CHR 0x88, CHR 0x96, CHR 0xE5, CHR 0xB7, CHR 0xB2, CHR 0xE8, CHR 0xBF, CHR 0x87, CHR 0xE6, CHR 0x9C, CHR 0x9F]),
      (1009, [CHR ''S'', CHR ''S'', CHR ''H'', CHR 0xE7, CHR 0x99, CHR 0xBB, CHR 0xE5, CHR 0xBD, CHR 0x95, CHR 0xE5, CHR 0xA4, CHR 0xB1, CHR 0xE8, CHR 0xB4, CHR 0xA5, CHR 0xEF, CHR 0xBC, CHR 0x88, CHR 0xE5, CHR 0xAF, CHR 0x86, CHR 0xE7, CHR 0xA0, CHR 0x81, CHR 0xE9, CHR 0x94, CHR 0x99, CHR 0xE8, CHR 0xAF, CHR 0xAF, CHR 0xE6, CHR 0x88, CHR 0x96, CHR 0xE6, CHR 0x9C, CHR 0x8D, CHR 0xE5, CHR 0x8A, CHR 0xA1, CHR 0xE4, CHR 0xB8, CHR 0x8D, CHR 0xE5, CHR 0x8F, CHR 0xAF, CHR 0xE7, CHR 0x94, CHR 0xA8, CHR 0xEF, CHR 0xBC, CHR 0x89]),
      (1010, [CHR ''S'', CHR ''S'', CHR ''H'', CHR 0xE8, CHR 0xBF, CHR 0x9E, CHR 0xE6, CHR 0x8E, CHR 0xA5, CHR 0xE5, CHR 0xA4, CHR 0xB1, CHR 0xE8, CHR 0xB4, CHR 0xA5]),
      (2001, [CHR 0xE5, CHR 0x8F, CHR 0x82, CHR 0xE6, CHR 0x95, CHR 0xB0, CHR 0xE9, CHR 0x94, CHR 0x99, CHR 0xE8, CHR 0xAF, CHR 0xAF]),
      (2002, [CHR 0xE7, CHR 0xBC, CHR 0xBA, CHR 0xE5, CHR 0xB0, CHR 0x91, CHR 0xE5, CHR 0xBF, CHR 0x85, CHR 0xE8, CHR 0xA6, CHR 0x81, CHR 0xE5, CHR 0x8F, CHR 0x82, CHR 0xE6, CHR 0x95, CHR 0xB0]),
      (2003, [CHR 0xE5, CHR 0x8F, CHR 0x82, CHR 0xE6, CHR 0x95, CHR 0xB0, CHR 0xE6, CHR 0xA0, CHR 0xBC, CHR 0xE5, CHR 0xBC, CHR 0x8F, CHR 0xE9, CHR 0x94, CHR 0x99, CHR 0xE8, CHR 0xAF, CHR 0xAF]),
      (2004, [CHR 0xE6, CHR 0x96, CHR 0x87, CHR 0xE4, CHR 0xBB, CHR 0xB6, CHR 0xE4, CHR 0xB8, CHR 0x8D, CHR 0xE5, CHR 0xAD, CHR 0x98, CHR 0xE5, CHR 0x9C, CHR 0xA8]),
      (2005, [CHR 0xE6, CHR 0x96, CHR 0x87, CHR 0xE4, CHR 0xBB, CHR 0xB6, CHR 0xE6, CHR 0x88, CHR 0x96, CHR 0xE7, CHR 0x9B, CHR 0xAE, CHR 0xE5, CHR 0xBD, CHR 0x95, CHR 0xE5, CHR 0xB7, CHR 0xB2, CHR 0xE5, CHR 0xAD, CHR 0x98, CHR 0xE5, CHR 0x9C, CHR 0xA8]),
      (3001, [CHR 0xE8, CHR 0xB5, CHR 0x84, CHR 0xE6, CHR 0xBA, CHR 0x90, CHR 0xE4, CHR 0xB8, CHR 0x8D, CHR 0xE5, CHR 0xAD, CHR 0x98, CHR 0xE5, CHR 0x9C, CHR 0xA8]),
      (3002, [CHR 0xE8, CHR 0xB5, CHR 0x84, CHR 0xE6, CHR 0xBA, CHR 0x90, CHR 0xE5, CHR 0xB7, CHR 0xB2, CHR 0xE5, CHR 0xAD, CHR 0x98, CHR 0xE5, CHR 0x9C, CHR 0xA8]),
      (3003, [CHR 0xE8, CHR 0xB5, CHR 0x84, CHR 0xE6, CHR 0xBA, CHR 0x90, CHR 0xE5, CHR 0xB7, CHR 0xB2, CHR 0xE8, CHR 0xA2, CHR 0xAB, CHR 0xE9, CHR 0x94, CHR 0x81, CHR 0xE5, CHR 0xAE, CHR 0x9A]),
      (4001, [CHR 0xE4, CHR 0xBB, CHR 0xBB, CHR 0xE5, CHR 0x8A, CHR 0xA1, CHR 0xE4, CHR 0xB8, CHR 0x8D, CHR 0xE5, CHR 0xAD, CHR 0x98, CHR 0xE5, CHR 0x9C, CHR 0xA8]),
      (4002, [CHR 0xE4, CHR 0xBB, CHR 0xBB, CHR 0xE5, CHR 0x8A, CHR 0xA1, CHR 0xE6, CHR 0xAD, CHR 0xA3, CHR 0xE5, CHR 0x9C, CHR 0xA8, CHR 0xE8, CHR 0xBF, CHR 0x90, CHR 0xE8, CHR 0xA1, CHR 0x8C]),
      (4003, [CHR 0xE6, CHR 0x97, CHR 0xA0, CHR 0xE6, CHR 0xB3, CHR 0x95, CHR 0xE5, CHR 0x8F, CHR 0x96, CHR 0xE6, CHR 0xB6, CHR 0x88, CHR 0xE6, CHR 0xAD, CHR 0xA4, CHR 0xE4, CHR 0xBB, CHR 0xBB, CHR 0xE5, CHR 0x8A, CHR 0xA1]),
      (4004, [CHR 0xE6, CHR 0x98, CHR 0xBE, CHR 0xE5, CHR 0x8D, CHR 0xA1, CHR 0xE6, CHR 0x95, CHR 0xB0, CHR 0xE9, CHR 0x87, CHR 0x8F, CHR 0xE4, CHR 0xB8, CHR 0x8D, CHR 0xE8, CHR 0xB6, CHR 0xB3]),
      (4005, [CHR 0xE6, CHR 0x8F, CHR 0x90, CHR 0xE4, CHR 0xBA, CHR 0xA4, CHR 0xE4, CHR 0xBB, CHR 0xBB, CHR 0xE5, CHR 0x8A, CHR 0xA1, CHR 0xE5, CHR 0xA4, CHR 0xB1, CHR 0xE8, CHR 0xB4, CHR 0xA5]),
      (4006, [CHR 0xE4, CHR 0xBB, CHR 0xBB, CHR 0xE5, CHR 0x8A, CHR 0xA1, CHR 0xE6, CHR 0x89, CHR 0xA7, CHR 0xE8, CHR 0xA1, CHR 0x8C, CHR 0xE5, CHR 0xA4, CHR 0xB1, CHR 0xE8, CHR 0xB4, CHR 0xA5]),
      (4007, [CHR ''S'', CHR ''S'', CHR ''H'', CHR 0xE5, CHR 0x91, CHR 0xBD, CHR 0xE4, CHR 0xBB, CHR 0xA4, CHR 0xE6, CHR 0x89, CHR 0xA7, CHR 0xE8, CHR 0xA1, CHR 0x8C, CHR 0xE5, CHR 0xA4, CHR 0xB1, CHR 0xE8, CHR 0xB4, CHR 0xA5])]"

definition unknown_error :: string where
  "unknown_error = [CHR 0xE6, CHR 0x9C, CHR 0xAA, CHR 0xE7, CHR 0x9F, CHR 0xA5, CHR 0xE9, CHR 0x94, CHR 0x99, CHR 0xE8, CHR 0xAF, CHR 0xAF]"

definition GetMessage :: "int \<Rightarrow> string" where
  "GetMessage code = (case map_of codeMessages code of None \<Rightarrow> unknown_error | Some msg \<Rightarrow> msg)"

record BizErrorValue =
  bz_Code :: int
  bz_Message :: string
  bz_Err :: "string option"

definition New :: "int \<Rightarrow> string \<Rightarrow> BizErrorValue" where
  "New code message = \<lparr> bz_Code = code, bz_Message = message, bz_Err = None \<rparr>"

definition NewWithErr :: "int \<Rightarrow> string \<Rightarrow> string option \<Rightarrow> BizErrorValue" where
  "NewWithErr code message err = \<lparr> bz_Code = code, bz_Message = message, bz_Err = err \<rparr>"

definition NewDefault :: "int \<Rightarrow> BizErrorValue" where
  "NewDefault code = \<lparr> bz_Code = code, bz_Message = GetMessage code, bz_Err = None \<rparr>"

definition Error_text :: "BizErrorValue \<Rightarrow> string" where
  "Error_text e = ''['' @ Itoa (bz_Code e) @ ''] '' @ bz_Message e @ (case bz_Err e of None \<Rightarrow> [] | Some x \<Rightarrow> '': '' @ x)"

section \<open>Request log and panics\<close>

record http_log =
  hl_method :: string
  hl_path :: string
  hl_query :: string
  hl_status :: int
  hl_ip :: string
  hl_agent :: string
  hl_latency :: int
  hl_errors :: "string option"

record raw_request =
  rw_method :: string
  rw_path :: string
  rw_query :: string
  rw_ip :: string
  rw_agent :: string

text \<open>What the middleware Logger writes, from the request, the two times, the status and the text of the
  errors of the handler, if there are any.\<close>

definition Logger :: "raw_request \<Rightarrow> int \<Rightarrow> int \<Rightarrow> int \<Rightarrow> string option \<Rightarrow> http_log" where
  "Logger rq start stop status errs = \<lparr> hl_method = rw_method rq, hl_path = rw_path rq, hl_query = rw_query rq, hl_status = status,
     hl_ip = rw_ip rq, hl_agent = rw_agent rq, hl_latency = time_sub stop start,
     hl_errors = errs \<rparr>"

text \<open>Recovery: a panic of the handlers behind it becomes the answer 500, everything else passes.\<close>

definition internal_error_text :: string where
  "internal_error_text = [CHR 0xE6, CHR 0x9C, CHR 0x8D, CHR 0xE5, CHR 0x8A, CHR 0xA1, CHR 0xE5, CHR 0x99, CHR 0xA8, CHR 0xE5, CHR 0x86, CHR 0x85, CHR 0xE9, CHR 0x83, CHR 0xA8, CHR 0xE9, CHR 0x94, CHR 0x99, CHR 0xE8, CHR 0xAF, CHR 0xAF]"

definition Recovery :: "'s \<times> Response result \<Rightarrow> 's \<times> Response" where
  "Recovery r = (case r of
     (s, Inr a) \<Rightarrow> (s, a)
   | (s, Inl _) \<Rightarrow> (s, reply_Error CodeInternalError internal_error_text))"

section \<open>After the first steps\<close>

text \<open>
  When the first steps of Initialize succeed, what the rest of the program asks for is there: the
  configuration is the one of the file with the secrets of the environment, the accessors of the
  configuration, of MySQL and of Redis do not panic and give open connections, and every message
  can be logged.
\<close>

theorem initialised:
  assumes "init_steps v e redis_err g = (g', Ok c)"
  shows "\<exists>s c0. ve_read v (config_place []) = Some s \<and> ve_unmarshal v s = Some c0 \<and> c = override (ve_getenv v) c0 \<and> Get g' = Ok c \<and>
    (\<exists>p. GetMySQL g' = Ok p \<and> sq_alive p \<and> sq_dsn p = mysql_dsn (gc_MySQL c)) \<and>
    (\<exists>x. GetRedis g' = Ok (g', Some x) \<and> rx_alive x) \<and> (\<forall>l m. is_ok (log_line l m g'))"
  using assms
  by (auto simp: init_steps_def initConfig_def Load_def Get_def initLogger_def Init_logger_def initDatabase_def InitMySQL_def
      InitRedis_def GetMySQL_def GetRedis_def log_line_def Let_def split: option.splits if_splits)

text \<open>The flags of Initialize in the theory App are the failures of these steps, with the same answers.\<close>

theorem initialize_refined:
  assumes "ie = \<lparr> in_config = isl (snd (initConfig v g)), in_logger = False, in_mysql = me_open e \<or> me_db e \<or> me_ping e,
    in_redis = redis_err, in_sync = sync \<rparr>"
  shows "map_sum id (\<lambda>_. ()) (snd (init_steps v e redis_err g)) = map_sum id (\<lambda>_. ()) (Initialize ie server now stored rows)"
  by (auto simp: assms init_steps_def initConfig_def Load_def Get_def initLogger_def Init_logger_def initDatabase_def InitMySQL_def
      InitRedis_def Initialize_def Let_def split: option.splits)

text \<open>Nothing but the four secrets depends on these variables of the environment.\<close>

lemma override_scope:
  "override getenv c = c\<lparr> gc_MySQL := (gc_MySQL c)\<lparr> my_Password := my_Password (gc_MySQL (override getenv c)) \<rparr>,
     gc_Redis := (gc_Redis c)\<lparr> rc_Password := rc_Password (gc_Redis (override getenv c)) \<rparr>,
     gc_JWT := (gc_JWT c)\<lparr> jc_Secret := jc_Secret (gc_JWT (override getenv c)) \<rparr>,
     gc_App := (gc_App c)\<lparr> ac_AESSecret := ac_AESSecret (gc_App (override getenv c)) \<rparr> \<rparr>"
  "(\<And>x. getenv x = []) \<Longrightarrow> override getenv c = c"
  by (simp_all add: override_def Let_def)

text \<open>All settings of the file, its passwords among them, are printed to standard output when it is read.\<close>

theorem settings_are_printed:
  assumes "Load v path g = (g', r)" "ve_read v (config_place path) = Some s"
  shows "s \<in> set (gl_stdout g')"
  using assms by (auto simp: Load_def Let_def split: option.splits)

section \<open>Messages\<close>

lemma log_times_spaced:
  "successively (\<lambda>a b. et_interval t \<le> time_sub b a) (et_lastLogTime t # log_times ns t)"
proof (induction ns arbitrary: t)
  case (Cons n ns)
  show ?case
  proof (cases "et_interval t \<le> time_sub n (et_lastLogTime t)")
    case True
    then show ?thesis using Cons [of "t\<lparr> et_lastLogTime := n \<rparr>"] by (simp add: Log_def)
  next
    case False
    then show ?thesis using Cons [of t] by (simp add: Log_def)
  qed
qed simp

lemma log_times_complete:
  "n \<in> set ns \<Longrightarrow> n \<in> set (log_times ns t) \<or> (\<exists>m \<in> insert (et_lastLogTime t) (set (log_times ns t)). time_sub n m < et_interval t)"
proof (induction ns arbitrary: t)
  case (Cons k ns)
  show ?case
  proof (cases "et_interval t \<le> time_sub k (et_lastLogTime t)")
    case True
    then show ?thesis using Cons.IH [of "t\<lparr> et_lastLogTime := k \<rparr>"] Cons.prems by (auto simp: Log_def)
  next
    case False
    then show ?thesis using Cons.IH [of t] Cons.prems by (auto simp: Log_def)
  qed
qed simp

text \<open>
  The throttle: two messages that are logged one after the other are at least the interval apart,
  and a message is only held back when one was logged less than the interval before; the first one
  is always logged.
\<close>

theorem throttle_exact:
  assumes "i \<le> int_max" "\<forall>n \<in> set ns. zero_time + i \<le> n"
  shows "successively (\<lambda>a b. i \<le> time_sub b a) (log_times ns (NewErrorThrottle i)) \<and>
    (\<forall>n \<in> set ns. n \<in> set (log_times ns (NewErrorThrottle i)) \<or>
      (\<exists>m \<in> set (log_times ns (NewErrorThrottle i)). time_sub n m < i))"
proof -
  let ?t = "NewErrorThrottle i"
  have t: "et_interval ?t = i" "et_lastLogTime ?t = zero_time" by (simp_all add: NewErrorThrottle_def)
  have "\<not> time_sub n zero_time < i" if "n \<in> set ns" for n using assms that by (force simp: time_sub_def)
  then show ?thesis using log_times_spaced [of ?t ns] log_times_complete [of _ ns ?t] unfolding t
    by (fastforce simp: successively_Cons)
qed

text \<open>Every code of the table has a text of its own kind, and the text of an error tells its code.\<close>

theorem error_texts:
  shows "(GetMessage code = unknown_error \<longleftrightarrow> code \<notin> fst ` set codeMessages) \<and>
    (Error_text x = Error_text y \<longrightarrow> bz_Code x = bz_Code y)"
proof
  have "\<forall>p \<in> set codeMessages. snd p \<noteq> unknown_error" by code_simp
  then have "msg \<noteq> unknown_error" if "map_of codeMessages code = Some msg" for msg using map_of_SomeD [OF that] by fastforce
  then show "GetMessage code = unknown_error \<longleftrightarrow> code \<notin> fst ` set codeMessages"
    unfolding GetMessage_def map_of_eq_None_iff [symmetric] by (auto split: option.split)
  have free: "CHR '']'' \<notin> set (Itoa i)" for i using set_Itoa [of "CHR '']''" i] by (auto simp: is_digit_def)
  show "Error_text x = Error_text y \<longrightarrow> bz_Code x = bz_Code y"
  proof
    assume "Error_text x = Error_text y"
    then have "Itoa (bz_Code x) @ CHR '']'' # tl (''] '' @ bz_Message x @ (case bz_Err x of None \<Rightarrow> [] | Some m \<Rightarrow> '': '' @ m)) =
        Itoa (bz_Code y) @ CHR '']'' # tl (''] '' @ bz_Message y @ (case bz_Err y of None \<Rightarrow> [] | Some m \<Rightarrow> '': '' @ m))"
      by (simp add: Error_text_def)
    then show "bz_Code x = bz_Code y" using Split_append_sep [OF free] by (metis Itoa_inject list.inject)
  qed
qed

end
