(* ===== verification/Spec2Isabelle.thy ===== *)
theory Spec2Isabelle
  imports SchedulerRuns FileHandlers JobHandlers QueueLock Pumps Workers SshClient Startup
begin

text \<open>
  CloudQue: a verification development of the GPU job scheduling service.

  \<^bold>\<open>The program.\<close> CloudQue is a web service in Go through which the users of one GPU server submit
  training jobs, open terminals and manage files. A request passes the token check and the
  permission check (internal/middleware/auth.go), is decoded by a controller (internal/api/v1),
  and handled by a service (internal/service) on top of repositories (internal/repository) over
  MySQL and Redis. Services reach the server by SSH (pkg/server, pkg/ssh) and push to browsers over
  WebSockets (pkg/websocket). In the background the scheduler takes jobs from a waiting queue in
  Redis, reserves their cards, starts them by SSH and watches them until they end.

  \<^bold>\<open>Theories and sources.\<close>
  \<^item> Prelude: errors and their codes (pkg/errors), the modelled part of strconv and strings.
  \<^item> Float64: float64 arithmetic for the queue scores and percentages. GoTime: durations and numbers as
    texts. GoPath: the package path. Shell: quoting, and how a shell reads the quoted commands.
  \<^item> GpuPool: gpu_repository.go, gpu_service.go and gpu_utils.go, the card table with its Redis cache
    and the report of nvidia-smi. Its interface towards the scheduler is the locale card_pool.
  \<^item> JobStore: job_repository.go. JobQueue: queue_repository.go and queue_service.go on a sorted set
    (locale sorted_set). JobService: job_service.go with the handlers that change jobs. JobHandlers: the
    other handlers of api/v1/job and api/v1/queue with the dates of pkg/utils/time.go.
  \<^item> Scheduler: scheduler_service.go and process_repository.go. SchedulerSafety: the steps of
    scheduler and monitors as a relation, with its invariant. SchedulerRuns: single runs and traces.
    QueueLock: the lock of the queue in time, with its watchdog, over several instances.
  \<^item> Terminal: terminal_service.go. WsPool: pkg/websocket/pool.go. Pumps: its two goroutines per
    client. SshSessions: pkg/ssh and the connection part of pkg/server. Exec: exec_service.go and the
    commands of pkg/server. SshClient: terminal sessions and the rest of pkg/server.
  \<^item> FileService: paths, listing, deletion and unpacking of files_service.go. DiskUsage: its disk
    reports and disk_usage_scheduler.go. Uploads: uploads, downloads and the list of home directories.
    FileHandlers: api/v1/files.
  \<^item> SystemInfo: systemInfo_service.go, systemInfo_repository.go and home_service.go. Workers: the
    background loops of these services and of the scheduler (locale loop_group).
  \<^item> Directory: the four repositories of users, roles, permissions and menus on tables with unique
    indexes (locale id_table). RoleService: role_service.go, menu_service.go and api_service.go.
    MenuTree: the trees of menus (locale forest). Access: permission checks, tokens, middlewares.
  \<^item> Passwords: aes_cryptojs.go and validator.go. SessionStore: redis_repository.go and
    session_repository.go. RedisTypes: the types of the keys in the shared Redis.
  \<^item> Accounts: user_service.go, admin_service.go, the rest of auth_service.go, and the handlers of
    registration, login and passwords. AccountSafety: what these operations guarantee.
    MachineAccounts: all of them as a step relation, with its invariant.
  \<^item> OperationLog: middleware/operationLog.go with the two log tables, their services and handlers.
  \<^item> Handlers: the handlers of api/v1 for roles, menus, permissions, users, administration,
    authentication, system, home and terminal, as steps over the services. Routes: api/router.go and the
    routes of every controller with their chains of middleware, middleware/cors.go.
  \<^item> App: internal/app/app.go, the components together from their construction to the shutdown.
    Startup: the steps before it, pkg/config, pkg/database, pkg/logger, pkg/throttle, the texts of
    pkg/errors, middleware/logger.go and middleware/recovery.go.

  \<^bold>\<open>State and operations.\<close> A table of the database is the list of its rows, a Redis key a value with
  an expiry, a Go map an association list or a function, a mutex disappears in operations that are
  one step. Every call of a store, of the network or of another program that can fail has a flag or
  an answer in the environment record of the operation, so that every error path of the source is a
  branch. Integers of the database and of Go are int where the code cannot reach the limits, and
  wrapped to 64 bits where a product of request values can. Times are nanoseconds.

  \<^bold>\<open>What the lemmas show.\<close> Scheduling: cards are held exactly by running jobs over all interleavings
  of ticks and monitors, reservations are all or nothing and exclusive, the cache of the card
  states refines the table, the queue order refines a list of jobs, the head is started or blocks,
  one instance at a time serves the queue while its watchdog is punctual, lists of jobs by date are
  exact. Machine: processes are ended automatically exactly when the settings
  say so, retained ones never, and the search for the process of a job ends. Terminals and sessions:
  output is neither lost nor cut inside a character, input arrives in order, every SSH client is
  closed or owned by one session, counters of connections are exact, messages reach a browser in the
  order in which they were sent. Files: normal users stay inside
  their home directory up to the prefix test, through the handlers too, commands are read by the shell
  as meant, an upload ends as its progress says, disk usage is what was measured. Access: a handler is
  entered exactly through the guards of its route, permissions of roles refine a matrix, menu trees
  are complete and sorted. Accounts: every account has its user on the machine over all sequences of
  requests, passwords change only with the old one or a mailed code, registration leads to login,
  logout ends every access. Logs: entries are written in the order they were sent. Composition: requests
  change the state only by steps of the services, the keys of Redis keep their types, a shutdown
  leaves nothing open, stopped loops stay quiet, what the services ask for is there after the first
  steps. Theorems that are not properties of correctness show where the code does not do
  what it means to; each is described at its place.

  \<^bold>\<open>Bounds and fuel.\<close> The reading of linked menu nodes as trees uses as much fuel as there are nodes,
  and the correctness of the tree shows that this is enough. Retry loops have the bounds of the
  code. All other recursion is structural or has a termination proof.

  \<^bold>\<open>Not modelled.\<close> Decoding of requests and rendering of responses, which are arguments and results
  of the handlers; the choice of a route by gin, a parameter; the encoder and the files of the logger,
  mail transport and drawing of captchas, which only call libraries; viper, gorm, the Redis client, the
  SSH libraries and the sockets, whose answers are environments; the periods of tickers, except for the
  watchdog of the lock: a tick may come at any time; the bytes that SFTP moves. The interface files and
  the constructors that only store their arguments have no definition. Cryptography (bcrypt, AES, MD5, JWT signatures), the collation and LIKE of the database,
  the time zone and the encoding of JSON are parameters.
\<close>

end
